(* ===== verification/Trace_Prelude.thy ===== *)
theory Trace_Prelude
  imports Main
begin

text \<open>
  What every theory of the development shares.

  \<^item> Tables. A database table is the list of its rows in heap order. The services reach it
    through three SQL shapes: \<open>SELECT ... WHERE id = k\<close> (\<open>find_row\<close>),
    \<open>UPDATE ... WHERE id = k\<close> (\<open>update_rows\<close>) and \<open>INSERT\<close> (\<open>insert_row\<close>). The locale
    \<open>row_table\<close> is their interface: a table is a field of a larger state, and the laws say
    what a select returns after an update or an insert.
  \<^item> Groupings. A JavaScript \<open>Map\<close> filled by a loop is an association list in insertion
    order (\<open>map_push\<close>, \<open>group_rows\<close>).
  \<^item> Systems. The locale \<open>guarded_system\<close> lifts a property that each call keeps to whole runs,
    and \<open>ranked_lifecycle\<close> is the contract of a status machine: every step climbs a rank.

  The collections \<open>row_laws\<close> and \<open>handler_defs\<close> gather the facts the component proofs use.
\<close>

named_theorems row_laws "what a select or an aggregate returns after a write"
named_theorems handler_defs "definitions of request handlers and their building blocks"

subsection \<open>Optional values\<close>

text \<open>\<open>new ?? old\<close>.\<close>

definition or_keep :: "'a option \<Rightarrow> 'a \<Rightarrow> 'a" where
  "or_keep new old = (case new of None \<Rightarrow> old | Some x \<Rightarrow> x)"

lemma or_keep_simps [simp]: "or_keep None x = x" "or_keep (Some y) x = y"
  by (simp_all add: or_keep_def)

subsection \<open>Rows selected, updated and inserted by key\<close>

definition find_row :: "('r \<Rightarrow> 'k) \<Rightarrow> 'k \<Rightarrow> 'r list \<Rightarrow> 'r option" where
  "find_row key k rows = List.find (\<lambda>r. key r = k) rows"

definition update_rows :: "('r \<Rightarrow> 'k) \<Rightarrow> 'k \<Rightarrow> ('r \<Rightarrow> 'r) \<Rightarrow> 'r list \<Rightarrow> 'r list" where
  "update_rows key k f rows = map (\<lambda>r. if key r = k then f r else r) rows"

definition insert_row :: "'r \<Rightarrow> 'r list \<Rightarrow> 'r list" where
  "insert_row r rows = rows @ [r]"

lemma find_row_Nil [simp]: "find_row key k [] = None"
  by (simp add: find_row_def)

lemma find_row_Cons [simp]:
  "find_row key k (r # rows) = (if key r = k then Some r else find_row key k rows)"
  by (simp add: find_row_def)

lemma update_rows_Nil [simp]: "update_rows key k f [] = []"
  by (simp add: update_rows_def)

lemma update_rows_Cons [simp]:
  "update_rows key k f (r # rows) = (if key r = k then f r else r) # update_rows key k f rows"
  by (simp add: update_rows_def)

lemma find_row_SomeD: "find_row key k rows = Some r \<Longrightarrow> r \<in> set rows \<and> key r = k"
  by (induction rows) (auto split: if_splits)

lemma find_row_None_iff: "find_row key k rows = None \<longleftrightarrow> k \<notin> key ` set rows"
  by (induction rows) auto

lemma find_row_distinct:
  "distinct (map key rows) \<Longrightarrow> r \<in> set rows \<Longrightarrow> find_row key (key r) rows = Some r"
  by (induction rows) auto

lemma set_update_rows: "set (update_rows key k f rows) = (\<lambda>r. if key r = k then f r else r) ` set rows"
  by (simp add: update_rows_def)

lemma map_update_rows:
  "(\<And>r. g (f r) = g r) \<Longrightarrow> map g (update_rows key k f rows) = map g rows"
  by (induction rows) auto

lemmas map_key_update_rows = map_update_rows [where g = key and key = key for key]

lemma length_update_rows [simp]: "length (update_rows key k f rows) = length rows"
  by (simp add: update_rows_def)

lemma find_row_update_same:
  "(\<And>r. key (f r) = key r) \<Longrightarrow>
    find_row key k (update_rows key k f rows) = map_option f (find_row key k rows)"
  by (induction rows) auto

lemma find_row_update_other:
  "(\<And>r. key (f r) = key r) \<Longrightarrow> k' \<noteq> k \<Longrightarrow>
    find_row key k' (update_rows key k f rows) = find_row key k' rows"
  by (induction rows) auto

lemma find_row_insert:
  "find_row key k (insert_row r rows)
    = (case find_row key k rows of Some r' \<Rightarrow> Some r' | None \<Rightarrow> if key r = k then Some r else None)"
  by (induction rows) (auto simp: insert_row_def)

lemma find_row_append:
  "find_row key k (xs @ ys) = (case find_row key k xs of Some r \<Rightarrow> Some r | None \<Rightarrow> find_row key k ys)"
  by (induction xs) auto

lemma find_row_filter_same [simp]: "find_row key k (filter (\<lambda>r. key r \<noteq> k) rows) = None"
  by (induction rows) auto

lemma find_row_filter_other:
  "k' \<noteq> k \<Longrightarrow> find_row key k' (filter (\<lambda>r. key r \<noteq> k) rows) = find_row key k' rows"
  by (induction rows) auto

lemma update_rows_absent: "k \<notin> key ` set rows \<Longrightarrow> update_rows key k f rows = rows"
  by (induction rows) auto

subsection \<open>Aggregates over a table after a write\<close>

text \<open>
  \<open>count(*) ... WHERE p\<close> and \<open>sum(...)\<close> change by the contribution of the one row that a
  write touches: the id is a primary key.
\<close>

lemma sum_update_row [row_laws]:
  fixes g :: "'r \<Rightarrow> int"
  assumes "distinct (map key rows)" and "find_row key k rows = Some r"
  shows "(\<Sum>x\<leftarrow>update_rows key k f rows. g x) = (\<Sum>x\<leftarrow>rows. g x) - g r + g (f r)"
  using assms
proof (induction rows)
  case Nil
  then show ?case by simp
next
  case (Cons x rows)
  then show ?case
    by (cases "key x = k") (auto simp: update_rows_absent)
qed

lemma sum_insert_row [row_laws]:
  "(\<Sum>x\<leftarrow>insert_row r rows. g x) = (\<Sum>x\<leftarrow>rows. g x) + (g r :: int)"
  by (simp add: insert_row_def)

lemma sum_update_row_neutral [row_laws]:
  fixes g :: "'r \<Rightarrow> int"
  assumes "\<And>x. x \<in> set rows \<Longrightarrow> key x = k \<Longrightarrow> g (f x) = g x"
  shows "(\<Sum>x\<leftarrow>update_rows key k f rows. g x) = (\<Sum>x\<leftarrow>rows. g x)"
  using assms by (induction rows) auto

lemma length_filter_sum: "int (length (filter p rows)) = (\<Sum>x\<leftarrow>rows. if p x then 1 else 0)"
  by (induction rows) auto

lemma sum_filter_if: "(\<Sum>x\<leftarrow>filter p rows. g x) = (\<Sum>x\<leftarrow>rows. if p x then g x else (0::int))"
  by (induction rows) auto

lemma foldl_add_sum: "foldl (\<lambda>s x. s + g x) (a::int) xs = a + (\<Sum>x\<leftarrow>xs. g x)"
  by (induction xs arbitrary: a) auto

lemma sum_list_nonneg_pos:
  fixes g :: "'a \<Rightarrow> int"
  assumes "\<And>x. x \<in> set xs \<Longrightarrow> 0 \<le> g x" and "x \<in> set xs"
  shows "g x \<le> (\<Sum>y\<leftarrow>xs. g y)"
  using assms
proof (induction xs)
  case Nil
  then show ?case by simp
next
  case (Cons y xs)
  have y: "0 \<le> g y" using Cons.prems(1) by simp
  have xs: "0 \<le> (\<Sum>z\<leftarrow>xs. g z)" using Cons.prems(1) by (intro sum_list_nonneg) auto
  show ?case
  proof (cases "x = y")
    case True
    then show ?thesis using xs by simp
  next
    case False
    then have "g x \<le> (\<Sum>z\<leftarrow>xs. g z)" using Cons by simp
    then show ?thesis using y by simp
  qed
qed

subsection \<open>A table inside a state\<close>

locale row_table =
  fixes sel :: "'s \<Rightarrow> 'r list"
    and upd :: "('r list \<Rightarrow> 'r list) \<Rightarrow> 's \<Rightarrow> 's"
    and key :: "'r \<Rightarrow> 'k"
  assumes sel_upd: "sel (upd f s) = f (sel s)"
begin

lemma find_after_update:
  assumes "\<And>r. key (f r) = key r"
  shows "find_row key k' (sel (upd (update_rows key k f) s))
    = (if k' = k then map_option f (find_row key k (sel s)) else find_row key k' (sel s))"
  using assms by (simp add: sel_upd find_row_update_same find_row_update_other)

lemma find_after_insert:
  assumes "find_row key (key r) (sel s) = None"
  shows "find_row key k' (sel (upd (insert_row r) s))
    = (if k' = key r then Some r else find_row key k' (sel s))"
  using assms by (auto simp: sel_upd find_row_insert split: option.splits)

lemma keys_after_update:
  assumes "\<And>r. key (f r) = key r"
  shows "map key (sel (upd (update_rows key k f) s)) = map key (sel s)"
  using assms by (simp add: sel_upd map_key_update_rows)

lemma keys_distinct_after_insert:
  assumes "distinct (map key (sel s))" and "find_row key (key r) (sel s) = None"
  shows "distinct (map key (sel (upd (insert_row r) s)))"
  using assms by (auto simp: sel_upd insert_row_def find_row_None_iff)

lemma rows_after_update:
  "set (sel (upd (update_rows key k f) s)) = (\<lambda>r. if key r = k then f r else r) ` set (sel s)"
  by (simp add: sel_upd set_update_rows)

lemma all_after_update:
  assumes "\<forall>r \<in> set (sel s). P r"
    and "\<And>r. r \<in> set (sel s) \<Longrightarrow> key r = k \<Longrightarrow> P r \<Longrightarrow> P (f r)"
  shows "\<forall>r \<in> set (sel (upd (update_rows key k f) s)). P r"
  using assms by (auto simp: rows_after_update)

lemma all_after_insert:
  assumes "\<forall>r \<in> set (sel s). P r" and "P r"
  shows "\<forall>r \<in> set (sel (upd (insert_row r) s)). P r"
  using assms by (simp add: sel_upd insert_row_def)

lemma sum_after_update:
  fixes g :: "'r \<Rightarrow> int"
  assumes "distinct (map key (sel s))" and "find_row key k (sel s) = Some r"
  shows "(\<Sum>x\<leftarrow>sel (upd (update_rows key k f) s). g x) = (\<Sum>x\<leftarrow>sel s. g x) - g r + g (f r)"
  using assms by (simp add: sel_upd sum_update_row)

lemma sum_after_insert:
  fixes g :: "'r \<Rightarrow> int"
  shows "(\<Sum>x\<leftarrow>sel (upd (insert_row r) s). g x) = (\<Sum>x\<leftarrow>sel s. g x) + g r"
  by (simp add: sel_upd sum_insert_row)

end

subsection \<open>A Map filled by a loop\<close>

fun map_push :: "'k \<Rightarrow> 'v \<Rightarrow> ('k \<times> 'v list) list \<Rightarrow> ('k \<times> 'v list) list" where
  "map_push k v [] = [(k, [v])]"
| "map_push k v ((k', vs) # m) = (if k' = k then (k', vs @ [v]) # m else (k', vs) # map_push k v m)"

definition group_rows :: "('r \<Rightarrow> 'k) \<Rightarrow> 'r list \<Rightarrow> ('k \<times> 'r list) list" where
  "group_rows key rows = foldl (\<lambda>m r. map_push (key r) r m) [] rows"

definition map_get :: "('k \<times> 'v list) list \<Rightarrow> 'k \<Rightarrow> 'v list" where
  "map_get m k = (case map_of m k of None \<Rightarrow> [] | Some vs \<Rightarrow> vs)"

lemma map_get_push: "map_get (map_push k v m) k' = (if k' = k then map_get m k @ [v] else map_get m k')"
  by (induction k v m rule: map_push.induct) (auto simp: map_get_def)

lemma map_get_fold:
  "map_get (foldl (\<lambda>m r. map_push (key r) r m) m rows) k = map_get m k @ filter (\<lambda>r. key r = k) rows"
  by (induction rows arbitrary: m) (auto simp: map_get_push)

lemma map_get_group: "map_get (group_rows key rows) k = filter (\<lambda>r. key r = k) rows"
  by (simp add: group_rows_def map_get_fold) (simp add: map_get_def)

lemma keys_map_push: "fst ` set (map_push k v m) = insert k (fst ` set m)"
  by (induction k v m rule: map_push.induct) auto

lemma distinct_map_push: "distinct (map fst m) \<Longrightarrow> distinct (map fst (map_push k v m))"
proof (induction k v m rule: map_push.induct)
  case (2 k v k' vs m)
  then show ?case by (auto simp: keys_map_push)
qed simp

lemma distinct_group_fold:
  "distinct (map fst m) \<Longrightarrow> distinct (map fst (foldl (\<lambda>m r. map_push (key r) r m) m rows))"
  by (induction rows arbitrary: m) (auto intro: distinct_map_push)

lemma group_rows_entry:
  assumes "(k, vs) \<in> set (group_rows key rows)"
  shows "vs = filter (\<lambda>r. key r = k) rows"
proof -
  have "distinct (map fst (group_rows key rows))"
    unfolding group_rows_def by (rule distinct_group_fold) simp
  with assms have "map_of (group_rows key rows) k = Some vs" by simp
  then have "map_get (group_rows key rows) k = vs" by (simp add: map_get_def)
  then show ?thesis by (simp add: map_get_group)
qed

subsection \<open>Runs of a system, and status machines\<close>

text \<open>
  A call moves the state by a total step function (a refused call is a step to the state the
  code leaves). An invariant that every admissible call keeps holds after any run.
\<close>

definition run_calls :: "('s \<Rightarrow> 'c \<Rightarrow> 's) \<Rightarrow> 's \<Rightarrow> 'c list \<Rightarrow> 's" where
  "run_calls step s cs = foldl step s cs"

locale guarded_system =
  fixes step :: "'s \<Rightarrow> 'c \<Rightarrow> 's"
    and allowed :: "'s \<Rightarrow> 'c \<Rightarrow> bool"
    and inv :: "'s \<Rightarrow> bool"
  assumes step_keeps: "inv s \<Longrightarrow> allowed s c \<Longrightarrow> inv (step s c)"
begin

inductive admissible :: "'s \<Rightarrow> 'c list \<Rightarrow> bool" where
  "admissible s []"
| "allowed s c \<Longrightarrow> admissible (step s c) cs \<Longrightarrow> admissible s (c # cs)"

lemma admissible_all: "\<forall>c \<in> set cs. \<forall>s. allowed s c \<Longrightarrow> admissible s cs"
  by (induction cs arbitrary: s) (auto intro: admissible.intros)

lemma run_keeps: "admissible s cs \<Longrightarrow> inv s \<Longrightarrow> inv (run_calls step s cs)"
  by (induction rule: admissible.induct) (auto simp: run_calls_def step_keeps)

end

text \<open>
  A status machine whose every step strictly climbs a rank bounded by \<open>top\<close>: a status is
  never left and entered again, and a run has at most \<open>top\<close> steps.
\<close>

locale ranked_lifecycle =
  fixes moves :: "'q \<Rightarrow> 'q \<Rightarrow> bool"
    and rank :: "'q \<Rightarrow> nat"
    and top :: nat
  assumes moves_climb: "moves a b \<Longrightarrow> rank a < rank b"
    and rank_top: "rank a \<le> top"
begin

inductive path :: "'q \<Rightarrow> 'q list \<Rightarrow> bool" where
  "path a []"
| "moves a b \<Longrightarrow> path b bs \<Longrightarrow> path a (b # bs)"

lemma path_rank: "path a bs \<Longrightarrow> rank a + length bs \<le> top"
proof (induction rule: path.induct)
  case (1 a)
  then show ?case by (simp add: rank_top)
next
  case (2 a b bs)
  then show ?case using moves_climb [of a b] by simp
qed

lemma path_bound: "path a bs \<Longrightarrow> length bs \<le> top"
  using path_rank by fastforce

lemma path_climbs: "path a bs \<Longrightarrow> b \<in> set bs \<Longrightarrow> rank a < rank b"
  by (induction rule: path.induct) (auto dest: moves_climb intro: less_trans)

lemma path_never_returns: "path a bs \<Longrightarrow> a \<notin> set bs"
  using path_climbs by blast

lemma path_distinct: "path a bs \<Longrightarrow> distinct (a # bs)"
proof (induction rule: path.induct)
  case (1 a)
  then show ?case by simp
next
  case (2 a b bs)
  from 2(1,2) have "path a (b # bs)" by (rule path.intros)
  then have "a \<notin> set (b # bs)" by (rule path_never_returns)
  with 2 show ?case by simp
qed

end

end
