(* ===== verification/Core_Types.thy ===== *)
theory Core_Types
  imports Trace_Prelude
begin

text \<open>
  The vocabulary of \<open>packages/core\<close> and the rows of \<open>packages/db/drizzle/schema.ts\<close>.

  \<^item> String unions become datatypes (\<open>user_role\<close>, \<open>passport_status\<close>, \<open>listing_status\<close>,
    \<open>order_status\<close>, ...), one constructor per literal of the source.
  \<^item> A table row is a record; a field keeps its column's name behind a one-letter prefix
    (\<open>l_pricePence\<close> is \<open>listings.pricePence\<close>). A nullable column is an option.
  \<^item> A \<open>Date\<close> is the integer of \<open>getTime()\<close> (milliseconds). A uuid is a number: the code
    only compares ids. The columns of the \<open>numeric\<close> type are strings, as the driver
    returns them.
  \<^item> An application error (\<open>errors.ts\<close>) is a value: its class is the constructor of
    \<open>trace_error\<close>, its message a constructor of a reason type whose arguments are the
    values the message interpolates. The surrogate ids of the two event tables, which no
    modelled operation reads, are left out.
\<close>

type_synonym uuid = nat
type_synonym time = int

subsection \<open>Enumerations and limits of constants/config.ts\<close>

datatype passport_status =
  P_draft | P_active | P_listed | P_reserved | P_sold | P_installed | P_decommissioned

datatype grade = Grade_A | Grade_B | Grade_C | Grade_D

datatype user_role = Platform_admin | Hub_admin | Hub_staff | Supplier | Buyer | Inspector

datatype organisation_type = Hub | Manufacturer | Contractor | Certifier

datatype listing_status = L_active | L_reserved | L_sold | L_expired | L_cancelled

datatype order_status =
  T_pending | T_confirmed | T_disputed | T_resolved | T_completed | T_cancelled

datatype dispute_outcome = Sale_stands | Cancel_order

datatype passport_origin = Reclaimed | Surplus | New_product

datatype inspection_source = Independent | Seller_check | Platform_check

definition MAX_AMOUNT_PENCE :: int where "MAX_AMOUNT_PENCE = 2000000000"
definition MAX_LOT_QUANTITY :: int where "MAX_LOT_QUANTITY = 1000000000"
definition ORDER_RESPONSE_HOURS :: int where "ORDER_RESPONSE_HOURS = 72"
definition ORDER_PROBLEM_WINDOW_HOURS :: int where "ORDER_PROBLEM_WINDOW_HOURS = 48"

fun inspectionSource :: "user_role option \<Rightarrow> inspection_source" where
  "inspectionSource (Some Inspector) = Independent"
| "inspectionSource (Some Platform_admin) = Platform_check"
| "inspectionSource _ = Seller_check"

text \<open>The largest value of a Postgres \<open>integer\<close> column.\<close>

definition INT4_MAX :: int where "INT4_MAX = 2147483647"

subsection \<open>Order actions (validators/listing.schema.ts)\<close>

datatype order_action =
  Accept | Reject | Confirm_delivery | Flag_dispute | Resolve_dispute | Cancel

datatype timed_action = Lapse | Auto_complete

datatype order_side = Side_buyer | Side_seller | Side_party | Side_platform_admin

datatype actor_side = By_buyer | By_seller | By_platform | By_time_limit

datatype event_action = Placed | Person order_action | Timed timed_action

subsection \<open>Errors (errors.ts)\<close>

datatype resource =
  R_passport | R_listing | R_order | R_organisation | R_access_request | R_quality_report

datatype conflict_reason =
  Passport_already_listed
| Decommissioned_cannot_be_listed
| Photo_required
| Lot_sold
| Cannot_update_listing listing_status
| Orders_hold int
| Expired_needs_date
| Nothing_left
| Cannot_cancel_listing listing_status
| Listing_has_open_orders nat
| Listing_not_available listing_status
| Listing_has_expired
| Last_unit_kept
| Last_unit_order_up_to int
| Only_left int
| Order_changed_meanwhile
| Timed_out timed_action
| Cannot_act order_action order_status bool
| Passport_locked passport_status
| Grade_is_inspections
| Too_many_photos nat
| Not_registered_yet
| Report_already_flagged
| Pending_request_exists
| Only_pending_edited
| Only_pending_approved
| Only_approved_updated
| Only_pending_rejected
| Email_taken

datatype forbidden_reason =
  Passport_not_yours
| Listing_not_yours
| Own_organisations_listing
| Only_side_can order_side order_action
| No_permission_to_update
| Access_denied
| Hub_checks_own_only
| Only_holder_flags
| Only_buyers_request
| Role_not_permitted "user_role option" "user_role list"
| Organisation_context_required
| Cross_site_refused

datatype validation_reason =
  Minimum_above_quantity
| Below_minimum int
| Total_too_large
| Unreadable_image

datatype unauthorized_reason = Invalid_credentials | Invalid_token

datatype coded_error = Material_relisted | Storage_full | Storage_quota_exceeded | Photo_too_large

datatype trace_error =
  NotFoundError resource "uuid option"
| UnauthorizedError unauthorized_reason
| ForbiddenError forbidden_reason
| ValidationError validation_reason
| ConflictError conflict_reason
| TooManyRequestsError int int
| CodedError coded_error
| PlainError
| DbError

text \<open>The outcome of a handler: \<open>Inl\<close> what it throws, or \<open>Inr\<close> what it returns.\<close>

type_synonym 'a outcome = "trace_error + 'a"

text \<open>
  \<open>CodedError\<close> is a \<open>TraceError\<close> constructed directly, with its own code and status;
  \<open>PlainError\<close> is \<open>throw new Error(...)\<close>; \<open>DbError\<close> is a constraint the database
  refuses. The last two are not \<open>TraceError\<close>s: \<open>errorHandler\<close> answers 500 for them.
\<close>

fun coded_status :: "coded_error \<Rightarrow> nat" where
  "coded_status Material_relisted = 409"
| "coded_status Storage_full = 507"
| "coded_status Storage_quota_exceeded = 413"
| "coded_status Photo_too_large = 413"

fun statusCode :: "trace_error \<Rightarrow> nat" where
  "statusCode (NotFoundError r i) = 404"
| "statusCode (UnauthorizedError r) = 401"
| "statusCode (ForbiddenError r) = 403"
| "statusCode (ValidationError r) = 400"
| "statusCode (ConflictError r) = 409"
| "statusCode (TooManyRequestsError m s) = 429"
| "statusCode (CodedError c) = coded_status c"
| "statusCode PlainError = 500"
| "statusCode DbError = 500"

fun isTraceError :: "trace_error \<Rightarrow> bool" where
  "isTraceError PlainError = False"
| "isTraceError DbError = False"
| "isTraceError _ = True"

subsection \<open>JSON values\<close>

text \<open>
  A \<open>jsonb\<close> value. An integer is \<open>JInt\<close>; any other number is kept as the text
  \<open>JSON.stringify\<close> writes for it. \<open>JUuid\<close> is a string that holds a row id.
\<close>

datatype json =
  JNull
| JBool bool
| JInt int
| JNum string
| JStr string
| JUuid uuid
| JArr "json list"
| JObj "(string \<times> json) list"

fun json_field :: "string \<Rightarrow> json \<Rightarrow> json option" where
  "json_field k (JObj kvs) = map_of kvs k"
| "json_field k _ = None"

text \<open>\<open>SEED_TAG\<close> of \<open>constants/demo-catalogue.ts\<close>: the mark of a curated demo product.\<close>

definition SEED_TAG :: string where "SEED_TAG = ''workshop-curated-2026-06''"

subsection \<open>Rows: people and organisations\<close>

record organisation =
  o_id :: uuid
  o_name :: string
  o_type :: organisation_type
  o_slug :: string
  o_branding :: json
  o_verified :: bool
  o_blockchainAddress :: "string option"
  o_blockchainPrivateKeyEnc :: "string option"
  o_createdAt :: time
  o_updatedAt :: time

record user =
  u_id :: uuid
  u_email :: string
  u_passwordHash :: string
  u_name :: string
  u_role :: user_role
  u_organisationId :: "uuid option"
  u_blockchainAddress :: "string option"
  u_notificationPrefs :: json
  u_ordersSeenAt :: "time option"
  u_tokenVersion :: int
  u_failedLoginCount :: int
  u_failedLoginAt :: "time option"
  u_loginBackoffUntil :: "time option"
  u_createdAt :: time

datatype request_status = A_pending | A_approved | A_rejected

record access_request =
  a_id :: uuid
  a_userId :: uuid
  a_requestedRole :: user_role
  a_organisationName :: "string option"
  a_targetOrganisationId :: "uuid option"
  a_notes :: "string option"
  a_reviewNotes :: "string option"
  a_status :: request_status
  a_reviewedBy :: "uuid option"
  a_reviewedAt :: "time option"
  a_createdAt :: time
  a_updatedAt :: time

subsection \<open>Rows: passports and their history\<close>

record passport =
  p_id :: uuid
  p_organisationId :: uuid
  p_gtin :: "string option"
  p_serialNumber :: "string option"
  p_digitalLinkUri :: "string option"
  p_qrCodeUrl :: "string option"
  p_productName :: string
  p_categoryL1 :: string
  p_categoryL2 :: "string option"
  p_unitOfMeasure :: "string option"
  p_materialComposition :: json
  p_dimensions :: "json option"
  p_technicalSpecs :: json
  p_manufacturerName :: "string option"
  p_countryOfOrigin :: "string option"
  p_productionDate :: "time option"
  p_gwpTotal :: "string option"
  p_embodiedCarbon :: "string option"
  p_recycledContent :: "string option"
  p_epdReference :: "string option"
  p_ceMarking :: bool
  p_declarationOfPerformance :: "string option"
  p_harmonisedStandard :: "string option"
  p_origin :: "passport_origin option"
  p_previousBuildingId :: "string option"
  p_deconstructionDate :: "time option"
  p_deconstructionMethod :: "string option"
  p_reclaimedBy :: "string option"
  p_conditionGrade :: "grade option"
  p_conditionNotes :: "string option"
  p_conditionPhotos :: "string list option"
  p_originalAge :: "int option"
  p_remainingLifeEstimate :: "int option"
  p_carbonSavingsVsNew :: "string option"
  p_circularityScore :: "int option"
  p_reuseCount :: int
  p_reuseSuitability :: json
  p_handlingRequirements :: "string option"
  p_hazardousSubstances :: json
  p_customAttributes :: json
  p_status :: passport_status
  p_blockchainTxHash :: "string option"
  p_blockchainPassportHash :: "string option"
  p_blockchainAnchoredAt :: "time option"
  p_blockchainChainId :: "string option"
  p_registeredBy :: "uuid option"
  p_createdAt :: time
  p_updatedAt :: time

datatype epcis_type = ObjectEvent | TransactionEvent

record passport_event =
  ev_passportId :: uuid
  ev_eventType :: epcis_type
  ev_eventData :: json
  ev_actorId :: "uuid option"
  ev_blockchainTxHash :: "string option"
  ev_createdAt :: time

subsection \<open>Rows: listings, orders and their steps\<close>

datatype shipping_method = Collection | Delivery | Both

record shipping_option =
  so_method :: shipping_method
  so_deliveryRadiusMiles :: "int option"
  so_deliveryCostPence :: "int option"
  so_notes :: "string option"

record listing =
  l_id :: uuid
  l_passportId :: uuid
  l_organisationId :: uuid
  l_sellerId :: uuid
  l_pricePence :: int
  l_currency :: string
  l_quantity :: int
  l_quantityAvailable :: int
  l_minOrderQuantity :: int
  l_shippingOptions :: "shipping_option list"
  l_status :: listing_status
  l_blockchainTxHash :: "string option"
  l_expiresAt :: "time option"
  l_createdAt :: time

record order =
  t_id :: uuid
  t_listingId :: uuid
  t_buyerId :: uuid
  t_sellerId :: uuid
  t_quantity :: int
  t_legacyWholeLot :: bool
  t_amountPence :: int
  t_status :: order_status
  t_disputeDeadline :: "time option"
  t_responseDeadline :: "time option"
  t_blockchainTxHash :: "string option"
  t_notes :: "string option"
  t_createdAt :: time

record order_event =
  e_transactionId :: uuid
  e_action :: event_action
  e_fromStatus :: "order_status option"
  e_toStatus :: order_status
  e_actorId :: "uuid option"
  e_actorSide :: actor_side
  e_note :: "string option"
  e_createdAt :: time

subsection \<open>Rows: quality reports, chain log, audit log, files\<close>

record quality_report =
  q_id :: uuid
  q_passportId :: uuid
  q_inspectorId :: uuid
  q_inspectorRole :: "user_role option"
  q_structuralScore :: "int option"
  q_aestheticScore :: "int option"
  q_environmentalScore :: "int option"
  q_overallGrade :: "grade option"
  q_reportNotes :: "string option"
  q_photoUrls :: "string list"
  q_blockchainTxHash :: "string option"
  q_disputed :: bool
  q_createdAt :: time

datatype stored_kind = Photo | Qr | Catalogue

record stored_object =
  so_bucket :: string
  so_key :: string
  so_kind :: stored_kind
  so_organisationId :: "uuid option"
  so_passportId :: "uuid option"
  so_bytes :: int
  so_sha256 :: string
  so_contentType :: string
  so_createdAt :: time

subsection \<open>The state of the platform\<close>

text \<open>
  The tables the modelled operations read and write, and the anchor queue: the list of
  the passports for which an anchor job was added, in order (\<open>lib/queue.ts\<close>).
\<close>

record anchor_job =
  j_passportId :: uuid
  j_organisationId :: uuid

record trace_db =
  organisations :: "organisation list"
  users :: "user list"
  betaAccessRequests :: "access_request list"
  materialPassports :: "passport list"
  passportEvents :: "passport_event list"
  listings :: "listing list"
  transactions :: "order list"
  orderEvents :: "order_event list"
  qualityReports :: "quality_report list"
  storedObjects :: "stored_object list"
  anchorQueue :: "anchor_job list"

text \<open>Each keyed table meets the contract of \<open>row_table\<close>.\<close>

interpretation listing_tbl: row_table listings listings_update l_id
  by unfold_locales simp

interpretation order_tbl: row_table transactions transactions_update t_id
  by unfold_locales simp

interpretation passport_tbl: row_table materialPassports materialPassports_update p_id
  by unfold_locales simp

interpretation user_tbl: row_table users users_update u_id
  by unfold_locales simp

interpretation organisation_tbl: row_table organisations organisations_update o_id
  by unfold_locales simp

interpretation request_tbl: row_table betaAccessRequests betaAccessRequests_update a_id
  by unfold_locales simp

interpretation report_tbl: row_table qualityReports qualityReports_update q_id
  by unfold_locales simp

abbreviation find_listing :: "uuid \<Rightarrow> trace_db \<Rightarrow> listing option" where
  "find_listing i db \<equiv> find_row l_id i (listings db)"

abbreviation find_order :: "uuid \<Rightarrow> trace_db \<Rightarrow> order option" where
  "find_order i db \<equiv> find_row t_id i (transactions db)"

abbreviation find_passport :: "uuid \<Rightarrow> trace_db \<Rightarrow> passport option" where
  "find_passport i db \<equiv> find_row p_id i (materialPassports db)"

abbreviation find_user :: "uuid \<Rightarrow> trace_db \<Rightarrow> user option" where
  "find_user i db \<equiv> find_row u_id i (users db)"

abbreviation find_organisation :: "uuid \<Rightarrow> trace_db \<Rightarrow> organisation option" where
  "find_organisation i db \<equiv> find_row o_id i (organisations db)"

abbreviation find_request :: "uuid \<Rightarrow> trace_db \<Rightarrow> access_request option" where
  "find_request i db \<equiv> find_row a_id i (betaAccessRequests db)"

abbreviation find_report :: "uuid \<Rightarrow> trace_db \<Rightarrow> quality_report option" where
  "find_report i db \<equiv> find_row q_id i (qualityReports db)"

end
