(* ===== verification/Sample_Data.thy ===== *)
theory Sample_Data
  imports Core_Types
begin

text \<open>
  A small platform the witnesses are evaluated on: a hub (organisation 1) with a seller
  (user 2), a buyer (user 3) who belongs to no organisation, and one material of the hub
  (passport 10), registered with a photo.
\<close>

definition sample_passport :: passport where
  "sample_passport = \<lparr>
     p_id = 10, p_organisationId = 1, p_gtin = None, p_serialNumber = Some ''TRC-1'',
     p_digitalLinkUri = None, p_qrCodeUrl = None, p_productName = ''Oak beam'',
     p_categoryL1 = ''structural-timber'', p_categoryL2 = None, p_unitOfMeasure = None,
     p_materialComposition = JArr [], p_dimensions = None, p_technicalSpecs = JObj [],
     p_manufacturerName = None, p_countryOfOrigin = None, p_productionDate = None,
     p_gwpTotal = None, p_embodiedCarbon = None, p_recycledContent = None, p_epdReference = None,
     p_ceMarking = False, p_declarationOfPerformance = None, p_harmonisedStandard = None,
     p_origin = None, p_previousBuildingId = None, p_deconstructionDate = None,
     p_deconstructionMethod = None, p_reclaimedBy = None, p_conditionGrade = None,
     p_conditionNotes = None, p_conditionPhotos = Some [''a.jpg''], p_originalAge = None,
     p_remainingLifeEstimate = None, p_carbonSavingsVsNew = None, p_circularityScore = None,
     p_reuseCount = 0, p_reuseSuitability = JArr [], p_handlingRequirements = None,
     p_hazardousSubstances = JArr [], p_customAttributes = JObj [], p_status = P_active,
     p_blockchainTxHash = None, p_blockchainPassportHash = None, p_blockchainAnchoredAt = None,
     p_blockchainChainId = None, p_registeredBy = Some 2, p_createdAt = 0, p_updatedAt = 0 \<rparr>"

definition sample_hub :: organisation where
  "sample_hub = \<lparr> o_id = 1, o_name = ''Reuse Hub'', o_type = Hub, o_slug = ''reuse-hub'',
     o_branding = JObj [], o_verified = True, o_blockchainAddress = None,
     o_blockchainPrivateKeyEnc = None, o_createdAt = 0, o_updatedAt = 0 \<rparr>"

definition sample_user :: "uuid \<Rightarrow> user_role \<Rightarrow> uuid option \<Rightarrow> user" where
  "sample_user i r org = \<lparr> u_id = i, u_email = ''ann@example.org'', u_passwordHash = ''x'',
     u_name = ''Ann'', u_role = r, u_organisationId = org, u_blockchainAddress = None,
     u_notificationPrefs = JObj [], u_ordersSeenAt = None, u_tokenVersion = 0,
     u_failedLoginCount = 0, u_failedLoginAt = None, u_loginBackoffUntil = None, u_createdAt = 0 \<rparr>"

definition sample_db :: trace_db where
  "sample_db = \<lparr>
     organisations = [sample_hub],
     users = [sample_user 2 Supplier (Some 1), sample_user 3 Buyer None],
     betaAccessRequests = [], materialPassports = [sample_passport], passportEvents = [],
     listings = [], transactions = [], orderEvents = [], qualityReports = [],
     storedObjects = [], anchorQueue = [] \<rparr>"

lemmas sample_defs = sample_db_def sample_passport_def sample_hub_def sample_user_def

end
