(* ===== verification/Marketplace_Lots.thy ===== *)
theory Marketplace_Lots
  imports Core_Types
begin

text \<open>
  \<open>packages/api/src/modules/marketplace/marketplace.service.ts\<close>, first half: creating a
  listing, what a listing reads as at a moment, how much of it may be ordered, and
  \<open>settleLot\<close>, the one place where a lot's stock is written and its status and its
  passport's status follow; then editing and cancelling a lot.

  A handler takes its input, the acting user's data, the clock and the state, and returns
  \<open>Inl\<close> an error (nothing was written) or \<open>Inr\<close> its result and the new state. Each handler
  reads the clock once. A new row's id (drawn by the database) is an argument.
\<close>

subsection \<open>What the database refuses\<close>

text \<open>
  The CHECK constraints of migration 0008 on listings and orders, and the range of an
  \<open>integer\<close> column. A write that breaks one is an error of the database.
\<close>

definition int4 :: "int \<Rightarrow> bool" where
  "int4 x \<longleftrightarrow> - INT4_MAX - 1 \<le> x \<and> x \<le> INT4_MAX"

definition listing_row_ok :: "listing \<Rightarrow> bool" where
  "listing_row_ok l \<longleftrightarrow>
     0 \<le> l_quantityAvailable l \<and> l_quantityAvailable l \<le> l_quantity l
     \<and> 1 \<le> l_minOrderQuantity l
     \<and> int4 (l_pricePence l) \<and> int4 (l_quantity l) \<and> int4 (l_minOrderQuantity l)"

definition order_row_ok :: "order \<Rightarrow> bool" where
  "order_row_ok t \<longleftrightarrow> 1 \<le> t_quantity t \<and> int4 (t_quantity t) \<and> int4 (t_amountPence t)"

subsection \<open>Inputs of the listing routes (validators/listing.schema.ts)\<close>

record create_listing_input =
  ci_passportId :: uuid
  ci_pricePence :: int
  ci_currency :: string
  ci_quantity :: int
  ci_minOrderQuantity :: int
  ci_shippingOptions :: "shipping_option list"
  ci_expiresAt :: "time option"

record update_listing_input =
  ui_pricePence :: "int option"
  ui_quantity :: "int option"
  ui_minOrderQuantity :: "int option"
  ui_shippingOptions :: "shipping_option list option"
  ui_expiresAt :: "time option option"

text \<open>\<open>ui_expiresAt\<close> is absent (\<open>None\<close>), null (\<open>Some None\<close>) or a date.\<close>

definition shipping_option_valid :: "shipping_option \<Rightarrow> bool" where
  "shipping_option_valid s \<longleftrightarrow>
     (case so_deliveryRadiusMiles s of None \<Rightarrow> True | Some r \<Rightarrow> 0 < r)
     \<and> (case so_deliveryCostPence s of None \<Rightarrow> True | Some c \<Rightarrow> 0 \<le> c)
     \<and> (case so_notes s of None \<Rightarrow> True | Some n \<Rightarrow> length n \<le> 500)"

definition FutureDate :: "time \<Rightarrow> time \<Rightarrow> bool" where
  "FutureDate now d \<longleftrightarrow> d > now"

definition CreateListingSchema :: "time \<Rightarrow> create_listing_input \<Rightarrow> bool" where
  "CreateListingSchema now i \<longleftrightarrow>
     0 < ci_pricePence i \<and> ci_pricePence i \<le> MAX_AMOUNT_PENCE
     \<and> length (ci_currency i) = 3
     \<and> 0 < ci_quantity i \<and> ci_quantity i \<le> MAX_LOT_QUANTITY
     \<and> 0 < ci_minOrderQuantity i \<and> ci_minOrderQuantity i \<le> MAX_LOT_QUANTITY
     \<and> list_all shipping_option_valid (ci_shippingOptions i) \<and> 1 \<le> length (ci_shippingOptions i)
     \<and> (case ci_expiresAt i of None \<Rightarrow> True | Some d \<Rightarrow> FutureDate now d)
     \<and> ci_minOrderQuantity i \<le> ci_quantity i"

definition UpdateListingSchema :: "time \<Rightarrow> update_listing_input \<Rightarrow> bool" where
  "UpdateListingSchema now i \<longleftrightarrow>
     (case ui_pricePence i of None \<Rightarrow> True | Some p \<Rightarrow> 0 < p \<and> p \<le> MAX_AMOUNT_PENCE)
     \<and> (case ui_quantity i of None \<Rightarrow> True | Some q \<Rightarrow> 0 < q \<and> q \<le> MAX_LOT_QUANTITY)
     \<and> (case ui_minOrderQuantity i of None \<Rightarrow> True | Some q \<Rightarrow> 0 < q \<and> q \<le> MAX_LOT_QUANTITY)
     \<and> (case ui_shippingOptions i of None \<Rightarrow> True
         | Some ss \<Rightarrow> list_all shipping_option_valid ss \<and> 1 \<le> length ss)
     \<and> (case ui_expiresAt i of None \<Rightarrow> True | Some None \<Rightarrow> True | Some (Some d) \<Rightarrow> FutureDate now d)"

subsection \<open>Creating a listing\<close>

definition offering_event :: "uuid \<Rightarrow> uuid \<Rightarrow> uuid \<Rightarrow> time \<Rightarrow> passport_event" where
  "offering_event passportId listingId sellerId now =
     \<lparr> ev_passportId = passportId,
       ev_eventType = ObjectEvent,
       ev_eventData = JObj
         [(''action'', JStr ''OBSERVE''),
          (''bizStep'', JStr ''urn:epcglobal:cbv:bizstep:offering_for_sale''),
          (''disposition'', JStr ''urn:epcglobal:cbv:disp:sellable_accessible''),
          (''listingId'', JUuid listingId)],
       ev_actorId = Some sellerId,
       ev_blockchainTxHash = None,
       ev_createdAt = now \<rparr>"

definition new_listing :: "create_listing_input \<Rightarrow> uuid \<Rightarrow> uuid \<Rightarrow> uuid \<Rightarrow> time \<Rightarrow> listing" where
  "new_listing input newId sellerId organisationId now =
     \<lparr> l_id = newId,
       l_passportId = ci_passportId input,
       l_organisationId = organisationId,
       l_sellerId = sellerId,
       l_pricePence = ci_pricePence input,
       l_currency = ci_currency input,
       l_quantity = ci_quantity input,
       l_quantityAvailable = ci_quantity input,
       l_minOrderQuantity = ci_minOrderQuantity input,
       l_shippingOptions = ci_shippingOptions input,
       l_status = L_active,
       l_blockchainTxHash = None,
       l_expiresAt = ci_expiresAt input,
       l_createdAt = now \<rparr>"

definition set_passport_status :: "uuid \<Rightarrow> passport_status \<Rightarrow> time \<Rightarrow> trace_db \<Rightarrow> trace_db" where
  "set_passport_status pid st now db =
     materialPassports_update
       (update_rows p_id pid (\<lambda>p. p\<lparr>p_status := st, p_updatedAt := now\<rparr>)) db"

definition photos_of :: "passport \<Rightarrow> string list" where
  "photos_of p = (case p_conditionPhotos p of None \<Rightarrow> [] | Some ps \<Rightarrow> ps)"

text \<open>The checks that come before the first write, and the writes.\<close>

definition createListing_check ::
  "create_listing_input \<Rightarrow> uuid \<Rightarrow> trace_db \<Rightarrow> passport outcome" where
  "createListing_check input organisationId db =
     (case find_passport (ci_passportId input) db of
        None \<Rightarrow> Inl (NotFoundError R_passport (Some (ci_passportId input)))
      | Some passport \<Rightarrow>
          if p_organisationId passport \<noteq> organisationId then Inl (ForbiddenError Passport_not_yours)
          else if p_status passport \<in> {P_listed, P_reserved, P_sold} then
            Inl (ConflictError Passport_already_listed)
          else if p_status passport = P_decommissioned then
            Inl (ConflictError Decommissioned_cannot_be_listed)
          else if photos_of passport = [] then Inl (ConflictError Photo_required)
          else Inr passport)"

definition insert_listing :: "listing \<Rightarrow> trace_db \<Rightarrow> (listing \<times> trace_db) outcome" where
  "insert_listing l db =
     (if find_listing (l_id l) db \<noteq> None \<or> \<not> listing_row_ok l then Inl DbError
      else Inr (l, listings_update (insert_row l) db))"

definition createListing_write ::
  "create_listing_input \<Rightarrow> uuid \<Rightarrow> uuid \<Rightarrow> uuid \<Rightarrow> time \<Rightarrow> trace_db \<Rightarrow> (listing \<times> trace_db) outcome" where
  "createListing_write input newId sellerId organisationId now db =
     (case insert_listing (new_listing input newId sellerId organisationId now) db of
        Inl e \<Rightarrow> Inl e
      | Inr (listing, db1) \<Rightarrow>
          let db2 = set_passport_status (ci_passportId input) P_listed now db1;
              ev = offering_event (ci_passportId input) (l_id listing) sellerId now
          in Inr (listing, passportEvents_update (insert_row ev) db2))"

definition createListing ::
  "create_listing_input \<Rightarrow> uuid \<Rightarrow> uuid \<Rightarrow> uuid \<Rightarrow> time \<Rightarrow> trace_db \<Rightarrow> (listing \<times> trace_db) outcome" where
  "createListing input newId sellerId organisationId now db =
     (case createListing_check input organisationId db of
        Inl e \<Rightarrow> Inl e
      | Inr passport \<Rightarrow> createListing_write input newId sellerId organisationId now db)"

subsection \<open>What a listing offers at a moment\<close>

definition curated :: "json \<Rightarrow> bool" where
  "curated customAttributes \<longleftrightarrow> json_field ''seedSource'' customAttributes = Some (JStr SEED_TAG)"

definition orderableQuantity :: "int \<Rightarrow> json \<Rightarrow> bool \<Rightarrow> int" where
  "orderableQuantity quantityAvailable customAttributes keepLastCuratedUnit =
     (if keepLastCuratedUnit \<and> curated customAttributes
      then max 0 (quantityAvailable - 1)
      else quantityAvailable)"

definition past :: "time option \<Rightarrow> time \<Rightarrow> bool" where
  "past d now \<longleftrightarrow> (case d of None \<Rightarrow> False | Some t \<Rightarrow> t \<le> now)"

definition listingStatusAt :: "listing_status \<Rightarrow> time option \<Rightarrow> time \<Rightarrow> listing_status" where
  "listingStatusAt status expiresAt now =
     (if status = L_active \<and> past expiresAt now then L_expired else status)"

subsection \<open>A lot's status follows from its stock and its open orders\<close>

definition OPEN_TRANSACTION_STATUSES :: "order_status list" where
  "OPEN_TRANSACTION_STATUSES = [T_pending, T_confirmed, T_disputed]"

definition openOrders :: "uuid \<Rightarrow> trace_db \<Rightarrow> nat" where
  "openOrders listingId db =
     length (filter (\<lambda>t. t_listingId t = listingId \<and> t_status t \<in> set OPEN_TRANSACTION_STATUSES)
       (transactions db))"

definition lotStatus :: "int \<Rightarrow> nat \<Rightarrow> listing_status" where
  "lotStatus quantityAvailable open_orders =
     (if quantityAvailable > 0 then L_active else if open_orders > 0 then L_reserved else L_sold)"

fun passport_status_for_lot :: "listing_status \<Rightarrow> passport_status option" where
  "passport_status_for_lot L_active = Some P_listed"
| "passport_status_for_lot L_reserved = Some P_reserved"
| "passport_status_for_lot L_sold = Some P_sold"
| "passport_status_for_lot _ = None"

text \<open>A \<open>Partial<Listing>\<close>: the columns an edit writes.\<close>

record listing_patch =
  lp_pricePence :: "int option"
  lp_quantity :: "int option"
  lp_minOrderQuantity :: "int option"
  lp_shippingOptions :: "shipping_option list option"
  lp_expiresAt :: "time option option"

definition no_changes :: listing_patch where
  "no_changes = \<lparr> lp_pricePence = None, lp_quantity = None, lp_minOrderQuantity = None,
     lp_shippingOptions = None, lp_expiresAt = None \<rparr>"

definition apply_patch :: "listing_patch \<Rightarrow> listing \<Rightarrow> listing" where
  "apply_patch c l = l\<lparr> l_pricePence := or_keep (lp_pricePence c) (l_pricePence l),
     l_quantity := or_keep (lp_quantity c) (l_quantity l),
     l_minOrderQuantity := or_keep (lp_minOrderQuantity c) (l_minOrderQuantity l),
     l_shippingOptions := or_keep (lp_shippingOptions c) (l_shippingOptions l),
     l_expiresAt := or_keep (lp_expiresAt c) (l_expiresAt l) \<rparr>"

definition settled_row :: "listing_patch \<Rightarrow> int \<Rightarrow> listing_status \<Rightarrow> listing \<Rightarrow> listing" where
  "settled_row changes quantityAvailable status l =
     (apply_patch changes l)\<lparr> l_quantityAvailable := quantityAvailable, l_status := status \<rparr>"

definition update_listing_row ::
  "uuid \<Rightarrow> (listing \<Rightarrow> listing) \<Rightarrow> trace_db \<Rightarrow> (listing \<times> trace_db) outcome" where
  "update_listing_row i f db =
     (case find_listing i db of
        None \<Rightarrow> Inl PlainError
      | Some row \<Rightarrow> if \<not> listing_row_ok (f row) then Inl DbError
          else Inr (f row, listings_update (update_rows l_id i f) db))"

definition settleLot ::
  "listing \<Rightarrow> int \<Rightarrow> listing_patch \<Rightarrow> bool \<Rightarrow> time \<Rightarrow> trace_db \<Rightarrow> (listing \<times> trace_db) outcome" where
  "settleLot l quantityAvailable changes reopen now db =
     (let live = reopen \<or> l_status l \<in> {L_active, L_reserved, L_sold};
          status = (if live then lotStatus quantityAvailable (openOrders (l_id l) db) else l_status l)
      in case update_listing_row (l_id l) (settled_row changes quantityAvailable status) db of
           Inl e \<Rightarrow> Inl e
         | Inr (updated, db1) \<Rightarrow>
             if live \<and> (reopen \<or> status \<noteq> l_status l) then
               case passport_status_for_lot status of
                 None \<Rightarrow> Inr (updated, db1)
               | Some ps \<Rightarrow> Inr (updated, set_passport_status (l_passportId l) ps now db1)
             else Inr (updated, db1))"

subsection \<open>Editing a lot\<close>

datatype editable_field =
  F_pricePence | F_quantity | F_minOrderQuantity | F_shippingOptions | F_expiresAt

datatype field_value =
  V_int int | V_shipping "shipping_option list" | V_date "time option"

definition EDITABLE_FIELDS :: "editable_field list" where
  "EDITABLE_FIELDS = [F_pricePence, F_quantity, F_minOrderQuantity, F_shippingOptions, F_expiresAt]"

fun listing_field :: "editable_field \<Rightarrow> listing \<Rightarrow> field_value" where
  "listing_field F_pricePence l = V_int (l_pricePence l)"
| "listing_field F_quantity l = V_int (l_quantity l)"
| "listing_field F_minOrderQuantity l = V_int (l_minOrderQuantity l)"
| "listing_field F_shippingOptions l = V_shipping (l_shippingOptions l)"
| "listing_field F_expiresAt l = V_date (l_expiresAt l)"

definition listingChanges ::
  "listing \<Rightarrow> listing \<Rightarrow> (editable_field \<times> field_value \<times> field_value) list" where
  "listingChanges before after =
     map (\<lambda>f. (f, listing_field f before, listing_field f after))
       (filter (\<lambda>f. listing_field f before \<noteq> listing_field f after) EDITABLE_FIELDS)"

definition EDITABLE_LOT_STATUSES :: "listing_status list" where
  "EDITABLE_LOT_STATUSES = [L_active, L_reserved, L_expired]"

definition patch_of_input :: "update_listing_input \<Rightarrow> listing_patch" where
  "patch_of_input input = \<lparr> lp_pricePence = ui_pricePence input, lp_quantity = ui_quantity input,
     lp_minOrderQuantity = ui_minOrderQuantity input,
     lp_shippingOptions = ui_shippingOptions input, lp_expiresAt = ui_expiresAt input \<rparr>"

text \<open>The checks of an edit on the locked row; the new available stock when they pass.\<close>

definition updateListing_stock :: "update_listing_input \<Rightarrow> listing \<Rightarrow> int outcome" where
  "updateListing_stock input current =
     (case ui_quantity input of
        None \<Rightarrow> Inr (l_quantityAvailable current)
      | Some q \<Rightarrow>
          let committed = l_quantity current - l_quantityAvailable current
          in if q < committed then Inl (ConflictError (Orders_hold committed))
             else Inr (q - committed))"

definition updateListing_minimum :: "update_listing_input \<Rightarrow> listing \<Rightarrow> bool" where
  "updateListing_minimum input current \<longleftrightarrow>
     (case ui_minOrderQuantity input of
        None \<Rightarrow> True
      | Some m \<Rightarrow> m \<le> or_keep (ui_quantity input) (l_quantity current))"

definition reopen_check :: "listing \<Rightarrow> int \<Rightarrow> trace_db \<Rightarrow> unit outcome" where
  "reopen_check current quantityAvailable db =
     (if quantityAvailable < 1 then Inl (ConflictError Nothing_left)
      else case map_option p_status (find_passport (l_passportId current) db) of
             Some P_decommissioned \<Rightarrow> Inl (ConflictError Decommissioned_cannot_be_listed)
           | Some P_active \<Rightarrow> Inr ()
           | _ \<Rightarrow> Inl (CodedError Material_relisted))"

definition updateListing_check ::
  "uuid \<Rightarrow> update_listing_input \<Rightarrow> time \<Rightarrow> trace_db \<Rightarrow> (listing \<times> int) outcome" where
  "updateListing_check listingId input now db =
     (case find_listing listingId db of
        None \<Rightarrow> Inl (NotFoundError R_listing (Some listingId))
      | Some current \<Rightarrow>
          if l_status current = L_sold then Inl (ConflictError Lot_sold)
          else if l_status current \<notin> set EDITABLE_LOT_STATUSES then
            Inl (ConflictError (Cannot_update_listing (l_status current)))
          else case updateListing_stock input current of
            Inl e \<Rightarrow> Inl e
          | Inr quantityAvailable \<Rightarrow>
              if \<not> updateListing_minimum input current then
                Inl (ValidationError Minimum_above_quantity)
              else if (listingStatusAt (l_status current) (l_expiresAt current) now = L_expired
                       \<or> l_status current = L_expired)
                      \<and> past (or_keep (ui_expiresAt input) (l_expiresAt current)) now then
                Inl (ConflictError Expired_needs_date)
              else if l_status current = L_expired then
                (case reopen_check current quantityAvailable db of
                   Inl e \<Rightarrow> Inl e
                 | Inr _ \<Rightarrow> Inr (current, quantityAvailable))
              else Inr (current, quantityAvailable))"

definition updateListing_tx ::
  "uuid \<Rightarrow> update_listing_input \<Rightarrow> time \<Rightarrow> trace_db
    \<Rightarrow> ((listing \<times> (editable_field \<times> field_value \<times> field_value) list) \<times> trace_db) outcome" where
  "updateListing_tx listingId input now db =
     (case updateListing_check listingId input now db of
        Inl e \<Rightarrow> Inl e
      | Inr (current, quantityAvailable) \<Rightarrow>
          case settleLot current quantityAvailable (patch_of_input input)
                 (l_status current = L_expired) now db of
            Inl e \<Rightarrow> Inl e
          | Inr (updated, db1) \<Rightarrow> Inr ((updated, listingChanges current updated), db1))"

definition own_listing_check :: "uuid \<Rightarrow> uuid \<Rightarrow> trace_db \<Rightarrow> listing outcome" where
  "own_listing_check listingId organisationId db =
     (case find_listing listingId db of
        None \<Rightarrow> Inl (NotFoundError R_listing (Some listingId))
      | Some l \<Rightarrow> if l_organisationId l \<noteq> organisationId then Inl (ForbiddenError Listing_not_yours)
          else Inr l)"

definition updateListing ::
  "uuid \<Rightarrow> update_listing_input \<Rightarrow> uuid \<Rightarrow> time \<Rightarrow> trace_db
    \<Rightarrow> ((listing \<times> (editable_field \<times> field_value \<times> field_value) list) \<times> trace_db) outcome" where
  "updateListing listingId input organisationId now db =
     (case own_listing_check listingId organisationId db of
        Inl e \<Rightarrow> Inl e
      | Inr _ \<Rightarrow> updateListing_tx listingId input now db)"

subsection \<open>Cancelling a lot\<close>

text \<open>
  \<open>cancelListing\<close> is not a database transaction: it reads the listing, counts the open
  orders and then writes. Its two halves are separate definitions, so that other requests
  can be interleaved between them.
\<close>

definition cancelListing_check :: "uuid \<Rightarrow> uuid \<Rightarrow> trace_db \<Rightarrow> listing outcome" where
  "cancelListing_check listingId organisationId db =
     (case own_listing_check listingId organisationId db of
        Inl e \<Rightarrow> Inl e
      | Inr l \<Rightarrow>
          if l_status l \<notin> {L_active, L_reserved} then
            Inl (ConflictError (Cannot_cancel_listing (l_status l)))
          else if openOrders listingId db > 0 then
            Inl (ConflictError (Listing_has_open_orders (openOrders listingId db)))
          else Inr l)"

definition cancelListing_write ::
  "listing \<Rightarrow> time \<Rightarrow> trace_db \<Rightarrow> (listing \<times> trace_db) outcome" where
  "cancelListing_write l now db =
     (case update_listing_row (l_id l) (\<lambda>r. r\<lparr>l_status := L_cancelled\<rparr>) db of
        Inl e \<Rightarrow> Inl e
      | Inr (cancelled, db1) \<Rightarrow>
          Inr (cancelled, set_passport_status (l_passportId l) P_active now db1))"

definition cancelListing ::
  "uuid \<Rightarrow> uuid \<Rightarrow> time \<Rightarrow> trace_db \<Rightarrow> (listing \<times> trace_db) outcome" where
  "cancelListing listingId organisationId now db =
     (case cancelListing_check listingId organisationId db of
        Inl e \<Rightarrow> Inl e
      | Inr l \<Rightarrow> cancelListing_write l now db)"

end
