(* ===== verification/Marketplace_Orders.thy ===== *)
theory Marketplace_Orders
  imports Marketplace_Lots
begin

text \<open>
  \<open>marketplace.service.ts\<close>, second half: placing an order (\<open>makeOffer\<close>), the table of
  order steps and who may take them, the time limits, and the code that moves an order:
  \<open>applyStep\<close>, \<open>closeIfOverdue\<close>, \<open>updateTransaction\<close> and the sweep.

  \<open>updateTransaction\<close> runs two database transactions: the first closes the order if a time
  limit has passed, and stays committed when the second one throws. Its model therefore
  returns the state in both cases.
\<close>

record viewer =
  v_userId :: uuid
  v_role :: user_role
  v_organisationId :: "uuid option"

definition SELLER_ROLES :: "user_role list" where
  "SELLER_ROLES = [Hub_admin, Hub_staff, Supplier]"

definition sellsFor :: "viewer \<Rightarrow> uuid \<Rightarrow> uuid \<Rightarrow> bool" where
  "sellsFor viewer sellerId listingOrganisationId \<longleftrightarrow>
     (if sellerId = v_userId viewer then True
      else v_organisationId viewer = Some listingOrganisationId \<and> v_role viewer \<in> set SELLER_ROLES)"

subsection \<open>Placing an order\<close>

record make_offer_input =
  mo_listingId :: uuid
  mo_quantity :: "int option"
  mo_notes :: "string option"

definition MakeOfferSchema :: "make_offer_input \<Rightarrow> bool" where
  "MakeOfferSchema i \<longleftrightarrow>
     (case mo_quantity i of None \<Rightarrow> True | Some q \<Rightarrow> 0 < q \<and> q \<le> MAX_LOT_QUANTITY)
     \<and> (case mo_notes i of None \<Rightarrow> True | Some n \<Rightarrow> length n \<le> 500)"

definition HOUR_MS :: int where "HOUR_MS = 60 * 60 * 1000"
definition RESPONSE_WINDOW_MS :: int where "RESPONSE_WINDOW_MS = ORDER_RESPONSE_HOURS * HOUR_MS"
definition DISPUTE_WINDOW_MS :: int where
  "DISPUTE_WINDOW_MS = ORDER_PROBLEM_WINDOW_HOURS * HOUR_MS"

text \<open>The quantity an offer takes, when the rules of the lot allow one.\<close>

definition offer_quantity :: "make_offer_input \<Rightarrow> listing \<Rightarrow> int \<Rightarrow> int outcome" where
  "offer_quantity input listing orderable =
     (let available = l_quantityAvailable listing;
          quantity = or_keep (mo_quantity input) (min (l_minOrderQuantity listing) orderable)
      in if orderable < available \<and> orderable < 1 then Inl (ConflictError Last_unit_kept)
         else if orderable < available \<and> quantity > orderable then
           Inl (ConflictError (Last_unit_order_up_to orderable))
         else if quantity > available then Inl (ConflictError (Only_left available))
         else if quantity < l_minOrderQuantity listing \<and> quantity < orderable then
           Inl (ValidationError (Below_minimum (l_minOrderQuantity listing)))
         else if l_pricePence listing * quantity > MAX_AMOUNT_PENCE then
           Inl (ValidationError Total_too_large)
         else Inr quantity)"

definition listing_open_to :: "viewer \<Rightarrow> listing \<Rightarrow> time \<Rightarrow> unit outcome" where
  "listing_open_to buyer listing now =
     (if l_status listing \<noteq> L_active then
        Inl (ConflictError (Listing_not_available (l_status listing)))
      else if l_sellerId listing = v_userId buyer
              \<or> v_organisationId buyer = Some (l_organisationId listing) then
        Inl (ForbiddenError Own_organisations_listing)
      else if (case l_expiresAt listing of None \<Rightarrow> False | Some d \<Rightarrow> d < now) then
        Inl (ConflictError Listing_has_expired)
      else Inr ())"

definition new_order ::
  "uuid \<Rightarrow> listing \<Rightarrow> viewer \<Rightarrow> int \<Rightarrow> string option \<Rightarrow> time \<Rightarrow> order" where
  "new_order newId listing buyer quantity notes now =
     \<lparr> t_id = newId,
       t_listingId = l_id listing,
       t_buyerId = v_userId buyer,
       t_sellerId = l_sellerId listing,
       t_quantity = quantity,
       t_legacyWholeLot = False,
       t_amountPence = l_pricePence listing * quantity,
       t_status = T_pending,
       t_disputeDeadline = None,
       t_responseDeadline = Some (now + RESPONSE_WINDOW_MS),
       t_blockchainTxHash = None,
       t_notes = notes,
       t_createdAt = now \<rparr>"

definition placed_event :: "uuid \<Rightarrow> viewer \<Rightarrow> string option \<Rightarrow> time \<Rightarrow> order_event" where
  "placed_event transactionId buyer notes now =
     \<lparr> e_transactionId = transactionId,
       e_action = Placed,
       e_fromStatus = None,
       e_toStatus = T_pending,
       e_actorId = Some (v_userId buyer),
       e_actorSide = By_buyer,
       e_note = notes,
       e_createdAt = now \<rparr>"

definition insert_order :: "order \<Rightarrow> trace_db \<Rightarrow> (order \<times> trace_db) outcome" where
  "insert_order t db =
     (if find_order (t_id t) db \<noteq> None \<or> \<not> order_row_ok t then Inl DbError
      else Inr (t, transactions_update (insert_row t) db))"

definition makeOffer ::
  "make_offer_input \<Rightarrow> viewer \<Rightarrow> bool \<Rightarrow> uuid \<Rightarrow> time \<Rightarrow> trace_db \<Rightarrow> (order \<times> trace_db) outcome" where
  "makeOffer input buyer keepLastCuratedUnit newId now db =
     (case find_listing (mo_listingId input) db of
        None \<Rightarrow> Inl (NotFoundError R_listing (Some (mo_listingId input)))
      | Some listing \<Rightarrow>
          case listing_open_to buyer listing now of
            Inl e \<Rightarrow> Inl e
          | Inr _ \<Rightarrow>
              let attributes = (case find_passport (l_passportId listing) db of
                                  None \<Rightarrow> JNull | Some p \<Rightarrow> p_customAttributes p);
                  orderable = orderableQuantity (l_quantityAvailable listing) attributes
                                keepLastCuratedUnit
              in case offer_quantity input listing orderable of
                   Inl e \<Rightarrow> Inl e
                 | Inr quantity \<Rightarrow>
                     case insert_order
                            (new_order newId listing buyer quantity (mo_notes input) now) db of
                       Inl e \<Rightarrow> Inl e
                     | Inr (transaction, db1) \<Rightarrow>
                         let db2 = orderEvents_update
                               (insert_row (placed_event newId buyer (mo_notes input) now)) db1
                         in case settleLot listing (l_quantityAvailable listing - quantity)
                                   no_changes False now db2 of
                              Inl e \<Rightarrow> Inl e
                            | Inr (_, db3) \<Rightarrow> Inr (transaction, db3))"

subsection \<open>The order steps\<close>

text \<open>\<open>TRANSITIONS\<close>: the statuses a step starts from, the one it ends in, and who takes it.\<close>

fun step_from :: "order_action \<Rightarrow> order_status list" where
  "step_from Accept = [T_pending]"
| "step_from Reject = [T_pending]"
| "step_from Cancel = [T_pending, T_confirmed]"
| "step_from Confirm_delivery = [T_confirmed]"
| "step_from Flag_dispute = [T_confirmed]"
| "step_from Resolve_dispute = [T_disputed]"

fun step_to :: "order_action \<Rightarrow> order_status" where
  "step_to Accept = T_confirmed"
| "step_to Reject = T_cancelled"
| "step_to Cancel = T_cancelled"
| "step_to Confirm_delivery = T_completed"
| "step_to Flag_dispute = T_disputed"
| "step_to Resolve_dispute = T_resolved"

fun step_by :: "order_action \<Rightarrow> order_side" where
  "step_by Accept = Side_seller"
| "step_by Reject = Side_seller"
| "step_by Cancel = Side_party"
| "step_by Confirm_delivery = Side_buyer"
| "step_by Flag_dispute = Side_buyer"
| "step_by Resolve_dispute = Side_platform_admin"

definition ORDER_ACTIONS :: "order_action list" where
  "ORDER_ACTIONS = [Accept, Reject, Cancel, Confirm_delivery, Flag_dispute, Resolve_dispute]"

record standing =
  on_buyer :: bool
  on_seller :: bool
  on_admin :: bool

definition mayAct :: "order_side \<Rightarrow> standing \<Rightarrow> bool" where
  "mayAct side on \<longleftrightarrow>
     (side = Side_buyer \<and> on_buyer on)
     \<or> (side = Side_seller \<and> on_seller on)
     \<or> (side = Side_party \<and> (on_buyer on \<or> on_seller on))
     \<or> (side = Side_platform_admin \<and> on_admin on)"

definition allowedActions :: "order_status \<Rightarrow> standing \<Rightarrow> order_action list" where
  "allowedActions status on =
     filter (\<lambda>action. status \<in> set (step_from action) \<and> mayAct (step_by action) on) ORDER_ACTIONS"

definition standing_of :: "viewer \<Rightarrow> order \<Rightarrow> listing \<Rightarrow> standing" where
  "standing_of viewer order listing =
     \<lparr> on_buyer = (t_buyerId order = v_userId viewer),
       on_seller = sellsFor viewer (t_sellerId order) (l_organisationId listing),
       on_admin = (v_role viewer = Platform_admin) \<rparr>"

subsection \<open>The time limits\<close>

definition responseDeadlineOf :: "order \<Rightarrow> time" where
  "responseDeadlineOf order =
     (case t_responseDeadline order of None \<Rightarrow> t_createdAt order + RESPONSE_WINDOW_MS | Some d \<Rightarrow> d)"

definition timedStep :: "order \<Rightarrow> time \<Rightarrow> (timed_action \<times> order_status) option" where
  "timedStep order now =
     (if t_status order = T_pending \<and> responseDeadlineOf order \<le> now then Some (Lapse, T_cancelled)
      else if t_status order = T_confirmed \<and> past (t_disputeDeadline order) now then
        Some (Auto_complete, T_completed)
      else None)"

text \<open>The same condition in SQL: \<open>coalesce(response_deadline, created_at + 72 hours) <= now\<close>.\<close>

definition overdueAt :: "time \<Rightarrow> order \<Rightarrow> bool" where
  "overdueAt now order \<longleftrightarrow>
     (t_status order = T_pending
       \<and> or_keep (t_responseDeadline order) (t_createdAt order + ORDER_RESPONSE_HOURS * HOUR_MS) \<le> now)
     \<or> (t_status order = T_confirmed
       \<and> (case t_disputeDeadline order of None \<Rightarrow> False | Some d \<Rightarrow> d \<le> now))"

subsection \<open>Moving an order one step\<close>

record order_step =
  st_action :: event_action
  st_to :: order_status
  st_actorId :: "uuid option"
  st_actorSide :: actor_side
  st_note :: "string option"
  st_now :: time

definition moved_order :: "order_step \<Rightarrow> order \<Rightarrow> order" where
  "moved_order step t =
     (let t1 = t\<lparr>t_status := st_to step\<rparr>
      in if st_to step = T_confirmed
         then t1\<lparr>t_disputeDeadline := Some (st_now step + DISPUTE_WINDOW_MS)\<rparr> else t1)"

definition selling_event :: "order \<Rightarrow> uuid \<Rightarrow> uuid option \<Rightarrow> time \<Rightarrow> passport_event" where
  "selling_event order passportId actorId now =
     \<lparr> ev_passportId = passportId,
       ev_eventType = TransactionEvent,
       ev_eventData = JObj
         [(''action'', JStr ''ADD''),
          (''bizStep'', JStr ''urn:epcglobal:cbv:bizstep:selling''),
          (''disposition'', JStr ''urn:epcglobal:cbv:disp:sold''),
          (''transactionId'', JUuid (t_id order)),
          (''buyerId'', JUuid (t_buyerId order)),
          (''quantity'', JInt (t_quantity order)),
          (''amountPence'', JInt (t_amountPence order))],
       ev_actorId = actorId,
       ev_blockchainTxHash = None,
       ev_createdAt = now \<rparr>"

definition step_event :: "order \<Rightarrow> order_step \<Rightarrow> order_event" where
  "step_event order step =
     \<lparr> e_transactionId = t_id order,
       e_action = st_action step,
       e_fromStatus = Some (t_status order),
       e_toStatus = st_to step,
       e_actorId = st_actorId step,
       e_actorSide = st_actorSide step,
       e_note = st_note step,
       e_createdAt = st_now step \<rparr>"

definition update_order_row ::
  "order \<Rightarrow> order_step \<Rightarrow> trace_db \<Rightarrow> (order \<times> trace_db) outcome" where
  "update_order_row order step db =
     (case find_order (t_id order) db of
        Some row \<Rightarrow>
          if t_status row = t_status order then
            Inr (moved_order step row,
                 transactions_update (update_rows t_id (t_id order) (moved_order step)) db)
          else Inl (ConflictError Order_changed_meanwhile)
      | None \<Rightarrow> Inl (ConflictError Order_changed_meanwhile))"

definition applyStep ::
  "order \<Rightarrow> listing \<Rightarrow> order_step \<Rightarrow> trace_db \<Rightarrow> (order \<times> trace_db) outcome" where
  "applyStep order listing step db =
     (case update_order_row order step db of
        Inl e \<Rightarrow> Inl e
      | Inr (updated, db1) \<Rightarrow>
          let returned = (if st_to step = T_cancelled then t_quantity order else 0)
          in case settleLot listing
                    (min (l_quantity listing) (l_quantityAvailable listing + returned))
                    no_changes False (st_now step) db1 of
               Inl e \<Rightarrow> Inl e
             | Inr (_, db2) \<Rightarrow>
                 let db3 = (if st_to step = T_completed \<or> st_to step = T_resolved
                            then passportEvents_update
                              (insert_row (selling_event order (l_passportId listing)
                                 (st_actorId step) (st_now step))) db2
                            else db2)
                 in Inr (updated, orderEvents_update (insert_row (step_event order step)) db3))"

text \<open>
  One database transaction: find the order and its listing under their locks and, if a
  limit has passed, take its step. A throw rolls back and propagates.
\<close>

definition timed_order_step :: "timed_action \<Rightarrow> order_status \<Rightarrow> time \<Rightarrow> order_step" where
  "timed_order_step action to now =
     \<lparr> st_action = Timed action, st_to = to, st_actorId = None,
       st_actorSide = By_time_limit, st_note = None, st_now = now \<rparr>"

definition closeIfOverdue ::
  "uuid \<Rightarrow> time \<Rightarrow> trace_db \<Rightarrow> (timed_action option \<times> trace_db) outcome" where
  "closeIfOverdue transactionId now db =
     (case find_order transactionId db of
        None \<Rightarrow> Inr (None, db)
      | Some order \<Rightarrow>
          case timedStep order now of
            None \<Rightarrow> Inr (None, db)
          | Some (action, to) \<Rightarrow>
              case find_listing (t_listingId order) db of
                None \<Rightarrow> Inr (None, db)
              | Some listing \<Rightarrow>
                  case applyStep order listing (timed_order_step action to now) db of
                    Inl e \<Rightarrow> Inl e
                  | Inr (_, db1) \<Rightarrow> Inr (Some action, db1))"

subsection \<open>A person's action on an order\<close>

record update_transaction_input =
  ut_action :: order_action
  ut_notes :: "string option"
  ut_outcome :: "dispute_outcome option"

text \<open>
  \<open>UpdateTransactionSchema\<close>: the notes arrive trimmed; flagging and resolving need at least
  five characters, resolving also an outcome. \<open>evidenceUrls\<close> is accepted and never read.
\<close>

definition UpdateTransactionSchema :: "update_transaction_input \<Rightarrow> bool" where
  "UpdateTransactionSchema i \<longleftrightarrow>
     (let notes = or_keep (ut_notes i) ''''; said = (length notes \<ge> 5)
      in length notes \<le> 1000
         \<and> (ut_action i = Flag_dispute \<longrightarrow> said)
         \<and> (ut_action i = Resolve_dispute \<longrightarrow> ut_outcome i \<noteq> None \<and> said))"

definition non_empty :: "string option \<Rightarrow> string option" where
  "non_empty s = (case s of None \<Rightarrow> None | Some t \<Rightarrow> if t = [] then None else Some t)"

definition person_order_step ::
  "update_transaction_input \<Rightarrow> viewer \<Rightarrow> standing \<Rightarrow> time \<Rightarrow> order_step" where
  "person_order_step input viewer on now =
     \<lparr> st_action = Person (ut_action input),
       st_to = (if ut_action input = Resolve_dispute \<and> ut_outcome input = Some Cancel_order
                then T_cancelled else step_to (ut_action input)),
       st_actorId = Some (v_userId viewer),
       st_actorSide = (if on_admin on \<and> step_by (ut_action input) = Side_platform_admin then By_platform
                       else if on_buyer on then By_buyer else By_seller),
       st_note = non_empty (ut_notes input),
       st_now = now \<rparr>"

text \<open>The second transaction of \<open>updateTransaction\<close>, given what the first one did.\<close>

definition updateTransaction_tx ::
  "uuid \<Rightarrow> update_transaction_input \<Rightarrow> viewer \<Rightarrow> timed_action option \<Rightarrow> time \<Rightarrow> trace_db
    \<Rightarrow> (order \<times> trace_db) outcome" where
  "updateTransaction_tx transactionId input viewer timedOut now db =
     (case find_order transactionId db of
        None \<Rightarrow> Inl (NotFoundError R_order (Some transactionId))
      | Some order \<Rightarrow>
          case find_listing (t_listingId order) db of
            None \<Rightarrow> Inl (NotFoundError R_listing (Some (t_listingId order)))
          | Some listing \<Rightarrow>
              let on = standing_of viewer order listing; action = ut_action input
              in if \<not> mayAct (step_by action) on then
                   Inl (ForbiddenError (Only_side_can (step_by action) action))
                 else if t_status order \<notin> set (step_from action) then
                   (case timedOut of
                      Some t \<Rightarrow> Inl (ConflictError (Timed_out t))
                    | None \<Rightarrow> Inl (ConflictError (Cannot_act action (t_status order)
                        (t_status order = T_pending \<and> action = Confirm_delivery))))
                 else applyStep order listing (person_order_step input viewer on now) db)"

definition updateTransaction ::
  "uuid \<Rightarrow> update_transaction_input \<Rightarrow> viewer \<Rightarrow> time \<Rightarrow> trace_db \<Rightarrow> order outcome \<times> trace_db" where
  "updateTransaction transactionId input viewer now db =
     (case closeIfOverdue transactionId now db of
        Inl e \<Rightarrow> (Inl e, db)
      | Inr (timedOut, db1) \<Rightarrow>
          case updateTransaction_tx transactionId input viewer timedOut now db1 of
            Inl e \<Rightarrow> (Inl e, db1)
          | Inr (order, db2) \<Rightarrow> (Inr order, db2))"

subsection \<open>The sweep\<close>

record sweep_result =
  sw_lapsed :: nat
  sw_completed :: nat
  sw_expiredListings :: nat

text \<open>The first loop: close each overdue order in turn; an error ends the sweep.\<close>

fun close_all :: "uuid list \<Rightarrow> time \<Rightarrow> sweep_result \<Rightarrow> trace_db \<Rightarrow> sweep_result outcome \<times> trace_db" where
  "close_all [] now result db = (Inr result, db)"
| "close_all (i # is) now result db =
     (case closeIfOverdue i now db of
        Inl e \<Rightarrow> (Inl e, db)
      | Inr (taken, db1) \<Rightarrow>
          close_all is now
            (case taken of
               None \<Rightarrow> result
             | Some Lapse \<Rightarrow> result\<lparr>sw_lapsed := sw_lapsed result + 1\<rparr>
             | Some Auto_complete \<Rightarrow> result\<lparr>sw_completed := sw_completed result + 1\<rparr>) db1)"

definition expire_listing :: "uuid \<Rightarrow> time \<Rightarrow> trace_db \<Rightarrow> (bool \<times> trace_db) outcome" where
  "expire_listing i now db =
     (case find_listing i db of
        None \<Rightarrow> Inr (False, db)
      | Some l \<Rightarrow>
          if l_status l \<noteq> L_active then Inr (False, db)
          else if \<not> past (l_expiresAt l) now then Inr (False, db)
          else if openOrders i db > 0 then Inr (False, db)
          else case update_listing_row i (\<lambda>r. r\<lparr>l_status := L_expired\<rparr>) db of
                 Inl e \<Rightarrow> Inl e
               | Inr (_, db1) \<Rightarrow> Inr (True, set_passport_status (l_passportId l) P_active now db1))"

fun expire_all :: "uuid list \<Rightarrow> time \<Rightarrow> sweep_result \<Rightarrow> trace_db \<Rightarrow> sweep_result outcome \<times> trace_db" where
  "expire_all [] now result db = (Inr result, db)"
| "expire_all (i # is) now result db =
     (case expire_listing i now db of
        Inl e \<Rightarrow> (Inl e, db)
      | Inr (expired, db1) \<Rightarrow>
          expire_all is now
            (if expired then result\<lparr>sw_expiredListings := sw_expiredListings result + 1\<rparr> else result)
            db1)"

definition due_orders :: "time \<Rightarrow> trace_db \<Rightarrow> uuid list" where
  "due_orders now db = take 500 (map t_id (filter (overdueAt now) (transactions db)))"

definition stale_listings :: "time \<Rightarrow> trace_db \<Rightarrow> uuid list" where
  "stale_listings now db =
     take 500 (map l_id (filter (\<lambda>l. l_status l = L_active \<and> past (l_expiresAt l) now) (listings db)))"

definition sweepOrderLifecycle :: "time \<Rightarrow> trace_db \<Rightarrow> sweep_result outcome \<times> trace_db" where
  "sweepOrderLifecycle now db =
     (case close_all (due_orders now db) now
             \<lparr> sw_lapsed = 0, sw_completed = 0, sw_expiredListings = 0 \<rparr> db of
        (Inl e, db1) \<Rightarrow> (Inl e, db1)
      | (Inr result, db1) \<Rightarrow> expire_all (stale_listings now db1) now result db1)"

end
