(* ===== verification/Invariant_Checker.thy ===== *)
theory Invariant_Checker
  imports Marketplace_Orders
begin

text \<open>
  \<open>packages/db/scripts/lib/invariants.ts\<close>: the rules that must hold of listings, orders and
  passports whatever sequence of actions produced them. The repository runs them read-only
  against a live database; here they are the specification the marketplace is proved
  against. A violation keeps its severity, its rule and the row it is about; the sentence
  that describes it is left out.
\<close>

definition OPEN_ORDER_STATUSES :: "order_status list" where
  "OPEN_ORDER_STATUSES = [T_pending, T_confirmed, T_disputed]"

definition TAKING_ORDER_STATUSES :: "order_status list" where
  "TAKING_ORDER_STATUSES = OPEN_ORDER_STATUSES @ [T_completed, T_resolved]"

definition SWEEP_GRACE_MS :: int where "SWEEP_GRACE_MS = 15 * 60 * 1000"

record passport_row =
  pr_id :: uuid
  pr_productName :: string
  pr_status :: passport_status
  pr_storedHash :: "string option"
  pr_computedHash :: string
  pr_catalogueKey :: "string option"

datatype severity = Sev_error | Sev_warning

datatype rule =
  Stock_range | Stock_sum | Minimum_order | Status_stock | Overdue_listing | Stranded_order
| Passport_status_rule | One_live_listing | Orphan_order | Order_quantity | Overdue_order
| Order_amount | Dispute_window | One_of_each | Stale_fingerprint

datatype subject =
  About_listing uuid | About_order uuid | About_passport string | About_passport_id uuid
| About_catalogue string

record violation =
  vi_severity :: severity
  vi_rule :: rule
  vi_subject :: subject

definition add_if :: "bool \<Rightarrow> severity \<Rightarrow> rule \<Rightarrow> subject \<Rightarrow> violation list" where
  "add_if b s r about = (if b then [\<lparr>vi_severity = s, vi_rule = r, vi_subject = about\<rparr>] else [])"

fun PASSPORT_STATUS_FOR_LISTING :: "listing_status \<Rightarrow> passport_status list option" where
  "PASSPORT_STATUS_FOR_LISTING L_active = Some [P_listed]"
| "PASSPORT_STATUS_FOR_LISTING L_reserved = Some [P_reserved]"
| "PASSPORT_STATUS_FOR_LISTING L_sold = Some [P_sold, P_installed, P_decommissioned]"
| "PASSPORT_STATUS_FOR_LISTING _ = None"

definition isOpen :: "order \<Rightarrow> bool" where
  "isOpen t \<longleftrightarrow> t_status t \<in> set OPEN_ORDER_STATUSES"

definition takes :: "order \<Rightarrow> bool" where
  "takes t \<longleftrightarrow> t_status t \<in> set TAKING_ORDER_STATUSES"

definition late :: "time \<Rightarrow> time option \<Rightarrow> bool" where
  "late now limit \<longleftrightarrow> (case limit of None \<Rightarrow> False | Some d \<Rightarrow> now - d > SWEEP_GRACE_MS)"

text \<open>The rules on one listing, given its orders.\<close>

definition listing_violations ::
  "time \<Rightarrow> order list \<Rightarrow> passport_row option \<Rightarrow> listing \<Rightarrow> violation list" where
  "listing_violations now orders passport l =
     (let subject = About_listing (l_id l);
          open_orders = filter isOpen orders;
          taken = foldl (\<lambda>sum t. sum + t_quantity t) 0 (filter takes orders)
      in add_if (l_quantityAvailable l < 0 \<or> l_quantityAvailable l > l_quantity l)
           Sev_error Stock_range subject
       @ add_if (l_quantityAvailable l \<noteq> l_quantity l - taken) Sev_error Stock_sum subject
       @ add_if (l_minOrderQuantity l < 1 \<or> l_minOrderQuantity l > l_quantity l)
           Sev_error Minimum_order subject
       @ add_if (l_status l = L_active \<and> l_quantityAvailable l = 0) Sev_error Status_stock subject
       @ add_if (l_status l = L_reserved \<and> (l_quantityAvailable l \<noteq> 0 \<or> open_orders = []))
           Sev_error Status_stock subject
       @ add_if (l_status l = L_sold \<and> (l_quantityAvailable l \<noteq> 0 \<or> open_orders \<noteq> []))
           Sev_error Status_stock subject
       @ add_if (l_status l = L_active \<and> open_orders = [] \<and> late now (l_expiresAt l))
           Sev_warning Overdue_listing subject
       @ add_if (l_status l \<in> {L_cancelled, L_expired} \<and> open_orders \<noteq> [])
           Sev_error Stranded_order subject
       @ (case PASSPORT_STATUS_FOR_LISTING (l_status l) of
            None \<Rightarrow> []
          | Some expected \<Rightarrow>
              (case passport of
                 None \<Rightarrow> []
               | Some p \<Rightarrow> add_if (pr_status p \<notin> set expected) Sev_error Passport_status_rule subject)))"

text \<open>The rules on one order.\<close>

definition order_violations :: "time \<Rightarrow> listing list \<Rightarrow> order \<Rightarrow> violation list" where
  "order_violations now ls t =
     (let subject = About_order (t_id t);
          responseDeadline = or_keep (t_responseDeadline t)
                               (t_createdAt t + ORDER_RESPONSE_HOURS * 60 * 60 * 1000)
      in add_if (find_row l_id (t_listingId t) ls = None) Sev_error Orphan_order subject
       @ add_if (t_quantity t < 1) Sev_error Order_quantity subject
       @ add_if (t_status t = T_pending \<and> late now (Some responseDeadline))
           Sev_warning Overdue_order subject
       @ add_if (t_status t = T_confirmed \<and> late now (t_disputeDeadline t))
           Sev_warning Overdue_order subject
       @ add_if (t_amountPence t < 1) Sev_error Order_amount subject
       @ add_if (t_status t \<in> {T_confirmed, T_disputed, T_resolved, T_completed}
                 \<and> t_disputeDeadline t = None) Sev_error Dispute_window subject
       @ (if t_legacyWholeLot t then []
          else add_if (t_status t = T_pending \<and> t_disputeDeadline t \<noteq> None)
                 Sev_error Dispute_window subject
             @ add_if (t_quantity t > 0 \<and> t_amountPence t mod t_quantity t \<noteq> 0)
                 Sev_error Order_amount subject))"

definition passport_violations :: "passport_row \<Rightarrow> violation list" where
  "passport_violations p =
     add_if (case pr_storedHash p of None \<Rightarrow> False
             | Some h \<Rightarrow> h \<noteq> [] \<and> h \<noteq> pr_computedHash p)
       Sev_error Stale_fingerprint (About_passport (pr_productName p))"

text \<open>The rules on groups: one live listing per passport, one passport per catalogue product.\<close>

definition live_groups :: "listing list \<Rightarrow> (uuid \<times> listing list) list" where
  "live_groups ls =
     group_rows l_passportId (filter (\<lambda>l. PASSPORT_STATUS_FOR_LISTING (l_status l) \<noteq> None) ls)"

definition one_live_violations :: "listing list \<Rightarrow> passport_row list \<Rightarrow> violation list" where
  "one_live_violations ls ps =
     concat (map (\<lambda>(pid, live). add_if (length live > 1) Sev_error One_live_listing
         (case find_row pr_id pid ps of
            None \<Rightarrow> About_passport_id pid | Some p \<Rightarrow> About_passport (pr_productName p)))
       (live_groups ls))"

definition one_of_each_violations :: "passport_row list \<Rightarrow> violation list" where
  "one_of_each_violations ps =
     concat (map (\<lambda>(key, group). add_if (length group > 1) Sev_warning One_of_each
         (About_catalogue (case key of None \<Rightarrow> '''' | Some k \<Rightarrow> k)))
       (group_rows pr_catalogueKey
         (filter (\<lambda>p. pr_catalogueKey p \<noteq> None \<and> pr_catalogueKey p \<noteq> Some []) ps)))"

definition checkInvariants ::
  "listing list \<Rightarrow> order list \<Rightarrow> passport_row list \<Rightarrow> time \<Rightarrow> violation list" where
  "checkInvariants ls ts ps now =
     (let ordersByListing = group_rows t_listingId ts
      in concat (map (\<lambda>l. listing_violations now (map_get ordersByListing (l_id l))
                             (find_row pr_id (l_passportId l) ps) l) ls)
       @ one_live_violations ls ps
       @ concat (map (order_violations now ls) ts)
       @ one_of_each_violations ps
       @ concat (map passport_violations ps))"

text \<open>
  \<open>check-invariants.ts\<close>: the passport rows it builds (the fingerprint function and the
  catalogue key are arguments), the errors it reports, and its exit code.
\<close>

definition passport_row_of :: "(passport \<Rightarrow> string) \<Rightarrow> (passport \<Rightarrow> string option) \<Rightarrow> passport \<Rightarrow> passport_row" where
  "passport_row_of fingerprint catalogueKeyOf p =
     \<lparr> pr_id = p_id p, pr_productName = p_productName p, pr_status = p_status p,
       pr_storedHash = p_blockchainPassportHash p, pr_computedHash = fingerprint p,
       pr_catalogueKey = catalogueKeyOf p \<rparr>"

definition check_db ::
  "(passport \<Rightarrow> string) \<Rightarrow> (passport \<Rightarrow> string option) \<Rightarrow> time \<Rightarrow> trace_db \<Rightarrow> violation list" where
  "check_db fingerprint catalogueKeyOf now db =
     checkInvariants (listings db) (transactions db)
       (map (passport_row_of fingerprint catalogueKeyOf) (materialPassports db)) now"

definition errors_of :: "violation list \<Rightarrow> violation list" where
  "errors_of vs = filter (\<lambda>v. vi_severity v = Sev_error) vs"

definition warnings_of :: "violation list \<Rightarrow> violation list" where
  "warnings_of vs = filter (\<lambda>v. vi_severity v = Sev_warning) vs"

definition check_exitCode :: "bool \<Rightarrow> violation list \<Rightarrow> nat" where
  "check_exitCode strict vs =
     (if length (errors_of vs) > 0 \<or> (strict \<and> length (warnings_of vs) > 0) then 1 else 0)"

subsection \<open>Facts about the checker\<close>

lemma errors_of_append: "errors_of (xs @ ys) = errors_of xs @ errors_of ys"
  by (simp add: errors_of_def)

lemma errors_of_Nil [simp]: "errors_of [] = []"
  by (simp add: errors_of_def)

lemma errors_of_concat_empty: "(\<And>x. x \<in> set xs \<Longrightarrow> errors_of (f x) = []) \<Longrightarrow> errors_of (concat (map f xs)) = []"
  by (induction xs) (auto simp: errors_of_append)

lemma errors_of_add_if [simp]:
  "errors_of (add_if b Sev_warning r s) = []"
  "errors_of (add_if b Sev_error r s) = add_if b Sev_error r s"
  by (simp_all add: errors_of_def add_if_def)

lemma add_if_empty [simp]: "add_if b s r a = [] \<longleftrightarrow> \<not> b"
  by (simp add: add_if_def)

lemma one_of_each_warnings: "errors_of (one_of_each_violations ps) = []"
  unfolding one_of_each_violations_def by (rule errors_of_concat_empty) (auto split: prod.splits)

lemma vi_rule_add_if: "v \<in> set (add_if b s r a) \<Longrightarrow> vi_rule v = r \<and> vi_severity v = s \<and> b"
  by (auto simp: add_if_def split: if_splits)

end
