(* ===== verification/Marketplace_Safety.thy ===== *)
theory Marketplace_Safety
  imports Invariant_Checker
begin

text \<open>
  The inductive invariant of the marketplace and its preservation by every operation.

  \<open>market_ok\<close> says, of every listing, that its terms are in range, its stock is the lot less
  what orders take, its status is the one its stock and open orders imply and its
  passport's status agrees; of every order, that its listing exists and its amount and
  deadlines fit; and that a passport has at most one live listing. Every operation first
  breaks and then repairs it for one lot, so the work is in \<open>market_but i\<close> (the invariant
  with lot \<open>i\<close> left out) and in \<open>settleLot_restores\<close>.
\<close>

subsection \<open>The invariant\<close>

definition live :: "listing \<Rightarrow> bool" where
  "live l \<longleftrightarrow> l_status l \<in> {L_active, L_reserved, L_sold}"

definition taken_share :: "uuid \<Rightarrow> order \<Rightarrow> int" where
  "taken_share i t = (if t_listingId t = i \<and> takes t then t_quantity t else 0)"

definition open_share :: "uuid \<Rightarrow> order \<Rightarrow> int" where
  "open_share i t = (if t_listingId t = i \<and> isOpen t then 1 else 0)"

definition taken :: "uuid \<Rightarrow> trace_db \<Rightarrow> int" where
  "taken i db = (\<Sum>t\<leftarrow>transactions db. taken_share i t)"

definition terms_ok :: "listing \<Rightarrow> bool" where
  "terms_ok l \<longleftrightarrow> 1 \<le> l_pricePence l \<and> l_pricePence l \<le> MAX_AMOUNT_PENCE
     \<and> 1 \<le> l_quantity l \<and> l_quantity l \<le> MAX_LOT_QUANTITY
     \<and> 1 \<le> l_minOrderQuantity l \<and> l_minOrderQuantity l \<le> MAX_LOT_QUANTITY"

definition stock_ok :: "trace_db \<Rightarrow> listing \<Rightarrow> bool" where
  "stock_ok db l \<longleftrightarrow>
     l_quantityAvailable l = l_quantity l - taken (l_id l) db \<and> 0 \<le> l_quantityAvailable l"

definition status_ok :: "trace_db \<Rightarrow> listing \<Rightarrow> bool" where
  "status_ok db l \<longleftrightarrow>
     (if live l then l_status l = lotStatus (l_quantityAvailable l) (openOrders (l_id l) db)
      else openOrders (l_id l) db = 0)"

definition passport_agrees :: "trace_db \<Rightarrow> listing \<Rightarrow> bool" where
  "passport_agrees db l \<longleftrightarrow> (live l \<longrightarrow>
     map_option p_status (find_passport (l_passportId l) db) = passport_status_for_lot (l_status l))"

definition listing_ok :: "trace_db \<Rightarrow> listing \<Rightarrow> bool" where
  "listing_ok db l \<longleftrightarrow> terms_ok l \<and> stock_ok db l \<and> status_ok db l \<and> passport_agrees db l"

definition order_fits :: "order \<Rightarrow> bool" where
  "order_fits t \<longleftrightarrow>
     1 \<le> t_quantity t \<and> t_quantity t \<le> MAX_LOT_QUANTITY
     \<and> 1 \<le> t_amountPence t \<and> t_amountPence t \<le> MAX_AMOUNT_PENCE
     \<and> (t_status t \<in> {T_confirmed, T_disputed, T_resolved, T_completed}
          \<longrightarrow> t_disputeDeadline t \<noteq> None)
     \<and> (\<not> t_legacyWholeLot t \<longrightarrow>
          (t_status t = T_pending \<longrightarrow> t_disputeDeadline t = None)
          \<and> t_amountPence t mod t_quantity t = 0)"

definition order_ok :: "trace_db \<Rightarrow> order \<Rightarrow> bool" where
  "order_ok db t \<longleftrightarrow> find_listing (t_listingId t) db \<noteq> None \<and> order_fits t"

definition keys_ok :: "trace_db \<Rightarrow> bool" where
  "keys_ok db \<longleftrightarrow> distinct (map l_id (listings db)) \<and> distinct (map t_id (transactions db))
     \<and> distinct (map p_id (materialPassports db))"

definition market_but :: "uuid \<Rightarrow> trace_db \<Rightarrow> bool" where
  "market_but i db \<longleftrightarrow> keys_ok db
     \<and> (\<forall>l \<in> set (listings db). l_id l \<noteq> i \<longrightarrow> listing_ok db l)
     \<and> (\<forall>t \<in> set (transactions db). order_ok db t)
     \<and> (\<forall>l \<in> set (listings db). \<forall>l' \<in> set (listings db).
          l_id l \<noteq> i \<and> l_id l' \<noteq> i \<and> live l \<and> live l' \<and> l_passportId l = l_passportId l'
          \<longrightarrow> l_id l = l_id l')"

definition exclusive :: "trace_db \<Rightarrow> bool" where
  "exclusive db \<longleftrightarrow> (\<forall>l \<in> set (listings db). \<forall>l' \<in> set (listings db).
     live l \<and> live l' \<and> l_passportId l = l_passportId l' \<longrightarrow> l_id l = l_id l')"

definition market_ok :: "trace_db \<Rightarrow> bool" where
  "market_ok db \<longleftrightarrow> keys_ok db
     \<and> (\<forall>l \<in> set (listings db). listing_ok db l)
     \<and> (\<forall>t \<in> set (transactions db). order_ok db t)
     \<and> exclusive db"

lemmas market_defs = market_ok_def market_but_def exclusive_def listing_ok_def order_ok_def keys_ok_def

lemma market_but_weaken: "market_ok db \<Longrightarrow> market_but i db"
  unfolding market_ok_def market_but_def exclusive_def by blast

subsection \<open>Orders and lots\<close>

lemma open_statuses [simp]:
  "set OPEN_TRANSACTION_STATUSES = {T_pending, T_confirmed, T_disputed}"
  "set OPEN_ORDER_STATUSES = {T_pending, T_confirmed, T_disputed}"
  by (auto simp: OPEN_TRANSACTION_STATUSES_def OPEN_ORDER_STATUSES_def)

lemma takes_iff: "takes t \<longleftrightarrow> t_status t \<noteq> T_cancelled"
  by (cases "t_status t") (auto simp: takes_def TAKING_ORDER_STATUSES_def)

lemma isOpen_takes: "isOpen t \<Longrightarrow> takes t"
  by (auto simp: isOpen_def takes_iff)

lemma openOrders_sum: "int (openOrders i db) = (\<Sum>t\<leftarrow>transactions db. open_share i t)"
  by (simp add: openOrders_def length_filter_sum open_share_def isOpen_def)

lemma openOrders_frame [simp]:
  "openOrders i (listings_update f db) = openOrders i db"
  "openOrders i (materialPassports_update g db) = openOrders i db"
  "openOrders i (passportEvents_update h db) = openOrders i db"
  "openOrders i (orderEvents_update k db) = openOrders i db"
  by (simp_all add: openOrders_def)

lemma taken_frame [simp]:
  "taken i (listings_update f db) = taken i db"
  "taken i (materialPassports_update g db) = taken i db"
  "taken i (passportEvents_update h db) = taken i db"
  "taken i (orderEvents_update k db) = taken i db"
  by (simp_all add: taken_def)

lemma taken_nonneg: "\<forall>t \<in> set (transactions db). order_ok db t \<Longrightarrow> 0 \<le> taken i db"
  unfolding taken_def by (rule sum_list_nonneg) (auto simp: taken_share_def order_ok_def order_fits_def)

lemma set_passport_status_frame [simp]:
  "listings (set_passport_status p s n db) = listings db"
  "transactions (set_passport_status p s n db) = transactions db"
  "orderEvents (set_passport_status p s n db) = orderEvents db"
  "openOrders i (set_passport_status p s n db) = openOrders i db"
  "taken i (set_passport_status p s n db) = taken i db"
  by (simp_all add: set_passport_status_def)

lemma passport_after_status:
  "map_option p_status (find_passport q (set_passport_status p s n db))
    = (if q = p then map_option (\<lambda>_. s) (find_passport p db)
       else map_option p_status (find_passport q db))"
  unfolding set_passport_status_def
  by (subst passport_tbl.find_after_update) (auto simp: option.map_comp comp_def)

lemma passport_ids_after_status [simp]:
  "map p_id (materialPassports (set_passport_status p s n db)) = map p_id (materialPassports db)"
  unfolding set_passport_status_def by (rule passport_tbl.keys_after_update) simp

lemma listing_unique:
  assumes "keys_ok db" and "l \<in> set (listings db)"
  shows "find_listing (l_id l) db = Some l"
  using assms by (auto simp: keys_ok_def intro: find_row_distinct)

lemma listing_found: "find_listing i db = Some l \<Longrightarrow> l \<in> set (listings db) \<and> l_id l = i"
  by (rule find_row_SomeD)

lemma settled_row_simps [simp]:
  "l_id (settled_row c q s l) = l_id l"
  "l_passportId (settled_row c q s l) = l_passportId l"
  "l_organisationId (settled_row c q s l) = l_organisationId l"
  "l_status (settled_row c q s l) = s"
  "l_quantityAvailable (settled_row c q s l) = q"
  "l_quantity (settled_row c q s l) = or_keep (lp_quantity c) (l_quantity l)"
  "l_pricePence (settled_row c q s l) = or_keep (lp_pricePence c) (l_pricePence l)"
  "l_minOrderQuantity (settled_row c q s l) = or_keep (lp_minOrderQuantity c) (l_minOrderQuantity l)"
  by (simp_all add: settled_row_def apply_patch_def)

lemma no_changes_simps [simp]:
  "lp_quantity no_changes = None" "lp_pricePence no_changes = None"
  "lp_minOrderQuantity no_changes = None"
  by (simp_all add: no_changes_def)

lemma lotStatus_live: "lotStatus q n \<in> {L_active, L_reserved, L_sold}"
  by (simp add: lotStatus_def)

lemma passport_status_for_live: "s \<in> {L_active, L_reserved, L_sold} \<Longrightarrow> passport_status_for_lot s \<noteq> None"
  by auto

lemma listing_row_ok_of:
  "terms_ok l \<Longrightarrow> 0 \<le> l_quantityAvailable l \<Longrightarrow> l_quantityAvailable l \<le> l_quantity l \<Longrightarrow> listing_row_ok l"
  by (auto simp: terms_ok_def listing_row_ok_def int4_def INT4_MAX_def MAX_AMOUNT_PENCE_def
      MAX_LOT_QUANTITY_def)

subsection \<open>Settling a lot repairs the invariant\<close>

definition settled_status :: "listing \<Rightarrow> int \<Rightarrow> bool \<Rightarrow> trace_db \<Rightarrow> listing_status" where
  "settled_status l q reopen db =
     (if reopen \<or> live l then lotStatus q (openOrders (l_id l) db) else l_status l)"

definition settled_db :: "listing \<Rightarrow> int \<Rightarrow> listing_patch \<Rightarrow> bool \<Rightarrow> time \<Rightarrow> trace_db \<Rightarrow> trace_db" where
  "settled_db l q ch reopen now db =
     (let st = settled_status l q reopen db;
          db1 = listings_update (update_rows l_id (l_id l) (settled_row ch q st)) db
      in if (reopen \<or> live l) \<and> (reopen \<or> st \<noteq> l_status l)
         then set_passport_status (l_passportId l) (the (passport_status_for_lot st)) now db1
         else db1)"

lemma settled_status_live: "reopen \<or> live l \<Longrightarrow> settled_status l q reopen db \<in> {L_active, L_reserved, L_sold}"
  using lotStatus_live by (simp add: settled_status_def)

lemma settleLot_eq:
  assumes "find_listing (l_id l) db = Some l"
    and "listing_row_ok (settled_row ch q (settled_status l q reopen db) l)"
  shows "settleLot l q ch reopen now db
    = Inr (settled_row ch q (settled_status l q reopen db) l, settled_db l q ch reopen now db)"
proof -
  have st: "(if reopen \<or> live l then lotStatus q (openOrders (l_id l) db) else l_status l)
      = settled_status l q reopen db"
    by (simp add: settled_status_def)
  show ?thesis
  proof (cases "(reopen \<or> live l) \<and> (reopen \<or> settled_status l q reopen db \<noteq> l_status l)")
    case True
    then obtain ps where "passport_status_for_lot (settled_status l q reopen db) = Some ps"
      using settled_status_live passport_status_for_live by blast
    with True assms show ?thesis
      unfolding settleLot_def update_listing_row_def settled_db_def Let_def live_def [symmetric] st
      by (simp only: option.simps sum.case prod.case if_True if_False HOL.simp_thms option.sel)
  next
    case False
    with assms show ?thesis
      unfolding settleLot_def update_listing_row_def settled_db_def Let_def live_def [symmetric] st
      by (simp only: option.simps sum.case prod.case if_True if_False HOL.simp_thms)
  qed
qed

lemma settled_db_frame [simp]:
  "transactions (settled_db l q ch reopen now db) = transactions db"
  "orderEvents (settled_db l q ch reopen now db) = orderEvents db"
  "openOrders i (settled_db l q ch reopen now db) = openOrders i db"
  "taken i (settled_db l q ch reopen now db) = taken i db"
  "map p_id (materialPassports (settled_db l q ch reopen now db)) = map p_id (materialPassports db)"
  by (simp_all add: settled_db_def Let_def)

lemma listings_settled_db:
  "listings (settled_db l q ch reopen now db)
    = update_rows l_id (l_id l) (settled_row ch q (settled_status l q reopen db)) (listings db)"
  by (simp add: settled_db_def Let_def)

lemma passport_settled_db:
  "map_option p_status (find_passport p (settled_db l q ch reopen now db))
    = (if p = l_passportId l \<and> (reopen \<or> live l) \<and> (reopen \<or> settled_status l q reopen db \<noteq> l_status l)
       then map_option (\<lambda>_. the (passport_status_for_lot (settled_status l q reopen db)))
              (find_passport p db)
       else map_option p_status (find_passport p db))"
  by (auto simp: settled_db_def Let_def passport_after_status)

text \<open>
  What the caller has to know of lot \<open>i\<close> before it is settled: the terms and the stock it is
  given fit, and its old status agreed with its passport.
\<close>

definition settle_ready :: "listing \<Rightarrow> int \<Rightarrow> listing_patch \<Rightarrow> bool \<Rightarrow> trace_db \<Rightarrow> bool" where
  "settle_ready l q ch reopen db \<longleftrightarrow>
     find_listing (l_id l) db = Some l
     \<and> terms_ok (settled_row ch q (l_status l) l)
     \<and> q = or_keep (lp_quantity ch) (l_quantity l) - taken (l_id l) db \<and> 0 \<le> q
     \<and> (\<not> live l \<and> \<not> reopen \<longrightarrow> openOrders (l_id l) db = 0)
     \<and> passport_agrees db l
     \<and> (reopen \<longrightarrow> find_passport (l_passportId l) db \<noteq> None)
     \<and> (live l \<or> reopen \<longrightarrow> (\<forall>l2 \<in> set (listings db).
          l_id l2 \<noteq> l_id l \<and> l_passportId l2 = l_passportId l \<longrightarrow> \<not> live l2))"

lemma settle_readyD:
  assumes "settle_ready l q ch reopen db"
  shows "find_listing (l_id l) db = Some l"
    and "terms_ok (settled_row ch q s l)"
    and "q = or_keep (lp_quantity ch) (l_quantity l) - taken (l_id l) db" and "0 \<le> q"
    and "\<not> live l \<Longrightarrow> \<not> reopen \<Longrightarrow> openOrders (l_id l) db = 0"
    and "passport_agrees db l"
    and "reopen \<Longrightarrow> find_passport (l_passportId l) db \<noteq> None"
    and "live l \<or> reopen \<Longrightarrow> l2 \<in> set (listings db) \<Longrightarrow> l_id l2 \<noteq> l_id l
      \<Longrightarrow> l_passportId l2 = l_passportId l \<Longrightarrow> \<not> live l2"
  using assms unfolding settle_ready_def by (simp_all add: terms_ok_def)

lemma settle_ready_row:
  assumes "settle_ready l q ch reopen db" and "market_but (l_id l) db"
  shows "listing_row_ok (settled_row ch q s l)"
proof (rule listing_row_ok_of)
  show "terms_ok (settled_row ch q s l)"
    using assms(1) by (simp add: settle_ready_def terms_ok_def)
  have "0 \<le> taken (l_id l) db"
    using assms(2) by (intro taken_nonneg) (simp add: market_but_def)
  then show "0 \<le> l_quantityAvailable (settled_row ch q s l)"
    and "l_quantityAvailable (settled_row ch q s l) \<le> l_quantity (settled_row ch q s l)"
    using assms(1) by (auto simp: settle_ready_def)
qed

lemma settled_live: "live (settled_row ch q (settled_status l q reopen db) l) \<longleftrightarrow> reopen \<or> live l"
  using settled_status_live [of reopen l q db] by (auto simp: live_def settled_status_def)

lemma settled_listing_ok:
  assumes ready: "settle_ready l q ch reopen db"
  shows "listing_ok (settled_db l q ch reopen now db) (settled_row ch q (settled_status l q reopen db) l)"
proof -
  let ?st = "settled_status l q reopen db"
  let ?db = "settled_db l q ch reopen now db"
  let ?row = "settled_row ch q ?st l"
  have "terms_ok ?row" by (rule settle_readyD(2) [OF ready])
  moreover have "stock_ok ?db ?row"
    using settle_readyD(3,4) [OF ready] by (simp add: stock_ok_def)
  moreover have "status_ok ?db ?row"
    using settle_readyD(5) [OF ready] unfolding status_ok_def settled_live
    by (simp add: settled_status_def)
  moreover have "passport_agrees ?db ?row"
    unfolding passport_agrees_def settled_live
  proof
    assume lr: "reopen \<or> live l"
    obtain ps where ps: "passport_status_for_lot ?st = Some ps"
      using settled_status_live [OF lr] passport_status_for_live by blast
    have old: "live l \<Longrightarrow> map_option p_status (find_passport (l_passportId l) db)
        = passport_status_for_lot (l_status l)"
      using settle_readyD(6) [OF ready] by (simp add: passport_agrees_def)
    have "live l \<Longrightarrow> passport_status_for_lot (l_status l) \<noteq> None"
      by (rule passport_status_for_live) (simp add: live_def)
    with lr old settle_readyD(7) [OF ready] obtain p where p: "find_passport (l_passportId l) db = Some p"
      by fastforce
    show "map_option p_status (find_passport (l_passportId ?row) ?db)
        = passport_status_for_lot (l_status ?row)"
    proof (cases "reopen \<or> ?st \<noteq> l_status l")
      case True
      with lr p ps show ?thesis by (simp add: passport_settled_db)
    next
      case False
      with lr have "live l" and "?st = l_status l" by auto
      with old show ?thesis using False by (simp add: passport_settled_db)
    qed
  qed
  ultimately show ?thesis by (simp add: listing_ok_def)
qed

lemma settled_other_ok:
  assumes ready: "settle_ready l q ch reopen db" and r: "r \<in> set (listings db)" "l_id r \<noteq> l_id l"
    and ok: "listing_ok db r"
  shows "listing_ok (settled_db l q ch reopen now db) r"
proof -
  have "passport_agrees (settled_db l q ch reopen now db) r"
    using settle_readyD(8) [OF ready _ r] ok
    by (auto simp: passport_agrees_def passport_settled_db listing_ok_def)
  with ok show ?thesis by (simp add: listing_ok_def stock_ok_def status_ok_def)
qed

lemma settleLot_restores:
  assumes but: "market_but (l_id l) db" and ready: "settle_ready l q ch reopen db"
  shows "settleLot l q ch reopen now db
      = Inr (settled_row ch q (settled_status l q reopen db) l, settled_db l q ch reopen now db)"
    and "market_ok (settled_db l q ch reopen now db)"
proof -
  let ?st = "settled_status l q reopen db"
  let ?db = "settled_db l q ch reopen now db"
  have found: "find_listing (l_id l) db = Some l" using ready by (simp add: settle_ready_def)
  show "settleLot l q ch reopen now db = Inr (settled_row ch q ?st l, ?db)"
    by (rule settleLot_eq [OF found settle_ready_row [OF ready but]])
  have unique: "r = l" if "r \<in> set (listings db)" "l_id r = l_id l" for r
    using listing_unique [of db r] that found but by (simp add: market_but_def)
  have rows: "r \<in> set (listings ?db) \<Longrightarrow>
      r = settled_row ch q ?st l \<or> (r \<in> set (listings db) \<and> l_id r \<noteq> l_id l)" for r
    using unique by (auto simp: listings_settled_db set_update_rows)
  have "keys_ok ?db"
    using but by (simp add: market_but_def keys_ok_def listings_settled_db map_key_update_rows)
  moreover have "\<forall>r \<in> set (listings ?db). listing_ok ?db r"
    using rows settled_listing_ok [OF ready] settled_other_ok [OF ready] but
    unfolding market_but_def by blast
  moreover have "\<forall>t \<in> set (transactions ?db). order_ok ?db t"
  proof
    fix t assume "t \<in> set (transactions ?db)"
    then have "order_ok db t" using but by (simp add: market_but_def)
    then show "order_ok ?db t"
      by (cases "t_listingId t = l_id l")
        (simp_all add: order_ok_def listings_settled_db find_row_update_same find_row_update_other)
  qed
  moreover have "exclusive ?db"
    unfolding exclusive_def
  proof (intro ballI impI, elim conjE)
    fix a b assume ab: "a \<in> set (listings ?db)" "b \<in> set (listings ?db)"
      and lv: "live a" "live b" and pp: "l_passportId a = l_passportId b"
    from lv rows [OF ab(1)] rows [OF ab(2)] show "l_id a = l_id b"
      using pp settle_readyD(8) [OF ready] but unfolding market_but_def
      by (metis settled_live settled_row_simps(1,2))
  qed
  ultimately show "market_ok ?db" by (simp add: market_ok_def)
qed

subsection \<open>Changing one order\<close>

text \<open>
  The life of an order: the steps of the comment above \<open>TRANSITIONS\<close>, timed ones included.
  Every step climbs a rank, so an order takes at most three steps.
\<close>

inductive order_moves :: "order_status \<Rightarrow> order_status \<Rightarrow> bool" where
  accepted: "order_moves T_pending T_confirmed"
| declined: "order_moves T_pending T_cancelled"
| completed: "order_moves T_confirmed T_completed"
| flagged: "order_moves T_confirmed T_disputed"
| called_off: "order_moves T_confirmed T_cancelled"
| sale_stands: "order_moves T_disputed T_resolved"
| refunded: "order_moves T_disputed T_cancelled"

inductive_simps order_moves_from [simp]:
  "order_moves T_pending b" "order_moves T_confirmed b" "order_moves T_disputed b"
  "order_moves T_resolved b" "order_moves T_completed b" "order_moves T_cancelled b"

fun order_rank :: "order_status \<Rightarrow> nat" where
  "order_rank T_pending = 0"
| "order_rank T_confirmed = 1"
| "order_rank T_disputed = 2"
| "order_rank _ = 3"

interpretation order_life: ranked_lifecycle order_moves order_rank 3
proof
  show "order_moves a b \<Longrightarrow> order_rank a < order_rank b" for a b by (erule order_moves.cases) auto
  show "order_rank a \<le> 3" for a by (cases a) auto
qed

lemma order_moves_open: "order_moves a b \<Longrightarrow> a \<in> {T_pending, T_confirmed, T_disputed}"
  by (erule order_moves.cases) auto

lemma moved_order_simps [simp]:
  "t_id (moved_order step t) = t_id t"
  "t_listingId (moved_order step t) = t_listingId t"
  "t_buyerId (moved_order step t) = t_buyerId t"
  "t_sellerId (moved_order step t) = t_sellerId t"
  "t_quantity (moved_order step t) = t_quantity t"
  "t_amountPence (moved_order step t) = t_amountPence t"
  "t_legacyWholeLot (moved_order step t) = t_legacyWholeLot t"
  "t_status (moved_order step t) = st_to step"
  by (simp_all add: moved_order_def Let_def)

lemma moved_order_fits:
  assumes "order_fits t" and "order_moves (t_status t) (st_to step)"
  shows "order_fits (moved_order step t)"
proof -
  have "st_to step \<noteq> T_pending" using assms(2) by (auto elim: order_moves.cases)
  moreover have "st_to step \<in> {T_disputed, T_resolved, T_completed} \<Longrightarrow> t_disputeDeadline t \<noteq> None"
    using assms by (auto simp: order_fits_def elim: order_moves.cases)
  ultimately show ?thesis
    using assms(1) by (auto simp: order_fits_def moved_order_def Let_def)
qed

lemma market_but_orders:
  assumes ok: "market_ok db"
    and same: "listings db' = listings db" "materialPassports db' = materialPassports db"
    and ids: "distinct (map t_id (transactions db'))"
    and fits: "\<And>t. t \<in> set (transactions db') \<Longrightarrow> order_fits t \<and> find_listing (t_listingId t) db \<noteq> None"
    and others: "\<And>j. j \<noteq> i \<Longrightarrow> taken j db' = taken j db \<and> openOrders j db' = openOrders j db"
  shows "market_but i db'"
proof -
  have "listing_ok db' l" if "l \<in> set (listings db)" "l_id l \<noteq> i" for l
    using ok that others [of "l_id l"]
    by (auto simp: market_ok_def listing_ok_def stock_ok_def status_ok_def passport_agrees_def same)
  moreover have "order_ok db' t" if "t \<in> set (transactions db')" for t
    using fits [OF that] by (simp add: order_ok_def same)
  moreover have "keys_ok db'" using ok ids by (simp add: market_ok_def keys_ok_def same)
  ultimately show ?thesis using ok unfolding market_but_def market_ok_def exclusive_def same by blast
qed

lemma settle_ready_orders:
  assumes ok: "market_ok db" and l: "find_listing (l_id l) db = Some l"
    and same: "listings db' = listings db" "materialPassports db' = materialPassports db"
    and q: "q = l_quantity l - taken (l_id l) db'" "0 \<le> q"
    and closed: "\<not> live l \<Longrightarrow> openOrders (l_id l) db' = 0"
  shows "settle_ready l q no_changes False db'"
proof -
  have lin: "l \<in> set (listings db)" using listing_found [OF l] by simp
  then have lok: "listing_ok db l" using ok by (simp add: market_ok_def)
  have "\<not> live l2" if "live l" "l2 \<in> set (listings db)" "l_id l2 \<noteq> l_id l"
    "l_passportId l2 = l_passportId l" for l2
    using that lin ok unfolding market_ok_def exclusive_def by metis
  then show ?thesis
    using lok l q closed unfolding settle_ready_def same
    by (auto simp: listing_ok_def terms_ok_def passport_agrees_def same)
qed

lemma taken_after_order:
  assumes "distinct (map t_id (transactions db))" and "find_order k db = Some t"
    and "\<And>r. t_id (f r) = t_id r"
  shows "taken j (transactions_update (update_rows t_id k f) db)
    = taken j db - taken_share j t + taken_share j (f t)"
  unfolding taken_def using assms(1,2) by (rule order_tbl.sum_after_update)

lemma openOrders_after_order:
  assumes "distinct (map t_id (transactions db))" and "find_order k db = Some t"
  shows "int (openOrders j (transactions_update (update_rows t_id k f) db))
    = int (openOrders j db) - open_share j t + open_share j (f t)"
  unfolding openOrders_sum using assms by (rule order_tbl.sum_after_update)

text \<open>Applying a legal step never fails, and keeps the invariant.\<close>

definition stepped_db :: "order \<Rightarrow> listing \<Rightarrow> order_step \<Rightarrow> trace_db \<Rightarrow> trace_db" where
  "stepped_db t l step db =
     (let db1 = transactions_update (update_rows t_id (t_id t) (moved_order step)) db;
          db2 = settled_db l (l_quantity l - taken (l_id l) db1) no_changes False (st_now step) db1;
          db3 = (if st_to step = T_completed \<or> st_to step = T_resolved
                 then passportEvents_update
                   (insert_row (selling_event t (l_passportId l) (st_actorId step) (st_now step))) db2
                 else db2)
      in orderEvents_update (insert_row (step_event t step)) db3)"

lemma market_ok_events [simp]:
  "market_ok (orderEvents_update f db) = market_ok db"
  "market_ok (passportEvents_update g db) = market_ok db"
  by (simp_all add: market_ok_def keys_ok_def exclusive_def listing_ok_def stock_ok_def
      status_ok_def passport_agrees_def order_ok_def)

lemma applyStep_ok:
  assumes ok: "market_ok db" and t: "find_order (t_id t) db = Some t"
    and l: "find_listing (t_listingId t) db = Some l"
    and mv: "order_moves (t_status t) (st_to step)"
  shows "applyStep t l step db = Inr (moved_order step t, stepped_db t l step db)"
    and "market_ok (stepped_db t l step db)"
proof -
  let ?db1 = "transactions_update (update_rows t_id (t_id t) (moved_order step)) db"
  let ?q = "l_quantity l - taken (l_id l) ?db1"
  have lid: "l_id l = t_listingId t" "l \<in> set (listings db)" using listing_found [OF l] by auto
  have lok: "listing_ok db l" using ok lid by (simp add: market_ok_def)
  have tin: "t \<in> set (transactions db)" using find_row_SomeD [OF t] by simp
  have tok: "order_ok db t" using ok tin by (simp add: market_ok_def)
  have dis: "distinct (map t_id (transactions db))" using ok by (simp add: market_ok_def keys_ok_def)
  have opn: "isOpen t" using order_moves_open [OF mv] by (simp add: isOpen_def)
  have tk: "taken j ?db1 = taken j db
      - (if j = l_id l \<and> st_to step = T_cancelled then t_quantity t else 0)" for j
    using opn by (subst taken_after_order [OF dis t])
      (auto simp: taken_share_def lid takes_iff isOpen_def)
  have oo: "int (openOrders j ?db1) = int (openOrders j db)
      - (if j = l_id l \<and> \<not> isOpen (moved_order step t) then 1 else 0)" for j
    using opn by (subst openOrders_after_order [OF dis t]) (auto simp: open_share_def lid)
  have other: "taken j ?db1 = taken j db \<and> openOrders j ?db1 = openOrders j db" if "j \<noteq> l_id l" for j
    using tk [of j] oo [of j] that by simp
  have fits: "order_fits r \<and> find_listing (t_listingId r) db \<noteq> None"
    if "r \<in> set (transactions ?db1)" for r
  proof -
    from that obtain r0 where r0: "r0 \<in> set (transactions db)"
      "r = (if t_id r0 = t_id t then moved_order step r0 else r0)"
      by (auto simp: set_update_rows)
    have "order_ok db r0" using r0(1) ok by (simp add: market_ok_def)
    moreover have "t_id r0 = t_id t \<Longrightarrow> r0 = t"
      using find_row_distinct [OF dis r0(1)] t by (metis option.inject)
    ultimately show ?thesis using r0(2) moved_order_fits [OF _ mv] by (auto simp: order_ok_def)
  qed
  have but: "market_but (l_id l) ?db1"
    by (rule market_but_orders [OF ok _ _ _ fits other])
      (auto simp: map_key_update_rows dis)
  have tn: "0 \<le> taken (l_id l) ?db1"
    using but by (intro taken_nonneg) (simp add: market_but_def)
  have stock: "l_quantityAvailable l = l_quantity l - taken (l_id l) db" "0 \<le> l_quantityAvailable l"
    using lok by (auto simp: listing_ok_def stock_ok_def)
  have q0: "0 \<le> ?q" using tk [of "l_id l"] stock tok by (auto simp: order_ok_def order_fits_def)
  have live_l: "live l"
  proof (rule ccontr)
    assume "\<not> live l"
    then have "openOrders (l_id l) db = 0" using lok by (simp add: listing_ok_def status_ok_def)
    then show False using tin opn lid by (auto simp: openOrders_def isOpen_def filter_empty_conv)
  qed
  have ready: "settle_ready l ?q no_changes False ?db1"
    by (rule settle_ready_orders [OF ok]) (use l lid q0 live_l in auto)
  note restores = settleLot_restores [OF but ready]
  have min: "min (l_quantity l)
      (l_quantityAvailable l + (if st_to step = T_cancelled then t_quantity t else 0)) = ?q"
    using tk [of "l_id l"] stock tn by auto
  show "applyStep t l step db = Inr (moved_order step t, stepped_db t l step db)"
    unfolding applyStep_def update_order_row_def stepped_db_def
    by (simp add: t min restores(1) Let_def)
  show "market_ok (stepped_db t l step db)"
    unfolding stepped_db_def using restores(2) by (simp add: Let_def)
qed

end
