(* ===== verification/Marketplace_Operations.thy ===== *)
theory Marketplace_Operations
  imports Marketplace_Safety
begin

text \<open>
  Every operation of \<open>marketplace.service.ts\<close> that changes state, against the invariant of
  \<open>Marketplace_Safety\<close>: for each, what it does on a state that satisfies \<open>market_ok\<close>
  (its refusals, or the exact new state), that it keeps the invariant, and that it never
  fails with an error of the database.
\<close>

subsection \<open>Placing an order\<close>

lemma openOrders_after_insert:
  "int (openOrders j (transactions_update (insert_row t) db)) = int (openOrders j db) + open_share j t"
  unfolding openOrders_sum by (rule order_tbl.sum_after_insert)

lemma taken_after_insert:
  "taken j (transactions_update (insert_row t) db) = taken j db + taken_share j t"
  unfolding taken_def by (rule order_tbl.sum_after_insert)

lemma offer_quantity_bounds:
  assumes "offer_quantity input l orderable = Inr q"
    and "MakeOfferSchema input" and "1 \<le> l_minOrderQuantity l"
    and "0 < l_quantityAvailable l" and "orderable \<le> l_quantityAvailable l"
  shows "1 \<le> q" and "q \<le> l_quantityAvailable l" and "l_pricePence l * q \<le> MAX_AMOUNT_PENCE"
  using assms
  by (auto simp: offer_quantity_def Let_def or_keep_def MakeOfferSchema_def split: if_splits option.splits)

lemma orderable_le: "0 < a \<Longrightarrow> orderableQuantity a c k \<le> a"
  by (simp add: orderableQuantity_def)

definition placed_db :: "make_offer_input \<Rightarrow> viewer \<Rightarrow> uuid \<Rightarrow> time \<Rightarrow> listing \<Rightarrow> int \<Rightarrow> trace_db \<Rightarrow> trace_db" where
  "placed_db input buyer newId now l q db =
     settled_db l (l_quantityAvailable l - q) no_changes False now
       (orderEvents_update (insert_row (placed_event newId buyer (mo_notes input) now))
         (transactions_update (insert_row (new_order newId l buyer q (mo_notes input) now)) db))"

definition offered_attributes :: "listing \<Rightarrow> trace_db \<Rightarrow> json" where
  "offered_attributes l db =
     (case find_passport (l_passportId l) db of None \<Rightarrow> JNull | Some p \<Rightarrow> p_customAttributes p)"

lemma placed_ok:
  assumes ok: "market_ok db" and schema: "MakeOfferSchema input"
    and l: "find_listing (mo_listingId input) db = Some l"
    and opn: "listing_open_to buyer l now = Inr u"
    and q: "offer_quantity input l
        (orderableQuantity (l_quantityAvailable l) (offered_attributes l db) keep) = Inr q"
    and fresh: "find_order newId db = None"
  shows "makeOffer input buyer keep newId now db
      = Inr (new_order newId l buyer q (mo_notes input) now, placed_db input buyer newId now l q db)"
    and "market_ok (placed_db input buyer newId now l q db)"
    and "1 \<le> q"
proof -
  let ?t = "new_order newId l buyer q (mo_notes input) now"
  let ?db1 = "transactions_update (insert_row ?t) db"
  let ?ev = "placed_event newId buyer (mo_notes input) now"
  have lid: "l \<in> set (listings db)" "l_id l = mo_listingId input" using listing_found [OF l] by auto
  have lok: "listing_ok db l" using ok lid by (simp add: market_ok_def)
  have act: "l_status l = L_active" using opn by (simp add: listing_open_to_def split: if_splits)
  have lv: "live l" by (simp add: live_def act)
  have avail: "0 < l_quantityAvailable l"
    using lok lv act by (simp add: listing_ok_def status_ok_def lotStatus_def split: if_splits)
  have terms: "terms_ok l" using lok by (simp add: listing_ok_def)
  note bounds = offer_quantity_bounds [OF q schema _ avail orderable_le [OF avail]]
  have q1: "1 \<le> q" and qa: "q \<le> l_quantityAvailable l" and am: "l_pricePence l * q \<le> MAX_AMOUNT_PENCE"
    using bounds terms by (auto simp: terms_ok_def)
  show "1 \<le> q" by (rule q1)
  have stock: "l_quantityAvailable l = l_quantity l - taken (l_id l) db"
    using lok by (simp add: listing_ok_def stock_ok_def)
  have tn: "0 \<le> taken (l_id l) db" using ok by (intro taken_nonneg) (simp add: market_ok_def)
  have qm: "q \<le> MAX_LOT_QUANTITY" using qa stock tn terms by (simp add: terms_ok_def)
  have "1 * 1 \<le> l_pricePence l * q"
    using q1 terms by (intro mult_mono) (auto simp: terms_ok_def)
  then have am1: "1 \<le> l_pricePence l * q" by simp
  have fit: "order_fits ?t"
    using q1 qm am am1 by (simp add: order_fits_def new_order_def)
  have row: "order_row_ok ?t"
    using fit by (auto simp: order_fits_def order_row_ok_def int4_def INT4_MAX_def
        MAX_AMOUNT_PENCE_def MAX_LOT_QUANTITY_def)
  have share: "taken_share j ?t = (if j = l_id l then q else 0)" for j
    by (simp add: taken_share_def new_order_def takes_iff)
  have tk: "taken j ?db1 = taken j db + (if j = l_id l then q else 0)" for j
    by (simp add: taken_after_insert share)
  have oo: "openOrders j ?db1 = openOrders j db" if "j \<noteq> l_id l" for j
    using openOrders_after_insert [of j ?t db] that by (simp add: open_share_def new_order_def)
  have dis: "distinct (map t_id (transactions ?db1))"
    using ok fresh by (intro order_tbl.keys_distinct_after_insert)
      (simp_all add: market_ok_def keys_ok_def new_order_def)
  have fits: "order_fits r \<and> find_listing (t_listingId r) db \<noteq> None"
    if "r \<in> set (transactions ?db1)" for r
  proof (cases "r = ?t")
    case True
    then show ?thesis using fit l lid by (simp add: new_order_def)
  next
    case False
    then have "r \<in> set (transactions db)" using that by (simp add: insert_row_def)
    then have "order_ok db r" using ok by (simp add: market_ok_def)
    then show ?thesis by (simp add: order_ok_def)
  qed
  let ?db2 = "orderEvents_update (insert_row ?ev) ?db1"
  have but: "market_but (l_id l) ?db2"
    by (rule market_but_orders [OF ok]) (use dis fits tk oo in auto)
  have ready: "settle_ready l (l_quantityAvailable l - q) no_changes False ?db2"
    by (rule settle_ready_orders [OF ok]) (use l lid qa stock tk lv in auto)
  note restores = settleLot_restores [OF but ready]
  show "market_ok (placed_db input buyer newId now l q db)"
    unfolding placed_db_def by (rule restores(2))
  have tid: "t_id ?t = newId" by (simp add: new_order_def)
  show "makeOffer input buyer keep newId now db = Inr (?t, placed_db input buyer newId now l q db)"
    unfolding makeOffer_def placed_db_def insert_order_def Let_def
    using q by (simp add: l opn tid fresh row restores(1) offered_attributes_def Let_def)
qed

text \<open>An offer fails only with one of its own refusals, or succeeds as above.\<close>

lemma makeOffer_cases:
  assumes ok: "market_ok db" and schema: "MakeOfferSchema input" and fresh: "find_order newId db = None"
  shows "(\<exists>e. makeOffer input buyer keep newId now db = Inl e \<and> isTraceError e)
    \<or> (\<exists>l q. find_listing (mo_listingId input) db = Some l \<and> 1 \<le> q
        \<and> makeOffer input buyer keep newId now db
          = Inr (new_order newId l buyer q (mo_notes input) now, placed_db input buyer newId now l q db)
        \<and> market_ok (placed_db input buyer newId now l q db))"
proof (cases "find_listing (mo_listingId input) db")
  case None
  then show ?thesis by (simp add: makeOffer_def)
next
  case (Some l)
  show ?thesis
  proof (cases "listing_open_to buyer l now")
    case (Inl e)
    then have "isTraceError e" by (auto simp: listing_open_to_def split: if_splits)
    then show ?thesis using Inl Some by (simp add: makeOffer_def)
  next
    case (Inr u)
    show ?thesis
    proof (cases "offer_quantity input l
        (orderableQuantity (l_quantityAvailable l) (offered_attributes l db) keep)")
      case (Inl e)
      then have "isTraceError e" by (auto simp: offer_quantity_def Let_def split: if_splits)
      then show ?thesis using Inl Inr Some by (simp add: makeOffer_def offered_attributes_def Let_def)
    next
      case (Inr q)
      show ?thesis using placed_ok [OF ok schema Some \<open>listing_open_to buyer l now = Inr u\<close> Inr fresh] Some
        by blast
    qed
  qed
qed

subsection \<open>Moving an order\<close>

lemma timedStep_moves: "timedStep t now = Some (a, to) \<Longrightarrow> order_moves (t_status t) to"
  by (auto simp: timedStep_def split: if_splits)

lemma order_has_listing:
  assumes "market_ok db" and "find_order i db = Some t"
  obtains l where "find_listing (t_listingId t) db = Some l"
proof -
  have "t \<in> set (transactions db)" using find_row_SomeD [OF assms(2)] by simp
  with assms(1) have "order_ok db t" by (simp add: market_ok_def)
  then show ?thesis using that by (auto simp: order_ok_def)
qed

lemma timed_order_step_to [simp]: "st_to (timed_order_step a to now) = to"
  by (simp add: timed_order_step_def)

text \<open>What \<open>closeIfOverdue\<close> does, as a total function on states that satisfy the invariant.\<close>

lemma closeIfOverdue_due:
  assumes ok: "market_ok db" and t: "find_order i db = Some t" and due: "timedStep t now = Some (a, to)"
  obtains l where "find_listing (t_listingId t) db = Some l"
    and "closeIfOverdue i now db = Inr (Some a, stepped_db t l (timed_order_step a to now) db)"
    and "market_ok (stepped_db t l (timed_order_step a to now) db)"
proof -
  obtain l where l: "find_listing (t_listingId t) db = Some l"
    using order_has_listing [OF ok t] by blast
  have t': "find_order (t_id t) db = Some t" using t find_row_SomeD [OF t] by simp
  note step = applyStep_ok [OF ok t' l, of "timed_order_step a to now"]
  have "closeIfOverdue i now db = Inr (Some a, stepped_db t l (timed_order_step a to now) db)"
    using timedStep_moves [OF due] by (simp add: closeIfOverdue_def t due l step(1))
  then show ?thesis using that l step(2) timedStep_moves [OF due] by simp
qed

lemma closeIfOverdue_not_due:
  assumes "find_order i db = None \<or> (\<exists>t. find_order i db = Some t \<and> timedStep t now = None)"
  shows "closeIfOverdue i now db = Inr (None, db)"
  using assms by (auto simp: closeIfOverdue_def)

lemma closeIfOverdue_ok:
  assumes "market_ok db"
  obtains r db' where "closeIfOverdue i now db = Inr (r, db')" and "market_ok db'"
proof (cases "\<exists>t a to. find_order i db = Some t \<and> timedStep t now = Some (a, to)")
  case True
  then show ?thesis using that closeIfOverdue_due [OF assms] by blast
next
  case False
  then have "closeIfOverdue i now db = Inr (None, db)"
    by (intro closeIfOverdue_not_due) (metis not_Some_eq prod.exhaust_sel)
  then show ?thesis using that assms by blast
qed

lemma person_step_moves:
  "t_status t \<in> set (step_from (ut_action input)) \<Longrightarrow>
    order_moves (t_status t) (st_to (person_order_step input viewer on now))"
  by (cases "ut_action input") (auto simp: person_order_step_def)

lemma updateTransaction_tx_ok:
  assumes ok: "market_ok db"
  shows "(\<exists>e. updateTransaction_tx i input viewer timedOut now db = Inl e \<and> isTraceError e)
    \<or> (\<exists>t l. find_order i db = Some t \<and> find_listing (t_listingId t) db = Some l
        \<and> mayAct (step_by (ut_action input)) (standing_of viewer t l)
        \<and> t_status t \<in> set (step_from (ut_action input))
        \<and> updateTransaction_tx i input viewer timedOut now db
          = Inr (moved_order (person_order_step input viewer (standing_of viewer t l) now) t,
                 stepped_db t l (person_order_step input viewer (standing_of viewer t l) now) db)
        \<and> market_ok (stepped_db t l (person_order_step input viewer (standing_of viewer t l) now) db))"
proof (cases "find_order i db")
  case None
  then show ?thesis by (simp add: updateTransaction_tx_def)
next
  case (Some t)
  obtain l where l: "find_listing (t_listingId t) db = Some l"
    using order_has_listing [OF ok Some] by blast
  let ?on = "standing_of viewer t l"
  show ?thesis
  proof (cases "mayAct (step_by (ut_action input)) ?on \<and> t_status t \<in> set (step_from (ut_action input))")
    case True
    have t': "find_order (t_id t) db = Some t" using Some find_row_SomeD [OF Some] by simp
    have mv: "order_moves (t_status t) (st_to (person_order_step input viewer ?on now))"
      using True by (intro person_step_moves) simp
    show ?thesis
      using applyStep_ok [OF ok t' l mv] True Some l
      by (auto simp: updateTransaction_tx_def Let_def)
  next
    case False
    then show ?thesis using Some l by (auto simp: updateTransaction_tx_def Let_def split: option.splits)
  qed
qed

lemma updateTransaction_keeps:
  assumes ok: "market_ok db"
  shows "market_ok (snd (updateTransaction i input viewer now db))"
    and "fst (updateTransaction i input viewer now db) = Inl e \<Longrightarrow> isTraceError e"
proof -
  obtain r db1 where c: "closeIfOverdue i now db = Inr (r, db1)" and ok1: "market_ok db1"
    using closeIfOverdue_ok [OF ok] by blast
  show "market_ok (snd (updateTransaction i input viewer now db))"
    using updateTransaction_tx_ok [OF ok1, of i input viewer r now] c ok1
    by (auto simp: updateTransaction_def)
  show "isTraceError e" if "fst (updateTransaction i input viewer now db) = Inl e"
    using updateTransaction_tx_ok [OF ok1, of i input viewer r now] c ok1 that
    by (auto simp: updateTransaction_def)
qed

subsection \<open>Closing a lot: cancelled by its seller, expired by the sweep\<close>

definition closed_db :: "listing \<Rightarrow> listing_status \<Rightarrow> time \<Rightarrow> trace_db \<Rightarrow> trace_db" where
  "closed_db l st now db = set_passport_status (l_passportId l) P_active now
     (listings_update (update_rows l_id (l_id l) (\<lambda>r. r\<lparr>l_status := st\<rparr>)) db)"

lemma closed_db_frame [simp]:
  "transactions (closed_db l st now db) = transactions db"
  "openOrders i (closed_db l st now db) = openOrders i db"
  "taken i (closed_db l st now db) = taken i db"
  "listings (closed_db l st now db) = update_rows l_id (l_id l) (\<lambda>r. r\<lparr>l_status := st\<rparr>) (listings db)"
  "map p_id (materialPassports (closed_db l st now db)) = map p_id (materialPassports db)"
  by (simp_all add: closed_db_def)

lemma closed_db_passport:
  "map_option p_status (find_passport q (closed_db l st now db))
    = (if q = l_passportId l then map_option (\<lambda>_. P_active) (find_passport q db)
       else map_option p_status (find_passport q db))"
  by (simp add: closed_db_def passport_after_status)

lemma close_lot_ok:
  assumes ok: "market_ok db" and l: "find_listing (l_id l) db = Some l"
    and st: "st \<in> {L_cancelled, L_expired}" and lv: "live l" and no: "openOrders (l_id l) db = 0"
  shows "update_listing_row (l_id l) (\<lambda>r. r\<lparr>l_status := st\<rparr>) db
      = Inr (l\<lparr>l_status := st\<rparr>, listings_update (update_rows l_id (l_id l) (\<lambda>r. r\<lparr>l_status := st\<rparr>)) db)"
    and "market_ok (closed_db l st now db)"
proof -
  let ?db = "closed_db l st now db"
  have keys: "keys_ok db" using ok by (simp add: market_ok_def)
  have lin: "l \<in> set (listings db)" using listing_found [OF l] by simp
  have lok: "listing_ok db l" using ok lin by (simp add: market_ok_def)
  have tn: "0 \<le> taken (l_id l) db" using ok by (intro taken_nonneg) (simp add: market_ok_def)
  have row: "listing_row_ok (l\<lparr>l_status := st\<rparr>)"
    by (rule listing_row_ok_of) (use lok tn in \<open>auto simp: listing_ok_def terms_ok_def stock_ok_def\<close>)
  show "update_listing_row (l_id l) (\<lambda>r. r\<lparr>l_status := st\<rparr>) db
      = Inr (l\<lparr>l_status := st\<rparr>, listings_update (update_rows l_id (l_id l) (\<lambda>r. r\<lparr>l_status := st\<rparr>)) db)"
    by (simp add: update_listing_row_def l row)
  have unique: "r = l" if "r \<in> set (listings db)" "l_id r = l_id l" for r
    using listing_unique [OF keys that(1)] that(2) l by simp
  have rows: "r \<in> set (listings ?db) \<Longrightarrow>
      r = l\<lparr>l_status := st\<rparr> \<or> (r \<in> set (listings db) \<and> l_id r \<noteq> l_id l)" for r
    using unique by (auto simp: set_update_rows)
  have dead: "\<not> live (l\<lparr>l_status := st\<rparr>)" using st by (auto simp: live_def)
  have closed: "listing_ok ?db (l\<lparr>l_status := st\<rparr>)"
    using lok no dead unfolding listing_ok_def status_ok_def passport_agrees_def
    by (simp add: terms_ok_def stock_ok_def)
  have other: "listing_ok ?db r" if r: "r \<in> set (listings db)" "l_id r \<noteq> l_id l" for r
  proof -
    have rok: "listing_ok db r" using ok r by (simp add: market_ok_def)
    have "live r \<Longrightarrow> l_passportId r \<noteq> l_passportId l"
      using ok r lin lv unfolding market_ok_def exclusive_def by blast
    then show ?thesis using rok
      by (simp add: listing_ok_def stock_ok_def status_ok_def passport_agrees_def closed_db_passport)
  qed
  have "keys_ok ?db" using keys by (simp add: keys_ok_def map_key_update_rows)
  moreover have "\<forall>r \<in> set (listings ?db). listing_ok ?db r"
    using rows closed other by blast
  moreover have "\<forall>t \<in> set (transactions ?db). order_ok ?db t"
  proof
    fix t assume "t \<in> set (transactions ?db)"
    then have "order_ok db t" using ok by (simp add: market_ok_def)
    then show "order_ok ?db t"
      by (cases "t_listingId t = l_id l")
        (simp_all add: order_ok_def find_row_update_same find_row_update_other)
  qed
  moreover have "exclusive ?db"
    unfolding exclusive_def
  proof (intro ballI impI, elim conjE)
    fix a b assume ab: "a \<in> set (listings ?db)" "b \<in> set (listings ?db)"
      and "live a" "live b" and pp: "l_passportId a = l_passportId b"
    then have "a \<in> set (listings db)" "b \<in> set (listings db)" using rows dead by blast+
    then show "l_id a = l_id b" using ok \<open>live a\<close> \<open>live b\<close> pp
      unfolding market_ok_def exclusive_def by blast
  qed
  ultimately show "market_ok ?db" by (simp add: market_ok_def)
qed

subsection \<open>Cancelling a lot\<close>

lemma own_listing_check_ok:
  "own_listing_check i org db = Inr l \<longleftrightarrow> find_listing i db = Some l \<and> l_organisationId l = org"
  by (auto simp: own_listing_check_def split: option.splits)

lemma own_listing_check_refuses: "own_listing_check i org db = Inl e \<Longrightarrow> isTraceError e"
  by (auto simp: own_listing_check_def split: option.splits if_splits)

lemma cancelListing_check_ok:
  "cancelListing_check i org db = Inr l \<longleftrightarrow>
    find_listing i db = Some l \<and> l_organisationId l = org
    \<and> l_status l \<in> {L_active, L_reserved} \<and> openOrders i db = 0"
  by (cases "find_listing i db") (auto simp: cancelListing_check_def own_listing_check_def)

lemma cancelListing_check_refuses: "cancelListing_check i org db = Inl e \<Longrightarrow> isTraceError e"
  by (auto simp: cancelListing_check_def dest: own_listing_check_refuses split: sum.splits if_splits)

lemma cancelListing_ok:
  assumes ok: "market_ok db"
  shows "(\<exists>e. cancelListing i org now db = Inl e \<and> isTraceError e)
    \<or> (\<exists>l. cancelListing_check i org db = Inr l
        \<and> cancelListing i org now db = Inr (l\<lparr>l_status := L_cancelled\<rparr>, closed_db l L_cancelled now db)
        \<and> market_ok (closed_db l L_cancelled now db))"
proof (cases "cancelListing_check i org db")
  case (Inl e)
  then show ?thesis using cancelListing_check_refuses by (simp add: cancelListing_def)
next
  case (Inr l)
  then have l: "find_listing (l_id l) db = Some l" "live l" "openOrders (l_id l) db = 0"
    by (auto simp: cancelListing_check_ok live_def dest: listing_found)
  note closed = close_lot_ok [OF ok l(1) _ l(2,3), of L_cancelled]
  show ?thesis
    using closed Inr by (simp add: cancelListing_def cancelListing_write_def closed_db_def)
qed

subsection \<open>Expiring a lot\<close>

lemma expire_listing_cases:
  assumes ok: "market_ok db"
  shows "expire_listing i now db = Inr (False, db)
    \<or> (\<exists>l. find_listing i db = Some l \<and> l_status l = L_active \<and> past (l_expiresAt l) now
        \<and> openOrders i db = 0
        \<and> expire_listing i now db = Inr (True, closed_db l L_expired now db)
        \<and> market_ok (closed_db l L_expired now db))"
proof (cases "\<exists>l. find_listing i db = Some l \<and> l_status l = L_active \<and> past (l_expiresAt l) now
    \<and> openOrders i db = 0")
  case True
  then obtain l where l: "find_listing i db = Some l" "l_status l = L_active" "past (l_expiresAt l) now"
    "openOrders i db = 0" by blast
  have i: "i = l_id l" using listing_found [OF l(1)] by simp
  have lv: "live l" using l(2) by (simp add: live_def)
  note closed = close_lot_ok [OF ok l(1)[unfolded i] _ lv l(4)[unfolded i], of L_expired]
  show ?thesis
    using closed l i by (simp add: expire_listing_def closed_db_def)
next
  case False
  then show ?thesis by (auto simp: expire_listing_def split: option.splits)
qed

lemma close_all_ok:
  "market_ok db \<Longrightarrow> \<exists>r db'. close_all is now res db = (Inr r, db') \<and> market_ok db'"
proof (induction "is" arbitrary: res db)
  case Nil
  then show ?case by simp
next
  case (Cons i "is")
  obtain a db1 where "closeIfOverdue i now db = Inr (a, db1)" "market_ok db1"
    using closeIfOverdue_ok [OF Cons.prems] by blast
  then show ?case using Cons.IH [of db1] by (simp split: option.splits timed_action.splits)
qed

lemma expire_all_ok:
  "market_ok db \<Longrightarrow> \<exists>r db'. expire_all is now res db = (Inr r, db') \<and> market_ok db'"
proof (induction "is" arbitrary: res db)
  case Nil
  then show ?case by simp
next
  case (Cons i "is")
  from expire_listing_cases [OF Cons.prems, of i now]
  obtain a db1 where "expire_listing i now db = Inr (a, db1)" "market_ok db1"
    using Cons.prems by blast
  then show ?case using Cons.IH [of db1] by simp
qed

lemma sweep_ok:
  assumes "market_ok db"
  shows "\<exists>r db'. sweepOrderLifecycle now db = (Inr r, db') \<and> market_ok db'"
  using close_all_ok [OF assms, of "due_orders now db" now
      "\<lparr> sw_lapsed = 0, sw_completed = 0, sw_expiredListings = 0 \<rparr>"] expire_all_ok
  unfolding sweepOrderLifecycle_def by fastforce

subsection \<open>Creating a listing\<close>

definition listed_db ::
  "create_listing_input \<Rightarrow> uuid \<Rightarrow> uuid \<Rightarrow> uuid \<Rightarrow> time \<Rightarrow> trace_db \<Rightarrow> trace_db" where
  "listed_db input newId sellerId org now db =
     passportEvents_update (insert_row (offering_event (ci_passportId input) newId sellerId now))
       (set_passport_status (ci_passportId input) P_listed now
         (listings_update (insert_row (new_listing input newId sellerId org now)) db))"

lemma listed_db_frame [simp]:
  "transactions (listed_db input newId sellerId org now db) = transactions db"
  "listings (listed_db input newId sellerId org now db)
    = insert_row (new_listing input newId sellerId org now) (listings db)"
  "openOrders i (listed_db input newId sellerId org now db) = openOrders i db"
  "taken i (listed_db input newId sellerId org now db) = taken i db"
  "map p_id (materialPassports (listed_db input newId sellerId org now db)) = map p_id (materialPassports db)"
  by (simp_all add: listed_db_def)

lemma listed_db_passport:
  "map_option p_status (find_passport q (listed_db input newId sellerId org now db))
    = (if q = ci_passportId input then map_option (\<lambda>_. P_listed) (find_passport q db)
       else map_option p_status (find_passport q db))"
  by (simp add: listed_db_def passport_after_status)

lemma new_listing_simps [simp]:
  "l_id (new_listing input i s org now) = i"
  "l_passportId (new_listing input i s org now) = ci_passportId input"
  "l_status (new_listing input i s org now) = L_active"
  "l_quantity (new_listing input i s org now) = ci_quantity input"
  "l_quantityAvailable (new_listing input i s org now) = ci_quantity input"
  "l_organisationId (new_listing input i s org now) = org"
  "l_sellerId (new_listing input i s org now) = s"
  by (simp_all add: new_listing_def)

lemma new_listing_terms: "CreateListingSchema sent input \<Longrightarrow> terms_ok (new_listing input i s org now)"
  by (auto simp: CreateListingSchema_def terms_ok_def new_listing_def)

lemma createListing_check_ok:
  "createListing_check input org db = Inr p \<longleftrightarrow>
    find_passport (ci_passportId input) db = Some p \<and> p_organisationId p = org
    \<and> p_status p \<in> {P_draft, P_active, P_installed} \<and> photos_of p \<noteq> []"
  by (cases "find_passport (ci_passportId input) db"; cases "p_status p")
    (auto simp: createListing_check_def)

lemma createListing_check_refuses: "createListing_check input org db = Inl e \<Longrightarrow> isTraceError e"
  by (auto simp: createListing_check_def split: option.splits if_splits)

lemma no_orders_of_absent:
  assumes ok: "market_ok db" and "find_listing i db = None"
  shows "taken i db = 0" and "openOrders i db = 0"
proof -
  have none: "t_listingId t \<noteq> i" if "t \<in> set (transactions db)" for t
    using that assms by (auto simp: market_ok_def order_ok_def)
  have "map (taken_share i) (transactions db) = map (\<lambda>_. 0) (transactions db)"
    by (rule map_cong) (use none in \<open>simp_all add: taken_share_def\<close>)
  then show "taken i db = 0" by (simp only: taken_def) simp
  show "openOrders i db = 0" using none by (auto simp: openOrders_def filter_empty_conv)
qed

lemma no_live_listing:
  assumes ok: "market_ok db" and p: "find_passport pid db = Some p"
    and "p_status p \<in> {P_draft, P_active, P_installed, P_decommissioned}"
    and l: "l \<in> set (listings db)" "l_passportId l = pid"
  shows "\<not> live l"
proof
  assume lv: "live l"
  have "passport_agrees db l" using ok l by (simp add: market_ok_def listing_ok_def)
  with lv p l have "passport_status_for_lot (l_status l) = Some (p_status p)"
    by (simp add: passport_agrees_def)
  with lv assms(3) show False by (auto simp: live_def)
qed

text \<open>Putting a new lot of a passport on sale, when no lot of it is live.\<close>

definition put_on_sale :: "listing \<Rightarrow> time \<Rightarrow> trace_db \<Rightarrow> trace_db" where
  "put_on_sale l now db =
     set_passport_status (l_passportId l) P_listed now (listings_update (insert_row l) db)"

lemma put_on_sale_frame [simp]:
  "transactions (put_on_sale l now db) = transactions db"
  "listings (put_on_sale l now db) = insert_row l (listings db)"
  "openOrders i (put_on_sale l now db) = openOrders i db"
  "taken i (put_on_sale l now db) = taken i db"
  "map p_id (materialPassports (put_on_sale l now db)) = map p_id (materialPassports db)"
  by (simp_all add: put_on_sale_def)

lemma put_on_sale_passport:
  "map_option p_status (find_passport q (put_on_sale l now db))
    = (if q = l_passportId l then map_option (\<lambda>_. P_listed) (find_passport q db)
       else map_option p_status (find_passport q db))"
  by (simp add: put_on_sale_def passport_after_status)

lemma put_on_sale_ok:
  assumes ok: "market_ok db" and terms: "terms_ok l" and st: "l_status l = L_active"
    and q: "l_quantityAvailable l = l_quantity l" and p: "find_passport (l_passportId l) db \<noteq> None"
    and fresh: "find_listing (l_id l) db = None"
    and alone: "\<And>r. r \<in> set (listings db) \<Longrightarrow> live r \<Longrightarrow> l_passportId r \<noteq> l_passportId l"
  shows "market_ok (put_on_sale l now db)"
proof -
  let ?db = "put_on_sale l now db"
  have find: "find_listing j ?db = (if j = l_id l then Some l else find_listing j db)" for j
    using fresh by (auto simp: find_row_insert split: option.splits)
  have "listing_ok ?db l"
    using terms no_orders_of_absent [OF ok fresh] q p st unfolding listing_ok_def passport_agrees_def
    by (auto simp: stock_ok_def status_ok_def lotStatus_def live_def put_on_sale_passport terms_ok_def)
  moreover have "listing_ok ?db r" if "r \<in> set (listings db)" for r
    using that ok alone [OF that]
    by (auto simp: market_ok_def listing_ok_def stock_ok_def status_ok_def passport_agrees_def
        put_on_sale_passport)
  ultimately have "\<forall>r \<in> set (listings ?db). listing_ok ?db r" by (simp add: insert_row_def)
  moreover have "keys_ok ?db"
    using ok fresh by (auto simp: market_ok_def keys_ok_def insert_row_def find_row_None_iff)
  moreover have "\<forall>t \<in> set (transactions ?db). order_ok ?db t"
    using ok by (auto simp: market_ok_def order_ok_def find simp del: put_on_sale_frame(2))
  moreover have "exclusive ?db"
    unfolding exclusive_def
  proof (intro ballI impI, elim conjE)
    fix a b assume ab: "a \<in> set (listings ?db)" "b \<in> set (listings ?db)"
      and lv: "live a" "live b" and pp: "l_passportId a = l_passportId b"
    have "a = l \<or> a \<in> set (listings db)" "b = l \<or> b \<in> set (listings db)"
      using ab by (auto simp: insert_row_def)
    then show "l_id a = l_id b"
      using lv pp alone ok unfolding market_ok_def exclusive_def by metis
  qed
  ultimately show "market_ok ?db" by (simp add: market_ok_def)
qed

lemma createListing_write_ok:
  assumes ok: "market_ok db" and schema: "CreateListingSchema sent input"
    and p: "find_passport (ci_passportId input) db = Some p"
    and st: "p_status p \<in> {P_draft, P_active, P_installed}" and fresh: "find_listing newId db = None"
  shows "createListing_write input newId sellerId org now db
      = Inr (new_listing input newId sellerId org now, listed_db input newId sellerId org now db)"
    and "market_ok (listed_db input newId sellerId org now db)"
proof -
  let ?l = "new_listing input newId sellerId org now"
  have terms: "terms_ok ?l" by (rule new_listing_terms [OF schema])
  have q0: "0 \<le> ci_quantity input" using schema by (simp add: CreateListingSchema_def)
  have row: "listing_row_ok ?l" by (rule listing_row_ok_of [OF terms]) (use q0 in simp_all)
  show "createListing_write input newId sellerId org now db
      = Inr (?l, listed_db input newId sellerId org now db)"
    by (simp add: createListing_write_def insert_listing_def fresh row Let_def listed_db_def)
  have other_passport: "l_passportId r \<noteq> ci_passportId input" if "r \<in> set (listings db)" "live r" for r
    using no_live_listing [OF ok p _ that(1)] st that(2) by auto
  have "market_ok (put_on_sale ?l now db)"
    by (rule put_on_sale_ok [OF ok terms]) (use p fresh other_passport in auto)
  then show "market_ok (listed_db input newId sellerId org now db)"
    by (simp add: listed_db_def put_on_sale_def)
qed

lemma createListing_ok:
  assumes ok: "market_ok db" and schema: "CreateListingSchema sent input"
    and fresh: "find_listing newId db = None"
  shows "(\<exists>e. createListing input newId sellerId org now db = Inl e \<and> isTraceError e)
    \<or> (\<exists>p. createListing_check input org db = Inr p
        \<and> createListing input newId sellerId org now db
          = Inr (new_listing input newId sellerId org now, listed_db input newId sellerId org now db)
        \<and> market_ok (listed_db input newId sellerId org now db))"
proof (cases "createListing_check input org db")
  case (Inl e)
  then show ?thesis using createListing_check_refuses by (simp add: createListing_def)
next
  case (Inr p)
  then have "find_passport (ci_passportId input) db = Some p" "p_status p \<in> {P_draft, P_active, P_installed}"
    by (simp_all only: createListing_check_ok)
  note created = createListing_write_ok [OF ok schema this fresh]
  show ?thesis using created Inr by (simp add: createListing_def)
qed

subsection \<open>Editing a lot\<close>

lemma patch_simps [simp]:
  "lp_quantity (patch_of_input i) = ui_quantity i" "lp_pricePence (patch_of_input i) = ui_pricePence i"
  "lp_minOrderQuantity (patch_of_input i) = ui_minOrderQuantity i"
  by (simp_all add: patch_of_input_def)

lemma patched_terms:
  assumes "terms_ok l" and "UpdateListingSchema sent input"
  shows "terms_ok (settled_row (patch_of_input input) q s l)"
  using assms by (auto simp: terms_ok_def UpdateListingSchema_def or_keep_def split: option.splits)

lemma updateListing_stock_ok:
  assumes "updateListing_stock input l = Inr q" and "stock_ok db l" and "0 \<le> taken (l_id l) db"
  shows "q = or_keep (ui_quantity input) (l_quantity l) - taken (l_id l) db" and "0 \<le> q"
  using assms by (auto simp: updateListing_stock_def stock_ok_def Let_def split: option.splits if_splits)

lemma edit_ready:
  assumes ok: "market_ok db" and l: "find_listing (l_id l) db = Some l"
    and schema: "UpdateListingSchema sent input"
    and q: "updateListing_stock input l = Inr q"
    and st: "l_status l \<in> set EDITABLE_LOT_STATUSES"
    and re: "l_status l = L_expired \<Longrightarrow> reopen_check l q db = Inr ()"
  shows "settle_ready l q (patch_of_input input) (l_status l = L_expired) db"
proof -
  have lin: "l \<in> set (listings db)" using listing_found [OF l] by simp
  have lok: "listing_ok db l" using ok lin by (simp add: market_ok_def)
  have tn: "0 \<le> taken (l_id l) db" using ok by (intro taken_nonneg) (simp add: market_ok_def)
  have terms: "terms_ok (settled_row (patch_of_input input) q (l_status l) l)"
    by (rule patched_terms [OF _ schema]) (use lok in \<open>simp add: listing_ok_def\<close>)
  have stock: "q = or_keep (ui_quantity input) (l_quantity l) - taken (l_id l) db" "0 \<le> q"
    using updateListing_stock_ok [OF q _ tn] lok by (auto simp: listing_ok_def)
  have closed: "\<not> live l \<and> l_status l \<noteq> L_expired \<longrightarrow> openOrders (l_id l) db = 0"
    using lok by (simp add: listing_ok_def status_ok_def)
  have passport: "\<exists>p. find_passport (l_passportId l) db = Some p \<and> p_status p = P_active"
    if "l_status l = L_expired"
    using re [OF that] by (auto simp: reopen_check_def split: if_splits option.splits passport_status.splits)
  have alone: "\<not> live l2" if "live l \<or> l_status l = L_expired" and "l2 \<in> set (listings db)"
    "l_id l2 \<noteq> l_id l" "l_passportId l2 = l_passportId l" for l2
  proof (cases "l_status l = L_expired")
    case True
    then obtain p where p: "find_passport (l_passportId l) db = Some p" "p_status p = P_active"
      using passport by blast
    show ?thesis by (rule no_live_listing [OF ok p(1) _ that(2,4)]) (use p in simp)
  next
    case False
    then show ?thesis using that lin ok unfolding market_ok_def exclusive_def by metis
  qed
  show ?thesis
    unfolding settle_ready_def
    using l terms stock closed alone passport lok
    by (auto simp: listing_ok_def)
qed

lemma updateListing_check_refuses: "updateListing_check i input now db = Inl e \<Longrightarrow> isTraceError e"
  by (auto simp: updateListing_check_def updateListing_stock_def reopen_check_def Let_def
      split: option.splits sum.splits if_splits passport_status.splits)

lemma updateListing_check_okD:
  assumes "updateListing_check i input now db = Inr (l, q)"
  shows "find_listing i db = Some l" and "updateListing_stock input l = Inr q"
    and "updateListing_minimum input l" and "l_status l \<in> set EDITABLE_LOT_STATUSES"
    and "l_status l = L_expired \<Longrightarrow> reopen_check l q db = Inr ()"
    and "listingStatusAt (l_status l) (l_expiresAt l) now = L_expired
      \<Longrightarrow> \<not> past (or_keep (ui_expiresAt input) (l_expiresAt l)) now"
  using assms by (auto simp: updateListing_check_def split: option.splits sum.splits if_splits)

definition edited_db :: "listing \<Rightarrow> int \<Rightarrow> update_listing_input \<Rightarrow> time \<Rightarrow> trace_db \<Rightarrow> trace_db" where
  "edited_db l q input now db = settled_db l q (patch_of_input input) (l_status l = L_expired) now db"

definition edited_row :: "listing \<Rightarrow> int \<Rightarrow> update_listing_input \<Rightarrow> trace_db \<Rightarrow> listing" where
  "edited_row l q input db =
     settled_row (patch_of_input input) q (settled_status l q (l_status l = L_expired) db) l"

text \<open>An edit is refused, or writes the checked row, settled.\<close>

lemma updateListing_tx_ok:
  assumes ok: "market_ok db" and schema: "UpdateListingSchema sent input"
    and check: "updateListing_check i input now db = Inr (l, q)"
  shows "updateListing_tx i input now db
      = Inr ((edited_row l q input db, listingChanges l (edited_row l q input db)), edited_db l q input now db)"
    and "market_ok (edited_db l q input now db)"
proof -
  note c = updateListing_check_okD [OF check]
  have l: "find_listing (l_id l) db = Some l" using c(1) listing_found [OF c(1)] by simp
  have ready: "settle_ready l q (patch_of_input input) (l_status l = L_expired) db"
    by (rule edit_ready [OF ok l schema c(2,4,5)])
  note restores = settleLot_restores [OF market_but_weaken [OF ok] ready, of now]
  show "updateListing_tx i input now db
      = Inr ((edited_row l q input db, listingChanges l (edited_row l q input db)), edited_db l q input now db)"
    by (simp add: updateListing_tx_def check restores(1) edited_row_def edited_db_def)
  show "market_ok (edited_db l q input now db)" using restores(2) by (simp add: edited_db_def)
qed

lemma updateListing_ok:
  assumes ok: "market_ok db" and schema: "UpdateListingSchema sent input"
  shows "(\<exists>e. updateListing i input org now db = Inl e \<and> isTraceError e)
    \<or> (\<exists>l q. own_listing_check i org db = Inr l \<and> updateListing_check i input now db = Inr (l, q)
        \<and> updateListing i input org now db
          = Inr ((edited_row l q input db, listingChanges l (edited_row l q input db)), edited_db l q input now db)
        \<and> market_ok (edited_db l q input now db))"
proof (cases "own_listing_check i org db")
  case (Inl e)
  then show ?thesis using own_listing_check_refuses by (simp add: updateListing_def)
next
  case own: (Inr l0)
  show ?thesis
  proof (cases "updateListing_check i input now db")
    case (Inl e)
    then show ?thesis using updateListing_check_refuses own
      by (simp add: updateListing_def updateListing_tx_def)
  next
    case (Inr lq)
    obtain l q where lq: "lq = (l, q)" by (cases lq)
    have c: "updateListing_check i input now db = Inr (l, q)" using Inr lq by simp
    have "l0 = l" using own updateListing_check_okD(1) [OF c] by (simp add: own_listing_check_ok)
    then show ?thesis using updateListing_tx_ok [OF ok schema c] own c
      by (simp add: updateListing_def)
  qed
qed

end
