(* ===== verification/Marketplace_Checked.thy ===== *)
theory Marketplace_Checked
  imports Marketplace_Operations
begin

text \<open>
  What the invariant gives its readers: the repository's own checker finds nothing but a
  minimum order above its lot, the actions an order offers are exactly those that succeed,
  and a sweep leaves nothing overdue. The supporting lemmas of those properties.
\<close>

subsection \<open>The invariant and the checker\<close>

lemma find_passport_row:
  "find_row pr_id i (map (passport_row_of fp ck) ps) = map_option (passport_row_of fp ck) (find_row p_id i ps)"
  by (induction ps) (auto simp: passport_row_of_def)

lemma taken_foldl:
  "foldl (\<lambda>s t. s + t_quantity t) 0 (filter takes (filter (\<lambda>t. t_listingId t = i) ts))
    = (\<Sum>t\<leftarrow>ts. taken_share i t)"
  by (induction ts) (auto simp: foldl_add_sum taken_share_def)

lemma open_filter:
  "filter isOpen (filter (\<lambda>t. t_listingId t = i) (transactions db)) = [] \<longleftrightarrow> openOrders i db = 0"
  by (auto simp: openOrders_def filter_empty_conv isOpen_def)

text \<open>What the checker can still say of a listing: that its minimum is above its quantity.\<close>

lemma listing_errors:
  assumes ok: "listing_ok db l" and tn: "0 \<le> taken (l_id l) db"
    and v: "v \<in> set (errors_of (listing_violations now
      (filter (\<lambda>t. t_listingId t = l_id l) (transactions db))
      (map_option (passport_row_of fp ck) (find_passport (l_passportId l) db)) l))"
  shows "vi_rule v = Minimum_order \<and> l_quantity l < l_minOrderQuantity l"
proof -
  have avail: "l_quantityAvailable l = l_quantity l - taken (l_id l) db" "0 \<le> l_quantityAvailable l"
    using ok by (auto simp: listing_ok_def stock_ok_def)
  have min: "1 \<le> l_minOrderQuantity l" using ok by (simp add: listing_ok_def terms_ok_def)
  have tk: "foldl (\<lambda>s t. s + t_quantity t) 0 (filter takes
      (filter (\<lambda>t. t_listingId t = l_id l) (transactions db))) = taken (l_id l) db"
    by (simp only: taken_foldl taken_def)
  have st: "if live l then l_status l = lotStatus (l_quantityAvailable l) (openOrders (l_id l) db)
      else openOrders (l_id l) db = 0"
    using ok by (simp add: listing_ok_def status_ok_def)
  have status: "l_status l = L_active \<Longrightarrow> l_quantityAvailable l \<noteq> 0"
    "l_status l = L_reserved \<Longrightarrow> l_quantityAvailable l = 0 \<and> openOrders (l_id l) db \<noteq> 0"
    "l_status l = L_sold \<Longrightarrow> l_quantityAvailable l = 0 \<and> openOrders (l_id l) db = 0"
    "l_status l \<in> {L_cancelled, L_expired} \<Longrightarrow> openOrders (l_id l) db = 0"
    using st avail(2) by (auto simp: live_def lotStatus_def split: if_splits)
  have passport: "errors_of (case PASSPORT_STATUS_FOR_LISTING (l_status l) of
        None \<Rightarrow> []
      | Some expected \<Rightarrow> (case map_option (passport_row_of fp ck) (find_passport (l_passportId l) db) of
          None \<Rightarrow> []
        | Some p \<Rightarrow> add_if (pr_status p \<notin> set expected) Sev_error Passport_status_rule (About_listing (l_id l)))) = []"
    using ok by (cases "l_status l"; cases "find_passport (l_passportId l) db")
      (auto simp: listing_ok_def passport_agrees_def live_def passport_row_of_def)
  have "v \<in> set (add_if (l_minOrderQuantity l < 1 \<or> l_minOrderQuantity l > l_quantity l)
      Sev_error Minimum_order (About_listing (l_id l)))"
    using v status avail tn
    unfolding listing_violations_def Let_def errors_of_append passport errors_of_add_if tk open_filter
    by (auto simp: add_if_def split: if_splits)
  then show ?thesis using min by (auto simp: add_if_def split: if_splits)
qed

lemma order_errors:
  assumes "order_ok db t"
  shows "errors_of (order_violations now (listings db) t) = []"
  using assms unfolding order_violations_def Let_def errors_of_append errors_of_add_if
  by (auto simp: order_ok_def order_fits_def errors_of_append)

lemma one_live_errors:
  assumes "market_ok db"
  shows "one_live_violations (listings db) ps = []"
proof -
  have "length vs \<le> 1" if "(pid, vs) \<in> set (live_groups (listings db))" for pid vs
  proof (rule ccontr)
    assume "\<not> length vs \<le> 1"
    then obtain a b xs where vs: "vs = a # b # xs"
      by (metis One_nat_def Suc_le_eq length_greater_0_conv length_tl list.collapse not_le list.size(3)
          not_less_zero le_numeral_extra(4) order_less_imp_le zero_less_Suc linorder_not_less length_Cons)
    have eq: "vs = filter (\<lambda>l. l_passportId l = pid)
        (filter (\<lambda>l. PASSPORT_STATUS_FOR_LISTING (l_status l) \<noteq> None) (listings db))"
      using group_rows_entry [OF that [unfolded live_groups_def]] .
    have "distinct (map l_id vs)"
      unfolding eq using assms by (simp add: market_ok_def keys_ok_def distinct_map_filter)
    then have ne: "l_id a \<noteq> l_id b" using vs by simp
    have "a \<in> set vs" "b \<in> set vs" using vs by auto
    then have "a \<in> set (listings db)" "b \<in> set (listings db)" "live a" "live b"
      "l_passportId a = l_passportId b"
      unfolding eq by (auto simp: live_def elim: PASSPORT_STATUS_FOR_LISTING.elims)
    with ne assms show False unfolding market_ok_def exclusive_def by blast
  qed
  then show ?thesis
    by (fastforce simp: one_live_violations_def add_if_def)
qed

definition fingerprints_current :: "(passport \<Rightarrow> string) \<Rightarrow> trace_db \<Rightarrow> bool" where
  "fingerprints_current fp db \<longleftrightarrow>
     list_all (\<lambda>p. p_blockchainPassportHash p \<in> {None, Some [], Some (fp p)}) (materialPassports db)"

lemma passport_errors:
  "fingerprints_current fp db \<Longrightarrow>
    concat (map passport_violations (map (passport_row_of fp ck) (materialPassports db))) = []"
  by (auto simp: fingerprints_current_def passport_violations_def passport_row_of_def list_all_iff
      split: option.splits)

lemma checker_errors:
  assumes ok: "market_ok db" and fp: "fingerprints_current fp db"
    and v: "v \<in> set (errors_of (check_db fp ck now db))"
  shows "vi_rule v = Minimum_order \<and> (\<exists>l \<in> set (listings db). l_quantity l < l_minOrderQuantity l)"
proof -
  let ?viols = "\<lambda>l. listing_violations now (map_get (group_rows t_listingId (transactions db)) (l_id l))
      (find_row pr_id (l_passportId l) (map (passport_row_of fp ck) (materialPassports db))) l"
  have "errors_of (concat (map (order_violations now (listings db)) (transactions db))) = []"
    by (rule errors_of_concat_empty) (use ok in \<open>simp add: order_errors market_ok_def\<close>)
  then have "v \<in> set (errors_of (concat (map ?viols (listings db))))"
    using v unfolding check_db_def checkInvariants_def Let_def errors_of_append
      one_live_errors [OF ok] one_of_each_warnings passport_errors [OF fp] by simp
  then obtain l where l: "l \<in> set (listings db)" "v \<in> set (errors_of (?viols l))"
    by (auto simp: errors_of_def)
  have "listing_ok db l" "0 \<le> taken (l_id l) db"
    using ok l(1) by (auto simp: market_ok_def intro: taken_nonneg)
  then show ?thesis
    using listing_errors [of db l v now fp ck] l by (auto simp: map_get_group find_passport_row)
qed

subsection \<open>Which actions an order allows\<close>

lemma allowedActions_iff:
  "a \<in> set (allowedActions s on) \<longleftrightarrow> s \<in> set (step_from a) \<and> mayAct (step_by a) on"
  by (cases a) (auto simp: allowedActions_def ORDER_ACTIONS_def)

lemma tx_result:
  assumes ok: "market_ok db" and t: "find_order i db = Some t"
    and l: "find_listing (t_listingId t) db = Some l"
  shows "(\<exists>r. updateTransaction_tx i input viewer timedOut now db = Inr r)
    \<longleftrightarrow> ut_action input \<in> set (allowedActions (t_status t) (standing_of viewer t l))"
proof
  assume "\<exists>r. updateTransaction_tx i input viewer timedOut now db = Inr r"
  then show "ut_action input \<in> set (allowedActions (t_status t) (standing_of viewer t l))"
    using t l updateTransaction_tx_ok [OF ok, of i input viewer timedOut now]
    by (auto simp: allowedActions_iff)
next
  let ?on = "standing_of viewer t l"
  assume a: "ut_action input \<in> set (allowedActions (t_status t) ?on)"
  then have mv: "order_moves (t_status t) (st_to (person_order_step input viewer ?on now))"
    by (intro person_step_moves) (simp add: allowedActions_iff)
  have t': "find_order (t_id t) db = Some t" using t find_row_SomeD [OF t] by simp
  show "\<exists>r. updateTransaction_tx i input viewer timedOut now db = Inr r"
    using applyStep_ok(1) [OF ok t' l mv] a t l
    by (auto simp: updateTransaction_tx_def Let_def allowedActions_iff)
qed

subsection \<open>Overdue orders\<close>

lemma overdueAt_iff_timedStep: "overdueAt now t \<longleftrightarrow> timedStep t now \<noteq> None"
  by (cases "t_status t")
    (auto simp: overdueAt_def timedStep_def responseDeadlineOf_def or_keep_def past_def
      RESPONSE_WINDOW_MS_def HOUR_MS_def split: option.splits)

subsection \<open>A sweep leaves nothing overdue\<close>

lemma stepped_transactions:
  "transactions (stepped_db t l step db) = update_rows t_id (t_id t) (moved_order step) (transactions db)"
  by (simp add: stepped_db_def Let_def)

lemma moved_by_limit_not_overdue:
  "timedStep t now = Some (a, to) \<Longrightarrow> \<not> overdueAt now' (moved_order (timed_order_step a to now) r)"
  by (auto simp: timedStep_def overdueAt_def split: if_splits)

text \<open>Closing one order only takes that order off the overdue ones.\<close>

lemma closeIfOverdue_removes:
  assumes ok: "market_ok db" and c: "closeIfOverdue i now db = Inr (a, db1)"
    and r: "r \<in> set (transactions db1)" "overdueAt now r"
  shows "r \<in> set (transactions db) \<and> t_id r \<noteq> i"
proof (cases "\<exists>t b to. find_order i db = Some t \<and> timedStep t now = Some (b, to)")
  case True
  then obtain t b to where t: "find_order i db = Some t" and due: "timedStep t now = Some (b, to)" by blast
  have tid: "t_id t = i" using find_row_SomeD [OF t] by simp
  obtain l where "closeIfOverdue i now db = Inr (Some b, stepped_db t l (timed_order_step b to now) db)"
    using closeIfOverdue_due [OF ok t due] by blast
  then have "transactions db1
      = update_rows t_id i (moved_order (timed_order_step b to now)) (transactions db)"
    using c by (simp add: stepped_transactions tid)
  then show ?thesis using r moved_by_limit_not_overdue [OF due] by (auto simp: set_update_rows)
next
  case False
  then have no: "find_order i db = None \<or> (\<exists>t. find_order i db = Some t \<and> timedStep t now = None)"
    by (metis not_Some_eq prod.exhaust_sel)
  then have same: "db1 = db" using c closeIfOverdue_not_due [OF no] by simp
  have "t_id r = i \<Longrightarrow> find_order i db = Some r"
    using ok r(1) same by (auto simp: market_ok_def keys_ok_def intro: find_row_distinct)
  then show ?thesis using r same no overdueAt_iff_timedStep by auto
qed

lemma close_all_removes:
  "market_ok db \<Longrightarrow> close_all is now res db = (Inr res', db') \<Longrightarrow> r \<in> set (transactions db') \<Longrightarrow>
    overdueAt now r \<Longrightarrow> r \<in> set (transactions db) \<and> t_id r \<notin> set is"
proof (induction "is" arbitrary: res db)
  case Nil
  then show ?case by simp
next
  case (Cons i "is")
  obtain a db1 where c: "closeIfOverdue i now db = Inr (a, db1)" and ok1: "market_ok db1"
    using closeIfOverdue_ok [OF Cons.prems(1)] by blast
  have "r \<in> set (transactions db1) \<and> t_id r \<notin> set is"
    using Cons.IH [OF ok1] Cons.prems c by simp
  then show ?case using closeIfOverdue_removes [OF Cons.prems(1) c] Cons.prems(4) by simp
qed

text \<open>Expiring listings leaves the orders alone.\<close>

lemma expire_listing_spec:
  assumes ok: "market_ok db" and e: "expire_listing i now db = Inr (a, db1)"
  shows "market_ok db1" and "transactions db1 = transactions db"
    and "l \<in> set (listings db1) \<Longrightarrow> l_status l = L_active \<Longrightarrow> past (l_expiresAt l) now \<Longrightarrow>
      l \<in> set (listings db) \<and> (l_id l = i \<longrightarrow> openOrders i db \<noteq> 0)"
proof -
  have c: "db1 = db \<or> (\<exists>m. find_listing i db = Some m \<and> db1 = closed_db m L_expired now db \<and> market_ok db1)"
    using expire_listing_cases [OF ok, of i now] e by auto
  then show "market_ok db1" and "transactions db1 = transactions db" using ok by auto
  show "l \<in> set (listings db) \<and> (l_id l = i \<longrightarrow> openOrders i db \<noteq> 0)"
    if l: "l \<in> set (listings db1)" "l_status l = L_active" "past (l_expiresAt l) now"
  proof (cases "\<exists>m. find_listing i db = Some m \<and> db1 = closed_db m L_expired now db")
    case True
    then obtain m where m: "find_listing i db = Some m" "db1 = closed_db m L_expired now db" by blast
    then have "l_id m = i" using listing_found by blast
    then show ?thesis using l m(2) by (auto simp: set_update_rows)
  next
    case False
    then have same: "db1 = db" using c by blast
    have "find_listing i db = Some l" if "l_id l = i"
      using that l(1) same listing_unique [of db l] ok by (simp add: market_ok_def)
    then have "l_id l = i \<longrightarrow> openOrders i db \<noteq> 0"
      using expire_listing_cases [OF ok, of i now] e l(2,3) False
      by (auto simp: expire_listing_def split: sum.splits if_splits prod.splits)
    then show ?thesis using l same by simp
  qed
qed

lemma expire_all_spec:
  "market_ok db \<Longrightarrow> expire_all is now res db = (Inr res', db') \<Longrightarrow>
    transactions db' = transactions db
    \<and> (\<forall>l \<in> set (listings db'). l_status l = L_active \<and> past (l_expiresAt l) now \<longrightarrow>
        l \<in> set (listings db) \<and> (l_id l \<in> set is \<longrightarrow> openOrders (l_id l) db \<noteq> 0))"
proof (induction "is" arbitrary: res db)
  case Nil
  then show ?case by simp
next
  case (Cons i "is")
  obtain a db1 where e: "expire_listing i now db = Inr (a, db1)"
    using expire_listing_cases [OF Cons.prems(1), of i now] by blast
  note spec = expire_listing_spec [OF Cons.prems(1) e]
  have rest: "transactions db' = transactions db1
      \<and> (\<forall>l \<in> set (listings db'). l_status l = L_active \<and> past (l_expiresAt l) now \<longrightarrow>
          l \<in> set (listings db1) \<and> (l_id l \<in> set is \<longrightarrow> openOrders (l_id l) db1 \<noteq> 0))"
    using Cons.IH [OF spec(1)] Cons.prems(2) e by simp
  have same: "openOrders j db1 = openOrders j db" for j by (simp add: openOrders_def spec(2))
  show ?case using rest spec same by auto
qed

text \<open>Closing orders changes nothing of a listing but its stock and status.\<close>

lemma stepped_lots:
  "(\<And>q s r. g (settled_row no_changes q s r) = g r) \<Longrightarrow>
    map g (listings (stepped_db t l step db)) = map g (listings db)"
  by (simp add: stepped_db_def Let_def listings_settled_db map_update_rows)

lemma close_all_lots:
  assumes g: "\<And>q s r. g (settled_row no_changes q s r) = g r"
  shows "market_ok db \<Longrightarrow> close_all is now res db = (Inr res', db') \<Longrightarrow>
    map g (listings db') = map g (listings db)"
proof (induction "is" arbitrary: res db)
  case Nil
  then show ?case by simp
next
  case (Cons i "is")
  obtain a db1 where c: "closeIfOverdue i now db = Inr (a, db1)" and ok1: "market_ok db1"
    using closeIfOverdue_ok [OF Cons.prems(1)] by blast
  have "map g (listings db1) = map g (listings db)"
  proof (cases "\<exists>t b to. find_order i db = Some t \<and> timedStep t now = Some (b, to)")
    case True
    then obtain t b to where t: "find_order i db = Some t" and due: "timedStep t now = Some (b, to)"
      by blast
    obtain l where "closeIfOverdue i now db = Inr (Some b, stepped_db t l (timed_order_step b to now) db)"
      using closeIfOverdue_due [OF Cons.prems(1) t due] by blast
    then show ?thesis using c by (simp add: stepped_lots g)
  next
    case False
    then have "closeIfOverdue i now db = Inr (None, db)"
      by (intro closeIfOverdue_not_due) (metis not_Some_eq prod.exhaust_sel)
    then show ?thesis using c by simp
  qed
  then show ?case using Cons.IH [OF ok1] Cons.prems(2) c by simp
qed

lemma close_all_dates:
  "market_ok db \<Longrightarrow> close_all is now res db = (Inr res', db') \<Longrightarrow>
    map l_expiresAt (listings db') = map l_expiresAt (listings db)"
  by (rule close_all_lots) (simp_all add: settled_row_def apply_patch_def no_changes_def)

definition overdue_count :: "time \<Rightarrow> trace_db \<Rightarrow> nat" where
  "overdue_count now db = length (filter (overdueAt now) (transactions db))"

definition dated_count :: "time \<Rightarrow> trace_db \<Rightarrow> nat" where
  "dated_count now db = length (filter (\<lambda>l. past (l_expiresAt l) now) (listings db))"

lemma dated_count_map: "dated_count now db = length (filter (\<lambda>d. past d now) (map l_expiresAt (listings db)))"
  by (simp add: dated_count_def filter_map comp_def)

lemma sweep_clears:
  assumes ok: "market_ok db" and s: "sweepOrderLifecycle now db = (Inr res, db')"
  shows "overdue_count now db \<le> 500 \<Longrightarrow> \<forall>t \<in> set (transactions db'). \<not> overdueAt now t"
    and "dated_count now db \<le> 500 \<Longrightarrow> \<forall>l \<in> set (listings db').
      l_status l = L_active \<and> past (l_expiresAt l) now \<longrightarrow> openOrders (l_id l) db' \<noteq> 0"
proof -
  obtain res1 db1 where c: "close_all (due_orders now db) now
      \<lparr> sw_lapsed = 0, sw_completed = 0, sw_expiredListings = 0 \<rparr> db = (Inr res1, db1)"
    and ok1: "market_ok db1"
    using close_all_ok [OF ok] by blast
  have e: "expire_all (stale_listings now db1) now res1 db1 = (Inr res, db')"
    using s c by (simp add: sweepOrderLifecycle_def)
  note spec = expire_all_spec [OF ok1 e]
  show "\<forall>t \<in> set (transactions db'). \<not> overdueAt now t" if few: "overdue_count now db \<le> 500"
  proof
    fix t assume "t \<in> set (transactions db')"
    then have t: "t \<in> set (transactions db1)" using spec by simp
    show "\<not> overdueAt now t"
    proof
      assume "overdueAt now t"
      then have "t \<in> set (transactions db) \<and> t_id t \<notin> set (due_orders now db)"
        by (rule close_all_removes [OF ok c t])
      then show False using \<open>overdueAt now t\<close> few by (auto simp: due_orders_def overdue_count_def)
    qed
  qed
  show "\<forall>l \<in> set (listings db'). l_status l = L_active \<and> past (l_expiresAt l) now
      \<longrightarrow> openOrders (l_id l) db' \<noteq> 0" if few: "dated_count now db \<le> 500"
  proof (intro ballI impI)
    fix l assume l: "l \<in> set (listings db')" "l_status l = L_active \<and> past (l_expiresAt l) now"
    then have old: "l \<in> set (listings db1)"
      "l_id l \<in> set (stale_listings now db1) \<longrightarrow> openOrders (l_id l) db1 \<noteq> 0" using spec by auto
    have "length (filter (\<lambda>l. l_status l = L_active \<and> past (l_expiresAt l) now) (listings db1))
        = length (filter (\<lambda>l. l_status l = L_active) (filter (\<lambda>l. past (l_expiresAt l) now) (listings db1)))"
      by (simp add: conj_commute)
    also have "\<dots> \<le> dated_count now db1" unfolding dated_count_def by (rule length_filter_le)
    also have "\<dots> \<le> 500"
      using few close_all_dates [OF ok c] by (simp add: dated_count_map)
    finally have "l_id l \<in> set (stale_listings now db1)"
      using old(1) l(2) by (auto simp: stale_listings_def)
    moreover have "openOrders (l_id l) db' = openOrders (l_id l) db1" using spec by (simp add: openOrders_def)
    ultimately show "openOrders (l_id l) db' \<noteq> 0" using old(2) by simp
  qed
qed

end
