(* ===== verification/Sample_Market.thy ===== *)
theory Sample_Market
  imports Sample_Data Marketplace_Checked
begin

text \<open>
  The sample platform with its material on sale as a lot of ten at 2.50 each, minimum order
  four (listing 20), and then with an order for six of them (order 30).
\<close>

definition collection :: shipping_option where
  "collection = \<lparr> so_method = Collection, so_deliveryRadiusMiles = None,
     so_deliveryCostPence = None, so_notes = None \<rparr>"

definition sample_lot :: create_listing_input where
  "sample_lot = \<lparr> ci_passportId = 10, ci_pricePence = 250, ci_currency = ''GBP'', ci_quantity = 10,
     ci_minOrderQuantity = 4, ci_shippingOptions = [collection], ci_expiresAt = Some 5000 \<rparr>"

definition sample_offer :: "int option \<Rightarrow> make_offer_input" where
  "sample_offer q = \<lparr> mo_listingId = 20, mo_quantity = q, mo_notes = None \<rparr>"

definition sample_buyer :: viewer where
  "sample_buyer = \<lparr> v_userId = 3, v_role = Buyer, v_organisationId = None \<rparr>"

definition sample_seller :: viewer where
  "sample_seller = \<lparr> v_userId = 2, v_role = Supplier, v_organisationId = Some 1 \<rparr>"

definition state_of :: "('a \<times> trace_db) outcome \<Rightarrow> trace_db \<Rightarrow> trace_db" where
  "state_of r db = (case r of Inl e \<Rightarrow> db | Inr (x, db') \<Rightarrow> db')"

definition on_sale_db :: trace_db where
  "on_sale_db = state_of (createListing sample_lot 20 2 1 100 sample_db) sample_db"

definition ordered_db :: trace_db where
  "ordered_db = state_of (makeOffer (sample_offer (Some 6)) sample_buyer False 30 200 on_sale_db) on_sale_db"

lemma sample_db_ok: "market_ok sample_db"
  by (simp add: market_ok_def keys_ok_def exclusive_def sample_db_def)

lemma sample_lot_valid: "CreateListingSchema 90 sample_lot"
  by code_simp

lemma on_sale_db_ok: "market_ok on_sale_db"
  using createListing_ok [OF sample_db_ok sample_lot_valid, of 20 2 1 100] sample_db_ok
  by (auto simp: on_sale_db_def state_of_def sample_db_def)

lemma ordered_db_ok: "market_ok ordered_db"
proof -
  have "find_order 30 on_sale_db = None" by code_simp
  moreover have "MakeOfferSchema (sample_offer (Some 6))" by code_simp
  ultimately show ?thesis
    using makeOffer_cases [OF on_sale_db_ok, of "sample_offer (Some 6)" 30 sample_buyer False 200] on_sale_db_ok
    unfolding ordered_db_def state_of_def by auto
qed

lemma on_sale: "map l_status (listings on_sale_db) = [L_active]"
  "map p_status (materialPassports on_sale_db) = [P_listed]"
  by code_simp+

lemma ordered: "map l_quantityAvailable (listings ordered_db) = [4]"
  "map t_amountPence (transactions ordered_db) = [1500]"
  by code_simp+

end
