(* ===== verification/Marketplace_Races.thy ===== *)
theory Marketplace_Races
  imports Sample_Market
begin

text \<open>
  Where the code leaves room for a violation: three places found by trying to prove the
  invariant of \<open>Marketplace_Safety\<close> in a stronger form. Two are interleavings: creating and
  cancelling a listing check first and write later, outside a transaction, so another
  request can commit in between. One is sequential: an edit that shrinks a lot does not look
  at the minimum order it already has.
\<close>

subsection \<open>Requests that check and then write\<close>

text \<open>
  A request in two atomic halves. The state between them is whatever the other requests
  left; a refusal in the first half ends the request. \<open>cancelListing\<close> and
  \<open>createListing\<close> are such requests, and are their two halves run back to back.
\<close>

lemma cancelListing_halves:
  "cancelListing i org now db
    = (case cancelListing_check i org db of Inl e \<Rightarrow> Inl e | Inr l \<Rightarrow> cancelListing_write l now db)"
  by (simp add: cancelListing_def)

definition cancel_around ::
  "uuid \<Rightarrow> uuid \<Rightarrow> time \<Rightarrow> (trace_db \<Rightarrow> trace_db) \<Rightarrow> trace_db \<Rightarrow> (listing \<times> trace_db) outcome" where
  "cancel_around i org now other db =
     (case cancelListing_check i org db of
        Inl e \<Rightarrow> Inl e | Inr l \<Rightarrow> cancelListing_write l now (other db))"

definition create_around ::
  "create_listing_input \<Rightarrow> uuid \<Rightarrow> uuid \<Rightarrow> uuid \<Rightarrow> time \<Rightarrow> (trace_db \<Rightarrow> trace_db) \<Rightarrow> trace_db
    \<Rightarrow> (listing \<times> trace_db) outcome" where
  "create_around input newId seller org now other db =
     (case createListing_check input org db of
        Inl e \<Rightarrow> Inl e | Inr p \<Rightarrow> createListing_write input newId seller org now (other db))"

lemma around_alone:
  "cancel_around i org now (\<lambda>d. d) db = cancelListing i org now db"
  "create_around input newId seller org now (\<lambda>d. d) db = createListing input newId seller org now db"
  by (simp_all add: cancel_around_def create_around_def cancelListing_def createListing_def)

definition an_offer :: "trace_db \<Rightarrow> trace_db" where
  "an_offer db = state_of (makeOffer (sample_offer (Some 6)) sample_buyer False 30 200 db) db"

definition a_second_listing :: "trace_db \<Rightarrow> trace_db" where
  "a_second_listing db = state_of (createListing sample_lot 21 2 1 100 db) db"

definition no_fingerprint :: "passport \<Rightarrow> string" where "no_fingerprint p = ''''"
definition no_catalogue :: "passport \<Rightarrow> string option" where "no_catalogue p = None"

definition rules_broken :: "trace_db \<Rightarrow> rule list" where
  "rules_broken db = map vi_rule (errors_of (check_db no_fingerprint no_catalogue 300 db))"

text \<open>An offer that commits between the check and the write of \<open>cancelListing\<close> leaves a
  cancelled listing with an open order and its material free to list: the state passes from
  one where the checker finds nothing to one where it reports a stranded order, although
  neither request alone could do that.\<close>

theorem cancel_race_strands_order:
  "rules_broken on_sale_db = []
    \<and> rules_broken (an_offer on_sale_db) = []
    \<and> rules_broken (state_of (cancelListing 20 1 250 on_sale_db) on_sale_db) = []
    \<and> cancelListing 20 1 250 (an_offer on_sale_db) = Inl (ConflictError (Listing_has_open_orders 1))
    \<and> rules_broken (state_of (cancel_around 20 1 250 an_offer on_sale_db) on_sale_db) = [Stranded_order]"
  by code_simp

text \<open>Two requests that list the same material at once can both succeed: the second
  passes its check before the first has written, and the material ends with two live
  listings. Run one after the other the second is refused.\<close>

theorem create_race_lists_twice:
  "rules_broken sample_db = []
    \<and> createListing sample_lot 20 2 1 150 (a_second_listing sample_db)
        = Inl (ConflictError Passport_already_listed)
    \<and> rules_broken (state_of (create_around sample_lot 20 2 1 150 a_second_listing sample_db) sample_db)
        = [One_live_listing]"
  by code_simp

subsection \<open>The minimum order of an edited lot\<close>

definition shrink :: "int \<Rightarrow> update_listing_input" where
  "shrink q = \<lparr> ui_pricePence = None, ui_quantity = Some q, ui_minOrderQuantity = None,
     ui_shippingOptions = None, ui_expiresAt = None \<rparr>"

lemma shrink_valid: "0 < q \<Longrightarrow> q \<le> MAX_LOT_QUANTITY \<Longrightarrow> UpdateListingSchema now (shrink q)"
  by (simp add: UpdateListingSchema_def shrink_def)

lemma errors_of_concat_member:
  "x \<in> set xs \<Longrightarrow> v \<in> set (errors_of (f x)) \<Longrightarrow> v \<in> set (errors_of (concat (map f xs)))"
  by (induction xs) (auto simp: errors_of_append)

lemma minimum_reported:
  assumes "l \<in> set (listings db)" and "l_quantity l < l_minOrderQuantity l"
  shows "\<exists>v \<in> set (errors_of (check_db fp ck now db)). vi_rule v = Minimum_order"
proof
  let ?v = "\<lparr>vi_severity = Sev_error, vi_rule = Minimum_order, vi_subject = About_listing (l_id l)\<rparr>"
  have "?v \<in> set (errors_of (listing_violations now orders p l))" for orders p
    using assms(2) unfolding listing_violations_def Let_def errors_of_append errors_of_add_if
    by (simp add: add_if_def)
  then show "?v \<in> set (errors_of (check_db fp ck now db))"
    unfolding check_db_def checkInvariants_def Let_def errors_of_append
    by (simp only: set_append) (intro UnI1 errors_of_concat_member [OF assms(1)])
qed simp

text \<open>An edit that only lowers the quantity of a lot on sale is accepted down to what
  orders hold, whatever the lot's minimum order: for every quantity below the minimum the
  result is a listing the checker rejects (its minimum order exceeds its quantity).\<close>

theorem shrink_below_minimum_accepted:
  assumes "market_ok db" and "find_listing i db = Some l" and "l_status l = L_active"
    and "l_organisationId l = org" and "\<not> past (l_expiresAt l) now"
    and "0 < q" and "q < l_minOrderQuantity l" and "l_quantity l - l_quantityAvailable l \<le> q"
  shows "\<exists>l' changes db'. updateListing i (shrink q) org now db = Inr ((l', changes), db')
    \<and> l_quantity l' = q \<and> l_quantity l' < l_minOrderQuantity l'
    \<and> (\<exists>v \<in> set (errors_of (check_db fp ck now db')). vi_rule v = Minimum_order)"
proof -
  let ?s = "q - (l_quantity l - l_quantityAvailable l)"
  let ?l' = "edited_row l ?s (shrink q) db" and ?db = "edited_db l ?s (shrink q) now db"
  have lin: "l \<in> set (listings db)" "l_id l = i" using listing_found [OF assms(2)] by auto
  have "l_minOrderQuantity l \<le> MAX_LOT_QUANTITY"
    using assms(1) lin by (simp add: market_ok_def listing_ok_def terms_ok_def)
  then have schema: "UpdateListingSchema now (shrink q)" using assms(6,7) by (intro shrink_valid) auto
  have check: "updateListing_check i (shrink q) now db = Inr (l, ?s)"
    using assms by (simp add: updateListing_check_def shrink_def updateListing_stock_def Let_def
        updateListing_minimum_def EDITABLE_LOT_STATUSES_def listingStatusAt_def)
  note edit = updateListing_tx_ok [OF assms(1) schema check]
  have res: "updateListing i (shrink q) org now db = Inr ((?l', listingChanges l ?l'), ?db)"
    using edit(1) assms(2,4) by (simp add: updateListing_def own_listing_check_def)
  have row: "l_quantity ?l' = q" "l_minOrderQuantity ?l' = l_minOrderQuantity l" "l_id ?l' = i"
    using lin by (simp_all add: edited_row_def shrink_def patch_of_input_def)
  have mem: "?l' \<in> set (listings ?db)"
    using lin by (auto simp: edited_db_def edited_row_def listings_settled_db set_update_rows image_iff
        intro!: bexI [of _ l])
  have "l_quantity ?l' < l_minOrderQuantity ?l'" using row assms(7) by simp
  then show ?thesis using res row minimum_reported [OF mem, of fp ck now] by blast
qed

theorem shrink_below_minimum_accepted_witness:
  "\<exists>l' changes db'. updateListing 20 (shrink 3) 1 300 on_sale_db = Inr ((l', changes), db')
    \<and> l_quantity l' = 3 \<and> l_quantity l' < l_minOrderQuantity l'
    \<and> (\<exists>v \<in> set (errors_of (check_db no_fingerprint no_catalogue 300 db')). vi_rule v = Minimum_order)"
proof -
  define l where "l = the (find_listing 20 on_sale_db)"
  have l: "find_listing 20 on_sale_db = Some l" unfolding l_def by code_simp
  have "l_status l = L_active" "l_organisationId l = 1" "\<not> past (l_expiresAt l) 300"
    "3 < l_minOrderQuantity l" "l_quantity l - l_quantityAvailable l \<le> 3"
    unfolding l_def by code_simp+
  then show ?thesis
    using shrink_below_minimum_accepted [OF on_sale_db_ok l, of 1 300 3 no_fingerprint no_catalogue] by simp
qed

end
