(* ===== verification/Text_Functions.thy ===== *)
theory Text_Functions
  imports Main
begin

text \<open>
  The string operations of JavaScript that the code uses, on strings of characters
  0..255. Letter case is ASCII: that is exact for e-mail addresses (the schema admits only
  ASCII), HTTP methods and slugs (where every other character becomes a hyphen anyway).
\<close>

definition char_code :: "char \<Rightarrow> nat" where "char_code c = of_char c"

lemma code_eq_iff: "char_code c = char_code d \<longleftrightarrow> c = d"
  by (simp add: char_code_def)

subsection \<open>Case, blanks and membership in [a-z0-9]\<close>

definition lower_char :: "char \<Rightarrow> char" where
  "lower_char c = (if 65 \<le> char_code c \<and> char_code c \<le> 90 then char_of (char_code c + 32) else c)"

definition upper_char :: "char \<Rightarrow> char" where
  "upper_char c = (if 97 \<le> char_code c \<and> char_code c \<le> 122 then char_of (char_code c - 32) else c)"

definition toLowerCase :: "string \<Rightarrow> string" where "toLowerCase s = map lower_char s"
definition toUpperCase :: "string \<Rightarrow> string" where "toUpperCase s = map upper_char s"

text \<open>\<open>\<s>\<close> of a regular expression and the blanks \<open>trim\<close> removes.\<close>

definition is_space :: "char \<Rightarrow> bool" where
  "is_space c \<longleftrightarrow> (9 \<le> char_code c \<and> char_code c \<le> 13) \<or> char_code c = 32 \<or> char_code c = 160"

definition trim :: "string \<Rightarrow> string" where
  "trim s = rev (dropWhile is_space (rev (dropWhile is_space s)))"

definition is_digit :: "char \<Rightarrow> bool" where
  "is_digit c \<longleftrightarrow> 48 \<le> char_code c \<and> char_code c \<le> 57"

definition slug_letter :: "char \<Rightarrow> bool" where
  "slug_letter c \<longleftrightarrow> is_digit c \<or> (97 \<le> char_code c \<and> char_code c \<le> 122)"

definition hyphen :: char where "hyphen = CHR ''-''"

definition slug_char :: "char \<Rightarrow> bool" where
  "slug_char c \<longleftrightarrow> slug_letter c \<or> c = hyphen"

lemma hyphen_not_letter [simp]: "\<not> slug_letter hyphen"
  by (simp add: slug_letter_def is_digit_def hyphen_def char_code_def)

lemma digit_is_letter [simp]: "is_digit c \<Longrightarrow> slug_letter c"
  by (simp add: slug_letter_def)

lemma lower_char_code: "char_code (lower_char c) = (if 65 \<le> char_code c \<and> char_code c \<le> 90 then char_code c + 32 else char_code c)"
  by (simp add: lower_char_def char_code_def)

lemma lower_char_idem [simp]: "lower_char (lower_char c) = lower_char c"
  unfolding code_eq_iff [symmetric] by (simp add: lower_char_code)

lemma toLowerCase_idem [simp]: "toLowerCase (toLowerCase s) = toLowerCase s"
  by (simp add: toLowerCase_def)

definition startsWith :: "string \<Rightarrow> string \<Rightarrow> bool" where
  "startsWith s p \<longleftrightarrow> take (length p) s = p"

definition endsWith :: "string \<Rightarrow> string \<Rightarrow> bool" where
  "endsWith s p \<longleftrightarrow> startsWith (rev s) (rev p)"

subsection \<open>Decimal digits\<close>

definition digit_char :: "nat \<Rightarrow> char" where "digit_char d = char_of (48 + d)"

text \<open>\<open>String(n)\<close> for a natural number.\<close>

function decimal :: "nat \<Rightarrow> string" where
  "decimal n = (if n < 10 then [digit_char n] else decimal (n div 10) @ [digit_char (n mod 10)])"
  by auto

termination by (relation "measure id") auto

declare decimal.simps [simp del]

lemma code_digit: "d < 10 \<Longrightarrow> char_code (digit_char d) = 48 + d"
  by (simp add: digit_char_def char_code_def)

lemma digit_char_inj: "d < 10 \<Longrightarrow> e < 10 \<Longrightarrow> digit_char d = digit_char e \<longleftrightarrow> d = e"
  using code_digit [of d] code_digit [of e] by (auto simp: code_eq_iff [symmetric])

lemma decimal_nonempty [simp]: "decimal n \<noteq> []"
  by (subst decimal.simps) simp

lemma decimal_digits: "c \<in> set (decimal n) \<Longrightarrow> is_digit c"
proof (induction n rule: decimal.induct)
  case (1 n)
  show ?case
  proof (cases "n < 10")
    case True
    then show ?thesis using 1(2) by (subst (asm) decimal.simps) (simp add: is_digit_def code_digit)
  next
    case False
    have "c \<in> set (decimal (n div 10)) \<or> c = digit_char (n mod 10)"
      using 1(2) False by (subst (asm) decimal.simps) auto
    then show ?thesis using 1(1) [OF False] by (auto simp: is_digit_def code_digit)
  qed
qed

lemma decimal_inj: "decimal m = decimal n \<Longrightarrow> m = n"
proof (induction m arbitrary: n rule: decimal.induct)
  case (1 m)
  show ?case
  proof (cases "m < 10 \<or> n < 10")
    case True
    show ?thesis
    proof (cases "m < 10 \<and> n < 10")
      case True
      then show ?thesis using 1(2)
        by (subst (asm) (1 2) decimal.simps) (simp add: digit_char_inj)
    next
      case False
      then have "length (decimal m) = 1 \<and> length (decimal n) > 1 \<or> length (decimal m) > 1 \<and> length (decimal n) = 1"
        using True by (subst (1 2 3 4) decimal.simps) auto
      then show ?thesis using 1(2) by auto
    qed
  next
    case False
    have "decimal (m div 10) = decimal (n div 10) \<and> digit_char (m mod 10) = digit_char (n mod 10)"
      using 1(2) False by (subst (asm) (1 2) decimal.simps) simp
    then have "m div 10 = n div 10" "m mod 10 = n mod 10"
      using 1(1) [of "n div 10"] False by (auto simp: digit_char_inj)
    then show ?thesis by (metis div_mult_mod_eq)
  qed
qed

lemma decimal_length: "n < 10 ^ k \<Longrightarrow> 0 < k \<Longrightarrow> length (decimal n) \<le> k"
proof (induction k arbitrary: n)
  case 0
  then show ?case by simp
next
  case (Suc k)
  show ?case
  proof (cases "n < 10")
    case True
    then show ?thesis by (subst decimal.simps) simp
  next
    case False
    then have "0 < k" using Suc.prems(1) by (cases k) auto
    moreover have "n div 10 < 10 ^ k" using Suc.prems(1) by (simp add: less_mult_imp_div_less mult.commute)
    ultimately have "length (decimal (n div 10)) \<le> k" by (intro Suc.IH)
    then show ?thesis using False by (subst decimal.simps) simp
  qed
qed

text \<open>A text that ends in a hyphen and a number determines the number.\<close>

lemma numbered_inj:
  assumes "a @ hyphen # decimal m = b @ hyphen # decimal n"
  shows "m = n"
proof -
  have "takeWhile is_digit (rev (a @ hyphen # decimal m)) = rev (decimal m)" for a m
    using decimal_digits by (subst rev_append) (simp add: takeWhile_append, metis hyphen_not_letter digit_is_letter)
  then have "rev (decimal m) = rev (decimal n)" using assms by metis
  then show ?thesis by (simp add: decimal_inj)
qed

end
