(* ===== verification/Sign_In.thy ===== *)
theory Sign_In
  imports Sample_Data Text_Functions
begin

text \<open>
  \<open>modules/auth\<close> and \<open>middleware/auth.ts\<close>: signing in with the per-account backoff, creating
  an account, and the session behind a request.

  bcrypt and the JWT library are arguments: \<open>compare password hash\<close> is \<open>bcrypt.compare\<close>,
  \<open>hash password\<close> is \<open>bcrypt.hash\<close>, and a request's token is what \<open>jwtVerify\<close> makes of it
  (\<open>None\<close> when it throws). A failed sign-in writes and then throws, so \<open>loginUser\<close> returns
  the state in both cases.
\<close>

abbreviation find_user_by_email :: "string \<Rightarrow> trace_db \<Rightarrow> user option" where
  "find_user_by_email e db \<equiv> find_row u_email e (users db)"

subsection \<open>The wait after failed sign-ins (login-backoff.ts)\<close>

definition FREE_FAILURES :: int where "FREE_FAILURES = 5"
definition RUN_WINDOW_MINUTES :: int where "RUN_WINDOW_MINUTES = 15"
definition MAX_WAIT_MINUTES :: int where "MAX_WAIT_MINUTES = 15"
definition MINUTE_MS :: int where "MINUTE_MS = 60000"

definition waitMinutes :: "int \<Rightarrow> int" where
  "waitMinutes failures =
     (if failures < FREE_FAILURES then 0
      else min (2 ^ nat (failures - FREE_FAILURES)) MAX_WAIT_MINUTES)"

text \<open>
  The UPDATE in SQL. \<open>power(2, n)\<close> on integers is the double precision function, which
  raises \<open>value out of range: overflow\<close> from \<open>2^1024\<close> on.
\<close>

definition runContinues :: "time \<Rightarrow> user \<Rightarrow> bool" where
  "runContinues now u \<longleftrightarrow>
     (case u_failedLoginAt u of
        None \<Rightarrow> False
      | Some f \<Rightarrow> now \<le> max f (or_keep (u_loginBackoffUntil u) f) + RUN_WINDOW_MINUTES * MINUTE_MS)"

definition failures_after :: "time \<Rightarrow> user \<Rightarrow> int" where
  "failures_after now u = (if runContinues now u then u_failedLoginCount u + 1 else 1)"

definition sql_power2 :: "int \<Rightarrow> int option" where
  "sql_power2 n = (if n < 1024 then Some (2 ^ nat n) else None)"

definition failed_row :: "time \<Rightarrow> user \<Rightarrow> user option" where
  "failed_row now u =
     (let failures = failures_after now u;
          counted = (\<lambda>until. u\<lparr> u_failedLoginCount := failures, u_failedLoginAt := Some now,
                                 u_loginBackoffUntil := until \<rparr>)
      in if failures \<ge> FREE_FAILURES then
           (case sql_power2 (failures - FREE_FAILURES) of
              None \<Rightarrow> None
            | Some w \<Rightarrow> Some (counted (Some (now + min w MAX_WAIT_MINUTES * MINUTE_MS))))
         else Some (counted None))"

definition recordFailedLogin :: "uuid \<Rightarrow> time \<Rightarrow> trace_db \<Rightarrow> (unit \<times> trace_db) outcome" where
  "recordFailedLogin userId now db =
     (case find_user userId db of
        None \<Rightarrow> Inr ((), db)
      | Some u \<Rightarrow>
          case failed_row now u of
            None \<Rightarrow> Inl DbError
          | Some u' \<Rightarrow> Inr ((), users_update (update_rows u_id userId (\<lambda>_. u')) db))"

definition cleared_row :: "user \<Rightarrow> user" where
  "cleared_row u = u\<lparr> u_failedLoginCount := 0, u_failedLoginAt := None, u_loginBackoffUntil := None \<rparr>"

definition clearFailedLogins :: "uuid \<Rightarrow> trace_db \<Rightarrow> trace_db" where
  "clearFailedLogins userId db = users_update (update_rows u_id userId cleared_row) db"

subsection \<open>Signing in\<close>

record jwt_payload =
  jp_sub :: uuid
  jp_email :: string
  jp_role :: user_role
  jp_organisationId :: "uuid option"
  jp_tv :: "int option"

definition buildPayload :: "user \<Rightarrow> jwt_payload" where
  "buildPayload u = \<lparr> jp_sub = u_id u, jp_email = u_email u, jp_role = u_role u,
     jp_organisationId = u_organisationId u, jp_tv = Some (u_tokenVersion u) \<rparr>"

record login_input =
  li_email :: string
  li_password :: string

definition ceil_div :: "int \<Rightarrow> int \<Rightarrow> int" where
  "ceil_div a b = - ((- a) div b)"

definition waitMs :: "time \<Rightarrow> user option \<Rightarrow> int" where
  "waitMs now u =
     (case u of
        None \<Rightarrow> 0
      | Some u \<Rightarrow> (case u_loginBackoffUntil u of None \<Rightarrow> 0 | Some t \<Rightarrow> t - now))"

definition dummyHash :: string where
  "dummyHash = ''$2b$10$02xnKRdR3biWegV7liWi7.Lwo5N9ozmh/MGhPxCfM/I2x6lmUpJMW''"

definition loginUser ::
  "(string \<Rightarrow> string \<Rightarrow> bool) \<Rightarrow> login_input \<Rightarrow> time \<Rightarrow> trace_db \<Rightarrow> jwt_payload outcome \<times> trace_db" where
  "loginUser compare input now db =
     (let found = find_user_by_email (toLowerCase (li_email input)) db; wait = waitMs now found
      in if wait > 0 then
           (Inl (TooManyRequestsError (ceil_div wait MINUTE_MS) (ceil_div wait 1000)), db)
         else
           let hash = (case found of None \<Rightarrow> dummyHash | Some u \<Rightarrow> u_passwordHash u);
               valid = compare (li_password input) hash
           in case found of
                None \<Rightarrow> (Inl (UnauthorizedError Invalid_credentials), db)
              | Some u \<Rightarrow>
                  if \<not> valid then
                    (case recordFailedLogin (u_id u) now db of
                       Inl e \<Rightarrow> (Inl e, db)
                     | Inr (_, db1) \<Rightarrow> (Inl (UnauthorizedError Invalid_credentials), db1))
                  else
                    (Inr (buildPayload u),
                     if u_failedLoginCount u > 0 \<or> u_loginBackoffUntil u \<noteq> None
                     then clearFailedLogins (u_id u) db else db))"

subsection \<open>Creating an account\<close>

record register_input =
  ri_email :: string
  ri_password :: string
  ri_name :: string

text \<open>\<open>is_email\<close> is zod's e-mail test; bcrypt and zod are libraries.\<close>

definition RegisterSchema :: "(string \<Rightarrow> bool) \<Rightarrow> register_input \<Rightarrow> bool" where
  "RegisterSchema is_email i \<longleftrightarrow>
     is_email (ri_email i) \<and> 8 \<le> length (ri_password i) \<and> length (ri_password i) \<le> 100
     \<and> 1 \<le> length (ri_name i) \<and> length (ri_name i) \<le> 255"

definition LoginSchema :: "(string \<Rightarrow> bool) \<Rightarrow> login_input \<Rightarrow> bool" where
  "LoginSchema is_email i \<longleftrightarrow> is_email (li_email i) \<and> 8 \<le> length (li_password i)"

definition new_user :: "uuid \<Rightarrow> register_input \<Rightarrow> string \<Rightarrow> time \<Rightarrow> user" where
  "new_user newId input passwordHash now =
     \<lparr> u_id = newId, u_email = toLowerCase (ri_email input), u_passwordHash = passwordHash,
       u_name = ri_name input, u_role = Buyer, u_organisationId = None,
       u_blockchainAddress = None, u_notificationPrefs = JObj [], u_ordersSeenAt = None,
       u_tokenVersion = 0, u_failedLoginCount = 0, u_failedLoginAt = None,
       u_loginBackoffUntil = None, u_createdAt = now \<rparr>"

text \<open>The ids and the e-mail addresses of users are unique (\<open>users_email_unique\<close>).\<close>

definition insert_user :: "user \<Rightarrow> trace_db \<Rightarrow> (user \<times> trace_db) outcome" where
  "insert_user u db =
     (if find_user (u_id u) db \<noteq> None \<or> find_user_by_email (u_email u) db \<noteq> None then Inl DbError
      else Inr (u, users_update (insert_row u) db))"

definition registerUser ::
  "(string \<Rightarrow> string) \<Rightarrow> register_input \<Rightarrow> uuid \<Rightarrow> time \<Rightarrow> trace_db
    \<Rightarrow> (jwt_payload \<times> trace_db) outcome" where
  "registerUser hash input newId now db =
     (case find_user_by_email (toLowerCase (ri_email input)) db of
        Some u \<Rightarrow> Inl (ConflictError Email_taken)
      | None \<Rightarrow>
          case insert_user (new_user newId input (hash (ri_password input)) now) db of
            Inl e \<Rightarrow> Inl e
          | Inr (u, db1) \<Rightarrow> Inr (buildPayload u, db1))"

subsection \<open>The session behind a request (middleware/auth.ts)\<close>

definition loadSession :: "jwt_payload option \<Rightarrow> trace_db \<Rightarrow> jwt_payload outcome" where
  "loadSession token db =
     (case token of
        None \<Rightarrow> Inl (UnauthorizedError Invalid_token)
      | Some claims \<Rightarrow>
          case jp_tv claims of
            None \<Rightarrow> Inl (UnauthorizedError Invalid_token)
          | Some tv \<Rightarrow>
              case find_user (jp_sub claims) db of
                None \<Rightarrow> Inl (UnauthorizedError Invalid_token)
              | Some u \<Rightarrow>
                  if u_tokenVersion u \<noteq> tv then Inl (UnauthorizedError Invalid_token)
                  else Inr (claims\<lparr> jp_email := u_email u, jp_role := u_role u,
                                     jp_organisationId := u_organisationId u \<rparr>))"

definition authenticate :: "jwt_payload option \<Rightarrow> trace_db \<Rightarrow> jwt_payload outcome" where
  "authenticate token db = loadSession token db"

definition optionalUser :: "jwt_payload option \<Rightarrow> trace_db \<Rightarrow> jwt_payload option outcome" where
  "optionalUser token db =
     (case loadSession token db of
        Inr s \<Rightarrow> Inr (Some s)
      | Inl (UnauthorizedError r) \<Rightarrow> Inr None
      | Inl e \<Rightarrow> Inl e)"

definition authorize :: "user_role list \<Rightarrow> jwt_payload option \<Rightarrow> unit outcome" where
  "authorize roles session =
     (case session of
        None \<Rightarrow> Inl (ForbiddenError (Role_not_permitted None roles))
      | Some s \<Rightarrow>
          if jp_role s \<notin> set roles then Inl (ForbiddenError (Role_not_permitted (Some (jp_role s)) roles))
          else Inr ())"

definition requireTenant :: "jwt_payload option \<Rightarrow> unit outcome" where
  "requireTenant session =
     (case session of
        None \<Rightarrow> Inl (ForbiddenError Organisation_context_required)
      | Some s \<Rightarrow>
          if jp_organisationId s = None then Inl (ForbiddenError Organisation_context_required)
          else Inr ())"

subsection \<open>The wait a failure gives\<close>

lemma waitMinutes_bounds: "0 \<le> waitMinutes f" "waitMinutes f \<le> 15"
  by (auto simp: waitMinutes_def MAX_WAIT_MINUTES_def)

lemma waitMinutes_mono: "f \<le> g \<Longrightarrow> waitMinutes f \<le> waitMinutes g"
proof (cases "f < FREE_FAILURES")
  case True
  then show ?thesis by (simp add: waitMinutes_def MAX_WAIT_MINUTES_def)
next
  case False
  assume "f \<le> g"
  with False have "(2::int) ^ nat (f - FREE_FAILURES) \<le> 2 ^ nat (g - FREE_FAILURES)"
    by (intro power_increasing) auto
  moreover have "\<not> g < FREE_FAILURES" using False \<open>f \<le> g\<close> by simp
  ultimately show ?thesis using False unfolding waitMinutes_def
    by (simp add: min_le_iff_disj)
qed

lemma failed_row_spec:
  assumes "failures_after now u \<le> 1028"
  shows "failed_row now u = Some (u\<lparr> u_failedLoginCount := failures_after now u,
      u_failedLoginAt := Some now,
      u_loginBackoffUntil := (if failures_after now u < FREE_FAILURES then None
        else Some (now + waitMinutes (failures_after now u) * MINUTE_MS)) \<rparr>)"
  using assms by (auto simp: failed_row_def Let_def sql_power2_def waitMinutes_def FREE_FAILURES_def)

lemma failed_row_overflow: "1028 < failures_after now u \<Longrightarrow> failed_row now u = None"
  by (simp add: failed_row_def Let_def sql_power2_def FREE_FAILURES_def)

subsection \<open>Guessing one account's password\<close>

text \<open>
  The account under a sequence of wrong passwords, at the times of the attempts: an attempt
  inside the wait is refused unchecked. \<open>guesses_checked\<close> counts the passwords that were
  compared.
\<close>

definition waiting :: "time \<Rightarrow> user \<Rightarrow> bool" where
  "waiting now u \<longleftrightarrow> waitMs now (Some u) > 0"

fun guesses_checked :: "time list \<Rightarrow> user \<Rightarrow> nat" where
  "guesses_checked [] u = 0"
| "guesses_checked (t # ts) u =
     (if waiting t u then guesses_checked ts u
      else case failed_row t u of
             None \<Rightarrow> Suc (guesses_checked ts u)
           | Some u' \<Rightarrow> Suc (guesses_checked ts u'))"

text \<open>The minutes that \<open>n\<close> further checks need, after \<open>c\<close> failures in a row.\<close>

fun total_wait :: "int \<Rightarrow> nat \<Rightarrow> int" where
  "total_wait c 0 = 0"
| "total_wait c (Suc 0) = 0"
| "total_wait c (Suc (Suc n)) = waitMinutes (c + 1) + total_wait (c + 1) (Suc n)"

lemma total_wait_Suc: "0 < n \<Longrightarrow> total_wait c (Suc n) = waitMinutes (c + 1) + total_wait (c + 1) n"
  by (cases n) auto

lemma total_wait_nonneg: "0 \<le> total_wait c n"
  by (induction c n rule: total_wait.induct) (auto simp: waitMinutes_bounds)

lemma total_wait_mono: "c \<le> d \<Longrightarrow> total_wait c n \<le> total_wait d n"
proof (induction c n arbitrary: d rule: total_wait.induct)
  case (3 c n)
  have "total_wait (c + 1) (Suc n) \<le> total_wait (d + 1) (Suc n)" using 3 by simp
  moreover have "waitMinutes (c + 1) \<le> waitMinutes (d + 1)" using 3 by (intro waitMinutes_mono) simp
  ultimately show ?case by simp
qed auto

lemma total_wait_step: "total_wait c n \<le> total_wait c (Suc n)"
proof (induction c n rule: total_wait.induct)
  case (3 c n)
  then show ?case by simp
qed (auto simp: waitMinutes_bounds)

lemma total_wait_more: "n \<le> m \<Longrightarrow> total_wait c n \<le> total_wait c m"
  by (induction rule: dec_induct) (auto intro: order_trans total_wait_step)

lemma total_wait_eight: "total_wait 1 8 = 15"
  by code_simp

text \<open>The moment from which an account that failed last at \<open>f\<close> is checked again.\<close>

definition ready_from :: "time \<Rightarrow> user \<Rightarrow> time" where
  "ready_from f u = max f (or_keep (u_loginBackoffUntil u) f)"

lemma not_waiting: "f \<le> t \<Longrightarrow> \<not> waiting t u \<Longrightarrow> ready_from f u \<le> t"
  by (auto simp: waiting_def waitMs_def ready_from_def or_keep_def split: option.splits)

lemma failed_row_ready:
  assumes "failures_after t u \<le> 1028" and "failed_row t u = Some u'"
  shows "u_failedLoginAt u' = Some t" and "u_failedLoginCount u' = failures_after t u"
    and "ready_from t u' = t + waitMinutes (failures_after t u) * MINUTE_MS"
  using assms(2) waitMinutes_bounds(1) [of "failures_after t u"] unfolding failed_row_spec [OF assms(1)]
  by (auto simp: ready_from_def waitMinutes_def MINUTE_MS_def)

lemma run_of_guesses:
  assumes "sorted ts" and "\<forall>t \<in> set ts. f \<le> t \<and> t < e" and "e \<le> f + 15 * MINUTE_MS"
    and "u_failedLoginAt u = Some f" and "u_failedLoginCount u + int (length ts) \<le> 1028"
    and "0 < guesses_checked ts u"
  shows "ready_from f u + total_wait (u_failedLoginCount u) (guesses_checked ts u) * MINUTE_MS < e"
  using assms
proof (induction ts arbitrary: u f)
  case Nil
  then show ?case by simp
next
  case (Cons t ts)
  let ?c = "u_failedLoginCount u"
  show ?case
  proof (cases "waiting t u")
    case True
    then show ?thesis using Cons by simp
  next
    case False
    have t: "ready_from f u \<le> t" "t < e"
      using not_waiting [of f t u] False Cons.prems(2) by auto
    have "runContinues t u"
      using Cons.prems(2,3,4) by (auto simp: runContinues_def RUN_WINDOW_MINUTES_def)
    then have fa: "failures_after t u = ?c + 1" by (simp add: failures_after_def)
    then have few: "failures_after t u \<le> 1028" using Cons.prems(5) by simp
    obtain u' where u': "failed_row t u = Some u'" using failed_row_spec [OF few] by simp
    note r = failed_row_ready [OF few u']
    let ?n = "guesses_checked ts u'"
    have n: "guesses_checked (t # ts) u = Suc ?n" using False u' by simp
    show ?thesis
    proof (cases "?n = 0")
      case True
      then show ?thesis using n t by simp
    next
      case pos: False
      have "ready_from t u' + total_wait (u_failedLoginCount u') ?n * MINUTE_MS < e"
        by (rule Cons.IH [OF _ _ _ r(1)]) (use Cons.prems pos r(2) fa in auto)
      then have "t + (waitMinutes (?c + 1) + total_wait (?c + 1) ?n) * MINUTE_MS < e"
        by (simp add: r(2,3) fa algebra_simps)
      then show ?thesis using t(1) n pos by (simp add: total_wait_Suc)
    qed
  qed
qed

text \<open>
  At most eight passwords are checked in any fifteen minutes. The first check of the period
  may belong to an earlier run or start a new one; the waits after the fifth failure of a
  run leave no room for a ninth.
\<close>

lemma guesses_bounded:
  assumes "sorted ts" and "\<forall>t \<in> set ts. s \<le> t \<and> t < s + 15 * MINUTE_MS"
    and "0 \<le> u_failedLoginCount u" and "u_failedLoginCount u + int (length ts) \<le> 1028"
  shows "guesses_checked ts u \<le> 8"
  using assms
proof (induction ts)
  case Nil
  then show ?case by simp
next
  case (Cons t ts)
  show ?case
  proof (cases "waiting t u")
    case True
    then show ?thesis using Cons by simp
  next
    case False
    have fa: "1 \<le> failures_after t u" "failures_after t u \<le> u_failedLoginCount u + 1"
      using Cons.prems(3) by (auto simp: failures_after_def)
    then have few: "failures_after t u \<le> 1028" using Cons.prems(4) by simp
    obtain u' where u': "failed_row t u = Some u'" using failed_row_spec [OF few] by simp
    note r = failed_row_ready [OF few u']
    let ?n = "guesses_checked ts u'"
    have n: "guesses_checked (t # ts) u = Suc ?n" using False u' by simp
    have "?n < 8"
    proof (rule ccontr)
      assume many: "\<not> ?n < 8"
      have "ready_from t u' + total_wait (u_failedLoginCount u') ?n * MINUTE_MS < s + 15 * MINUTE_MS"
        by (rule run_of_guesses [OF _ _ _ r(1)]) (use Cons.prems many r(2) fa in auto)
      moreover have "15 \<le> total_wait (u_failedLoginCount u') ?n"
        using total_wait_mono [of 1 "u_failedLoginCount u'" 8] total_wait_more [of 8 ?n "u_failedLoginCount u'"]
          many r(2) fa by (simp add: total_wait_eight)
      moreover have "s \<le> ready_from t u'"
        using r(3) waitMinutes_bounds(1) [of "failures_after t u"] Cons.prems(2) by (simp add: MINUTE_MS_def)
      ultimately show False by (simp add: MINUTE_MS_def)
    qed
    then show ?thesis using n by simp
  qed
qed

subsection \<open>Sign-ins against the database\<close>

lemma find_update_const:
  "find_row key k rows = Some r \<Longrightarrow> key x = k \<Longrightarrow> find_row key k (update_rows key k (\<lambda>_. x) rows) = Some x"
  by (induction rows) (auto split: if_splits)

lemma find_by_email_update:
  "find_row u_email e rows = Some u \<Longrightarrow> find_row u_id (u_id u) rows = Some u \<Longrightarrow> u_email u' = e \<Longrightarrow>
    find_row u_email e (update_rows u_id (u_id u) (\<lambda>_. u') rows) = Some u'"
proof (induction rows)
  case Nil
  then show ?case by simp
next
  case (Cons r rows)
  then show ?case using find_row_SomeD [of u_email e rows u] by (auto split: if_splits)
qed

definition account :: "string \<Rightarrow> user \<Rightarrow> trace_db \<Rightarrow> bool" where
  "account e u db \<longleftrightarrow> find_user_by_email e db = Some u \<and> find_user (u_id u) db = Some u"

lemma failed_row_keys: "failed_row t u = Some u' \<Longrightarrow> u_id u' = u_id u \<and> u_email u' = u_email u
    \<and> u_passwordHash u' = u_passwordHash u \<and> u_tokenVersion u' = u_tokenVersion u"
  by (auto simp: failed_row_def Let_def split: if_splits option.splits)

lemma account_email: "account e u db \<Longrightarrow> u_email u = e"
  using find_row_SomeD [of u_email e "users db" u] by (simp add: account_def)

lemma wrong_password:
  assumes a: "account e u db" and e: "toLowerCase (li_email input) = e"
    and wrong: "\<not> compare (li_password input) (u_passwordHash u)" and nw: "\<not> waiting t u"
    and u': "failed_row t u = Some u'"
  shows "loginUser compare input t db = (Inl (UnauthorizedError Invalid_credentials),
      users_update (update_rows u_id (u_id u) (\<lambda>_. u')) db)"
    and "account e u' (users_update (update_rows u_id (u_id u) (\<lambda>_. u')) db)"
proof -
  show "loginUser compare input t db = (Inl (UnauthorizedError Invalid_credentials),
      users_update (update_rows u_id (u_id u) (\<lambda>_. u')) db)"
    using a e wrong nw u' by (simp add: loginUser_def Let_def account_def waiting_def recordFailedLogin_def)
  show "account e u' (users_update (update_rows u_id (u_id u) (\<lambda>_. u')) db)"
    using a account_email [OF a] failed_row_keys [OF u']
    by (simp add: account_def find_by_email_update find_update_const)
qed

lemma login_waiting:
  assumes "account e u db" and "toLowerCase (li_email input) = e" and "waiting t u"
  shows "loginUser compare input t db
    = (Inl (TooManyRequestsError (ceil_div (waitMs t (Some u)) MINUTE_MS) (ceil_div (waitMs t (Some u)) 1000)), db)"
  using assms by (simp add: loginUser_def Let_def account_def waiting_def)

lemma right_password:
  assumes a: "account e u db" and e: "toLowerCase (li_email input) = e"
    and "compare (li_password input) (u_passwordHash u)" and "\<not> waiting t u"
  shows "fst (loginUser compare input t db) = Inr (buildPayload u)"
  using assms by (simp add: loginUser_def Let_def account_def waiting_def)

text \<open>A series of sign-in attempts, and how many of them were answered with a verdict on the
  password rather than a request to wait.\<close>

fun try_logins ::
  "(string \<Rightarrow> string \<Rightarrow> bool) \<Rightarrow> (login_input \<times> time) list \<Rightarrow> trace_db
    \<Rightarrow> jwt_payload outcome list \<times> trace_db" where
  "try_logins compare [] db = ([], db)"
| "try_logins compare ((input, now) # later) db =
     (case loginUser compare input now db of
        (r, db1) \<Rightarrow> (case try_logins compare later db1 of (rs, db2) \<Rightarrow> (r # rs, db2)))"

fun told_to_wait :: "jwt_payload outcome \<Rightarrow> bool" where
  "told_to_wait (Inl (TooManyRequestsError m s)) = True"
| "told_to_wait _ = False"

definition verdicts :: "jwt_payload outcome list \<Rightarrow> nat" where
  "verdicts rs = length (filter (\<lambda>r. \<not> told_to_wait r) rs)"

lemma try_logins_guesses:
  assumes "account e u db" and "\<forall>(i, t) \<in> set tries. toLowerCase (li_email i) = e
      \<and> \<not> compare (li_password i) (u_passwordHash u)"
    and "0 \<le> u_failedLoginCount u" and "u_failedLoginCount u + int (length tries) \<le> 1028"
  shows "verdicts (fst (try_logins compare tries db)) = guesses_checked (map snd tries) u"
  using assms
proof (induction tries arbitrary: u db)
  case Nil
  then show ?case by (simp add: verdicts_def)
next
  case (Cons a tries)
  obtain i t where a: "a = (i, t)" by (cases a)
  show ?case
  proof (cases "waiting t u")
    case True
    have "loginUser compare i t db = (Inl (TooManyRequestsError (ceil_div (waitMs t (Some u)) MINUTE_MS)
        (ceil_div (waitMs t (Some u)) 1000)), db)"
      by (rule login_waiting [OF Cons.prems(1) _ True]) (use Cons.prems(2) a in auto)
    moreover have "verdicts (fst (try_logins compare tries db)) = guesses_checked (map snd tries) u"
      by (rule Cons.IH [OF Cons.prems(1)]) (use Cons.prems in auto)
    ultimately show ?thesis using a True by (auto simp: verdicts_def split: prod.splits)
  next
    case False
    have fa: "0 \<le> failures_after t u" "failures_after t u \<le> u_failedLoginCount u + 1"
      using Cons.prems(3) by (auto simp: failures_after_def)
    then have few: "failures_after t u \<le> 1028" using Cons.prems(4) by simp
    obtain u' where u': "failed_row t u = Some u'" using failed_row_spec [OF few] by simp
    have e: "toLowerCase (li_email i) = e" "\<not> compare (li_password i) (u_passwordHash u)"
      using Cons.prems(2) a by auto
    note wrong = wrong_password [where compare = compare, OF Cons.prems(1) e(1) e(2) False u']
    have "verdicts (fst (try_logins compare tries (users_update (update_rows u_id (u_id u) (\<lambda>_. u')) db)))
        = guesses_checked (map snd tries) u'"
      by (rule Cons.IH [OF wrong(2)])
        (use Cons.prems failed_row_keys [OF u'] failed_row_ready(2) [OF few u'] fa in auto)
    then show ?thesis using wrong(1) False u' a by (auto simp: verdicts_def split: prod.splits)
  qed
qed

subsection \<open>No lockout\<close>

definition users_ok :: "trace_db \<Rightarrow> bool" where
  "users_ok db \<longleftrightarrow> distinct (map u_id (users db)) \<and> distinct (map u_email (users db))"

definition same_account :: "user \<Rightarrow> user \<Rightarrow> bool" where
  "same_account u v \<longleftrightarrow> u_id v = u_id u \<and> u_email v = u_email u \<and> u_passwordHash v = u_passwordHash u
     \<and> u_role v = u_role u \<and> u_organisationId v = u_organisationId u \<and> u_tokenVersion v = u_tokenVersion u"

definition wait_within :: "time \<Rightarrow> user \<Rightarrow> bool" where
  "wait_within s u \<longleftrightarrow>
     (case u_loginBackoffUntil u of None \<Rightarrow> True | Some d \<Rightarrow> d \<le> s + MAX_WAIT_MINUTES * MINUTE_MS)"

lemma failed_row_within: "failed_row t u = Some u' \<Longrightarrow> t \<le> s \<Longrightarrow> same_account u u' \<and> wait_within s u'"
  by (auto simp: failed_row_def Let_def same_account_def wait_within_def MINUTE_MS_def MAX_WAIT_MINUTES_def
      split: if_splits option.splits)

lemma cleared_row_within: "same_account u (cleared_row u) \<and> wait_within s (cleared_row u)"
  by (simp add: cleared_row_def same_account_def wait_within_def)

text \<open>A sign-in attempt rewrites rows in place, each by counting a failure or by clearing.\<close>

definition login_row :: "time \<Rightarrow> user \<Rightarrow> user \<Rightarrow> bool" where
  "login_row t v v' \<longleftrightarrow> v' = v \<or> failed_row t v = Some v' \<or> v' = cleared_row v"

lemma account_unique:
  "users_ok db \<Longrightarrow> v \<in> set (users db) \<Longrightarrow> account (u_email v) v db"
  by (simp add: users_ok_def account_def find_row_distinct)

lemma account_iff: "users_ok db \<Longrightarrow> account e u db \<longleftrightarrow> u \<in> set (users db) \<and> u_email u = e"
  using account_unique [of db u] find_row_SomeD [of u_email e "users db" u] by (auto simp: account_def)

lemma update_one_row:
  assumes "users_ok db" and "v \<in> set (users db)" and "login_row t v v'"
  obtains g where "update_rows u_id (u_id v) (\<lambda>_. v') (users db) = map g (users db)"
    and "\<forall>r \<in> set (users db). login_row t r (g r)"
proof
  show "update_rows u_id (u_id v) (\<lambda>_. v') (users db) = map (\<lambda>r. if u_id r = u_id v then v' else r) (users db)"
    by (simp add: update_rows_def)
  have "r = v" if "r \<in> set (users db)" "u_id r = u_id v" for r
    using that assms(1,2) by (metis account_def account_unique option.inject)
  then show "\<forall>r \<in> set (users db). login_row t r (if u_id r = u_id v then v' else r)"
    using assms(3) by (auto simp: login_row_def)
qed

lemma login_rows:
  assumes ok: "users_ok db"
  obtains g where "users (snd (loginUser compare i t db)) = map g (users db)"
    and "\<forall>r \<in> set (users db). login_row t r (g r)"
proof (cases "find_user_by_email (toLowerCase (li_email i)) db")
  case None
  then have "users (snd (loginUser compare i t db)) = map (\<lambda>r. r) (users db)"
    by (simp add: loginUser_def Let_def waitMs_def)
  then show ?thesis by (rule that) (simp add: login_row_def)
next
  case (Some v)
  have v: "v \<in> set (users db)" using find_row_SomeD [OF Some] by simp
  have vid: "find_user (u_id v) db = Some v" using account_unique [OF ok v] by (simp add: account_def)
  have "snd (loginUser compare i t db) = db
    \<or> snd (loginUser compare i t db) = clearFailedLogins (u_id v) db
    \<or> (\<exists>v'. failed_row t v = Some v'
        \<and> snd (loginUser compare i t db) = users_update (update_rows u_id (u_id v) (\<lambda>_. v')) db)"
    by (cases "failed_row t v") (simp_all add: loginUser_def Let_def recordFailedLogin_def Some vid)
  then consider (same) "snd (loginUser compare i t db) = db"
    | (clear) "snd (loginUser compare i t db) = clearFailedLogins (u_id v) db"
    | (fail) v' where "failed_row t v = Some v'"
        "snd (loginUser compare i t db) = users_update (update_rows u_id (u_id v) (\<lambda>_. v')) db"
    by blast
  then show ?thesis
  proof cases
    case same
    then have "users (snd (loginUser compare i t db)) = map (\<lambda>r. r) (users db)" by simp
    then show ?thesis by (rule that) (simp add: login_row_def)
  next
    case clear
    then have "users (snd (loginUser compare i t db)) = map (\<lambda>r. if u_id r = u_id v then cleared_row r else r) (users db)"
      by (simp add: clearFailedLogins_def update_rows_def)
    then show ?thesis by (rule that) (simp add: login_row_def)
  next
    case (fail v')
    then obtain g where "update_rows u_id (u_id v) (\<lambda>_. v') (users db) = map g (users db)"
      and "\<forall>r \<in> set (users db). login_row t r (g r)"
      using update_one_row [OF ok v, of t v'] by (auto simp: login_row_def)
    then show ?thesis using fail(2) that [of g] by simp
  qed
qed

lemma login_row_same: "login_row t v v' \<Longrightarrow> same_account v v'"
  using failed_row_within [of t v v' t] cleared_row_within [of v]
  by (auto simp: login_row_def same_account_def)

lemma login_row_within: "login_row t v v' \<Longrightarrow> t \<le> s \<Longrightarrow> wait_within s v \<Longrightarrow> wait_within s v'"
  using failed_row_within [of t v v' s] cleared_row_within [of v s] by (auto simp: login_row_def)

lemma login_keeps:
  assumes ok: "users_ok db" and within: "\<forall>u \<in> set (users db). wait_within s u" and ts: "t \<le> s"
  shows "users_ok (snd (loginUser compare i t db))"
    and "\<forall>u \<in> set (users (snd (loginUser compare i t db))). wait_within s u"
    and "account e u db \<Longrightarrow> \<exists>u'. account e u' (snd (loginUser compare i t db)) \<and> same_account u u'"
proof -
  let ?db = "snd (loginUser compare i t db)"
  obtain g where g: "users ?db = map g (users db)" "\<forall>r \<in> set (users db). login_row t r (g r)"
    using login_rows [OF ok] by blast
  have same: "\<forall>r \<in> set (users db). same_account r (g r)" using g(2) login_row_same by blast
  have "map u_id (users ?db) = map u_id (users db)" "map u_email (users ?db) = map u_email (users db)"
    using same by (auto simp: g(1) same_account_def)
  then show ok': "users_ok ?db" using ok by (simp add: users_ok_def)
  show "\<forall>u \<in> set (users ?db). wait_within s u"
    using g within ts login_row_within by fastforce
  show "\<exists>u'. account e u' ?db \<and> same_account u u'" if "account e u db"
  proof -
    have u: "u \<in> set (users db)" "u_email u = e" using that by (auto simp: account_iff [OF ok])
    then have "account e (g u) ?db" using g(1) same by (auto simp: account_iff [OF ok'] same_account_def)
    then show ?thesis using same u by blast
  qed
qed

lemma tries_keep:
  assumes "users_ok db" and "\<forall>u \<in> set (users db). wait_within s u" and "\<forall>(i, t) \<in> set tries. t \<le> s"
    and "account e u db"
  shows "\<exists>u'. account e u' (snd (try_logins compare tries db)) \<and> same_account u u' \<and> wait_within s u'"
  using assms
proof (induction tries arbitrary: db u)
  case Nil
  then show ?case by (auto simp: account_iff same_account_def)
next
  case (Cons a tries)
  obtain i t where a: "a = (i, t)" by (cases a)
  let ?db = "snd (loginUser compare i t db)"
  have ts: "t \<le> s" using Cons.prems(3) a by simp
  note keep = login_keeps [where compare = compare and i = i, OF Cons.prems(1,2) ts]
  obtain u1 where u1: "account e u1 ?db" "same_account u u1" using keep(3) Cons.prems(4) by blast
  obtain u2 where "account e u2 (snd (try_logins compare tries ?db))" "same_account u1 u2" "wait_within s u2"
    using Cons.IH [OF keep(1,2) _ u1(1)] Cons.prems(3) by auto
  then show ?case using a u1(2) by (auto simp: same_account_def split: prod.splits)
qed

subsection \<open>Properties\<close>


definition two_users_db :: trace_db where
  "two_users_db = sample_db\<lparr> users :=
     [sample_user 2 Supplier (Some 1), (sample_user 3 Buyer None)\<lparr>u_email := ''bob@example.org''\<rparr>] \<rparr>"

definition a_login :: "string \<Rightarrow> string \<Rightarrow> login_input" where
  "a_login e p = \<lparr> li_email = e, li_password = p \<rparr>"



text \<open>C28: There is no lockout: whatever sign-ins were attempted up to a time \<open>s\<close>, by anyone and
  on any account, fifteen minutes later the right password signs its owner in.\<close>

theorem right_password_after_the_wait:
  assumes "users_ok db" and "\<forall>u \<in> set (users db). wait_within s u" and "account e u db"
    and "\<forall>(i, t) \<in> set tries. t \<le> s" and "s + 15 * MINUTE_MS \<le> now"
    and "toLowerCase (li_email input) = e" and "compare (li_password input) (u_passwordHash u)"
  shows "fst (loginUser compare input now (snd (try_logins compare tries db))) = Inr (buildPayload u)"
proof -
  obtain u' where u': "account e u' (snd (try_logins compare tries db))" "same_account u u'" "wait_within s u'"
    using tries_keep [OF assms(1,2,4,3)] by blast
  have "\<not> waiting now u'"
    using u'(3) assms(5) by (auto simp: waiting_def waitMs_def wait_within_def MAX_WAIT_MINUTES_def split: option.splits)
  moreover have "compare (li_password input) (u_passwordHash u')" using assms(7) u'(2) by (simp add: same_account_def)
  moreover have "buildPayload u' = buildPayload u" using u'(2) by (simp add: buildPayload_def same_account_def)
  ultimately show ?thesis using right_password [OF u'(1) assms(6)] by metis
qed

theorem right_password_after_the_wait_witness:
  "fst (loginUser (=) (a_login ''ANN@example.org'' ''x'') 1000000
     (snd (try_logins (=) (map (\<lambda>k. (a_login ''ann@example.org'' ''guess'', 100)) [0..<9]) two_users_db)))
   = Inr (buildPayload (sample_user 2 Supplier (Some 1)))"
proof (rule right_password_after_the_wait [where e = "''ann@example.org''" and s = 100])
  show "users_ok two_users_db" by code_simp
  show "\<forall>u \<in> set (users two_users_db). wait_within 100 u" by code_simp
  show "account ''ann@example.org'' (sample_user 2 Supplier (Some 1)) two_users_db" by code_simp
  show "\<forall>(i, t) \<in> set (map (\<lambda>k. (a_login ''ann@example.org'' ''guess'', 100 :: time)) [0..<9]). t \<le> 100" by simp
  show "toLowerCase (li_email (a_login ''ANN@example.org'' ''x'')) = ''ann@example.org''" by code_simp
qed (simp_all add: sample_user_def a_login_def MINUTE_MS_def)


text \<open>Counting failures in SQL agrees with \<open>waitMinutes\<close> in TypeScript for every run of at
  most 1028 failures: the recorded wait is exactly that many minutes, and none below five.\<close>

theorem sql_backoff_is_waitMinutes:
  assumes "find_user i db = Some u" and "failures_after now u \<le> 1028"
  shows "\<exists>db' u'. recordFailedLogin i now db = Inr ((), db') \<and> find_user i db' = Some u'
    \<and> u_failedLoginCount u' = failures_after now u \<and> u_failedLoginAt u' = Some now
    \<and> u_loginBackoffUntil u' = (if waitMinutes (failures_after now u) = 0 then None
        else Some (now + waitMinutes (failures_after now u) * MINUTE_MS))"
proof -
  obtain u' where u': "failed_row now u = Some u'"
    and w: "u_loginBackoffUntil u' = (if failures_after now u < FREE_FAILURES then None
        else Some (now + waitMinutes (failures_after now u) * MINUTE_MS))"
    using failed_row_spec [OF assms(2)] by simp
  have key: "u_id u' = i" using failed_row_keys [OF u'] find_row_SomeD [OF assms(1)] by simp
  have zero: "waitMinutes (failures_after now u) = 0 \<longleftrightarrow> failures_after now u < FREE_FAILURES"
    by (simp add: waitMinutes_def MAX_WAIT_MINUTES_def min_def)
  show ?thesis
    using assms(1) u' w zero failed_row_ready(1,2) [OF assms(2) u'] find_update_const [where key = u_id, OF assms(1) key]
    by (auto simp: recordFailedLogin_def)
qed

definition failed_often :: "int \<Rightarrow> user" where
  "failed_often n = (sample_user 2 Supplier (Some 1))\<lparr> u_failedLoginCount := n, u_failedLoginAt := Some 500 \<rparr>"

definition failed_often_db :: "int \<Rightarrow> trace_db" where
  "failed_often_db n = sample_db\<lparr> users := [failed_often n] \<rparr>"

theorem sql_backoff_is_waitMinutes_witness:
  "\<exists>db' u'. recordFailedLogin 2 1000 (failed_often_db 6) = Inr ((), db') \<and> find_user 2 db' = Some u'
    \<and> u_failedLoginCount u' = failures_after 1000 (failed_often 6) \<and> u_failedLoginAt u' = Some 1000
    \<and> u_loginBackoffUntil u' = (if waitMinutes (failures_after 1000 (failed_often 6)) = 0 then None
        else Some (1000 + waitMinutes (failures_after 1000 (failed_often 6)) * MINUTE_MS))"
  by (rule sql_backoff_is_waitMinutes) code_simp+


text \<open>The counter overflows at its 1029th failure in a row: \<open>power(2, 1024)\<close> is out of
  range, the UPDATE fails and nothing is written, so the sign-in answers an internal error
  and leaves the account unchanged, with its last wait over. As long as the run continues,
  every further guess is compared at once.\<close>

theorem backoff_overflow_disarms:
  assumes "account e u db" and "1028 \<le> u_failedLoginCount u" and "runContinues now u"
    and "\<not> waiting now u" and "toLowerCase (li_email input) = e"
    and "\<not> compare (li_password input) (u_passwordHash u)"
  shows "loginUser compare input now db = (Inl DbError, db)"
  using assms by (simp add: loginUser_def Let_def account_def waiting_def recordFailedLogin_def
      failures_after_def failed_row_overflow)

theorem backoff_overflow_disarms_witness:
  "loginUser (=) (a_login ''ann@example.org'' ''guess'') 1000 (failed_often_db 1028) = (Inl DbError, failed_often_db 1028)"
proof (rule backoff_overflow_disarms [where e = "''ann@example.org''" and u = "failed_often 1028"])
  show "account ''ann@example.org'' (failed_often 1028) (failed_often_db 1028)" by code_simp
  show "runContinues 1000 (failed_often 1028)" by code_simp
  show "\<not> waiting 1000 (failed_often 1028)" by code_simp
qed (code_simp+)


text \<open>Registering fails only because the address is taken, or creates a buyer without an
  organisation, whom the same password signs in under any spelling of the address's case;
  an address is never registered twice.\<close>

theorem register_then_login:
  assumes bcrypt: "\<And>p. compare p (hash p)"
    and ok: "users_ok db" and fresh: "find_user newId db = None"
    and same: "toLowerCase (li_email login) = toLowerCase (ri_email input)" "li_password login = ri_password input"
  shows "registerUser hash input newId now db = Inl (ConflictError Email_taken)
      \<and> find_user_by_email (toLowerCase (ri_email input)) db \<noteq> None
    \<or> (\<exists>s db'. registerUser hash input newId now db = Inr (s, db') \<and> users_ok db'
        \<and> jp_role s = Buyer \<and> jp_organisationId s = None
        \<and> fst (loginUser compare login later db') = Inr s)"
proof (cases "find_user_by_email (toLowerCase (ri_email input)) db")
  case (Some u)
  then show ?thesis by (simp add: registerUser_def)
next
  case None
  let ?u = "new_user newId input (hash (ri_password input)) now"
  let ?db = "users_update (insert_row ?u) db"
  have u: "u_id ?u = newId" "u_email ?u = toLowerCase (ri_email input)" "u_passwordHash ?u = hash (ri_password input)"
    "u_role ?u = Buyer" "u_organisationId ?u = None" "u_loginBackoffUntil ?u = None"
    by (simp_all add: new_user_def)
  have r: "registerUser hash input newId now db = Inr (buildPayload ?u, ?db)"
    using None fresh by (simp add: registerUser_def insert_user_def u)
  have ok': "users_ok ?db"
    using ok None fresh by (auto simp: users_ok_def insert_row_def find_row_None_iff u)
  have a: "account (toLowerCase (ri_email input)) ?u ?db"
    using account_iff [OF ok'] u by (simp add: insert_row_def)
  have "\<not> waiting later ?u" by (simp add: waiting_def waitMs_def u)
  then have "fst (loginUser compare login later ?db) = Inr (buildPayload ?u)"
    using right_password [OF a same(1)] bcrypt same(2) by (simp add: u)
  then show ?thesis using r ok' by (simp add: buildPayload_def u)
qed

definition a_registration :: register_input where
  "a_registration = \<lparr> ri_email = ''Cy@example.org'', ri_password = ''password'', ri_name = ''Cy'' \<rparr>"

theorem register_then_login_witness:
  "registerUser (\<lambda>p. p) a_registration 9 100 two_users_db = Inl (ConflictError Email_taken)
      \<and> find_user_by_email (toLowerCase (ri_email a_registration)) two_users_db \<noteq> None
    \<or> (\<exists>s db'. registerUser (\<lambda>p. p) a_registration 9 100 two_users_db = Inr (s, db') \<and> users_ok db'
        \<and> jp_role s = Buyer \<and> jp_organisationId s = None
        \<and> fst (loginUser (=) (a_login ''CY@example.org'' ''password'') 200 db') = Inr s)"
proof (rule register_then_login)
  show "users_ok two_users_db" by code_simp
  show "find_user 9 two_users_db = None" by code_simp
  show "toLowerCase (li_email (a_login ''CY@example.org'' ''password'')) = toLowerCase (ri_email a_registration)"
    by code_simp
qed (simp_all add: a_login_def a_registration_def)


text \<open>A request is signed in exactly when its token verifies, names an existing user and
  carries that user's current token version; its role and organisation are then those of
  the user's row, whatever the token says, so both changes and revocations apply at once.\<close>

theorem session_follows_the_row:
  "loadSession token db = Inr s \<longleftrightarrow>
    (\<exists>claims u. token = Some claims \<and> find_user (jp_sub claims) db = Some u
      \<and> jp_tv claims = Some (u_tokenVersion u)
      \<and> s = claims\<lparr> jp_email := u_email u, jp_role := u_role u, jp_organisationId := u_organisationId u \<rparr>)"
  by (auto simp: loadSession_def split: option.splits if_splits)

end
