(* ===== verification/Request_Guards.thy ===== *)
theory Request_Guards
  imports Sign_In
begin

text \<open>
  What stands between a request and its handler (\<open>server.ts\<close>, \<open>middleware/*\<close>, the
  \<open>preHandler\<close> lists of the route files), how errors are answered
  (\<open>middleware/error-handler.ts\<close>, \<open>errors.ts\<close>), which failed writes the audit log records
  (\<open>lib/audit.ts\<close>), and the web client's copies of the role rules (\<open>web/src/lib/auth.ts\<close>,
  \<open>nav.ts\<close>).

  Bodies, rate limits and the libraries' own hooks are outside the model; a request is its
  method, its route and the headers the guards read, with the token as the JWT library
  delivers it.
\<close>

subsection \<open>Deployment profiles (middleware/deployment-profile.ts)\<close>

datatype profile = Self_hosted | Public_buyer_demo | Public_showcase | Public_sandbox

definition READ_ONLY_METHODS :: "string list" where
  "READ_ONLY_METHODS = [''GET'', ''HEAD'', ''OPTIONS'']"

definition isReadOnlyProfile :: "profile \<Rightarrow> bool" where
  "isReadOnlyProfile p \<longleftrightarrow> p = Public_showcase \<or> p = Public_sandbox"

definition isRequestAllowed :: "profile \<Rightarrow> string \<Rightarrow> bool" where
  "isRequestAllowed p verb \<longleftrightarrow>
     \<not> isReadOnlyProfile p \<or> toUpperCase verb \<in> set READ_ONLY_METHODS"

definition curatedBrowseOnly :: "profile \<Rightarrow> bool" where
  "curatedBrowseOnly p \<longleftrightarrow> p = Public_buyer_demo"

subsection \<open>Cross-site writes (middleware/same-origin.ts)\<close>

definition SAFE_METHODS :: "string list" where
  "SAFE_METHODS = [''GET'', ''HEAD'', ''OPTIONS'']"

text \<open>\<open>/^Bearer\s/i\<close>.\<close>

definition bearer :: "string \<Rightarrow> bool" where
  "bearer s \<longleftrightarrow> toLowerCase (take 6 s) = ''bearer'' \<and> 6 < length s \<and> is_space (s ! 6)"

definition isCrossSiteCookieWrite ::
  "string \<Rightarrow> bool \<Rightarrow> string option \<Rightarrow> string option \<Rightarrow> string \<Rightarrow> bool" where
  "isCrossSiteCookieWrite verb hasSessionCookie authorization origin webOrigin \<longleftrightarrow>
     (if toUpperCase verb \<in> set SAFE_METHODS \<or> \<not> hasSessionCookie then False
      else if bearer (or_keep authorization '''') then False
      else origin \<noteq> Some webOrigin)"

subsection \<open>Routes and their guards\<close>

datatype route =
  Rt_login | Rt_register | Rt_logout | Rt_session | Rt_me
| Rt_request_submit | Rt_request_mine | Rt_request_list | Rt_request_organisations
| Rt_organisation_update | Rt_request_update | Rt_request_approve | Rt_request_approved_user
| Rt_request_reject
| Rt_passport_create | Rt_passport_list | Rt_passport_stats | Rt_passport_get | Rt_passport_update
| Rt_passport_verify | Rt_passport_integrity | Rt_passport_certificate | Rt_passport_history
| Rt_passport_photo
| Rt_listing_search | Rt_market_stats | Rt_market_facets | Rt_listing_create | Rt_listing_hub
| Rt_listing_get | Rt_listing_update | Rt_offer | Rt_order_list | Rt_order_summary | Rt_order_seen
| Rt_order_flagged | Rt_order_get | Rt_order_update
| Rt_report_create | Rt_report_materials | Rt_report_summary | Rt_report_passport | Rt_report_mine
| Rt_report_get | Rt_report_dispute
| Rt_feedback_submit | Rt_feedback_list

definition SELLER_ROUTE_ROLES :: "user_role list" where
  "SELLER_ROUTE_ROLES = [Hub_staff, Hub_admin, Platform_admin, Supplier]"

definition INSPECTION_ROUTE_ROLES :: "user_role list" where
  "INSPECTION_ROUTE_ROLES = [Inspector, Hub_admin, Platform_admin]"

text \<open>
  The access a route asks for: none, a session, or a session with one of the roles; and
  whether its handler refuses a user without an organisation.
\<close>

datatype access = Open_to_all | Signed_in | One_of "user_role list"

definition marketplace_access :: "route \<Rightarrow> access" where
  "marketplace_access r =
     (if r \<in> {Rt_listing_search, Rt_market_stats, Rt_market_facets, Rt_listing_get} then Open_to_all
      else if r \<in> {Rt_listing_create, Rt_listing_hub, Rt_listing_update} then One_of SELLER_ROUTE_ROLES
      else if r = Rt_offer then One_of [Buyer, Supplier, Hub_staff, Hub_admin, Platform_admin]
      else if r = Rt_order_flagged then One_of [Platform_admin]
      else Signed_in)"

definition passport_access :: "route \<Rightarrow> access" where
  "passport_access r =
     (if r \<in> {Rt_passport_create, Rt_passport_update, Rt_passport_photo} then One_of SELLER_ROUTE_ROLES
      else if r \<in> {Rt_passport_list, Rt_passport_stats} then Signed_in
      else Open_to_all)"

definition quality_access :: "route \<Rightarrow> access" where
  "quality_access r =
     (if r \<in> {Rt_report_create, Rt_report_materials, Rt_report_summary, Rt_report_mine}
      then One_of INSPECTION_ROUTE_ROLES
      else if r = Rt_report_dispute then Signed_in
      else Open_to_all)"

definition access_request_access :: "route \<Rightarrow> access" where
  "access_request_access r =
     (if r \<in> {Rt_request_submit, Rt_request_mine} then Signed_in else One_of [Platform_admin])"

definition auth_access :: "route \<Rightarrow> access" where
  "auth_access r = (if r = Rt_me then Signed_in else Open_to_all)"

definition feedback_access :: "route \<Rightarrow> access" where
  "feedback_access r = (if r = Rt_feedback_list then One_of [Platform_admin, Hub_admin] else Open_to_all)"

definition access_of :: "route \<Rightarrow> access" where
  "access_of r =
     (if r \<in> {Rt_login, Rt_register, Rt_logout, Rt_session, Rt_me} then auth_access r
      else if r \<in> {Rt_request_submit, Rt_request_mine, Rt_request_list, Rt_request_organisations,
                   Rt_organisation_update, Rt_request_update, Rt_request_approve,
                   Rt_request_approved_user, Rt_request_reject} then access_request_access r
      else if r \<in> {Rt_passport_create, Rt_passport_list, Rt_passport_stats, Rt_passport_get,
                   Rt_passport_update, Rt_passport_verify, Rt_passport_integrity,
                   Rt_passport_certificate, Rt_passport_history, Rt_passport_photo} then passport_access r
      else if r \<in> {Rt_report_create, Rt_report_materials, Rt_report_summary, Rt_report_passport,
                   Rt_report_mine, Rt_report_get, Rt_report_dispute} then quality_access r
      else if r \<in> {Rt_feedback_submit, Rt_feedback_list} then feedback_access r
      else marketplace_access r)"

definition needs_organisation :: "route \<Rightarrow> bool" where
  "needs_organisation r \<longleftrightarrow>
     r \<in> {Rt_passport_create, Rt_passport_list, Rt_passport_stats, Rt_passport_update, Rt_passport_photo,
          Rt_listing_create, Rt_listing_hub, Rt_listing_update}"

record request =
  rq_method :: string
  rq_route :: route
  rq_sessionCookie :: bool
  rq_authorization :: "string option"
  rq_origin :: "string option"
  rq_token :: "jwt_payload option"

datatype refusal = Refused trace_error | Read_only_deployment | No_organisation

text \<open>
  The guards in their order: the two \<open>onRequest\<close> hooks of \<open>server.ts\<close>, then the route's own.
  An admitted request carries its session, if the route asks for one.
\<close>

definition route_guard :: "route \<Rightarrow> jwt_payload option \<Rightarrow> trace_db \<Rightarrow> refusal + jwt_payload option" where
  "route_guard r token db =
     (case access_of r of
        Open_to_all \<Rightarrow> Inr None
      | Signed_in \<Rightarrow>
          (case authenticate token db of
             Inl e \<Rightarrow> Inl (Refused e)
           | Inr s \<Rightarrow> if needs_organisation r \<and> jp_organisationId s = None then Inl No_organisation
               else Inr (Some s))
      | One_of roles \<Rightarrow>
          (case authenticate token db of
             Inl e \<Rightarrow> Inl (Refused e)
           | Inr s \<Rightarrow>
               case authorize roles (Some s) of
                 Inl e \<Rightarrow> Inl (Refused e)
               | Inr _ \<Rightarrow> if needs_organisation r \<and> jp_organisationId s = None then Inl No_organisation
                   else Inr (Some s)))"

definition admit :: "profile \<Rightarrow> string \<Rightarrow> request \<Rightarrow> trace_db \<Rightarrow> refusal + jwt_payload option" where
  "admit p webOrigin q db =
     (if \<not> isRequestAllowed p (rq_method q) then Inl Read_only_deployment
      else if isCrossSiteCookieWrite (rq_method q) (rq_sessionCookie q) (rq_authorization q)
                (rq_origin q) webOrigin then Inl (Refused (ForbiddenError Cross_site_refused))
      else route_guard (rq_route q) (rq_token q) db)"

subsection \<open>How an error is answered (middleware/error-handler.ts)\<close>

text \<open>
  What reaches the handler: an application error, a failed \<open>parse\<close>, or an error of Fastify's
  own with its status code, if it has one. The reply is a status, a code and, for a wait,
  the \<open>retry-after\<close> header.
\<close>

datatype thrown = App_error trace_error | Zod_error | Fastify_error "nat option" string

record reply =
  re_status :: nat
  re_code :: string
  re_retryAfter :: "int option"

fun coded_name :: "coded_error \<Rightarrow> string" where
  "coded_name Material_relisted = ''MATERIAL_RELISTED''"
| "coded_name Storage_full = ''STORAGE_FULL''"
| "coded_name Storage_quota_exceeded = ''STORAGE_QUOTA_EXCEEDED''"
| "coded_name Photo_too_large = ''PHOTO_TOO_LARGE''"

fun error_code :: "trace_error \<Rightarrow> string" where
  "error_code (NotFoundError r i) = ''NOT_FOUND''"
| "error_code (UnauthorizedError r) = ''UNAUTHORIZED''"
| "error_code (ForbiddenError r) = ''FORBIDDEN''"
| "error_code (ValidationError r) = ''VALIDATION_ERROR''"
| "error_code (ConflictError r) = ''CONFLICT''"
| "error_code (TooManyRequestsError m s) = ''TOO_MANY_REQUESTS''"
| "error_code (CodedError c) = coded_name c"
| "error_code PlainError = ''INTERNAL_ERROR''"
| "error_code DbError = ''INTERNAL_ERROR''"

fun retry_after :: "trace_error \<Rightarrow> int option" where
  "retry_after (TooManyRequestsError m s) = Some s"
| "retry_after _ = None"

definition answer :: "nat \<Rightarrow> string \<Rightarrow> reply" where
  "answer status code = \<lparr> re_status = status, re_code = code, re_retryAfter = None \<rparr>"

fun errorHandler :: "thrown \<Rightarrow> reply" where
  "errorHandler (App_error e) =
     (if isTraceError e then (answer (statusCode e) (error_code e))\<lparr>re_retryAfter := retry_after e\<rparr>
      else answer 500 ''INTERNAL_ERROR'')"
| "errorHandler Zod_error = answer 400 ''VALIDATION_ERROR''"
| "errorHandler (Fastify_error status code) =
     (if or_keep status 500 < 500 then answer (or_keep status 500) code
      else answer 500 ''INTERNAL_ERROR'')"

fun refusal_reply :: "refusal \<Rightarrow> reply" where
  "refusal_reply (Refused e) = errorHandler (App_error e)"
| "refusal_reply Read_only_deployment = answer 403 ''READ_ONLY_DEPLOYMENT''"
| "refusal_reply No_organisation = answer 400 ''NO_ORGANISATION''"

subsection \<open>Which failed writes are audited (lib/audit.ts)\<close>

record audit_target =
  at_action :: string
  at_resourceType :: string
  at_namesResource :: bool

definition target :: "string \<Rightarrow> string \<Rightarrow> bool \<Rightarrow> audit_target" where
  "target a r b = \<lparr> at_action = a, at_resourceType = r, at_namesResource = b \<rparr>"

definition mutationAuditTarget :: "string \<Rightarrow> string \<Rightarrow> audit_target option" where
  "mutationAuditTarget rawMethod path =
     (let verb = toUpperCase rawMethod in
      if verb = ''POST'' \<and> path = ''/api/v1/passports'' then
        Some (target ''passport.create'' ''passport'' False)
      else if verb = ''PATCH'' \<and> startsWith path ''/api/v1/passports/'' then
        Some (target ''passport.update'' ''passport'' True)
      else if verb = ''POST'' \<and> path = ''/api/v1/access-requests'' then
        Some (target ''access_request.submit'' ''access_request'' False)
      else if verb = ''PATCH'' \<and> startsWith path ''/api/v1/access-requests/organisations/'' then
        Some (target ''organisation.update'' ''organisation'' True)
      else if verb = ''PATCH'' \<and> endsWith path ''/approved-user'' then
        Some (target ''access_request.update_approved_user'' ''access_request'' True)
      else if verb = ''PATCH'' \<and> startsWith path ''/api/v1/access-requests/'' then
        Some (target ''access_request.update_pending'' ''access_request'' True)
      else if verb = ''POST'' \<and> endsWith path ''/approve'' then
        Some (target ''access_request.approve'' ''access_request'' True)
      else if verb = ''POST'' \<and> endsWith path ''/reject'' then
        Some (target ''access_request.reject'' ''access_request'' True)
      else if verb = ''POST'' \<and> path = ''/api/v1/marketplace/listings'' then
        Some (target ''listing.create'' ''listing'' False)
      else if verb = ''PATCH'' \<and> startsWith path ''/api/v1/marketplace/listings/'' then
        Some (target ''listing.update'' ''listing'' True)
      else if verb = ''POST'' \<and> path = ''/api/v1/marketplace/offers'' then
        Some (target ''marketplace.offer'' ''transaction'' False)
      else if verb = ''PATCH'' \<and> startsWith path ''/api/v1/marketplace/transactions/'' then
        Some (target ''marketplace.transaction.update'' ''transaction'' True)
      else if verb = ''POST'' \<and> path = ''/api/v1/quality/reports'' then
        Some (target ''quality_report.create'' ''quality_report'' False)
      else if verb = ''POST'' \<and> endsWith path ''/dispute'' then
        Some (target ''quality_report.dispute'' ''quality_report'' True)
      else None)"

text \<open>The method and path under which \<open>server.ts\<close> and the route files mount each write.\<close>

fun write_path :: "route \<Rightarrow> string \<Rightarrow> (string \<times> string) option" where
  "write_path Rt_passport_create i = Some (''POST'', ''/api/v1/passports'')"
| "write_path Rt_passport_update i = Some (''PATCH'', ''/api/v1/passports/'' @ i)"
| "write_path Rt_passport_photo i = Some (''POST'', ''/api/v1/passports/'' @ i @ ''/photos'')"
| "write_path Rt_request_submit i = Some (''POST'', ''/api/v1/access-requests'')"
| "write_path Rt_organisation_update i = Some (''PATCH'', ''/api/v1/access-requests/organisations/'' @ i)"
| "write_path Rt_request_update i = Some (''PATCH'', ''/api/v1/access-requests/'' @ i)"
| "write_path Rt_request_approve i = Some (''POST'', ''/api/v1/access-requests/'' @ i @ ''/approve'')"
| "write_path Rt_request_approved_user i = Some (''PATCH'', ''/api/v1/access-requests/'' @ i @ ''/approved-user'')"
| "write_path Rt_request_reject i = Some (''POST'', ''/api/v1/access-requests/'' @ i @ ''/reject'')"
| "write_path Rt_listing_create i = Some (''POST'', ''/api/v1/marketplace/listings'')"
| "write_path Rt_listing_update i = Some (''PATCH'', ''/api/v1/marketplace/listings/'' @ i)"
| "write_path Rt_offer i = Some (''POST'', ''/api/v1/marketplace/offers'')"
| "write_path Rt_order_seen i = Some (''POST'', ''/api/v1/marketplace/transactions/seen'')"
| "write_path Rt_order_update i = Some (''PATCH'', ''/api/v1/marketplace/transactions/'' @ i)"
| "write_path Rt_report_create i = Some (''POST'', ''/api/v1/quality/reports'')"
| "write_path Rt_report_dispute i = Some (''POST'', ''/api/v1/quality/reports/'' @ i @ ''/dispute'')"
| "write_path Rt_login i = Some (''POST'', ''/api/v1/auth/login'')"
| "write_path Rt_register i = Some (''POST'', ''/api/v1/auth/register'')"
| "write_path Rt_logout i = Some (''POST'', ''/api/v1/auth/logout'')"
| "write_path Rt_feedback_submit i = Some (''POST'', ''/api/v1/feedback'')"
| "write_path _ i = None"

subsection \<open>The session cookie (lib/session-cookie.ts)\<close>

record session_cookie =
  sk_name :: string
  sk_secure :: bool

definition SECURE_SESSION_COOKIE :: string where "SECURE_SESSION_COOKIE = ''__Host-trace_session''"
definition PLAIN_SESSION_COOKIE :: string where "PLAIN_SESSION_COOKIE = ''trace_session''"

text \<open>\<open>protocol url\<close> is \<open>new URL(url).protocol\<close>.\<close>

definition isHttpsUrl :: "(string \<Rightarrow> string) \<Rightarrow> string \<Rightarrow> bool" where
  "isHttpsUrl protocol url \<longleftrightarrow> protocol url = ''https:''"

definition sessionCookieName :: "(string \<Rightarrow> string) \<Rightarrow> string \<Rightarrow> string" where
  "sessionCookieName protocol url =
     (if isHttpsUrl protocol url then SECURE_SESSION_COOKIE else PLAIN_SESSION_COOKIE)"

definition sessionCookie :: "(string \<Rightarrow> string) \<Rightarrow> string \<Rightarrow> session_cookie" where
  "sessionCookie protocol url =
     \<lparr> sk_name = sessionCookieName protocol url, sk_secure = isHttpsUrl protocol url \<rparr>"

subsection \<open>The web client's copies of the role rules (web/src/lib/auth.ts, nav.ts)\<close>

record stored_user =
  su_role :: user_role
  su_organisationId :: "uuid option"

definition isSupplier :: "stored_user option \<Rightarrow> bool" where
  "isSupplier u \<longleftrightarrow> (case u of None \<Rightarrow> False | Some u \<Rightarrow> su_role u = Supplier)"

definition isHubStaff :: "stored_user option \<Rightarrow> bool" where
  "isHubStaff u \<longleftrightarrow> (case u of None \<Rightarrow> False
     | Some u \<Rightarrow> su_role u = Hub_staff \<or> su_role u = Hub_admin \<or> su_role u = Platform_admin)"

definition hasOrganisation :: "stored_user option \<Rightarrow> bool" where
  "hasOrganisation u \<longleftrightarrow> (case u of None \<Rightarrow> False | Some u \<Rightarrow> su_organisationId u \<noteq> None)"

definition isPlatformAdmin :: "stored_user option \<Rightarrow> bool" where
  "isPlatformAdmin u \<longleftrightarrow> (case u of None \<Rightarrow> False | Some u \<Rightarrow> su_role u = Platform_admin)"

definition canRegisterMaterial :: "stored_user option \<Rightarrow> bool" where
  "canRegisterMaterial u \<longleftrightarrow> (case u of None \<Rightarrow> False
     | Some s \<Rightarrow> su_role s \<in> set [Hub_staff, Hub_admin, Platform_admin, Supplier] \<and> hasOrganisation u)"

definition canCreateListing :: "stored_user option \<Rightarrow> bool" where
  "canCreateListing u \<longleftrightarrow> (case u of None \<Rightarrow> False
     | Some s \<Rightarrow> su_role s \<in> set [Hub_staff, Hub_admin, Platform_admin, Supplier] \<and> hasOrganisation u)"

definition canViewQuality :: "stored_user option \<Rightarrow> bool" where
  "canViewQuality u \<longleftrightarrow> (case u of None \<Rightarrow> False
     | Some s \<Rightarrow> su_role s \<in> set [Inspector, Hub_admin, Platform_admin])"

definition canViewAdmin :: "stored_user option \<Rightarrow> bool" where
  "canViewAdmin u \<longleftrightarrow> isPlatformAdmin u"

definition canViewFeedback :: "stored_user option \<Rightarrow> bool" where
  "canViewFeedback u \<longleftrightarrow> (case u of None \<Rightarrow> False
     | Some s \<Rightarrow> su_role s = Platform_admin \<or> su_role s = Hub_admin)"

datatype href =
  To_marketplace | To_transactions | To_access_request | To_scan | To_passports | To_listings
| To_dashboard | To_quality | To_admin_flagged | To_admin_requests | To_admin_feedback | To_admin_activity

definition navLinksFor :: "stored_user \<Rightarrow> href list" where
  "navLinksFor u =
     (if su_role u = Buyer then [To_marketplace, To_transactions, To_access_request, To_scan]
      else if su_role u = Supplier then
        [To_passports, To_listings, To_transactions, To_marketplace, To_scan]
      else if su_role u = Inspector then [To_dashboard, To_quality, To_marketplace, To_scan]
      else [To_dashboard, To_passports, To_listings, To_transactions]
        @ (if canViewQuality (Some u) then [To_quality] else [])
        @ [To_scan]
        @ (if isPlatformAdmin (Some u) then [To_admin_flagged] else [])
        @ (if canViewAdmin (Some u) then [To_admin_requests] else [])
        @ (if canViewFeedback (Some u) then [To_admin_feedback] else [])
        @ (if canViewAdmin (Some u) then [To_admin_activity] else []))"

datatype nav_breakpoint = Md | Lg | Xl

definition navBreakpoint :: "nat \<Rightarrow> nav_breakpoint" where
  "navBreakpoint count = (if count \<le> 6 then Md else if count \<le> 8 then Lg else Xl)"

definition getPostAuthRedirect :: "stored_user \<Rightarrow> href" where
  "getPostAuthRedirect u =
     (if su_role u = Buyer then To_marketplace else if su_role u = Supplier then To_passports
      else To_dashboard)"

subsection \<open>Properties\<close>

definition stored_user_of :: "jwt_payload \<Rightarrow> stored_user" where
  "stored_user_of s = \<lparr> su_role = jp_role s, su_organisationId = jp_organisationId s \<rparr>"

definition role_may :: "route \<Rightarrow> jwt_payload \<Rightarrow> bool" where
  "role_may r s \<longleftrightarrow>
     (case access_of r of Open_to_all \<Rightarrow> True | Signed_in \<Rightarrow> True | One_of roles \<Rightarrow> jp_role s \<in> set roles)
     \<and> (needs_organisation r \<longrightarrow> jp_organisationId s \<noteq> None)"

lemma route_guard_role:
  assumes "authenticate token db = Inr s" and "access_of r \<noteq> Open_to_all"
  shows "route_guard r token db = Inr (Some s) \<longleftrightarrow> role_may r s"
  using assms by (cases "access_of r") (auto simp: route_guard_def role_may_def authorize_def)

text \<open>C29: The gate. A request other than GET, HEAD or OPTIONS that is admitted to a guarded route runs
  on a deployment that is not read-only, does not ride on a browser's session cookie from
  another site (it carries a Bearer header, or no session cookie, or the web app's own
  origin), and belongs to a user whose current row has one of the route's roles, and an
  organisation where the route needs one.\<close>

theorem admitted_writes_are_guarded:
  assumes "admit p webOrigin q db = Inr (Some s)" and "toUpperCase (rq_method q) \<notin> set SAFE_METHODS"
  shows "\<not> isReadOnlyProfile p
    \<and> (rq_sessionCookie q \<longrightarrow> bearer (or_keep (rq_authorization q) '''') \<or> rq_origin q = Some webOrigin)
    \<and> role_may (rq_route q) s
    \<and> (\<exists>claims u. rq_token q = Some claims \<and> find_user (jp_sub claims) db = Some u
        \<and> jp_role s = u_role u \<and> jp_organisationId s = u_organisationId u \<and> jp_sub s = jp_sub claims)"
proof -
  let ?r = "rq_route q"
  have allowed: "isRequestAllowed p (rq_method q)"
    and cross: "\<not> isCrossSiteCookieWrite (rq_method q) (rq_sessionCookie q) (rq_authorization q) (rq_origin q) webOrigin"
    and guard: "route_guard ?r (rq_token q) db = Inr (Some s)"
    using assms(1) by (auto simp: admit_def split: if_splits)
  have closed: "access_of ?r \<noteq> Open_to_all" using guard by (auto simp: route_guard_def)
  obtain s' where s': "authenticate (rq_token q) db = Inr s'"
    using guard by (cases "authenticate (rq_token q) db") (auto simp: route_guard_def split: access.splits)
  have "s' = s" using guard s' closed
    by (auto simp: route_guard_def split: access.splits sum.splits if_splits)
  then have "role_may ?r s" using guard route_guard_role [OF s' closed] by simp
  moreover have "\<exists>claims u. rq_token q = Some claims \<and> find_user (jp_sub claims) db = Some u
        \<and> jp_role s = u_role u \<and> jp_organisationId s = u_organisationId u \<and> jp_sub s = jp_sub claims"
    using s' \<open>s' = s\<close> by (auto simp: authenticate_def loadSession_def split: option.splits if_splits)
  ultimately show ?thesis
    using allowed cross assms(2)
    by (auto simp: isRequestAllowed_def READ_ONLY_METHODS_def SAFE_METHODS_def isCrossSiteCookieWrite_def
        split: if_splits)
qed

text \<open>The web client's predicates promise exactly what the API grants: for a signed-in user,
  each one is true if and only if the guard of the route it mirrors admits that user.\<close>

theorem web_predicates_mirror_the_api:
  assumes "authenticate token db = Inr s"
  shows "(canRegisterMaterial (Some (stored_user_of s)) \<longleftrightarrow> route_guard Rt_passport_create token db = Inr (Some s))
    \<and> (canCreateListing (Some (stored_user_of s)) \<longleftrightarrow> route_guard Rt_listing_create token db = Inr (Some s))
    \<and> (canViewQuality (Some (stored_user_of s)) \<longleftrightarrow> route_guard Rt_report_mine token db = Inr (Some s))
    \<and> (canViewAdmin (Some (stored_user_of s)) \<longleftrightarrow> route_guard Rt_request_list token db = Inr (Some s))
    \<and> (canViewFeedback (Some (stored_user_of s)) \<longleftrightarrow> route_guard Rt_feedback_list token db = Inr (Some s))"
proof -
  have acc: "access_of Rt_passport_create = One_of SELLER_ROUTE_ROLES" "access_of Rt_listing_create = One_of SELLER_ROUTE_ROLES"
    "access_of Rt_report_mine = One_of INSPECTION_ROUTE_ROLES" "access_of Rt_request_list = One_of [Platform_admin]"
    "access_of Rt_feedback_list = One_of [Platform_admin, Hub_admin]"
    by code_simp+
  have org: "needs_organisation Rt_passport_create" "needs_organisation Rt_listing_create"
    "\<not> needs_organisation Rt_report_mine" "\<not> needs_organisation Rt_request_list" "\<not> needs_organisation Rt_feedback_list"
    by code_simp+
  note guard = route_guard_role [OF assms]
  show ?thesis
    by (intro conjI; subst guard)
      (auto simp: acc org role_may_def stored_user_of_def canRegisterMaterial_def canCreateListing_def
        canViewQuality_def canViewAdmin_def isPlatformAdmin_def canViewFeedback_def hasOrganisation_def
        SELLER_ROUTE_ROLES_def INSPECTION_ROUTE_ROLES_def)
qed

definition a_write :: request where
  "a_write = \<lparr> rq_method = ''post'', rq_route = Rt_listing_create, rq_sessionCookie = True,
     rq_authorization = None, rq_origin = Some ''https://trace.example'',
     rq_token = Some \<lparr> jp_sub = 2, jp_email = ''old@example.org'', jp_role = Buyer,
       jp_organisationId = None, jp_tv = Some 0 \<rparr> \<rparr>"

definition a_session :: jwt_payload where
  "a_session = buildPayload (sample_user 2 Supplier (Some 1))"

theorem admitted_writes_are_guarded_witness:
  "\<not> isReadOnlyProfile Self_hosted \<and> role_may (rq_route a_write) a_session
    \<and> (\<exists>claims u. rq_token a_write = Some claims \<and> find_user (jp_sub claims) sample_db = Some u
        \<and> jp_role a_session = u_role u)"
proof -
  have "admit Self_hosted ''https://trace.example'' a_write sample_db = Inr (Some a_session)"
    and "toUpperCase (rq_method a_write) \<notin> set SAFE_METHODS" by code_simp+
  from admitted_writes_are_guarded [OF this] show ?thesis by blast
qed

theorem web_predicates_mirror_the_api_witness:
  "(canRegisterMaterial (Some (stored_user_of a_session)) \<longleftrightarrow> route_guard Rt_passport_create (rq_token a_write) sample_db = Inr (Some a_session))
    \<and> (canCreateListing (Some (stored_user_of a_session)) \<longleftrightarrow> route_guard Rt_listing_create (rq_token a_write) sample_db = Inr (Some a_session))
    \<and> (canViewQuality (Some (stored_user_of a_session)) \<longleftrightarrow> route_guard Rt_report_mine (rq_token a_write) sample_db = Inr (Some a_session))
    \<and> (canViewAdmin (Some (stored_user_of a_session)) \<longleftrightarrow> route_guard Rt_request_list (rq_token a_write) sample_db = Inr (Some a_session))
    \<and> (canViewFeedback (Some (stored_user_of a_session)) \<longleftrightarrow> route_guard Rt_feedback_list (rq_token a_write) sample_db = Inr (Some a_session))"
  by (rule web_predicates_mirror_the_api) code_simp

text \<open>The writes that need a session, and whether the audit log has a name for their failure.\<close>

definition guarded_writes :: "route list" where
  "guarded_writes = [Rt_passport_create, Rt_passport_update, Rt_passport_photo, Rt_request_submit,
     Rt_organisation_update, Rt_request_update, Rt_request_approve, Rt_request_approved_user,
     Rt_request_reject, Rt_listing_create, Rt_listing_update, Rt_offer, Rt_order_seen, Rt_order_update,
     Rt_report_create, Rt_report_dispute]"

definition failure_audited :: "string \<Rightarrow> route \<Rightarrow> bool" where
  "failure_audited i r =
     (case write_path r i of None \<Rightarrow> False | Some (verb, path) \<Rightarrow> mutationAuditTarget verb path \<noteq> None)"

text \<open>Of the writes that need a session, the audit log records the failures of all but two:
  uploading a photo and marking the orders seen match no target. Evaluated at a row id.\<close>

theorem failed_writes_are_audited:
  "filter (\<lambda>r. \<not> failure_audited ''3f2b8c1e-0d4a-4f5b-9c6d-7e8f9a0b1c2d'' r) guarded_writes
    = [Rt_passport_photo, Rt_order_seen]"
  by code_simp

text \<open>Errors reach the client as their own status and code; anything that is not an
  application error, a failed validation or a client error of the framework is answered
  500 without details; a retry-after header accompanies exactly the requests to wait.\<close>

theorem error_answers:
  "re_status (errorHandler (App_error e)) = statusCode e
    \<and> (re_status (errorHandler (App_error e)) = 500 \<longleftrightarrow> \<not> isTraceError e)
    \<and> (re_retryAfter (errorHandler t) \<noteq> None \<longleftrightarrow> (\<exists>m s. t = App_error (TooManyRequestsError m s)))"
proof -
  have 1: "re_status (errorHandler (App_error e)) = statusCode e"
    by (cases e) (auto simp: answer_def)
  have 2: "statusCode e = 500 \<longleftrightarrow> \<not> isTraceError e"
  proof (cases e)
    case (CodedError c)
    then show ?thesis by (cases c) auto
  qed auto
  have 3: "re_retryAfter (errorHandler t) \<noteq> None \<longleftrightarrow> (\<exists>m s. t = App_error (TooManyRequestsError m s))"
  proof (cases t)
    case (App_error f)
    then show ?thesis by (cases f) (auto simp: answer_def)
  qed (auto simp: answer_def)
  show ?thesis using 1 2 3 by simp
qed

end
