(* ===== verification/Passport_Hash.thy ===== *)
theory Passport_Hash
  imports Sample_Data Text_Functions "HOL-Library.Multiset"
begin

text \<open>
  \<open>packages/db/src/passport-hash.ts\<close>: the canonical document of a passport and its
  fingerprint. \<open>JSON.stringify\<close> and \<open>toISOString\<close> are modelled; keccak-256 (a library) and
  the text of a row id are the arguments \<open>keccak\<close> and \<open>idText\<close>.
\<close>

subsection \<open>JSON.stringify\<close>

definition hex_digit :: "nat \<Rightarrow> char" where
  "hex_digit d = (if d < 10 then char_of (48 + d) else char_of (87 + d))"

definition escape_char :: "char \<Rightarrow> string" where
  "escape_char c =
     (let n = char_code c in
      if n = 34 then [CHR 0x5C, CHR 0x22]
      else if n = 92 then [CHR 0x5C, CHR 0x5C]
      else if n = 8 then [CHR 0x5C, CHR ''b'']
      else if n = 12 then [CHR 0x5C, CHR ''f'']
      else if n = 10 then [CHR 0x5C, CHR ''n'']
      else if n = 13 then [CHR 0x5C, CHR ''r'']
      else if n = 9 then [CHR 0x5C, CHR ''t'']
      else if n < 32 then [CHR 0x5C] @ ''u00'' @ [hex_digit (n div 16), hex_digit (n mod 16)]
      else [c])"

definition quoted :: "string \<Rightarrow> string" where
  "quoted s = [CHR 0x22] @ concat (map escape_char s) @ [CHR 0x22]"

definition int_text :: "int \<Rightarrow> string" where
  "int_text i = (if i < 0 then ''-'' @ decimal (nat (- i)) else decimal (nat i))"

fun comma_join :: "string list \<Rightarrow> string" where
  "comma_join [] = []"
| "comma_join [s] = s"
| "comma_join (s # t # ts) = s @ '','' @ comma_join (t # ts)"

fun json_text :: "(uuid \<Rightarrow> string) \<Rightarrow> json \<Rightarrow> string" where
  "json_text idText JNull = ''null''"
| "json_text idText (JBool b) = (if b then ''true'' else ''false'')"
| "json_text idText (JInt i) = int_text i"
| "json_text idText (JNum n) = n"
| "json_text idText (JStr s) = quoted s"
| "json_text idText (JUuid u) = quoted (idText u)"
| "json_text idText (JArr vs) = ''['' @ comma_join (map (json_text idText) vs) @ '']''"
| "json_text idText (JObj kvs) =
     ''{'' @ comma_join (map (\<lambda>(k, v). quoted k @ '':'' @ json_text idText v) kvs) @ ''}''"

subsection \<open>Date.prototype.toISOString\<close>

definition DAY_MS :: int where "DAY_MS = 86400000"

text \<open>The proleptic Gregorian date of a day counted from 1970-01-01.\<close>

definition civil :: "int \<Rightarrow> int \<times> int \<times> int" where
  "civil days =
     (let z = days + 719468; era = z div 146097; doe = z mod 146097;
          yoe = (doe - doe div 1460 + doe div 36524 - doe div 146096) div 365;
          doy = doe - (365 * yoe + yoe div 4 - yoe div 100);
          mp = (5 * doy + 2) div 153;
          d = doy - (153 * mp + 2) div 5 + 1;
          m = (if mp < 10 then mp + 3 else mp - 9);
          y = yoe + era * 400 + (if m \<le> 2 then 1 else 0)
      in (y, m, d))"

definition padded :: "nat \<Rightarrow> int \<Rightarrow> string" where
  "padded width n =
     (let s = decimal (nat n) in replicate (width - length s) (CHR ''0'') @ s)"

definition year_text :: "int \<Rightarrow> string" where
  "year_text y =
     (if 0 \<le> y \<and> y \<le> 9999 then padded 4 y
      else (if y < 0 then ''-'' else ''+'') @ padded 6 \<bar>y\<bar>)"

definition toISOString :: "time \<Rightarrow> string" where
  "toISOString t =
     (let days = t div DAY_MS; ms = t mod DAY_MS
      in case civil days of (y, m, d) \<Rightarrow>
           year_text y @ ''-'' @ padded 2 m @ ''-'' @ padded 2 d @ ''T''
           @ padded 2 (ms div 3600000) @ '':'' @ padded 2 (ms div 60000 mod 60) @ '':''
           @ padded 2 (ms div 1000 mod 60) @ ''.'' @ padded 3 (ms mod 1000) @ ''Z'')"

subsection \<open>The canonical document\<close>

definition or_null :: "('a \<Rightarrow> json) \<Rightarrow> 'a option \<Rightarrow> json" where
  "or_null f v = (case v of None \<Rightarrow> JNull | Some x \<Rightarrow> f x)"

fun grade_text :: "grade \<Rightarrow> string" where
  "grade_text Grade_A = ''A''"
| "grade_text Grade_B = ''B''"
| "grade_text Grade_C = ''C''"
| "grade_text Grade_D = ''D''"

definition canonical_fields :: "(uuid \<Rightarrow> string) \<Rightarrow> passport \<Rightarrow> (string \<times> json) list" where
  "canonical_fields idText p =
     [(''@context'', JArr [JStr ''https://schema.org/'', JStr ''https://w3id.org/dpp/v1'',
         JStr ''https://trace.construction/context/v1'']),
      (''@type'', JStr ''MaterialPassport''),
      (''@id'', JStr (''https://trace.construction/passport/'' @ idText (p_id p))),
      (''id'', JUuid (p_id p)),
      (''organisationId'', JUuid (p_organisationId p)),
      (''productName'', JStr (p_productName p)),
      (''categoryL1'', JStr (p_categoryL1 p)),
      (''categoryL2'', or_null JStr (p_categoryL2 p)),
      (''gtin'', or_null JStr (p_gtin p)),
      (''serialNumber'', or_null JStr (p_serialNumber p)),
      (''materialComposition'', p_materialComposition p),
      (''dimensions'', or_null (\<lambda>j. j) (p_dimensions p)),
      (''technicalSpecs'', p_technicalSpecs p),
      (''manufacturerName'', or_null JStr (p_manufacturerName p)),
      (''countryOfOrigin'', or_null JStr (p_countryOfOrigin p)),
      (''productionDate'', or_null (\<lambda>d. JStr (toISOString d)) (p_productionDate p)),
      (''gwpTotal'', or_null JStr (p_gwpTotal p)),
      (''embodiedCarbon'', or_null JStr (p_embodiedCarbon p)),
      (''recycledContent'', or_null JStr (p_recycledContent p)),
      (''epdReference'', or_null JStr (p_epdReference p)),
      (''ceMarking'', JBool (p_ceMarking p)),
      (''conditionGrade'', or_null (\<lambda>g. JStr (grade_text g)) (p_conditionGrade p)),
      (''conditionNotes'', or_null JStr (p_conditionNotes p)),
      (''deconstructionDate'', or_null (\<lambda>d. JStr (toISOString d)) (p_deconstructionDate p)),
      (''deconstructionMethod'', or_null JStr (p_deconstructionMethod p)),
      (''reclaimedBy'', or_null JStr (p_reclaimedBy p)),
      (''remainingLifeEstimate'', or_null JInt (p_remainingLifeEstimate p)),
      (''carbonSavingsVsNew'', or_null JStr (p_carbonSavingsVsNew p)),
      (''hazardousSubstances'', p_hazardousSubstances p),
      (''createdAt'', JStr (toISOString (p_createdAt p)))]"

text \<open>
  \<open>sort(([a], [b]) => a.localeCompare(b))\<close>. The keys differ in more than letter case, and on
  their characters (a leading at sign, letters and digits) the locale's order is that of the
  lower-case codes.
\<close>

fun codes_le :: "string \<Rightarrow> string \<Rightarrow> bool" where
  "codes_le [] t = True"
| "codes_le (c # s) [] = False"
| "codes_le (c # s) (d # t) =
     (char_code c < char_code d \<or> (char_code c = char_code d \<and> codes_le s t))"

definition key_le :: "string \<Rightarrow> string \<Rightarrow> bool" where
  "key_le a b = codes_le (toLowerCase a) (toLowerCase b)"

fun insert_entry :: "string \<times> json \<Rightarrow> (string \<times> json) list \<Rightarrow> (string \<times> json) list" where
  "insert_entry e [] = [e]"
| "insert_entry e (x # xs) = (if key_le (fst e) (fst x) then e # x # xs else x # insert_entry e xs)"

definition sort_entries :: "(string \<times> json) list \<Rightarrow> (string \<times> json) list" where
  "sort_entries es = foldr insert_entry es []"

definition buildCanonicalJsonLd :: "(uuid \<Rightarrow> string) \<Rightarrow> passport \<Rightarrow> string" where
  "buildCanonicalJsonLd idText p = json_text idText (JObj (sort_entries (canonical_fields idText p)))"

definition computePassportHash :: "(string \<Rightarrow> string) \<Rightarrow> (uuid \<Rightarrow> string) \<Rightarrow> passport \<Rightarrow> string" where
  "computePassportHash keccak idText p = ''0x'' @ keccak (buildCanonicalJsonLd idText p)"

subsection \<open>What the fingerprint covers\<close>

text \<open>
  Two passports with the same canonical fields have the same fingerprint. The columns below
  are left out of the document, so writing them never invalidates an anchor.
\<close>

lemma computePassportHash_cong:
  "canonical_fields idText p = canonical_fields idText p' \<Longrightarrow>
    computePassportHash keccak idText p = computePassportHash keccak idText p'"
  by (simp add: computePassportHash_def buildCanonicalJsonLd_def)

lemma computePassportHash_unhashed [simp]:
  "computePassportHash h t (p\<lparr>p_status := a1\<rparr>) = computePassportHash h t p"
  "computePassportHash h t (p\<lparr>p_updatedAt := a2\<rparr>) = computePassportHash h t p"
  "computePassportHash h t (p\<lparr>p_conditionPhotos := a3\<rparr>) = computePassportHash h t p"
  "computePassportHash h t (p\<lparr>p_digitalLinkUri := a4\<rparr>) = computePassportHash h t p"
  "computePassportHash h t (p\<lparr>p_qrCodeUrl := a5\<rparr>) = computePassportHash h t p"
  "computePassportHash h t (p\<lparr>p_blockchainTxHash := a6\<rparr>) = computePassportHash h t p"
  "computePassportHash h t (p\<lparr>p_blockchainPassportHash := a7\<rparr>) = computePassportHash h t p"
  "computePassportHash h t (p\<lparr>p_blockchainAnchoredAt := a8\<rparr>) = computePassportHash h t p"
  "computePassportHash h t (p\<lparr>p_blockchainChainId := a9\<rparr>) = computePassportHash h t p"
  by (simp_all add: computePassportHash_def buildCanonicalJsonLd_def canonical_fields_def)

subsection \<open>The sorted document\<close>

lemma codes_le_total: "codes_le a b \<or> codes_le b a"
  by (induction a b rule: codes_le.induct) auto

lemma codes_le_trans: "codes_le a b \<Longrightarrow> codes_le b c \<Longrightarrow> codes_le a c"
proof (induction a b arbitrary: c rule: codes_le.induct)
  case (3 x s y t)
  then show ?case by (cases c) auto
qed auto

lemma key_le_trans: "key_le a b \<Longrightarrow> key_le b c \<Longrightarrow> key_le a c"
  unfolding key_le_def by (rule codes_le_trans)

lemma set_insert_entry [simp]: "set (insert_entry e xs) = insert e (set xs)"
  by (induction xs) auto

lemma mset_insert_entry [simp]: "mset (insert_entry e xs) = add_mset e (mset xs)"
  by (induction xs) auto

lemma mset_sort_entries [simp]: "mset (sort_entries es) = mset es"
  by (induction es) (auto simp: sort_entries_def)

lemma sorted_insert_entry:
  "sorted_wrt (\<lambda>x y. key_le (fst x) (fst y)) xs \<Longrightarrow>
    sorted_wrt (\<lambda>x y. key_le (fst x) (fst y)) (insert_entry e xs)"
proof (induction xs)
  case Nil
  then show ?case by simp
next
  case (Cons x xs)
  show ?case
  proof (cases "key_le (fst e) (fst x)")
    case True
    then show ?thesis using Cons.prems by (auto intro: key_le_trans)
  next
    case False
    then have "key_le (fst x) (fst e)" using codes_le_total by (auto simp: key_le_def)
    then show ?thesis using False Cons by auto
  qed
qed

lemma sorted_sort_entries: "sorted_wrt (\<lambda>x y. key_le (fst x) (fst y)) (sort_entries es)"
  by (induction es) (auto simp: sort_entries_def sorted_insert_entry)

end
