(* ===== verification/Object_Store.thy ===== *)
theory Object_Store
  imports Core_Types Text_Functions
begin

text \<open>
  \<open>packages/db/src/object-store.ts\<close>: files kept write-once under \<open>root/bucket/key\<close>. The
  directory is a map from locations to contents; the temporary file and the modes are not
  modelled. SHA-256 is the argument \<open>sha256Hex\<close>; two uploads of different bytes with the same
  digest are told apart by it only.
\<close>

type_synonym bytes = string
type_synonym files = "string \<times> string \<Rightarrow> bytes option"

text \<open>\<open>String.split('/')\<close>: never empty; the text between the slashes.\<close>

fun split_slash :: "string \<Rightarrow> string list" where
  "split_slash [] = [[]]"
| "split_slash (c # s) =
     (if c = CHR ''/'' then [] # split_slash s
      else (case split_slash s of [] \<Rightarrow> [[c]] | p # ps \<Rightarrow> (c # p) # ps))"

fun join_slash :: "string list \<Rightarrow> string" where
  "join_slash [] = []"
| "join_slash [p] = p"
| "join_slash (p # q # ps) = p @ CHR ''/'' # join_slash (q # ps)"

definition alnum :: "char \<Rightarrow> bool" where
  "alnum c \<longleftrightarrow> (let n = char_code c in
     (48 \<le> n \<and> n \<le> 57) \<or> (65 \<le> n \<and> n \<le> 90) \<or> (97 \<le> n \<and> n \<le> 122))"

definition segment_char :: "char \<Rightarrow> bool" where
  "segment_char c \<longleftrightarrow> alnum c \<or> c = CHR ''.'' \<or> c = CHR ''_'' \<or> c = CHR ''-''"

text \<open>The regular expression \<open>SEGMENT\<close>.\<close>

fun SEGMENT :: "string \<Rightarrow> bool" where
  "SEGMENT [] = False"
| "SEGMENT (c # s) = (alnum c \<and> list_all segment_char s)"

definition checkLocation :: "string \<Rightarrow> string \<Rightarrow> bool" where
  "checkLocation bucket key \<longleftrightarrow>
     \<not> (\<not> SEGMENT bucket \<or> length key = 0 \<or> list_ex (\<lambda>p. \<not> SEGMENT p) (bucket # split_slash key))"

record stored_file =
  sf_bucket :: string
  sf_key :: string
  sf_url :: string
  sf_bytes :: int
  sf_sha256 :: string
  sf_contentType :: string
  sf_created :: bool

text \<open>\<open>publicBaseUrl.replace(/\<close>slashes at the end\<open>/, '')\<close>.\<close>

definition trim_slashes :: "string \<Rightarrow> string" where
  "trim_slashes s = rev (dropWhile (\<lambda>c. c = CHR ''/'') (rev s))"

definition file_url :: "string \<Rightarrow> string \<Rightarrow> string \<Rightarrow> string" where
  "file_url publicBaseUrl bucket key = trim_slashes publicBaseUrl @ ''/'' @ bucket @ ''/'' @ key"

definition urlFor :: "string \<Rightarrow> string \<Rightarrow> string \<Rightarrow> string outcome" where
  "urlFor publicBaseUrl bucket key =
     (if \<not> checkLocation bucket key then Inl PlainError else Inr (file_url publicBaseUrl bucket key))"

definition put ::
  "(bytes \<Rightarrow> string) \<Rightarrow> string \<Rightarrow> string \<Rightarrow> string \<Rightarrow> bytes \<Rightarrow> string \<Rightarrow> files \<Rightarrow>
    stored_file outcome \<times> files" where
  "put sha256Hex publicBaseUrl bucket key buffer contentType fs =
     (if \<not> checkLocation bucket key then (Inl PlainError, fs)
      else
        let result = \<lparr> sf_bucket = bucket, sf_key = key, sf_url = file_url publicBaseUrl bucket key,
              sf_bytes = int (length buffer), sf_sha256 = sha256Hex buffer,
              sf_contentType = contentType, sf_created = True \<rparr>
        in case fs (bucket, key) of
             None \<Rightarrow> (Inr result, fs((bucket, key) \<mapsto> buffer))
           | Some existing \<Rightarrow>
               if sha256Hex existing \<noteq> sha256Hex buffer then (Inl PlainError, fs)
               else (Inr (result\<lparr>sf_created := False\<rparr>), fs))"

definition exists_file :: "string \<Rightarrow> string \<Rightarrow> files \<Rightarrow> bool" where
  "exists_file bucket key fs \<longleftrightarrow> checkLocation bucket key \<and> fs (bucket, key) \<noteq> None"

definition read_file :: "string \<Rightarrow> string \<Rightarrow> files \<Rightarrow> bytes outcome" where
  "read_file bucket key fs =
     (if \<not> checkLocation bucket key then Inl PlainError
      else case fs (bucket, key) of None \<Rightarrow> Inl PlainError | Some b \<Rightarrow> Inr b)"

text \<open>
  \<open>locate\<close>: the argument \<open>pathname\<close> is \<open>decodeURIComponent(new URL(url).pathname)\<close>
  (\<open>None\<close> when that throws), and gives \<open>basePath\<close> as well.
\<close>

definition locate ::
  "(string \<Rightarrow> string option) \<Rightarrow> string \<Rightarrow> string \<Rightarrow> (string \<times> string) option" where
  "locate pathname basePath url =
     (case pathname url of
        None \<Rightarrow> None
      | Some p \<Rightarrow>
          if \<not> startsWith p (basePath @ ''/'') then None
          else
            let parts = split_slash (drop (length basePath + 1) p);
                bucket = hd parts; key = join_slash (tl parts)
            in if \<not> checkLocation bucket key then None else Some (bucket, key))"

text \<open>\<open>contentTypeFor\<close>: the extension from the last full stop.\<close>

definition extension :: "string \<Rightarrow> string" where
  "extension key =
     (if CHR ''.'' \<in> set key then ''.'' @ rev (takeWhile (\<lambda>c. c \<noteq> CHR ''.'') (rev key)) else [])"

definition contentTypeFor :: "string \<Rightarrow> string" where
  "contentTypeFor key =
     (let e = toLowerCase (extension key) in
      if e = ''.jpg'' \<or> e = ''.jpeg'' then ''image/jpeg''
      else if e = ''.png'' then ''image/png''
      else if e = ''.webp'' then ''image/webp''
      else ''application/octet-stream'')"

subsection \<open>Locations\<close>

lemma split_slash_not_Nil [simp]: "split_slash s \<noteq> []"
  by (induction s) (auto split: list.splits)

lemma join_split [simp]: "join_slash (split_slash s) = s"
proof (induction s)
  case (Cons c s)
  then show ?case by (cases "split_slash s"; cases "tl (split_slash s)") auto
qed simp

lemma split_slash_single: "CHR ''/'' \<notin> set s \<Longrightarrow> split_slash s = [s]"
  by (induction s) auto

lemma split_slash_append:
  "CHR ''/'' \<notin> set s \<Longrightarrow> split_slash (s @ CHR ''/'' # t) = s # split_slash t"
  by (induction s) auto

lemma SEGMENT_no_slash: "SEGMENT s \<Longrightarrow> CHR ''/'' \<notin> set s"
proof (cases s)
  case (Cons c r)
  assume "SEGMENT s"
  then have "\<forall>x \<in> set s. segment_char x" using Cons by (auto simp: segment_char_def list_all_iff)
  moreover have "\<not> segment_char (CHR ''/'')" by (simp add: segment_char_def alnum_def char_code_def)
  ultimately show ?thesis by blast
qed simp

lemma SEGMENT_not_dots: "\<not> SEGMENT ''.''" "\<not> SEGMENT ''..''" "\<not> SEGMENT (CHR ''.'' # s)"
  by (simp_all add: alnum_def char_code_def)

lemma checkLocation_iff:
  "checkLocation bucket key \<longleftrightarrow> key \<noteq> [] \<and> SEGMENT bucket \<and> (\<forall>p \<in> set (split_slash key). SEGMENT p)"
  by (auto simp: checkLocation_def list_ex_iff)

text \<open>A path is resolved segment by segment, and two full stops climb to the parent.\<close>

fun resolve_from :: "string list \<Rightarrow> string list \<Rightarrow> string list" where
  "resolve_from dir [] = dir"
| "resolve_from dir (p # ps) =
     (if p = '''' \<or> p = ''.'' then resolve_from dir ps
      else if p = ''..'' then resolve_from (butlast dir) ps
      else resolve_from (dir @ [p]) ps)"

lemma resolve_segments: "\<forall>p \<in> set ps. SEGMENT p \<Longrightarrow> resolve_from dir ps = dir @ ps"
proof (induction ps arbitrary: dir)
  case (Cons p ps)
  then have "p \<noteq> ''''" "p \<noteq> ''.''" "p \<noteq> ''..''" using SEGMENT_not_dots by auto
  then show ?case using Cons by simp
qed simp

subsection \<open>Properties\<close>

text \<open>
  No key escapes the store. A location that passes the check resolves, whatever directory
  the root is, to that directory followed by exactly the bucket and the segments of the key.
\<close>

theorem checked_locations_stay_inside:
  assumes "checkLocation bucket key"
  shows "resolve_from root (bucket # split_slash key) = root @ bucket # split_slash key
    \<and> split_slash key \<noteq> []"
  using assms resolve_segments [of "bucket # split_slash key" root]
  by (simp add: checkLocation_iff)

theorem checked_locations_stay_inside_witness:
  "resolve_from [''var''] [''passports'', ''p'', ''qr.png''] = [''var'', ''passports'', ''p'', ''qr.png'']
    \<and> \<not> checkLocation ''passports'' ''../secret''"
proof
  have "checkLocation ''passports'' ''p/qr.png''" by code_simp
  from checked_locations_stay_inside [OF this, of "[''var'']"]
  show "resolve_from [''var''] [''passports'', ''p'', ''qr.png''] = [''var'', ''passports'', ''p'', ''qr.png'']"
    by simp
  show "\<not> checkLocation ''passports'' ''../secret''" by code_simp
qed

lemma put_result:
  "put h base bucket key buffer ct fs = (Inr f, fs') \<Longrightarrow>
    checkLocation bucket key \<and> sf_bucket f = bucket \<and> sf_key f = key
    \<and> sf_bytes f = int (length buffer) \<and> sf_sha256 f = h buffer \<and> sf_contentType f = ct
    \<and> sf_url f = file_url base bucket key"
  by (auto simp: put_def Let_def split: if_splits option.splits)

text \<open>
  C40: Files are write-once. An upload leaves every stored file as it was, whether it succeeds
  or fails; after it succeeds the key holds bytes with the digest reported; and uploading
  the same bytes again succeeds and changes nothing.
\<close>

theorem stored_files_are_write_once:
  assumes put: "put sha256Hex base bucket key buffer ct fs = (r, fs')"
  shows "(\<forall>loc b. fs loc = Some b \<longrightarrow> fs' loc = Some b)
    \<and> (\<forall>loc. loc \<noteq> (bucket, key) \<longrightarrow> fs' loc = fs loc)
    \<and> (case r of
         Inl e \<Rightarrow> fs' = fs
       | Inr f \<Rightarrow> (\<exists>b. read_file bucket key fs' = Inr b \<and> sha256Hex b = sf_sha256 f \<and> sf_sha256 f = sha256Hex buffer)
           \<and> put sha256Hex base bucket key buffer ct fs' = (Inr (f\<lparr>sf_created := False\<rparr>), fs'))"
  using put
  by (cases "checkLocation bucket key"; cases "fs (bucket, key)")
    (auto simp: put_def Let_def read_file_def split: if_splits)

theorem stored_files_are_write_once_witness:
  "fst (put (\<lambda>b. b) ''http://h/'' ''passports'' ''p/a.jpg'' ''new'' ''image/jpeg''
       (\<lambda>loc. if loc = (''passports'', ''p/a.jpg'') then Some ''old'' else None)) = Inl PlainError
    \<and> snd (put (\<lambda>b. b) ''http://h/'' ''passports'' ''p/a.jpg'' ''new'' ''image/jpeg''
       (\<lambda>loc. if loc = (''passports'', ''p/a.jpg'') then Some ''old'' else None)) (''passports'', ''p/a.jpg'')
        = Some ''old''" (is "fst ?p = _ \<and> snd ?p ?loc = _")
proof
  show "fst ?p = Inl PlainError" by code_simp
  have "?p = (fst ?p, snd ?p)" by simp
  from stored_files_are_write_once [OF this] show "snd ?p ?loc = Some ''old''" by simp
qed

text \<open>
  A stored file's public URL leads back to it. If the URL parser gives the path part of
  the URL (the base's path, then the location: segments have nothing to decode), then
  \<open>locate\<close> finds the bucket and the key that \<open>urlFor\<close> made the URL from.
\<close>

theorem locate_inverts_urlFor:
  assumes url: "urlFor base bucket key = Inr url"
    and parser: "pathname url = Some (basePath @ ''/'' @ bucket @ ''/'' @ key)"
  shows "locate pathname basePath url = Some (bucket, key)"
proof -
  from url have ok: "checkLocation bucket key" by (simp add: urlFor_def split: if_splits)
  then have "split_slash (bucket @ CHR ''/'' # key) = bucket # split_slash key"
    by (intro split_slash_append SEGMENT_no_slash) (simp add: checkLocation_iff)
  then show ?thesis using ok parser by (simp add: locate_def Let_def startsWith_def)
qed

theorem locate_inverts_urlFor_witness:
  "locate (\<lambda>u. Some (drop 8 u)) ''/minio'' ''http://h/minio/passports/p/a.jpg'' = Some (''passports'', ''p/a.jpg'')"
proof -
  have "urlFor ''http://h/minio/'' ''passports'' ''p/a.jpg'' = Inr ''http://h/minio/passports/p/a.jpg''"
    by code_simp
  from locate_inverts_urlFor [OF this, of "\<lambda>u. Some (drop 8 u)" "''/minio''"] show ?thesis by simp
qed

end
