(* ===== verification/Passports.thy ===== *)
theory Passports
  imports Passport_Hash Object_Store Marketplace_Lots
begin

text \<open>
  The writing half of \<open>modules/passport/passport.service.ts\<close> with \<open>lib/anchor.ts\<close>,
  \<open>lib/passport-identifiers.ts\<close> and the ledger of \<open>lib/storage.ts\<close>: a passport is
  registered, edited, photographed and (re-)fingerprinted.

  The state is the pair of the file store and the database. A database transaction that fails
  leaves the database as it was; a file put before the failure stays. The configuration and
  the libraries are the record \<open>api_env\<close>: \<open>numericText\<close> is the text Postgres returns for a
  number written to a \<open>numeric\<close> column, \<open>jsonbValue\<close> the value it returns for a \<open>jsonb\<close>
  one, \<open>jpegOf\<close> the image library (\<open>None\<close> when it cannot read the upload).
\<close>

record api_env =
  webUrl :: string
  publicBaseUrl :: string
  isTest :: bool
  simulateAnchor :: bool
  photosMax :: int
  quotaBytes :: int
  minFreeBytes :: int
  registryAddress :: "string option"
  networkLabel :: "string option"
  keccak :: "string \<Rightarrow> string"
  sha256Hex :: "string \<Rightarrow> string"
  idText :: "uuid \<Rightarrow> string"
  qrPng :: "string \<Rightarrow> string"
  jpegOf :: "string \<Rightarrow> string option"
  numericText :: "string \<Rightarrow> string"
  jsonbValue :: "json \<Rightarrow> json"

abbreviation fingerprint :: "api_env \<Rightarrow> passport \<Rightarrow> string" where
  "fingerprint env \<equiv> computePassportHash (keccak env) (idText env)"

type_synonym state = "files \<times> trace_db"

subsection \<open>Input\<close>

text \<open>
  \<open>CreatePassportInput\<close> and \<open>UpdatePassportInput\<close> (its \<open>partial()\<close>): \<open>None\<close> is an absent
  field. The numbers stored as \<open>numeric\<close> are given as the text \<open>String(...)\<close> makes of them.
\<close>

record passport_input =
  pi_productName :: "string option"
  pi_categoryL1 :: "string option"
  pi_categoryL2 :: "string option"
  pi_unitOfMeasure :: "string option"
  pi_serialNumber :: "string option"
  pi_materialComposition :: "json option"
  pi_dimensions :: "json option"
  pi_technicalSpecs :: "json option"
  pi_manufacturerName :: "string option"
  pi_countryOfOrigin :: "string option"
  pi_productionDate :: "time option"
  pi_gwpTotal :: "string option"
  pi_embodiedCarbon :: "string option"
  pi_recycledContent :: "string option"
  pi_epdReference :: "string option"
  pi_ceMarking :: "bool option"
  pi_declarationOfPerformance :: "string option"
  pi_harmonisedStandard :: "string option"
  pi_origin :: "passport_origin option"
  pi_previousBuildingId :: "string option"
  pi_deconstructionDate :: "time option"
  pi_deconstructionMethod :: "string option"
  pi_reclaimedBy :: "string option"
  pi_conditionGrade :: "grade option"
  pi_conditionNotes :: "string option"
  pi_originalAge :: "int option"
  pi_remainingLifeEstimate :: "int option"
  pi_carbonSavingsVsNew :: "string option"
  pi_circularityScore :: "int option"
  pi_reuseSuitability :: "json option"
  pi_handlingRequirements :: "string option"
  pi_hazardousSubstances :: "json option"
  pi_customAttributes :: "json option"

text \<open>
  The limits of \<open>CreatePassportSchema\<close> on lengths and integers; the shapes of nested values
  and the enumerations of texts are left to the parser.
\<close>

definition within :: "('a \<Rightarrow> bool) \<Rightarrow> 'a option \<Rightarrow> bool" where
  "within P v = (case v of None \<Rightarrow> True | Some x \<Rightarrow> P x)"

definition UpdatePassportSchema :: "passport_input \<Rightarrow> bool" where
  "UpdatePassportSchema i \<longleftrightarrow>
     within (\<lambda>s. 1 \<le> length s \<and> length s \<le> 255) (pi_productName i)
     \<and> within (\<lambda>s. 1 \<le> length s \<and> length s \<le> 100) (pi_serialNumber i)
     \<and> within (\<lambda>s. length s \<le> 255) (pi_manufacturerName i)
     \<and> within (\<lambda>s. length s = 2) (pi_countryOfOrigin i)
     \<and> within (\<lambda>s. length s \<le> 2000) (pi_conditionNotes i)
     \<and> within (\<lambda>n. 0 \<le> n) (pi_originalAge i)
     \<and> within (\<lambda>n. 0 \<le> n) (pi_remainingLifeEstimate i)
     \<and> within (\<lambda>n. 0 \<le> n \<and> n \<le> 100) (pi_circularityScore i)"

definition CreatePassportSchema :: "passport_input \<Rightarrow> bool" where
  "CreatePassportSchema i \<longleftrightarrow>
     pi_productName i \<noteq> None \<and> pi_categoryL1 i \<noteq> None \<and> UpdatePassportSchema i"

text \<open>A \<open>date\<close> column keeps the day, and reads back as its midnight.\<close>

definition date_column :: "time \<Rightarrow> time" where
  "date_column t = t div DAY_MS * DAY_MS"

text \<open>The database refuses an integer outside four bytes.\<close>

definition passport_row_ok :: "passport \<Rightarrow> bool" where
  "passport_row_ok p \<longleftrightarrow> within int4 (p_originalAge p) \<and> within int4 (p_remainingLifeEstimate p)
     \<and> within int4 (p_circularityScore p)"

subsection \<open>Rows from input\<close>

definition buildInsertValues ::
  "api_env \<Rightarrow> time \<Rightarrow> uuid \<Rightarrow> passport_input \<Rightarrow> uuid \<Rightarrow> uuid \<Rightarrow> passport" where
  "buildInsertValues env now newId i userId orgId = \<lparr>
     p_id = newId, p_organisationId = orgId, p_gtin = None, p_serialNumber = pi_serialNumber i,
     p_digitalLinkUri = None, p_qrCodeUrl = None,
     p_productName = or_keep (pi_productName i) '''', p_categoryL1 = or_keep (pi_categoryL1 i) '''',
     p_categoryL2 = pi_categoryL2 i, p_unitOfMeasure = pi_unitOfMeasure i,
     p_materialComposition = jsonbValue env (or_keep (pi_materialComposition i) (JArr [])),
     p_dimensions = map_option (jsonbValue env) (pi_dimensions i),
     p_technicalSpecs = jsonbValue env (or_keep (pi_technicalSpecs i) (JObj [])),
     p_manufacturerName = pi_manufacturerName i, p_countryOfOrigin = pi_countryOfOrigin i,
     p_productionDate = map_option date_column (pi_productionDate i),
     p_gwpTotal = map_option (numericText env) (pi_gwpTotal i),
     p_embodiedCarbon = map_option (numericText env) (pi_embodiedCarbon i),
     p_recycledContent = map_option (numericText env) (pi_recycledContent i),
     p_epdReference = pi_epdReference i, p_ceMarking = or_keep (pi_ceMarking i) False,
     p_declarationOfPerformance = pi_declarationOfPerformance i,
     p_harmonisedStandard = pi_harmonisedStandard i, p_origin = pi_origin i,
     p_previousBuildingId = pi_previousBuildingId i,
     p_deconstructionDate = map_option date_column (pi_deconstructionDate i),
     p_deconstructionMethod = pi_deconstructionMethod i, p_reclaimedBy = pi_reclaimedBy i,
     p_conditionGrade = pi_conditionGrade i, p_conditionNotes = pi_conditionNotes i,
     p_conditionPhotos = Some [], p_originalAge = pi_originalAge i,
     p_remainingLifeEstimate = pi_remainingLifeEstimate i,
     p_carbonSavingsVsNew = map_option (numericText env) (pi_carbonSavingsVsNew i),
     p_circularityScore = pi_circularityScore i, p_reuseCount = 0,
     p_reuseSuitability = jsonbValue env (or_keep (pi_reuseSuitability i) (JArr [])),
     p_handlingRequirements = pi_handlingRequirements i,
     p_hazardousSubstances = jsonbValue env (or_keep (pi_hazardousSubstances i) (JArr [])),
     p_customAttributes = jsonbValue env (or_keep (pi_customAttributes i) (JObj [])),
     p_status = P_draft, p_blockchainTxHash = None, p_blockchainPassportHash = None,
     p_blockchainAnchoredAt = None, p_blockchainChainId = None, p_registeredBy = Some userId,
     p_createdAt = now, p_updatedAt = now \<rparr>"

text \<open>\<open>if (input.x !== undefined) set['x'] = input.x\<close>, for a nullable column.\<close>

definition or_old :: "'a option \<Rightarrow> 'a option \<Rightarrow> 'a option" where
  "or_old new old = (case new of None \<Rightarrow> old | Some v \<Rightarrow> Some v)"

lemma or_old_simps [simp]: "or_old None old = old" "or_old (Some v) old = Some v"
  by (simp_all add: or_old_def)

definition buildUpdateValues :: "api_env \<Rightarrow> passport_input \<Rightarrow> passport \<Rightarrow> passport" where
  "buildUpdateValues env i p = p\<lparr>
     p_serialNumber := or_old (pi_serialNumber i) (p_serialNumber p),
     p_productName := or_keep (pi_productName i) (p_productName p),
     p_categoryL1 := or_keep (pi_categoryL1 i) (p_categoryL1 p),
     p_categoryL2 := or_old (pi_categoryL2 i) (p_categoryL2 p),
     p_unitOfMeasure := or_old (pi_unitOfMeasure i) (p_unitOfMeasure p),
     p_materialComposition :=
       or_keep (map_option (jsonbValue env) (pi_materialComposition i)) (p_materialComposition p),
     p_dimensions := or_old (map_option (jsonbValue env) (pi_dimensions i)) (p_dimensions p),
     p_technicalSpecs :=
       or_keep (map_option (jsonbValue env) (pi_technicalSpecs i)) (p_technicalSpecs p),
     p_manufacturerName := or_old (pi_manufacturerName i) (p_manufacturerName p),
     p_countryOfOrigin := or_old (pi_countryOfOrigin i) (p_countryOfOrigin p),
     p_productionDate := or_old (map_option date_column (pi_productionDate i)) (p_productionDate p),
     p_gwpTotal := or_old (map_option (numericText env) (pi_gwpTotal i)) (p_gwpTotal p),
     p_embodiedCarbon :=
       or_old (map_option (numericText env) (pi_embodiedCarbon i)) (p_embodiedCarbon p),
     p_recycledContent :=
       or_old (map_option (numericText env) (pi_recycledContent i)) (p_recycledContent p),
     p_epdReference := or_old (pi_epdReference i) (p_epdReference p),
     p_ceMarking := or_keep (pi_ceMarking i) (p_ceMarking p),
     p_declarationOfPerformance :=
       or_old (pi_declarationOfPerformance i) (p_declarationOfPerformance p),
     p_harmonisedStandard := or_old (pi_harmonisedStandard i) (p_harmonisedStandard p),
     p_origin := or_old (pi_origin i) (p_origin p),
     p_previousBuildingId := or_old (pi_previousBuildingId i) (p_previousBuildingId p),
     p_deconstructionDate :=
       or_old (map_option date_column (pi_deconstructionDate i)) (p_deconstructionDate p),
     p_deconstructionMethod := or_old (pi_deconstructionMethod i) (p_deconstructionMethod p),
     p_reclaimedBy := or_old (pi_reclaimedBy i) (p_reclaimedBy p),
     p_conditionGrade := or_old (pi_conditionGrade i) (p_conditionGrade p),
     p_conditionNotes := or_old (pi_conditionNotes i) (p_conditionNotes p),
     p_originalAge := or_old (pi_originalAge i) (p_originalAge p),
     p_remainingLifeEstimate := or_old (pi_remainingLifeEstimate i) (p_remainingLifeEstimate p),
     p_carbonSavingsVsNew :=
       or_old (map_option (numericText env) (pi_carbonSavingsVsNew i)) (p_carbonSavingsVsNew p),
     p_circularityScore := or_old (pi_circularityScore i) (p_circularityScore p),
     p_reuseSuitability :=
       or_keep (map_option (jsonbValue env) (pi_reuseSuitability i)) (p_reuseSuitability p),
     p_handlingRequirements := or_old (pi_handlingRequirements i) (p_handlingRequirements p),
     p_hazardousSubstances :=
       or_keep (map_option (jsonbValue env) (pi_hazardousSubstances i)) (p_hazardousSubstances p),
     p_customAttributes :=
       or_keep (map_option (jsonbValue env) (pi_customAttributes i)) (p_customAttributes p) \<rparr>"

lemma buildUpdateValues_keeps [simp]:
  "p_id (buildUpdateValues env i p) = p_id p"
  "p_organisationId (buildUpdateValues env i p) = p_organisationId p"
  "p_status (buildUpdateValues env i p) = p_status p"
  "p_conditionPhotos (buildUpdateValues env i p) = p_conditionPhotos p"
  "p_createdAt (buildUpdateValues env i p) = p_createdAt p"
  "p_conditionGrade (buildUpdateValues env i p) = or_old (pi_conditionGrade i) (p_conditionGrade p)"
  "p_digitalLinkUri (buildUpdateValues env i p) = p_digitalLinkUri p"
  "p_qrCodeUrl (buildUpdateValues env i p) = p_qrCodeUrl p"
  "p_registeredBy (buildUpdateValues env i p) = p_registeredBy p"
  "p_blockchainChainId (buildUpdateValues env i p) = p_blockchainChainId p"
  by (simp_all add: buildUpdateValues_def)

lemma buildInsertValues_fields [simp]:
  "p_id (buildInsertValues env now n i u org) = n"
  "p_organisationId (buildInsertValues env now n i u org) = org"
  "p_status (buildInsertValues env now n i u org) = P_draft"
  "p_blockchainPassportHash (buildInsertValues env now n i u org) = None"
  "p_conditionPhotos (buildInsertValues env now n i u org) = Some []"
  "p_productName (buildInsertValues env now n i u org) = or_keep (pi_productName i) ''''"
  "p_categoryL1 (buildInsertValues env now n i u org) = or_keep (pi_categoryL1 i) ''''"
  by (simp_all add: buildInsertValues_def)

subsection \<open>The fingerprint is written and cleared (lib/anchor.ts)\<close>

definition update_passport :: "uuid \<Rightarrow> (passport \<Rightarrow> passport) \<Rightarrow> trace_db \<Rightarrow> trace_db" where
  "update_passport i f = materialPassports_update (update_rows p_id i f)"

text \<open>The add to the queue: its job id carries the time, so it is never dropped.\<close>

definition enqueue_anchor :: "uuid \<Rightarrow> uuid \<Rightarrow> trace_db \<Rightarrow> trace_db" where
  "enqueue_anchor i orgId =
     anchorQueue_update (\<lambda>js. js @ [\<lparr>j_passportId = i, j_organisationId = orgId\<rparr>])"

definition simulatePassportAnchor ::
  "api_env \<Rightarrow> time \<Rightarrow> passport \<Rightarrow> trace_db \<Rightarrow> passport \<times> trace_db" where
  "simulatePassportAnchor env now p db =
     (let hash = fingerprint env p;
          db' = update_passport (p_id p) (\<lambda>r. r\<lparr>
            p_blockchainPassportHash := Some hash, p_blockchainAnchoredAt := Some now,
            p_blockchainTxHash := None, p_updatedAt := now\<rparr>) db
      in (or_keep (find_passport (p_id p) db') p, db'))"

definition pending_row :: "time \<Rightarrow> passport \<Rightarrow> passport" where
  "pending_row now r = r\<lparr> p_blockchainPassportHash := None, p_blockchainTxHash := None,
     p_blockchainAnchoredAt := None, p_updatedAt := now \<rparr>"

definition reanchorPassport ::
  "api_env \<Rightarrow> time \<Rightarrow> passport \<Rightarrow> trace_db \<Rightarrow> passport \<times> trace_db" where
  "reanchorPassport env now p db =
     (if simulateAnchor env then simulatePassportAnchor env now p db
      else
        let db' = update_passport (p_id p) (pending_row now) db
        in (or_keep (find_passport (p_id p) db') p,
            enqueue_anchor (p_id p) (p_organisationId p) db'))"

subsection \<open>The ledger of files (lib/storage.ts)\<close>

definition PASSPORT_BUCKET :: string where "PASSPORT_BUCKET = ''passports''"

definition record_stored :: "stored_object \<Rightarrow> trace_db \<Rightarrow> trace_db" where
  "record_stored r db =
     (if list_ex (\<lambda>o1. so_bucket o1 = so_bucket r \<and> so_key o1 = so_key r) (storedObjects db) then db
      else storedObjects_update (\<lambda>os. os @ [r]) db)"

definition storeObject ::
  "api_env \<Rightarrow> time \<Rightarrow> string \<Rightarrow> string \<Rightarrow> string \<Rightarrow> stored_kind \<Rightarrow> uuid option \<Rightarrow> uuid option \<Rightarrow>
    state \<Rightarrow> string outcome \<times> state" where
  "storeObject env now key buffer contentType kind orgId pid s =
     (case put (sha256Hex env) (publicBaseUrl env) PASSPORT_BUCKET key buffer contentType (fst s) of
        (Inl e, fs) \<Rightarrow> (Inl e, (fs, snd s))
      | (Inr f, fs) \<Rightarrow>
          if \<not> int4 (sf_bytes f) then (Inl DbError, (fs, snd s))
          else (Inr (sf_url f), (fs, record_stored
            \<lparr> so_bucket = sf_bucket f, so_key = sf_key f, so_kind = kind, so_organisationId = orgId,
              so_passportId = pid, so_bytes = sf_bytes f, so_sha256 = sf_sha256 f,
              so_contentType = sf_contentType f, so_createdAt = now \<rparr> (snd s))))"

definition photo_bytes :: "uuid \<Rightarrow> trace_db \<Rightarrow> int" where
  "photo_bytes orgId db =
     (\<Sum>o1\<leftarrow>filter (\<lambda>o1. so_organisationId o1 = Some orgId \<and> so_kind o1 = Photo) (storedObjects db). so_bytes o1)"

definition assertDiskHasRoom :: "api_env \<Rightarrow> int \<Rightarrow> unit outcome" where
  "assertDiskHasRoom env freeBytes =
     (if freeBytes < minFreeBytes env then Inl (CodedError Storage_full) else Inr ())"

definition assertWithinQuota :: "api_env \<Rightarrow> uuid \<Rightarrow> int \<Rightarrow> trace_db \<Rightarrow> unit outcome" where
  "assertWithinQuota env orgId bytes db =
     (if photo_bytes orgId db + bytes > quotaBytes env then Inl (CodedError Storage_quota_exceeded)
      else Inr ())"

subsection \<open>Identifiers (lib/passport-identifiers.ts)\<close>

definition passportPublicUrl :: "api_env \<Rightarrow> uuid \<Rightarrow> string" where
  "passportPublicUrl env i = webUrl env @ ''/passport/'' @ idText env i"

definition identified_row :: "api_env \<Rightarrow> time \<Rightarrow> uuid \<Rightarrow> string option \<Rightarrow> passport \<Rightarrow> passport" where
  "identified_row env now i qr r = r\<lparr> p_digitalLinkUri := Some (passportPublicUrl env i),
     p_qrCodeUrl := qr, p_updatedAt := now \<rparr>"

definition write_identifiers ::
  "api_env \<Rightarrow> time \<Rightarrow> uuid \<Rightarrow> string option \<Rightarrow> state \<Rightarrow> passport outcome \<times> state" where
  "write_identifiers env now i qr s =
     (let db' = update_passport i (identified_row env now i qr) (snd s)
      in case find_passport i db' of
           None \<Rightarrow> (Inl PlainError, (fst s, db'))
         | Some p \<Rightarrow> (Inr p, (fst s, db')))"

definition issuePassportIdentifiers ::
  "api_env \<Rightarrow> time \<Rightarrow> uuid \<Rightarrow> state \<Rightarrow> passport outcome \<times> state" where
  "issuePassportIdentifiers env now i s =
     (if isTest env then write_identifiers env now i None s
      else
        case storeObject env now (''passports/'' @ idText env i @ ''/qr.png'')
               (qrPng env (passportPublicUrl env i)) ''image/png'' Qr None (Some i) s of
          (Inl e, s1) \<Rightarrow> (Inl e, s1)
        | (Inr url, s1) \<Rightarrow> write_identifiers env now i (Some url) s1)"

definition missing_identifiers :: "api_env \<Rightarrow> passport \<Rightarrow> bool" where
  "missing_identifiers env p \<longleftrightarrow>
     p_digitalLinkUri p = None \<or> (\<not> isTest env \<and> p_qrCodeUrl p = None)"

definition findPassportsMissingIdentifiers :: "api_env \<Rightarrow> nat \<Rightarrow> trace_db \<Rightarrow> uuid list" where
  "findPassportsMissingIdentifiers env limit db =
     map p_id (take limit (sort_key p_createdAt (filter (missing_identifiers env) (materialPassports db))))"

subsection \<open>Registering a passport\<close>

definition object_event ::
  "time \<Rightarrow> uuid \<Rightarrow> uuid \<Rightarrow> (string \<times> json) list \<Rightarrow> passport_event" where
  "object_event now i userId d = \<lparr> ev_passportId = i, ev_eventType = ObjectEvent,
     ev_eventData = JObj d, ev_actorId = Some userId, ev_blockchainTxHash = None,
     ev_createdAt = now \<rparr>"

definition commissioning :: "(string \<times> json) list" where
  "commissioning = [(''action'', JStr ''ADD''),
     (''bizStep'', JStr ''urn:epcglobal:cbv:bizstep:commissioning''),
     (''disposition'', JStr ''urn:epcglobal:cbv:disp:active'')]"

definition insert_passport :: "passport \<Rightarrow> trace_db \<Rightarrow> trace_db outcome" where
  "insert_passport p db =
     (if passport_row_ok p then Inr (materialPassports_update (insert_row p) db) else Inl DbError)"

text \<open>
  The insert, the identifiers and the activation are separate writes: a failure leaves what
  came before it.
\<close>

definition activate ::
  "api_env \<Rightarrow> time \<Rightarrow> passport \<Rightarrow> uuid \<Rightarrow> trace_db \<Rightarrow> passport \<times> trace_db" where
  "activate env now p userId db =
     (let db1 = update_passport (p_id p) (\<lambda>r. r\<lparr>p_status := P_active, p_updatedAt := now\<rparr>) db;
          db2 = passportEvents_update (\<lambda>es. es @ [object_event now (p_id p) userId commissioning]) db1;
          activePassport = or_keep (find_passport (p_id p) db1) p
      in if simulateAnchor env then simulatePassportAnchor env now activePassport db2
         else (activePassport, enqueue_anchor (p_id p) (p_organisationId p) db2))"

definition createPassport ::
  "api_env \<Rightarrow> time \<Rightarrow> uuid \<Rightarrow> passport_input \<Rightarrow> uuid \<Rightarrow> uuid \<Rightarrow> state \<Rightarrow> passport outcome \<times> state" where
  "createPassport env now newId i userId orgId s =
     (let p = buildInsertValues env now newId i userId orgId in
      if p_productName p = '''' \<or> p_categoryL1 p = '''' then (Inl PlainError, s)
      else
        case insert_passport p (snd s) of
          Inl e \<Rightarrow> (Inl e, s)
        | Inr db1 \<Rightarrow>
            (case issuePassportIdentifiers env now newId (fst s, db1) of
               (Inl e, s1) \<Rightarrow> (Inl e, s1)
             | (Inr q, s1) \<Rightarrow>
                 (case activate env now p userId (snd s1) of (r, db2) \<Rightarrow> (Inr r, (fst s1, db2)))))"

subsection \<open>Editing a passport\<close>

text \<open>
  \<open>hasIndependentInspection\<close> (\<open>quality.service.ts\<close>): an inspector has graded the material. A
  report without a recorded role counts by its reporter's role now.
\<close>

definition reporter_role :: "trace_db \<Rightarrow> quality_report \<Rightarrow> user_role option" where
  "reporter_role db q =
     (case q_inspectorRole q of Some r \<Rightarrow> Some r | None \<Rightarrow> map_option u_role (find_user (q_inspectorId q) db))"

definition hasIndependentInspection :: "uuid \<Rightarrow> trace_db \<Rightarrow> bool" where
  "hasIndependentInspection i db \<longleftrightarrow>
     list_ex (\<lambda>q. q_passportId q = i \<and> q_overallGrade q \<noteq> None \<and> reporter_role db q = Some Inspector)
       (qualityReports db)"

definition LOCKED_STATUSES :: "passport_status list" where
  "LOCKED_STATUSES = [P_listed, P_reserved, P_sold, P_decommissioned]"

definition updatePassport_check ::
  "uuid \<Rightarrow> passport_input \<Rightarrow> uuid \<Rightarrow> trace_db \<Rightarrow> passport outcome" where
  "updatePassport_check i input orgId db =
     (case find_passport i db of
        None \<Rightarrow> Inl (NotFoundError R_passport (Some i))
      | Some p \<Rightarrow>
          if p_organisationId p \<noteq> orgId then Inl (ForbiddenError No_permission_to_update)
          else if p_status p \<in> set LOCKED_STATUSES then Inl (ConflictError (Passport_locked (p_status p)))
          else if pi_conditionGrade input \<noteq> None \<and> pi_conditionGrade input \<noteq> p_conditionGrade p
                  \<and> hasIndependentInspection i db
          then Inl (ConflictError Grade_is_inspections)
          else Inr p)"

definition amendment :: "string \<Rightarrow> (string \<times> json) list" where
  "amendment hash = [(''action'', JStr ''OBSERVE''),
     (''bizStep'', JStr ''urn:epcglobal:cbv:bizstep:inspecting''),
     (''disposition'', JStr ''urn:epcglobal:cbv:disp:active''),
     (''amendment'', JBool True), (''fingerprint'', JStr hash)]"

definition edited_passport :: "api_env \<Rightarrow> time \<Rightarrow> passport_input \<Rightarrow> passport \<Rightarrow> passport" where
  "edited_passport env now input p = pending_row now (buildUpdateValues env input p)"

definition updatePassport_write ::
  "api_env \<Rightarrow> time \<Rightarrow> uuid \<Rightarrow> passport_input \<Rightarrow> uuid \<Rightarrow> uuid \<Rightarrow> trace_db \<Rightarrow> passport outcome \<times> trace_db" where
  "updatePassport_write env now i input userId orgId db =
     (case find_passport i db of
        None \<Rightarrow> (Inl PlainError, db)
      | Some old \<Rightarrow>
          let updated = edited_passport env now input old in
          if \<not> passport_row_ok updated then (Inl DbError, db)
          else
            let db1 = update_passport i (edited_passport env now input) db;
                db2 = passportEvents_update
                  (\<lambda>es. es @ [object_event now i userId (amendment (fingerprint env updated))]) db1
            in if simulateAnchor env
               then (case simulatePassportAnchor env now updated db2 of (p, db3) \<Rightarrow> (Inr p, db3))
               else (Inr updated, enqueue_anchor i orgId db2))"

definition updatePassport ::
  "api_env \<Rightarrow> time \<Rightarrow> uuid \<Rightarrow> passport_input \<Rightarrow> uuid \<Rightarrow> uuid \<Rightarrow> trace_db \<Rightarrow> passport outcome \<times> trace_db" where
  "updatePassport env now i input userId orgId db =
     (case updatePassport_check i input orgId db of
        Inl e \<Rightarrow> (Inl e, db)
      | Inr p \<Rightarrow> updatePassport_write env now i input userId orgId db)"

subsection \<open>Photos\<close>

definition assertRoomForPhoto :: "api_env \<Rightarrow> passport \<Rightarrow> unit outcome" where
  "assertRoomForPhoto env p =
     (if int (length (photos_of p)) \<ge> photosMax env
      then Inl (ConflictError (Too_many_photos (nat (photosMax env)))) else Inr ())"

definition photo_key :: "api_env \<Rightarrow> uuid \<Rightarrow> time \<Rightarrow> string \<Rightarrow> string" where
  "photo_key env i now salt =
     ''passports/'' @ idText env i @ ''/photos/'' @ int_text now @ ''-'' @ salt @ ''.jpg''"

definition uploadPhoto_tx ::
  "api_env \<Rightarrow> time \<Rightarrow> uuid \<Rightarrow> string \<Rightarrow> string \<Rightarrow> uuid \<Rightarrow> state \<Rightarrow> passport outcome \<times> state" where
  "uploadPhoto_tx env now i salt normalised orgId s =
     (case find_passport i (snd s) of
        None \<Rightarrow> (Inl (NotFoundError R_passport (Some i)), s)
      | Some current \<Rightarrow>
          (case assertRoomForPhoto env current of Inl e \<Rightarrow> (Inl e, s)
           | Inr _ \<Rightarrow>
          (case assertWithinQuota env orgId (int (length normalised)) (snd s) of Inl e \<Rightarrow> (Inl e, s)
           | Inr _ \<Rightarrow>
          (case storeObject env now (photo_key env i now salt) normalised ''image/jpeg'' Photo
                  (Some orgId) (Some i) s of
             (Inl e, s1) \<Rightarrow> (Inl e, (fst s1, snd s))
           | (Inr url, s1) \<Rightarrow>
               let db2 = update_passport i (\<lambda>r. r\<lparr>
                     p_conditionPhotos := Some (photos_of current @ [url]), p_updatedAt := now\<rparr>) (snd s1)
               in (case find_passport i db2 of
                     None \<Rightarrow> (Inl PlainError, (fst s1, db2))
                   | Some p \<Rightarrow> (Inr p, (fst s1, db2)))))))"

definition uploadPassportPhoto ::
  "api_env \<Rightarrow> time \<Rightarrow> int \<Rightarrow> uuid \<Rightarrow> string \<Rightarrow> string \<Rightarrow> uuid \<Rightarrow> state \<Rightarrow> passport outcome \<times> state" where
  "uploadPassportPhoto env now freeBytes i salt buffer orgId s =
     (case find_passport i (snd s) of
        None \<Rightarrow> (Inl (NotFoundError R_passport (Some i)), s)
      | Some p \<Rightarrow>
          if p_organisationId p \<noteq> orgId then (Inl (ForbiddenError Access_denied), s)
          else
            (case assertRoomForPhoto env p of Inl e \<Rightarrow> (Inl e, s)
             | Inr _ \<Rightarrow>
            (case assertDiskHasRoom env freeBytes of Inl e \<Rightarrow> (Inl e, s)
             | Inr _ \<Rightarrow>
            (case jpegOf env buffer of
               None \<Rightarrow> (Inl (ValidationError Unreadable_image), s)
             | Some normalised \<Rightarrow> uploadPhoto_tx env now i salt normalised orgId s))))"

subsection \<open>What every write keeps\<close>

text \<open>
  \<open>records_ok\<close>: ids are unique, and every recorded fingerprint is the one of the row's present
  contents. \<open>others_same\<close>: the tables that passports do not own are untouched.
\<close>

definition fits :: "api_env \<Rightarrow> passport \<Rightarrow> bool" where
  "fits env p \<longleftrightarrow> p_blockchainPassportHash p = None \<or> p_blockchainPassportHash p = Some (fingerprint env p)"

definition records_ok :: "api_env \<Rightarrow> trace_db \<Rightarrow> bool" where
  "records_ok env db \<longleftrightarrow> distinct (map p_id (materialPassports db))
     \<and> (\<forall>p \<in> set (materialPassports db). fits env p)"

definition others_same :: "trace_db \<Rightarrow> trace_db \<Rightarrow> bool" where
  "others_same db db' \<longleftrightarrow> organisations db' = organisations db \<and> users db' = users db
     \<and> betaAccessRequests db' = betaAccessRequests db \<and> listings db' = listings db
     \<and> transactions db' = transactions db \<and> orderEvents db' = orderEvents db"

lemma others_same_refl [simp]: "others_same db db" by (simp add: others_same_def)

lemma others_same_trans: "others_same a b \<Longrightarrow> others_same b c \<Longrightarrow> others_same a c"
  by (simp add: others_same_def)

lemma others_same_writes [simp]:
  "others_same a (materialPassports_update f db) = others_same a db"
  "others_same a (update_passport i g db) = others_same a db"
  "others_same a (passportEvents_update h db) = others_same a db"
  "others_same a (enqueue_anchor i orgId db) = others_same a db"
  "others_same a (record_stored r db) = others_same a db"
  "others_same a (qualityReports_update k db) = others_same a db"
  by (simp_all add: others_same_def update_passport_def enqueue_anchor_def record_stored_def)

lemma passport_writes [simp]:
  "materialPassports (passportEvents_update h db) = materialPassports db"
  "materialPassports (enqueue_anchor i orgId db) = materialPassports db"
  "materialPassports (record_stored r db) = materialPassports db"
  "storedObjects (update_passport i g db) = storedObjects db"
  "storedObjects (enqueue_anchor i orgId db) = storedObjects db"
  "passportEvents (update_passport i g db) = passportEvents db"
  "passportEvents (enqueue_anchor i orgId db) = passportEvents db"
  "qualityReports (update_passport i g db) = qualityReports db"
  "qualityReports (enqueue_anchor i orgId db) = qualityReports db"
  "qualityReports (record_stored r db) = qualityReports db"
  "users (update_passport i g db) = users db"
  by (simp_all add: update_passport_def enqueue_anchor_def record_stored_def)

lemma find_update_passport [simp]:
  "(\<And>p. p_id (g p) = p_id p) \<Longrightarrow> find_passport j (update_passport i g db)
    = (if j = i then map_option g (find_passport i db) else find_passport j db)"
  unfolding update_passport_def by (rule passport_tbl.find_after_update)

lemma pending_row_keeps [simp]:
  "p_id (pending_row now p) = p_id p" "p_status (pending_row now p) = p_status p"
  "p_organisationId (pending_row now p) = p_organisationId p"
  "p_conditionGrade (pending_row now p) = p_conditionGrade p"
  "p_conditionPhotos (pending_row now p) = p_conditionPhotos p"
  "p_blockchainPassportHash (pending_row now p) = None"
  "fits env (pending_row now p)"
  by (simp_all add: pending_row_def fits_def)

lemma edited_passport_keeps [simp]:
  "p_id (edited_passport env now i p) = p_id p" "p_status (edited_passport env now i p) = p_status p"
  "p_organisationId (edited_passport env now i p) = p_organisationId p"
  "p_conditionGrade (edited_passport env now i p) = or_old (pi_conditionGrade i) (p_conditionGrade p)"
  "p_conditionPhotos (edited_passport env now i p) = p_conditionPhotos p"
  "fits env (edited_passport env' now i p)"
  by (simp_all add: edited_passport_def)

lemma records_same:
  "materialPassports db' = materialPassports db \<Longrightarrow> records_ok env db' = records_ok env db"
  by (simp add: records_ok_def)

lemma records_frames [simp]:
  "records_ok env (passportEvents_update h db) = records_ok env db"
  "records_ok env (enqueue_anchor i orgId db) = records_ok env db"
  "records_ok env (record_stored r db) = records_ok env db"
  "records_ok env (qualityReports_update k db) = records_ok env db"
  by (rule records_same, simp)+

lemma records_update:
  assumes "records_ok env db" and "\<And>p. p_id (g p) = p_id p"
    and "\<And>p. find_passport i db = Some p \<Longrightarrow> fits env p \<Longrightarrow> fits env (g p)"
  shows "records_ok env (update_passport i g db)"
proof -
  have row: "find_passport i db = Some p" if "p \<in> set (materialPassports db)" "p_id p = i" for p
    using find_row_distinct [of p_id "materialPassports db" p] assms(1) that by (simp add: records_ok_def)
  then show ?thesis
    using assms passport_tbl.keys_after_update [of g i db]
    unfolding records_ok_def update_passport_def
    by (auto simp: set_update_rows)
qed

lemma simulate_result:
  assumes "find_passport (p_id p) db = Some p"
  shows "fst (simulatePassportAnchor env now p db) = p\<lparr> p_blockchainPassportHash := Some (fingerprint env p),
      p_blockchainAnchoredAt := Some now, p_blockchainTxHash := None, p_updatedAt := now \<rparr>"
    and "find_passport j (snd (simulatePassportAnchor env now p db))
      = (if j = p_id p then Some (fst (simulatePassportAnchor env now p db)) else find_passport j db)"
    and "others_same db (snd (simulatePassportAnchor env now p db))"
    and "qualityReports (snd (simulatePassportAnchor env now p db)) = qualityReports db"
    and "storedObjects (snd (simulatePassportAnchor env now p db)) = storedObjects db"
  using assms by (simp_all add: simulatePassportAnchor_def Let_def)

lemma simulate_records:
  assumes "records_ok env db" and "find_passport (p_id p) db = Some p"
  shows "records_ok env (snd (simulatePassportAnchor env now p db))"
  unfolding simulatePassportAnchor_def Let_def snd_conv
  using assms by (intro records_update) (auto simp: fits_def)

text \<open>Re-anchoring the current row, in either mode.\<close>

lemma reanchor_ok:
  assumes row: "find_passport (p_id p) db = Some p"
    and others: "\<forall>q \<in> set (materialPassports db). p_id q \<noteq> p_id p \<longrightarrow> fits env q"
    and ids: "distinct (map p_id (materialPassports db))"
  shows "records_ok env (snd (reanchorPassport env now p db))"
    and "others_same db (snd (reanchorPassport env now p db))"
    and "\<exists>p'. find_passport (p_id p) (snd (reanchorPassport env now p db)) = Some p'
      \<and> fst (reanchorPassport env now p db) = p' \<and> p_status p' = p_status p
      \<and> p_organisationId p' = p_organisationId p \<and> p_conditionGrade p' = p_conditionGrade p
      \<and> p_conditionPhotos p' = p_conditionPhotos p"
    and "j \<noteq> p_id p \<Longrightarrow> find_passport j (snd (reanchorPassport env now p db)) = find_passport j db"
proof -
  have same: "q = p" if "q \<in> set (materialPassports db)" "p_id q = p_id p" for q
    using find_row_distinct [OF ids that(1)] that(2) row by simp
  have keys: "map p_id (materialPassports (update_passport (p_id p) g db)) = map p_id (materialPassports db)"
    if "\<And>q. p_id (g q) = p_id q" for g
    unfolding update_passport_def using that by (rule passport_tbl.keys_after_update)
  have all: "records_ok env (update_passport (p_id p) g db)"
    if g: "\<And>q. p_id (g q) = p_id q" "fits env (g p)" for g
    using others same ids keys [OF g(1)] g(2)
    by (auto simp: records_ok_def update_passport_def set_update_rows)
  show "records_ok env (snd (reanchorPassport env now p db))"
    by (auto simp: reanchorPassport_def simulatePassportAnchor_def Let_def fits_def intro!: all)
  show "others_same db (snd (reanchorPassport env now p db))"
    using simulate_result(3) [OF row]
    by (auto simp: reanchorPassport_def Let_def intro: others_same_trans)
  show "\<exists>p'. find_passport (p_id p) (snd (reanchorPassport env now p db)) = Some p'
      \<and> fst (reanchorPassport env now p db) = p' \<and> p_status p' = p_status p
      \<and> p_organisationId p' = p_organisationId p \<and> p_conditionGrade p' = p_conditionGrade p
      \<and> p_conditionPhotos p' = p_conditionPhotos p"
    using row by (simp add: reanchorPassport_def simulatePassportAnchor_def Let_def)
  show "find_passport j (snd (reanchorPassport env now p db)) = find_passport j db" if "j \<noteq> p_id p"
    using row that by (simp add: reanchorPassport_def simulatePassportAnchor_def Let_def)
qed

subsection \<open>Each operation\<close>

text \<open>The row an edit or a registration ends with: fingerprinted at once when simulating.\<close>

definition saved_row :: "api_env \<Rightarrow> time \<Rightarrow> passport \<Rightarrow> passport" where
  "saved_row env now p =
     (if simulateAnchor env
      then p\<lparr> p_blockchainPassportHash := Some (fingerprint env p), p_blockchainAnchoredAt := Some now,
              p_blockchainTxHash := None, p_updatedAt := now \<rparr>
      else p)"

lemma saved_row_keeps [simp]:
  "p_id (saved_row env now p) = p_id p" "p_status (saved_row env now p) = p_status p"
  "p_organisationId (saved_row env now p) = p_organisationId p"
  "p_conditionGrade (saved_row env now p) = p_conditionGrade p"
  "p_conditionPhotos (saved_row env now p) = p_conditionPhotos p"
  "p_digitalLinkUri (saved_row env now p) = p_digitalLinkUri p"
  "p_qrCodeUrl (saved_row env now p) = p_qrCodeUrl p"
  "fingerprint env (saved_row env now p) = fingerprint env p"
  by (simp_all add: saved_row_def)

lemma fits_saved_row: "fits env p \<Longrightarrow> fits env (saved_row env now p)"
  by (simp add: saved_row_def fits_def)

lemma updatePassport_check_ok:
  "updatePassport_check i input orgId db = Inr p \<longleftrightarrow>
     find_passport i db = Some p \<and> p_organisationId p = orgId \<and> p_status p \<notin> set LOCKED_STATUSES
     \<and> (pi_conditionGrade input = None \<or> pi_conditionGrade input = p_conditionGrade p
        \<or> \<not> hasIndependentInspection i db)"
  by (auto simp: updatePassport_check_def split: option.splits)

lemma find_passport_id: "find_passport i db = Some p \<Longrightarrow> p_id p = i"
  using find_row_SomeD by metis

lemma updatePassport_cases:
  assumes "updatePassport env now i input userId orgId db = (r, db')"
  shows "(\<exists>e. r = Inl e \<and> db' = db \<and> (updatePassport_check i input orgId db = Inl e
            \<or> (\<exists>p. updatePassport_check i input orgId db = Inr p \<and> e = DbError
                \<and> \<not> passport_row_ok (edited_passport env now input p))))
    \<or> (\<exists>p. updatePassport_check i input orgId db = Inr p
        \<and> passport_row_ok (edited_passport env now input p)
        \<and> r = Inr (saved_row env now (edited_passport env now input p))
        \<and> find_passport i db' = Some (saved_row env now (edited_passport env now input p))
        \<and> (\<forall>j. j \<noteq> i \<longrightarrow> find_passport j db' = find_passport j db)
        \<and> others_same db db' \<and> qualityReports db' = qualityReports db
        \<and> storedObjects db' = storedObjects db
        \<and> (records_ok env db \<longrightarrow> records_ok env db'))"
proof (cases "updatePassport_check i input orgId db")
  case (Inl e)
  then have "r = Inl e \<and> db' = db" using assms by (simp add: updatePassport_def)
  then show ?thesis using Inl by blast
next
  case (Inr p)
  then have p: "find_passport i db = Some p" "p_id p = i"
    using find_passport_id by (auto simp: updatePassport_check_ok)
  show ?thesis
  proof (cases "passport_row_ok (edited_passport env now input p)")
    case False
    then show ?thesis using assms Inr p by (auto simp: updatePassport_def updatePassport_write_def)
  next
    case True
    define e where "e = edited_passport env now input p"
    define db2 where "db2 = passportEvents_update (\<lambda>es. es @ [object_event now i userId
      (amendment (fingerprint env e))]) (update_passport i (edited_passport env now input) db)"
    have db2: "find_passport (p_id e) db2 = Some e" "p_id e = i" "others_same db db2"
      "\<forall>j. j \<noteq> i \<longrightarrow> find_passport j db2 = find_passport j db"
      "qualityReports db2 = qualityReports db" "storedObjects db2 = storedObjects db"
      "records_ok env db \<longrightarrow> records_ok env db2"
      using p by (auto simp: db2_def e_def intro: records_update)
    have run: "updatePassport env now i input userId orgId db
      = (if simulateAnchor env then case simulatePassportAnchor env now e db2 of (q, db3) \<Rightarrow> (Inr q, db3)
         else (Inr e, enqueue_anchor i orgId db2))"
      using Inr p True by (simp add: updatePassport_def updatePassport_write_def Let_def e_def db2_def)
    have "r = Inr (saved_row env now e) \<and> find_passport i db' = Some (saved_row env now e)
        \<and> (\<forall>j. j \<noteq> i \<longrightarrow> find_passport j db' = find_passport j db)
        \<and> others_same db db' \<and> qualityReports db' = qualityReports db
        \<and> storedObjects db' = storedObjects db \<and> (records_ok env db \<longrightarrow> records_ok env db')"
    proof (cases "simulateAnchor env")
      case sim: True
      then show ?thesis
        using assms run db2 simulate_result [OF db2(1), where env = env and now = now]
          simulate_records [OF _ db2(1), where env = env and now = now]
        by (auto simp: saved_row_def split: prod.splits intro: others_same_trans)
    next
      case False
      then show ?thesis using assms run db2 by (auto simp: saved_row_def)
    qed
    then show ?thesis using Inr True by (simp add: e_def)
  qed
qed

lemma storeObject_cases:
  assumes "storeObject env now key buffer ct kind orgId pid s = (r, s')"
  shows "(\<exists>e. r = Inl e \<and> snd s' = snd s)
    \<or> (\<exists>row. r = Inr (file_url (publicBaseUrl env) PASSPORT_BUCKET key)
        \<and> checkLocation PASSPORT_BUCKET key \<and> snd s' = record_stored row (snd s)
        \<and> so_bucket row = PASSPORT_BUCKET \<and> so_key row = key \<and> so_kind row = kind
        \<and> so_organisationId row = orgId \<and> so_bytes row = int (length buffer))"
proof (cases "put (sha256Hex env) (publicBaseUrl env) PASSPORT_BUCKET key buffer ct (fst s)")
  case (Pair a fs)
  show ?thesis
  proof (cases a)
    case (Inl e)
    then show ?thesis using assms Pair by (auto simp: storeObject_def)
  next
    case (Inr f)
    then show ?thesis using assms Pair put_result [of "sha256Hex env" "publicBaseUrl env" PASSPORT_BUCKET key buffer ct "fst s" f fs]
      by (auto simp: storeObject_def split: if_splits)
  qed
qed

lemma identified_row_keeps [simp]:
  "p_id (identified_row env now i qr p) = p_id p"
  "p_status (identified_row env now i qr p) = p_status p"
  "p_organisationId (identified_row env now i qr p) = p_organisationId p"
  "p_digitalLinkUri (identified_row env now i qr p) = Some (passportPublicUrl env i)"
  "p_qrCodeUrl (identified_row env now i qr p) = qr"
  "p_conditionPhotos (identified_row env now i qr p) = p_conditionPhotos p"
  "fits env' (identified_row env now i qr p) = fits env' p"
  "fingerprint env' (identified_row env now i qr p) = fingerprint env' p"
  by (simp_all add: identified_row_def fits_def)

lemma write_identifiers_result:
  assumes "find_passport i (snd s) = Some p"
  shows "fst (write_identifiers env now i qr s) = Inr (identified_row env now i qr p)"
    and "find_passport i (snd (snd (write_identifiers env now i qr s))) = Some (identified_row env now i qr p)"
    and "j \<noteq> i \<Longrightarrow> find_passport j (snd (snd (write_identifiers env now i qr s))) = find_passport j (snd s)"
    and "others_same (snd s) (snd (snd (write_identifiers env now i qr s)))"
    and "qualityReports (snd (snd (write_identifiers env now i qr s))) = qualityReports (snd s)"
    and "passportEvents (snd (snd (write_identifiers env now i qr s))) = passportEvents (snd s)"
    and "storedObjects (snd (snd (write_identifiers env now i qr s))) = storedObjects (snd s)"
    and "records_ok env (snd s) \<Longrightarrow> records_ok env (snd (snd (write_identifiers env now i qr s)))"
proof -
  have run: "write_identifiers env now i qr s
    = (Inr (identified_row env now i qr p), (fst s, update_passport i (identified_row env now i qr) (snd s)))"
    using assms by (simp add: write_identifiers_def Let_def)
  show "fst (write_identifiers env now i qr s) = Inr (identified_row env now i qr p)"
    "find_passport i (snd (snd (write_identifiers env now i qr s))) = Some (identified_row env now i qr p)"
    "j \<noteq> i \<Longrightarrow> find_passport j (snd (snd (write_identifiers env now i qr s))) = find_passport j (snd s)"
    "others_same (snd s) (snd (snd (write_identifiers env now i qr s)))"
    "qualityReports (snd (snd (write_identifiers env now i qr s))) = qualityReports (snd s)"
    "passportEvents (snd (snd (write_identifiers env now i qr s))) = passportEvents (snd s)"
    "storedObjects (snd (snd (write_identifiers env now i qr s))) = storedObjects (snd s)"
    using assms by (simp_all add: run)
  show "records_ok env (snd (snd (write_identifiers env now i qr s)))" if "records_ok env (snd s)"
    unfolding run snd_conv using that by (rule records_update) (simp_all)
qed

lemma record_stored_qr:
  assumes "so_kind row \<noteq> Photo"
  shows "photo_bytes orgId (record_stored row db) = photo_bytes orgId db"
  using assms by (simp add: photo_bytes_def record_stored_def)

lemma identifiers_cases:
  assumes run: "issuePassportIdentifiers env now i s = (r, s')" and p: "find_passport i (snd s) = Some p"
  shows "(\<exists>e. r = Inl e \<and> snd s' = snd s)
    \<or> (\<exists>qr. let q = identified_row env now i qr p in r = Inr q \<and> (isTest env \<or> qr \<noteq> None) \<and> find_passport i (snd s') = Some q
        \<and> (\<forall>j. j \<noteq> i \<longrightarrow> find_passport j (snd s') = find_passport j (snd s))
        \<and> others_same (snd s) (snd s') \<and> qualityReports (snd s') = qualityReports (snd s)
        \<and> passportEvents (snd s') = passportEvents (snd s)
        \<and> (\<forall>orgId. photo_bytes orgId (snd s') = photo_bytes orgId (snd s))
        \<and> (records_ok env (snd s) \<longrightarrow> records_ok env (snd s')))"
proof (cases "isTest env")
  case True
  then have "(r, s') = write_identifiers env now i None s" using run by (simp add: issuePassportIdentifiers_def)
  then have "r = fst (write_identifiers env now i None s)" "s' = snd (write_identifiers env now i None s)"
    by (metis fst_conv, metis snd_conv)
  then show ?thesis
    using True write_identifiers_result [OF p, where qr = None and env = env and now = now]
    unfolding Let_def by (intro disjI2 exI [of _ None]) (simp add: photo_bytes_def)
next
  case False
  let ?key = "''passports/'' @ idText env i @ ''/qr.png''"
  obtain a s1 where st: "storeObject env now ?key (qrPng env (passportPublicUrl env i)) ''image/png'' Qr
      None (Some i) s = (a, s1)" by (meson surj_pair)
  show ?thesis
  proof (cases a)
    case (Inl e)
    then have "r = Inl e \<and> s' = s1" using run st False by (simp add: issuePassportIdentifiers_def)
    then show ?thesis using storeObject_cases [OF st] Inl by auto
  next
    case (Inr url)
    then obtain row where row: "snd s1 = record_stored row (snd s)" "so_kind row = Qr"
      using storeObject_cases [OF st] by auto
    have "(r, s') = write_identifiers env now i (Some url) s1"
      using run st False Inr by (simp add: issuePassportIdentifiers_def)
    then have eq: "r = fst (write_identifiers env now i (Some url) s1)"
      "s' = snd (write_identifiers env now i (Some url) s1)" by (metis fst_conv, metis snd_conv)
    have p1: "find_passport i (snd s1) = Some p" using p row by simp
    have "others_same (snd s) (snd s1)" "qualityReports (snd s1) = qualityReports (snd s)"
      "passportEvents (snd s1) = passportEvents (snd s)"
      "\<And>orgId. photo_bytes orgId (snd s1) = photo_bytes orgId (snd s)"
      "records_ok env (snd s1) = records_ok env (snd s)"
      "\<And>j. find_passport j (snd s1) = find_passport j (snd s)"
      using row by (simp_all add: record_stored_qr)
        (simp add: record_stored_def)
    then show ?thesis
      using eq write_identifiers_result [OF p1, where qr = "Some url" and env = env and now = now]
      unfolding Let_def
      by (intro disjI2 exI [of _ "Some url"]) (simp add: photo_bytes_def others_same_def)
  qed
qed

definition only_row :: "api_env \<Rightarrow> uuid \<Rightarrow> trace_db \<Rightarrow> trace_db \<Rightarrow> bool" where
  "only_row env i db db' \<longleftrightarrow> (\<forall>j. j \<noteq> i \<longrightarrow> find_passport j db' = find_passport j db)
     \<and> others_same db db' \<and> qualityReports db' = qualityReports db
     \<and> (\<forall>orgId. photo_bytes orgId db' = photo_bytes orgId db)
     \<and> (records_ok env db \<longrightarrow> records_ok env db')"

lemma only_row_refl [simp]: "only_row env i db db" by (simp add: only_row_def)

lemma only_row_trans: "only_row env i a b \<Longrightarrow> only_row env i b c \<Longrightarrow> only_row env i a c"
  by (auto simp: only_row_def intro: others_same_trans)

definition active_row :: "time \<Rightarrow> passport \<Rightarrow> passport" where
  "active_row now p = p\<lparr>p_status := P_active, p_updatedAt := now\<rparr>"

lemma active_row_keeps [simp]:
  "p_id (active_row now p) = p_id p" "p_status (active_row now p) = P_active"
  "p_organisationId (active_row now p) = p_organisationId p"
  "p_digitalLinkUri (active_row now p) = p_digitalLinkUri p"
  "p_qrCodeUrl (active_row now p) = p_qrCodeUrl p"
  "p_conditionPhotos (active_row now p) = p_conditionPhotos p"
  "fits env (active_row now p) = fits env p"
  by (simp_all add: active_row_def fits_def)

lemma activate_result:
  assumes row: "find_passport (p_id p) db = Some q"
  shows "fst (activate env now p userId db) = saved_row env now (active_row now q)"
    and "find_passport (p_id p) (snd (activate env now p userId db)) = Some (saved_row env now (active_row now q))"
    and "only_row env (p_id p) db (snd (activate env now p userId db))"
proof -
  have q: "p_id q = p_id p" using row find_passport_id by blast
  define db2 where "db2 = passportEvents_update (\<lambda>es. es @ [object_event now (p_id p) userId commissioning])
    (update_passport (p_id p) (\<lambda>r. r\<lparr>p_status := P_active, p_updatedAt := now\<rparr>) db)"
  have db2: "find_passport (p_id (active_row now q)) db2 = Some (active_row now q)"
    using row q by (simp add: db2_def active_row_def)
  have o2: "only_row env (p_id p) db db2"
    by (auto simp: only_row_def db2_def photo_bytes_def fits_def intro!: records_update)
  have run: "activate env now p userId db
    = (if simulateAnchor env then simulatePassportAnchor env now (active_row now q) db2
       else (active_row now q, enqueue_anchor (p_id p) (p_organisationId p) db2))"
    using row by (simp add: activate_def Let_def db2_def active_row_def)
  have o3: "only_row env (p_id p) db2 (snd (activate env now p userId db))"
    unfolding run using q simulate_result [OF db2, where env = env and now = now]
      simulate_records [OF _ db2, where env = env and now = now]
    by (auto simp: only_row_def photo_bytes_def)
  show "fst (activate env now p userId db) = saved_row env now (active_row now q)"
    "find_passport (p_id p) (snd (activate env now p userId db)) = Some (saved_row env now (active_row now q))"
    using simulate_result(1,2) [OF db2, where env = env and now = now] db2 q
    by (auto simp: run saved_row_def)
  show "only_row env (p_id p) db (snd (activate env now p userId db))"
    by (rule only_row_trans [OF o2 o3])
qed

lemma createPassport_cases:
  assumes run: "createPassport env now newId i userId orgId s = (r, s')"
    and fresh: "find_passport newId (snd s) = None"
  shows "only_row env newId (snd s) (snd s')
    \<and> ((\<exists>e. r = Inl e \<and> snd s' = snd s)
      \<or> (\<exists>e. r = Inl e \<and> find_passport newId (snd s') = Some (buildInsertValues env now newId i userId orgId))
      \<or> (\<exists>qr. r = Inr (saved_row env now (active_row now (identified_row env now newId qr
                (buildInsertValues env now newId i userId orgId))))
          \<and> (isTest env \<or> qr \<noteq> None) \<and> passport_row_ok (buildInsertValues env now newId i userId orgId)
          \<and> find_passport newId (snd s') = Some (saved_row env now (active_row now (identified_row env now newId qr
                (buildInsertValues env now newId i userId orgId))))))"
proof -
  define p where "p = buildInsertValues env now newId i userId orgId"
  show ?thesis
  proof (cases "p_productName p = '''' \<or> p_categoryL1 p = '''' \<or> \<not> passport_row_ok p")
    case True
    then have "(\<exists>e. r = Inl e) \<and> snd s' = snd s"
      using run unfolding createPassport_def Let_def p_def [symmetric]
      by (auto simp: insert_passport_def split: if_splits)
    then show ?thesis by auto
  next
    case False
    define db1 where "db1 = materialPassports_update (insert_row p) (snd s)"
    have p: "p_id p = newId" "p_status p = P_draft" "fits env p" by (simp_all add: p_def fits_def)
    have db1: "find_passport newId db1 = Some p" "only_row env newId (snd s) db1"
    proof -
      have f: "find_passport j db1 = (if j = newId then Some p else find_passport j (snd s))" for j
        unfolding db1_def using passport_tbl.find_after_insert [of p "snd s" j] fresh p by simp
      then show "find_passport newId db1 = Some p" by simp
      have "records_ok env db1" if "records_ok env (snd s)"
        using that fresh p passport_tbl.keys_distinct_after_insert [of "snd s" p]
          passport_tbl.all_after_insert [of "snd s" "fits env" p]
        by (simp add: records_ok_def db1_def)
      then show "only_row env newId (snd s) db1" using f by (simp add: only_row_def) (simp add: db1_def photo_bytes_def)
    qed
    obtain a s1 where iss: "issuePassportIdentifiers env now newId (fst s, db1) = (a, s1)"
      by (meson surj_pair)
    have rest: "createPassport env now newId i userId orgId s = (case a of Inl e \<Rightarrow> (Inl e, s1)
        | Inr q \<Rightarrow> case activate env now p userId (snd s1) of (r, db2) \<Rightarrow> (Inr r, (fst s1, db2)))"
      using False by (simp add: createPassport_def Let_def p_def [symmetric] insert_passport_def iss db1_def [symmetric] split: sum.splits)
    have p1: "find_passport newId (snd (fst s, db1)) = Some p" using db1 by simp
    from identifiers_cases [OF iss p1] consider
      (failed) e where "a = Inl e" "snd s1 = db1"
    | (issued) qr where "a = Inr (identified_row env now newId qr p)" "isTest env \<or> qr \<noteq> None"
        "find_passport newId (snd s1) = Some (identified_row env now newId qr p)" "only_row env newId db1 (snd s1)"
      by (auto simp: Let_def only_row_def)
    then show ?thesis
    proof cases
      case failed
      then have "r = Inl e \<and> s' = s1" using run rest by simp
      then show ?thesis using failed db1 by (auto simp: p_def)
    next
      case issued
      have "find_passport (p_id p) (snd s1) = Some (identified_row env now newId qr p)" using issued p by simp
      note act = activate_result [OF this, where env = env and now = now and userId = userId]
      have "r = Inr (fst (activate env now p userId (snd s1))) \<and> snd s' = snd (activate env now p userId (snd s1))"
        using run rest issued by (auto split: prod.splits)
      then show ?thesis
        using act p issued False db1(2) only_row_trans
        by (metis p_def)
    qed
  qed
qed

definition photographed_row :: "time \<Rightarrow> string \<Rightarrow> passport \<Rightarrow> passport" where
  "photographed_row now url p = p\<lparr> p_conditionPhotos := Some (photos_of p @ [url]), p_updatedAt := now \<rparr>"

lemma photographed_row_keeps [simp]:
  "p_id (photographed_row now url p) = p_id p" "p_status (photographed_row now url p) = p_status p"
  "p_organisationId (photographed_row now url p) = p_organisationId p"
  "p_conditionGrade (photographed_row now url p) = p_conditionGrade p"
  "photos_of (photographed_row now url p) = photos_of p @ [url]"
  "fits env (photographed_row now url p) = fits env p"
  by (simp_all add: photographed_row_def photos_of_def fits_def)

lemma photo_bytes_recorded:
  assumes "0 \<le> so_bytes row" and "so_kind row = Photo"
  shows "photo_bytes orgId (record_stored row db)
    \<le> photo_bytes orgId db + (if so_organisationId row = Some orgId then so_bytes row else 0)"
  using assms by (simp add: photo_bytes_def record_stored_def)

lemma uploadPassportPhoto_cases:
  assumes run: "uploadPassportPhoto env now free i salt buffer orgId s = (r, s')"
    and ok: "records_ok env (snd s)"
  shows "(\<exists>e. r = Inl e \<and> snd s' = snd s)
    \<or> (\<exists>p normalised url. find_passport i (snd s) = Some p \<and> p_organisationId p = orgId
        \<and> jpegOf env buffer = Some normalised \<and> minFreeBytes env \<le> free
        \<and> int (length (photos_of p)) < photosMax env
        \<and> photo_bytes orgId (snd s) + int (length normalised) \<le> quotaBytes env
        \<and> r = Inr (photographed_row now url p) \<and> find_passport i (snd s') = Some (photographed_row now url p)
        \<and> (\<forall>j. j \<noteq> i \<longrightarrow> find_passport j (snd s') = find_passport j (snd s))
        \<and> others_same (snd s) (snd s') \<and> qualityReports (snd s') = qualityReports (snd s)
        \<and> records_ok env (snd s')
        \<and> (\<forall>orgId'. photo_bytes orgId' (snd s') \<le> photo_bytes orgId' (snd s)
             + (if orgId' = orgId then int (length normalised) else 0)))"
proof (cases "(\<exists>p. find_passport i (snd s) = Some p \<and> p_organisationId p = orgId
      \<and> int (length (photos_of p)) < photosMax env) \<and> minFreeBytes env \<le> free
      \<and> (\<exists>normalised. jpegOf env buffer = Some normalised
          \<and> photo_bytes orgId (snd s) + int (length normalised) \<le> quotaBytes env)")
  case False
  then have "(\<exists>e. r = Inl e) \<and> snd s' = snd s"
    using run
    by (auto simp: uploadPassportPhoto_def uploadPhoto_tx_def assertRoomForPhoto_def assertDiskHasRoom_def
        assertWithinQuota_def split: option.splits if_splits)
  then show ?thesis by auto
next
  case True
  then obtain p normalised where p: "find_passport i (snd s) = Some p" "p_organisationId p = orgId"
    "int (length (photos_of p)) < photosMax env" "minFreeBytes env \<le> free"
    "jpegOf env buffer = Some normalised"
    "photo_bytes orgId (snd s) + int (length normalised) \<le> quotaBytes env" by auto
  obtain a s1 where st: "storeObject env now (photo_key env i now salt) normalised ''image/jpeg'' Photo
      (Some orgId) (Some i) s = (a, s1)" by (meson surj_pair)
  have step: "(r, s') = (case a of Inl e \<Rightarrow> (Inl e, (fst s1, snd s))
      | Inr url \<Rightarrow> let db2 = update_passport i (\<lambda>r. r\<lparr>
            p_conditionPhotos := Some (photos_of p @ [url]), p_updatedAt := now\<rparr>) (snd s1)
          in (case find_passport i db2 of None \<Rightarrow> (Inl PlainError, (fst s1, db2))
              | Some q \<Rightarrow> (Inr q, (fst s1, db2))))"
    using run p st by (simp add: uploadPassportPhoto_def uploadPhoto_tx_def assertRoomForPhoto_def
        assertDiskHasRoom_def assertWithinQuota_def split: sum.splits)
  show ?thesis
  proof (cases a)
    case (Inl e)
    then show ?thesis using step by auto
  next
    case (Inr url)
    then obtain row where row: "snd s1 = record_stored row (snd s)" "so_kind row = Photo"
      "so_organisationId row = Some orgId" "so_bytes row = int (length normalised)"
      using storeObject_cases [OF st] by auto
    define g where "g = (\<lambda>r::passport. r\<lparr> p_conditionPhotos := Some (photos_of p @ [url]), p_updatedAt := now\<rparr>)"
    have g: "g p = photographed_row now url p" "\<And>q. p_id (g q) = p_id q"
      by (simp_all add: g_def photographed_row_def)
    have res: "r = Inr (photographed_row now url p)" "snd s' = update_passport i g (snd s1)"
      using step Inr row p g by (simp_all add: Let_def g_def [symmetric])
    have "records_ok env (snd s')"
      unfolding res(2) by (rule records_update) (use ok row p g in auto)
    moreover have "photo_bytes orgId' (snd s') \<le> photo_bytes orgId' (snd s)
        + (if orgId' = orgId then int (length normalised) else 0)" for orgId'
    proof -
      have "photo_bytes orgId' (snd s') = photo_bytes orgId' (record_stored row (snd s))"
        using res(2) row(1) by (simp add: photo_bytes_def)
      also have "\<dots> \<le> photo_bytes orgId' (snd s) + (if orgId' = orgId then int (length normalised) else 0)"
        using photo_bytes_recorded [of row orgId' "snd s"] row(2-) by (cases "orgId' = orgId") simp_all
      finally show ?thesis .
    qed
    ultimately show ?thesis using p g res row by auto
  qed
qed

subsection \<open>Properties\<close>

text \<open>A configuration for the witnesses: no simulation, and libraries that only have to be functions.\<close>

definition sample_env :: api_env where
  "sample_env = \<lparr> webUrl = ''http://w'', publicBaseUrl = ''http://w/minio'', isTest = False,
     simulateAnchor = False, photosMax = 2, quotaBytes = 10, minFreeBytes = 5, registryAddress = None,
     networkLabel = None, keccak = (\<lambda>s. s), sha256Hex = (\<lambda>s. s), idText = decimal,
     qrPng = (\<lambda>s. s), jpegOf = Some, numericText = (\<lambda>s. s), jsonbValue = (\<lambda>j. j) \<rparr>"

definition no_files :: files where "no_files = (\<lambda>_. None)"

definition no_fields :: passport_input where
  "no_fields = \<lparr> pi_productName = None, pi_categoryL1 = None, pi_categoryL2 = None,
     pi_unitOfMeasure = None, pi_serialNumber = None, pi_materialComposition = None,
     pi_dimensions = None, pi_technicalSpecs = None, pi_manufacturerName = None,
     pi_countryOfOrigin = None, pi_productionDate = None, pi_gwpTotal = None,
     pi_embodiedCarbon = None, pi_recycledContent = None, pi_epdReference = None,
     pi_ceMarking = None, pi_declarationOfPerformance = None, pi_harmonisedStandard = None,
     pi_origin = None, pi_previousBuildingId = None, pi_deconstructionDate = None,
     pi_deconstructionMethod = None, pi_reclaimedBy = None, pi_conditionGrade = None,
     pi_conditionNotes = None, pi_originalAge = None, pi_remainingLifeEstimate = None,
     pi_carbonSavingsVsNew = None, pi_circularityScore = None, pi_reuseSuitability = None,
     pi_handlingRequirements = None, pi_hazardousSubstances = None, pi_customAttributes = None \<rparr>"

definition beam :: passport_input where
  "beam = no_fields\<lparr> pi_productName := Some ''Beam'', pi_categoryL1 := Some ''timber'' \<rparr>"

lemma sample_records_ok: "records_ok env sample_db"
  by (simp add: records_ok_def sample_defs fits_def)

text \<open>
  C12: Registering a passport. On success the new passport is active, belongs to the caller's
  organisation, has its public link (and, outside tests, its QR image) and carries either
  its own fingerprint or none. On failure there is no such passport, or a draft without a
  fingerprint, the row the first write left. No other passport changes.
\<close>

theorem registering_a_passport:
  assumes run: "createPassport env now newId i userId orgId s = (r, s')"
    and fresh: "find_passport newId (snd s) = None"
  shows "(\<forall>j. j \<noteq> newId \<longrightarrow> find_passport j (snd s') = find_passport j (snd s))
    \<and> (case r of
         Inl e \<Rightarrow> find_passport newId (snd s') = None
           \<or> find_passport newId (snd s') = Some (buildInsertValues env now newId i userId orgId)
       | Inr p \<Rightarrow> find_passport newId (snd s') = Some p \<and> p_status p = P_active \<and> p_organisationId p = orgId
           \<and> p_digitalLinkUri p = Some (passportPublicUrl env newId) \<and> (isTest env \<or> p_qrCodeUrl p \<noteq> None)
           \<and> p_blockchainPassportHash p = (if simulateAnchor env then Some (fingerprint env p) else None))"
proof -
  define p where "p = buildInsertValues env now newId i userId orgId"
  define q where "q = (\<lambda>qr. saved_row env now (active_row now (identified_row env now newId qr p)))"
  have q: "p_status (q qr) = P_active" "p_organisationId (q qr) = orgId" "p_qrCodeUrl (q qr) = qr"
    "p_digitalLinkUri (q qr) = Some (passportPublicUrl env newId)"
    "p_blockchainPassportHash (q qr) = (if simulateAnchor env then Some (fingerprint env (q qr)) else None)" for qr
    by (simp_all add: q_def p_def)
      (simp add: saved_row_def active_row_def identified_row_def buildInsertValues_def)
  from createPassport_cases [OF run fresh, folded p_def] consider
    (failed) e where "r = Inl e" "find_passport newId (snd s') = None \<or> find_passport newId (snd s') = Some p"
  | (registered) qr where "r = Inr (q qr)" "isTest env \<or> qr \<noteq> None" "find_passport newId (snd s') = Some (q qr)"
    using fresh unfolding q_def by metis
  then show ?thesis
    using createPassport_cases [OF run fresh] q unfolding p_def [symmetric]
    by cases (simp_all add: only_row_def)
qed

theorem registering_a_passport_witness:
  "\<exists>p s'. createPassport sample_env 5 11 beam 2 1 (no_files, sample_db) = (Inr p, s')
     \<and> p_status p = P_active \<and> find_passport 11 (snd s') = Some p"
proof -
  obtain r s' where run: "createPassport sample_env 5 11 beam 2 1 (no_files, sample_db) = (r, s')"
    by (meson surj_pair)
  have "find_passport 11 (snd (no_files, sample_db)) = None"
    by (simp add: sample_defs)
  note reg = registering_a_passport [OF run this]
  have "case fst (createPassport sample_env 5 11 beam 2 1 (no_files, sample_db)) of Inl e \<Rightarrow> False | Inr p \<Rightarrow> True"
    by code_simp
  then obtain p where "r = Inr p" using run by (cases r) auto
  then show ?thesis using run reg by auto
qed

text \<open>
  A passport the schema accepts can still be refused with an internal error: the schema
  bounds the age and the remaining life of a material below only, the columns hold four bytes.
\<close>

theorem large_ages_are_internal_errors:
  assumes "CreatePassportSchema i" and "pi_categoryL1 i \<noteq> Some ''''"
    and "pi_originalAge i = Some n" and "INT4_MAX < n"
  shows "createPassport env now newId i userId orgId s = (Inl DbError, s) \<and> statusCode DbError = 500"
proof -
  define p where "p = buildInsertValues env now newId i userId orgId"
  from assms(1,2) have "p_productName p \<noteq> ''''" "p_categoryL1 p \<noteq> ''''"
    by (auto simp: p_def CreatePassportSchema_def UpdatePassportSchema_def within_def)
  moreover have "\<not> passport_row_ok p"
    using assms(3,4) by (simp add: p_def passport_row_ok_def buildInsertValues_def within_def int4_def)
  ultimately show ?thesis
    by (simp add: createPassport_def p_def [symmetric] insert_passport_def)
qed

theorem large_ages_are_internal_errors_witness:
  "createPassport sample_env 5 11 (beam\<lparr>pi_originalAge := Some 3000000000\<rparr>) 2 1 (no_files, sample_db)
     = (Inl DbError, (no_files, sample_db))"
  by (rule conjunct1, rule large_ages_are_internal_errors [where n = 3000000000])
    (simp_all add: CreatePassportSchema_def UpdatePassportSchema_def within_def beam_def no_fields_def INT4_MAX_def)

text \<open>
  C13: What an edit may do. It succeeds exactly on a passport of the editor's organisation that
  is not listed, reserved, sold or decommissioned, when it does not change a grade an
  inspection set and its integers fit; a refused edit changes nothing. An edit keeps the
  passport's status, organisation and photos, touches no other passport, and leaves no
  fingerprint other than that of the new contents.
\<close>

theorem what_an_edit_may_do:
  assumes run: "updatePassport env now i input userId orgId db = (r, db')"
  shows "((\<exists>q. r = Inr q) \<longleftrightarrow> (\<exists>p. find_passport i db = Some p \<and> p_organisationId p = orgId
        \<and> p_status p \<notin> {P_listed, P_reserved, P_sold, P_decommissioned}
        \<and> (pi_conditionGrade input = None \<or> pi_conditionGrade input = p_conditionGrade p
           \<or> \<not> hasIndependentInspection i db)
        \<and> passport_row_ok (buildUpdateValues env input p)))
    \<and> (case r of
         Inl e \<Rightarrow> db' = db
       | Inr q \<Rightarrow> \<exists>p. find_passport i db = Some p \<and> find_passport i db' = Some q \<and> p_status q = p_status p
           \<and> p_organisationId q = p_organisationId p \<and> p_conditionPhotos q = p_conditionPhotos p
           \<and> p_blockchainPassportHash q = (if simulateAnchor env then Some (fingerprint env q) else None)
           \<and> (\<forall>j. j \<noteq> i \<longrightarrow> find_passport j db' = find_passport j db))"
proof -
  have rows: "passport_row_ok (edited_passport env now input p) = passport_row_ok (buildUpdateValues env input p)" for p
    by (simp add: edited_passport_def pending_row_def passport_row_ok_def)
  have locked: "set LOCKED_STATUSES = {P_listed, P_reserved, P_sold, P_decommissioned}"
    by (simp add: LOCKED_STATUSES_def insert_commute)
  have hash: "p_blockchainPassportHash (saved_row env now (edited_passport env now input p))
      = (if simulateAnchor env then Some (fingerprint env (saved_row env now (edited_passport env now input p))) else None)" for p
    by (simp add: saved_row_def edited_passport_def)
  show ?thesis
    using updatePassport_cases [OF run]
  proof (elim disjE exE conjE, goal_cases)
    case (1 e)
    then have "\<not> (\<exists>p. updatePassport_check i input orgId db = Inr p)" by simp
    then show ?case using 1 unfolding updatePassport_check_ok locked by auto
  next
    case (2 e p)
    then show ?case unfolding updatePassport_check_ok locked rows by auto
  next
    case (3 p)
    then show ?case unfolding updatePassport_check_ok locked rows using hash by simp
  qed
qed

theorem what_an_edit_may_do_witness:
  "\<exists>q db'. updatePassport sample_env 5 10 (no_fields\<lparr>pi_conditionNotes := Some ''dry''\<rparr>) 2 1 sample_db = (Inr q, db')
     \<and> p_status q = P_active"
proof -
  obtain r db' where run: "updatePassport sample_env 5 10 (no_fields\<lparr>pi_conditionNotes := Some ''dry''\<rparr>) 2 1 sample_db = (r, db')"
    by (meson surj_pair)
  have "find_passport 10 sample_db = Some sample_passport" "p_organisationId sample_passport = 1"
    "p_status sample_passport = P_active"
    "passport_row_ok (buildUpdateValues sample_env (no_fields\<lparr>pi_conditionNotes := Some ''dry''\<rparr>) sample_passport)"
    by (simp_all add: sample_defs passport_row_ok_def buildUpdateValues_def no_fields_def within_def)
  then show ?thesis using what_an_edit_may_do [OF run] run
    by (cases r) (auto simp: no_fields_def)
qed

end
