(* ===== verification/Passport_Rules.thy ===== *)
theory Passport_Rules
  imports Passports
begin

text \<open>
  Properties of the passport writes that range over every hashed field (an edit changes only
  what it names) and over runs of uploads (the limits on photos and storage).
\<close>

subsection \<open>An edit changes the fields it names\<close>

text \<open>The keys of the canonical document an edit request names.\<close>

definition request_keys :: "passport_input \<Rightarrow> (string \<times> bool) list" where
  "request_keys i =
     [(''productName'', pi_productName i \<noteq> None), (''categoryL1'', pi_categoryL1 i \<noteq> None),
      (''categoryL2'', pi_categoryL2 i \<noteq> None), (''serialNumber'', pi_serialNumber i \<noteq> None),
      (''materialComposition'', pi_materialComposition i \<noteq> None),
      (''dimensions'', pi_dimensions i \<noteq> None), (''technicalSpecs'', pi_technicalSpecs i \<noteq> None),
      (''manufacturerName'', pi_manufacturerName i \<noteq> None),
      (''countryOfOrigin'', pi_countryOfOrigin i \<noteq> None),
      (''productionDate'', pi_productionDate i \<noteq> None), (''gwpTotal'', pi_gwpTotal i \<noteq> None),
      (''embodiedCarbon'', pi_embodiedCarbon i \<noteq> None),
      (''recycledContent'', pi_recycledContent i \<noteq> None),
      (''epdReference'', pi_epdReference i \<noteq> None), (''ceMarking'', pi_ceMarking i \<noteq> None),
      (''conditionGrade'', pi_conditionGrade i \<noteq> None),
      (''conditionNotes'', pi_conditionNotes i \<noteq> None),
      (''deconstructionDate'', pi_deconstructionDate i \<noteq> None),
      (''deconstructionMethod'', pi_deconstructionMethod i \<noteq> None),
      (''reclaimedBy'', pi_reclaimedBy i \<noteq> None),
      (''remainingLifeEstimate'', pi_remainingLifeEstimate i \<noteq> None),
      (''carbonSavingsVsNew'', pi_carbonSavingsVsNew i \<noteq> None),
      (''hazardousSubstances'', pi_hazardousSubstances i \<noteq> None)]"

definition names_key :: "passport_input \<Rightarrow> string \<Rightarrow> bool" where
  "names_key i k \<longleftrightarrow> (k, True) \<in> set (request_keys i)"

definition same_entry :: "passport_input \<Rightarrow> string \<times> json \<Rightarrow> string \<times> json \<Rightarrow> bool" where
  "same_entry i a b \<longleftrightarrow> fst a = fst b \<and> (snd a = snd b \<or> names_key i (fst a))"

lemma same_entryI:
  "k = k' \<Longrightarrow> (\<not> named \<Longrightarrow> v = v') \<Longrightarrow> (k, named) \<in> set (request_keys i) \<Longrightarrow> same_entry i (k, v) (k', v')"
  by (cases named) (auto simp: same_entry_def names_key_def)

lemma same_entry_refl: "same_entry i a a" by (simp add: same_entry_def)

lemma edit_entries:
  "list_all2 (same_entry i) (canonical_fields t p) (canonical_fields t (buildUpdateValues env i p))"
proof -
  have named: "(''productName'', pi_productName i \<noteq> None) \<in> set (request_keys i)"
    "(''categoryL1'', pi_categoryL1 i \<noteq> None) \<in> set (request_keys i)"
    "(''categoryL2'', pi_categoryL2 i \<noteq> None) \<in> set (request_keys i)"
    "(''serialNumber'', pi_serialNumber i \<noteq> None) \<in> set (request_keys i)"
    "(''materialComposition'', pi_materialComposition i \<noteq> None) \<in> set (request_keys i)"
    "(''dimensions'', pi_dimensions i \<noteq> None) \<in> set (request_keys i)"
    "(''technicalSpecs'', pi_technicalSpecs i \<noteq> None) \<in> set (request_keys i)"
    "(''manufacturerName'', pi_manufacturerName i \<noteq> None) \<in> set (request_keys i)"
    "(''countryOfOrigin'', pi_countryOfOrigin i \<noteq> None) \<in> set (request_keys i)"
    "(''productionDate'', pi_productionDate i \<noteq> None) \<in> set (request_keys i)"
    "(''gwpTotal'', pi_gwpTotal i \<noteq> None) \<in> set (request_keys i)"
    "(''embodiedCarbon'', pi_embodiedCarbon i \<noteq> None) \<in> set (request_keys i)"
    "(''recycledContent'', pi_recycledContent i \<noteq> None) \<in> set (request_keys i)"
    "(''epdReference'', pi_epdReference i \<noteq> None) \<in> set (request_keys i)"
    "(''ceMarking'', pi_ceMarking i \<noteq> None) \<in> set (request_keys i)"
    "(''conditionGrade'', pi_conditionGrade i \<noteq> None) \<in> set (request_keys i)"
    "(''conditionNotes'', pi_conditionNotes i \<noteq> None) \<in> set (request_keys i)"
    "(''deconstructionDate'', pi_deconstructionDate i \<noteq> None) \<in> set (request_keys i)"
    "(''deconstructionMethod'', pi_deconstructionMethod i \<noteq> None) \<in> set (request_keys i)"
    "(''reclaimedBy'', pi_reclaimedBy i \<noteq> None) \<in> set (request_keys i)"
    "(''remainingLifeEstimate'', pi_remainingLifeEstimate i \<noteq> None) \<in> set (request_keys i)"
    "(''carbonSavingsVsNew'', pi_carbonSavingsVsNew i \<noteq> None) \<in> set (request_keys i)"
    "(''hazardousSubstances'', pi_hazardousSubstances i \<noteq> None) \<in> set (request_keys i)"
    unfolding request_keys_def list.set by (intro insertI1 insertI2)+
  note entry = named [THEN [2] same_entryI [OF refl]]
  show ?thesis
    unfolding canonical_fields_def
    by (intro list.rel_intros(2) list.rel_intros(1) entry)
      (simp_all add: buildUpdateValues_def same_entry_def)
qed

lemma canonical_fields_anchor [simp]:
  "canonical_fields t (saved_row env now p) = canonical_fields t p"
  "canonical_fields t (pending_row now p) = canonical_fields t p"
  by (simp_all add: canonical_fields_def saved_row_def pending_row_def)



subsection \<open>Uploads stay within the limits\<close>

record upload =
  up_now :: time
  up_freeBytes :: int
  up_passport :: uuid
  up_salt :: string
  up_buffer :: string
  up_organisation :: uuid

definition upload_step :: "api_env \<Rightarrow> state \<Rightarrow> upload \<Rightarrow> state" where
  "upload_step env s u = snd (uploadPassportPhoto env (up_now u) (up_freeBytes u) (up_passport u)
     (up_salt u) (up_buffer u) (up_organisation u) s)"

definition within_limits :: "api_env \<Rightarrow> state \<Rightarrow> bool" where
  "within_limits env s \<longleftrightarrow> records_ok env (snd s)
     \<and> (\<forall>i p. find_passport i (snd s) = Some p \<longrightarrow> int (length (photos_of p)) \<le> photosMax env)
     \<and> (\<forall>orgId. photo_bytes orgId (snd s) \<le> quotaBytes env)"

interpretation uploads: guarded_system "upload_step env" "\<lambda>(s::state) (u::upload). True" "within_limits env" for env
proof
  fix s and u :: upload assume ok: "within_limits env s"
  obtain r s' where run: "uploadPassportPhoto env (up_now u) (up_freeBytes u) (up_passport u)
      (up_salt u) (up_buffer u) (up_organisation u) s = (r, s')" by (meson surj_pair)
  then have step: "upload_step env s u = s'" by (simp add: upload_step_def)
  have rec: "records_ok env (snd s)" using ok by (simp add: within_limits_def)
  from uploadPassportPhoto_cases [OF run rec] show "within_limits env (upload_step env s u)"
  proof (elim disjE exE conjE, goal_cases)
    case (1 e)
    then show ?case using ok step by (simp add: within_limits_def)
  next
    case (2 p normalised url)
    have "int (length (photos_of q)) \<le> photosMax env" if q: "find_passport j (snd s') = Some q" for j q
    proof (cases "j = up_passport u")
      case True
      then have "q = photographed_row (up_now u) url p" using 2 q by auto
      then have "length (photos_of q) = Suc (length (photos_of p))" by simp
      then show ?thesis using 2 by linarith
    next
      case False
      then show ?thesis using 2 q ok unfolding within_limits_def by metis
    qed
    moreover have "photo_bytes orgId (snd s') \<le> quotaBytes env" for orgId
    proof -
      have "photo_bytes orgId (snd s') \<le> photo_bytes orgId (snd s)
          + (if orgId = up_organisation u then int (length normalised) else 0)" using 2 by blast
      moreover have "photo_bytes orgId (snd s) \<le> quotaBytes env" using ok by (simp add: within_limits_def)
      ultimately show ?thesis using 2 by (cases "orgId = up_organisation u") auto
    qed
    ultimately show ?case using 2 step by (simp add: within_limits_def)
  qed
qed

text \<open>
  C15: Whatever uploads are attempted, in any order, on any passports and by any
  organisations, no passport ever holds more photos than \<open>PASSPORT_PHOTOS_MAX\<close> and no
  organisation more stored photo bytes than \<open>ORG_STORAGE_QUOTA_BYTES\<close>, and every recorded
  fingerprint stays that of its passport.
\<close>

theorem uploads_stay_within_the_limits:
  assumes "within_limits env s"
  shows "within_limits env (run_calls (upload_step env) s us)"
  by (rule uploads.run_keeps [OF uploads.admissible_all assms]) simp

theorem uploads_stay_within_the_limits_witness:
  "\<exists>s'. s' = run_calls (upload_step sample_env) (no_files, sample_db)
        [\<lparr>up_now = 1, up_freeBytes = 9, up_passport = 10, up_salt = ''a'', up_buffer = ''jpeg'', up_organisation = 1\<rparr>,
         \<lparr>up_now = 2, up_freeBytes = 9, up_passport = 10, up_salt = ''b'', up_buffer = ''jpeg'', up_organisation = 1\<rparr>]
     \<and> within_limits sample_env s' \<and> length (storedObjects (snd s')) = 1"
proof (rule exI, intro conjI)
  let ?us = "[\<lparr>up_now = 1, up_freeBytes = 9, up_passport = 10, up_salt = ''a'', up_buffer = ''jpeg'', up_organisation = 1\<rparr>,
         \<lparr>up_now = 2, up_freeBytes = 9, up_passport = 10, up_salt = ''b'', up_buffer = ''jpeg'', up_organisation = 1\<rparr>]"
  show "run_calls (upload_step sample_env) (no_files, sample_db) ?us = run_calls (upload_step sample_env) (no_files, sample_db) ?us"
    by simp
  have "within_limits sample_env (no_files, sample_db)"
    by (simp add: within_limits_def sample_records_ok photo_bytes_def sample_env_def) (simp add: sample_defs photos_of_def)
  then show "within_limits sample_env (run_calls (upload_step sample_env) (no_files, sample_db) ?us)"
    by (rule uploads_stay_within_the_limits)
  show "length (storedObjects (snd (run_calls (upload_step sample_env) (no_files, sample_db) ?us))) = 1"
    by code_simp
qed

end
