(* ===== verification/Marketplace_Properties.thy ===== *)
theory Marketplace_Properties
  imports Sample_Market
begin

text \<open>
  What the marketplace promises its users, stated over the handlers and derived from the
  lemmas of \<open>Marketplace_Operations\<close> and \<open>Marketplace_Checked\<close>: when an offer becomes an
  order and what it takes from the lot, who may move an order and when, what a passed time
  limit does, what an edit of a lot keeps, what the sweep leaves, and what the repository's
  own checker can still find.
\<close>

subsection \<open>Placing an order\<close>

text \<open>The rule an offer is judged by, stated without the code's order of refusals.\<close>

definition may_order ::
  "make_offer_input \<Rightarrow> viewer \<Rightarrow> bool \<Rightarrow> time \<Rightarrow> trace_db \<Rightarrow> listing \<Rightarrow> int \<Rightarrow> bool" where
  "may_order input buyer keep now db l q \<longleftrightarrow>
     (let offered = orderableQuantity (l_quantityAvailable l) (offered_attributes l db) keep
      in l_status l = L_active
         \<and> l_sellerId l \<noteq> v_userId buyer
         \<and> v_organisationId buyer \<noteq> Some (l_organisationId l)
         \<and> (case l_expiresAt l of None \<Rightarrow> True | Some d \<Rightarrow> now \<le> d)
         \<and> q = or_keep (mo_quantity input) (min (l_minOrderQuantity l) offered)
         \<and> 1 \<le> offered \<and> q \<le> offered
         \<and> (l_minOrderQuantity l \<le> q \<or> q = offered)
         \<and> l_pricePence l * q \<le> MAX_AMOUNT_PENCE)"

lemma listing_open_iff:
  "listing_open_to buyer l now = Inr u \<longleftrightarrow>
    l_status l = L_active \<and> l_sellerId l \<noteq> v_userId buyer
    \<and> v_organisationId buyer \<noteq> Some (l_organisationId l)
    \<and> (case l_expiresAt l of None \<Rightarrow> True | Some d \<Rightarrow> now \<le> d)"
  by (auto simp: listing_open_to_def not_less split: option.splits)

lemma offer_refusals:
  fixes available orderable minimum quantity :: int
  assumes "0 < available" and "orderable \<le> available"
  shows "(if orderable < available \<and> orderable < 1 then Inl e1
      else if orderable < available \<and> orderable < quantity then Inl e2
      else if available < quantity then Inl e3
      else if quantity < minimum \<and> quantity < orderable then Inl e4
      else if b then Inl e5 else Inr quantity) = Inr q
    \<longleftrightarrow> q = quantity \<and> 1 \<le> orderable \<and> quantity \<le> orderable \<and> (minimum \<le> quantity \<or> quantity = orderable) \<and> \<not> b"
  using assms by (cases "orderable < available") auto

lemma offer_quantity_iff:
  assumes "0 < l_quantityAvailable l" and "orderable \<le> l_quantityAvailable l"
  shows "offer_quantity input l orderable = Inr q \<longleftrightarrow>
    q = or_keep (mo_quantity input) (min (l_minOrderQuantity l) orderable)
    \<and> 1 \<le> orderable \<and> q \<le> orderable \<and> (l_minOrderQuantity l \<le> q \<or> q = orderable)
    \<and> l_pricePence l * q \<le> MAX_AMOUNT_PENCE"
  unfolding offer_quantity_def Let_def offer_refusals [OF assms] by (auto simp: not_less)

lemma makeOffer_iff:
  assumes ok: "market_ok db" and schema: "MakeOfferSchema input" and fresh: "find_order newId db = None"
  shows "makeOffer input buyer keep newId now db = Inr (t, db') \<longleftrightarrow>
    (\<exists>l q. find_listing (mo_listingId input) db = Some l \<and> may_order input buyer keep now db l q
      \<and> t = new_order newId l buyer q (mo_notes input) now \<and> db' = placed_db input buyer newId now l q db)"
    (is "?lhs \<longleftrightarrow> ?rhs")
proof (cases "find_listing (mo_listingId input) db")
  case None
  then show ?thesis by (simp add: makeOffer_def)
next
  case (Some l)
  let ?o = "orderableQuantity (l_quantityAvailable l) (offered_attributes l db) keep"
  show ?thesis
  proof (cases "listing_open_to buyer l now")
    case (Inl e)
    then have "listing_open_to buyer l now \<noteq> Inr ()" by simp
    then show ?thesis using Inl Some listing_open_iff [of buyer l now "()"]
      by (auto simp: makeOffer_def may_order_def Let_def)
  next
    case (Inr u)
    note opn = this [unfolded listing_open_iff]
    have lin: "listing_ok db l" using ok listing_found [OF Some] by (simp add: market_ok_def)
    then have avail: "0 < l_quantityAvailable l"
      using opn by (simp add: listing_ok_def status_ok_def live_def lotStatus_def split: if_splits)
    have may: "may_order input buyer keep now db l q \<longleftrightarrow> offer_quantity input l ?o = Inr q" for q
      using opn offer_quantity_iff [OF avail orderable_le [OF avail], of input _ keep q]
      by (simp add: may_order_def Let_def)
    show ?thesis
    proof (cases "offer_quantity input l ?o")
      case (Inl e)
      then show ?thesis using Some \<open>listing_open_to buyer l now = Inr u\<close> may
        by (simp add: makeOffer_def offered_attributes_def Let_def)
    next
      case (Inr q)
      note placed = placed_ok(1) [OF ok schema Some \<open>listing_open_to buyer l now = Inr u\<close> Inr fresh]
      show ?thesis using placed Some may Inr by auto
    qed
  qed
qed

lemma placed_transactions:
  "transactions (placed_db input buyer newId now l q db)
    = transactions db @ [new_order newId l buyer q (mo_notes input) now]"
  by (simp add: placed_db_def insert_row_def)

lemma placed_listings:
  "listings (placed_db input buyer newId now l q db)
    = update_rows l_id (l_id l)
        (\<lambda>r. r\<lparr>l_quantityAvailable := l_quantityAvailable l - q,
          l_status := settled_status l (l_quantityAvailable l - q) False
            (transactions_update (insert_row (new_order newId l buyer q (mo_notes input) now)) db)\<rparr>)
        (listings db)"
proof -

  have row: "settled_row no_changes q s = (\<lambda>r. r\<lparr>l_quantityAvailable := q, l_status := s\<rparr>)" for q s
    by (rule ext) (simp add: settled_row_def apply_patch_def no_changes_def)
  show ?thesis
    unfolding placed_db_def listings_settled_db row by (simp add: settled_status_def)
qed

text \<open>The status of the lot after an order: reserved by it when nothing is left.\<close>

lemma placed_status:
  assumes "l_status l = L_active"
  shows "settled_status l q False
      (transactions_update (insert_row (new_order newId l buyer n notes now)) db)
    = (if 0 < q then L_active else L_reserved)"
proof -
  have "openOrders (l_id l)
      (transactions_update (insert_row (new_order newId l buyer n notes now)) db) > 0"
    by (simp add: openOrders_def insert_row_def new_order_def)
  then show ?thesis using assms by (simp add: settled_status_def live_def lotStatus_def)
qed

text \<open>C4: An offer becomes an order exactly when the lot is on sale and not expired, the
  buyer is neither its seller nor of its organisation, the quantity (or, when none is given,
  the smallest orderable one) is within what is offered, at least the minimum unless it is
  all that is offered, and the total is within the payment limit. The order then costs the
  price times the quantity and is due an answer in 72 hours; the lot loses exactly that
  quantity and is reserved when nothing is left; no other lot and no other order changes,
  and the invariant still holds. Every other offer is refused with an error of the API's
  own, never an internal one.\<close>

theorem placing_an_order:
  assumes "market_ok db" and "MakeOfferSchema input" and "find_order newId db = None"
  shows "(case makeOffer input buyer keep newId now db of
      Inl e \<Rightarrow> isTraceError e
        \<and> \<not> (\<exists>l q. find_listing (mo_listingId input) db = Some l \<and> may_order input buyer keep now db l q)
    | Inr (t, db') \<Rightarrow> \<exists>l q. find_listing (mo_listingId input) db = Some l
        \<and> may_order input buyer keep now db l q \<and> 1 \<le> q
        \<and> t_quantity t = q \<and> t_amountPence t = l_pricePence l * q \<and> t_status t = T_pending
        \<and> t_buyerId t = v_userId buyer \<and> t_responseDeadline t = Some (now + 72 * 60 * 60 * 1000)
        \<and> transactions db' = transactions db @ [t]
        \<and> listings db' = update_rows l_id (l_id l) (\<lambda>r. r\<lparr>
            l_quantityAvailable := l_quantityAvailable l - q,
            l_status := (if q < l_quantityAvailable l then L_active else L_reserved)\<rparr>) (listings db)
        \<and> market_ok db')"
proof (cases "makeOffer input buyer keep newId now db")
  case (Inl e)
  have "isTraceError e" using makeOffer_cases [OF assms, of buyer keep now] Inl by auto
  moreover have "\<not> (\<exists>l q. find_listing (mo_listingId input) db = Some l \<and> may_order input buyer keep now db l q)"
    using makeOffer_iff [OF assms, of buyer keep now] Inl by auto
  ultimately show ?thesis using Inl by simp
next
  case (Inr r)
  obtain t db' where r: "r = (t, db')" by fastforce
  obtain l q where l: "find_listing (mo_listingId input) db = Some l"
    "may_order input buyer keep now db l q" "t = new_order newId l buyer q (mo_notes input) now"
    "db' = placed_db input buyer newId now l q db"
    using makeOffer_iff [OF assms, of buyer keep now t db'] Inr r by auto
  have "1 \<le> q \<and> market_ok db'"
    using makeOffer_cases [OF assms, of buyer keep now] Inr r l by (auto simp: new_order_def)
  moreover have "l_status l = L_active" using l(2) by (simp add: may_order_def Let_def)
  then have "listings (placed_db input buyer newId now l q db) = update_rows l_id (l_id l) (\<lambda>r. r\<lparr>
      l_quantityAvailable := l_quantityAvailable l - q,
      l_status := (if q < l_quantityAvailable l then L_active else L_reserved)\<rparr>) (listings db)"
    by (simp add: placed_listings placed_status)
  ultimately show ?thesis
    unfolding Inr r sum.case prod.case using l
    by (intro exI [of _ l] exI [of _ q])
      (simp add: placed_transactions new_order_def RESPONSE_WINDOW_MS_def ORDER_RESPONSE_HOURS_def
        HOUR_MS_def)
qed

theorem placing_an_order_witness:
  "(case makeOffer (sample_offer (Some 6)) sample_buyer False 30 200 on_sale_db of
      Inl e \<Rightarrow> False | Inr (t, db') \<Rightarrow> t_amountPence t = 1500 \<and> market_ok db')
   \<and> (case makeOffer (sample_offer (Some 3)) sample_buyer False 30 200 on_sale_db of
      Inl e \<Rightarrow> isTraceError e | Inr r \<Rightarrow> False)"
proof -
  have f: "find_order 30 on_sale_db = None" "MakeOfferSchema (sample_offer (Some 6))"
    "MakeOfferSchema (sample_offer (Some 3))" by code_simp+
  have "map_option t_amountPence (case makeOffer (sample_offer (Some 6)) sample_buyer False 30 200 on_sale_db of
      Inl e \<Rightarrow> None | Inr (t, db') \<Rightarrow> Some t) = Some 1500"
    "isl (makeOffer (sample_offer (Some 3)) sample_buyer False 30 200 on_sale_db)" by code_simp+
  then show ?thesis
    using placing_an_order [OF on_sale_db_ok f(2,1), of sample_buyer False 200]
      placing_an_order [OF on_sale_db_ok f(3,1), of sample_buyer False 200]
    by (auto split: sum.splits)
qed

subsection \<open>Moving an order\<close>

lemma updateTransaction_in_time:
  assumes "market_ok db" and t: "find_order i db = Some t" and "\<not> overdueAt now t"
  shows "updateTransaction i input viewer now db
    = (case updateTransaction_tx i input viewer None now db of Inl e \<Rightarrow> (Inl e, db) | Inr (r, d) \<Rightarrow> (Inr r, d))"
proof -
  have "timedStep t now = None" using assms(3) overdueAt_iff_timedStep by blast
  then have "closeIfOverdue i now db = Inr (None, db)" using t by (intro closeIfOverdue_not_due) auto
  then show ?thesis by (simp add: updateTransaction_def)
qed

lemma stepped_lot:
  assumes ok: "market_ok db" and t: "find_order (t_id t) db = Some t"
    and l: "find_listing (t_listingId t) db = Some l" and opn: "isOpen t"
    and st: "st_to step \<noteq> T_pending"
  shows "map_option l_quantityAvailable (find_listing (l_id l) (stepped_db t l step db))
    = Some (l_quantityAvailable l + (if st_to step = T_cancelled then t_quantity t else 0))"
proof -
  let ?db1 = "transactions_update (update_rows t_id (t_id t) (moved_order step)) db"
  have lin: "l \<in> set (listings db)" "l_id l = t_listingId t" using listing_found [OF l] by auto
  have stock: "l_quantityAvailable l = l_quantity l - taken (l_id l) db"
    using ok lin by (simp add: market_ok_def listing_ok_def stock_ok_def)
  have "distinct (map t_id (transactions db))" using ok by (simp add: market_ok_def keys_ok_def)
  then have "taken (l_id l) ?db1 = taken (l_id l) db - (if st_to step = T_cancelled then t_quantity t else 0)"
    using opn by (subst taken_after_order [OF _ t])
      (auto simp: taken_share_def lin takes_iff isOpen_def)
  then show ?thesis
    using l lin stock
    by (simp add: stepped_db_def Let_def listings_settled_db find_row_update_same)
qed

text \<open>C5: An order that is in time moves exactly when the action is one of those the API
  lists for this viewer (\<open>allowedActions\<close>). It then has the action's status, and the lot
  gets the order's units back exactly when the order is cancelled. A refused action changes
  nothing and is never an internal error.\<close>

theorem allowed_actions_are_those_that_succeed:
  assumes "market_ok db" and "find_order i db = Some t" and "find_listing (t_listingId t) db = Some l"
    and "\<not> overdueAt now t"
  shows "(case updateTransaction i input viewer now db of
      (Inl e, db') \<Rightarrow> isTraceError e \<and> db' = db
        \<and> ut_action input \<notin> set (allowedActions (t_status t) (standing_of viewer t l))
    | (Inr t', db') \<Rightarrow> ut_action input \<in> set (allowedActions (t_status t) (standing_of viewer t l))
        \<and> t_status t' = (if ut_action input = Resolve_dispute \<and> ut_outcome input = Some Cancel_order
            then T_cancelled else step_to (ut_action input))
        \<and> find_order i db' = Some t' \<and> t_amountPence t' = t_amountPence t
        \<and> map_option l_quantityAvailable (find_listing (t_listingId t) db')
          = Some (l_quantityAvailable l + (if t_status t' = T_cancelled then t_quantity t else 0))
        \<and> market_ok db')"
proof (cases "updateTransaction_tx i input viewer None now db")
  case (Inl e)
  have "ut_action input \<notin> set (allowedActions (t_status t) (standing_of viewer t l))"
    using tx_result [OF assms(1-3), of input viewer None now] Inl by auto
  moreover have "isTraceError e"
    using updateTransaction_tx_ok [OF assms(1), of i input viewer None now] Inl by auto
  ultimately show ?thesis using Inl by (simp add: updateTransaction_in_time [OF assms(1,2,4)])
next
  case (Inr r)
  let ?s = "person_order_step input viewer (standing_of viewer t l) now"
  have tid: "t_id t = i" and t: "find_order (t_id t) db = Some t"
    using find_row_SomeD [OF assms(2)] assms(2) by auto
  have allowed: "ut_action input \<in> set (allowedActions (t_status t) (standing_of viewer t l))"
    using tx_result [OF assms(1-3), of input viewer None now] Inr by auto
  have r: "r = (moved_order ?s t, stepped_db t l ?s db)" and ok: "market_ok (stepped_db t l ?s db)"
    and from_: "t_status t \<in> set (step_from (ut_action input))"
    using updateTransaction_tx_ok [OF assms(1), of i input viewer None now] Inr assms(2,3) by auto
  have opn: "isOpen t" using order_moves_open [OF person_step_moves [OF from_]] by (simp add: isOpen_def)
  have st: "st_to ?s = (if ut_action input = Resolve_dispute \<and> ut_outcome input = Some Cancel_order
      then T_cancelled else step_to (ut_action input))" by (simp add: person_order_step_def)
  have np: "st_to ?s \<noteq> T_pending" unfolding st by (cases "ut_action input") auto
  have lot: "map_option l_quantityAvailable (find_listing (t_listingId t) (stepped_db t l ?s db))
      = Some (l_quantityAvailable l + (if st_to ?s = T_cancelled then t_quantity t else 0))"
    using stepped_lot [OF assms(1) t assms(3) opn np] listing_found [OF assms(3)] by simp
  have "find_order i (stepped_db t l ?s db) = Some (moved_order ?s t)"
    using assms(2) tid by (simp add: stepped_transactions find_row_update_same)
  then show ?thesis
    unfolding updateTransaction_in_time [OF assms(1,2,4)] Inr r prod.case sum.case
    using allowed lot ok by (simp add: st)
qed

definition an_action :: "order_action \<Rightarrow> update_transaction_input" where
  "an_action a = \<lparr> ut_action = a, ut_notes = None, ut_outcome = None \<rparr>"

theorem allowed_actions_are_those_that_succeed_witness:
  "(case updateTransaction 30 (an_action Reject) sample_seller 300 ordered_db of
      (Inl e, db') \<Rightarrow> False
    | (Inr t', db') \<Rightarrow> t_status t' = T_cancelled
        \<and> map_option l_quantityAvailable (find_listing 20 db') = Some 10)"
proof -
  define t where "t = the (find_order 30 ordered_db)"
  define l where "l = the (find_listing 20 ordered_db)"
  have f: "find_order 30 ordered_db = Some t" "find_listing (t_listingId t) ordered_db = Some l"
    "\<not> overdueAt 300 t" unfolding t_def l_def by code_simp+
  have d: "t_listingId t = 20" "l_quantityAvailable l = 4" "t_quantity t = 6"
    "Reject \<in> set (allowedActions (t_status t) (standing_of sample_seller t l))"
    unfolding t_def l_def by code_simp+
  show ?thesis
    using allowed_actions_are_those_that_succeed [OF ordered_db_ok f, of "an_action Reject" sample_seller] d
    by (auto simp: an_action_def split: sum.splits prod.splits)
qed

subsection \<open>Time limits\<close>

text \<open>C6: Once an order's time limit has passed, no action of anyone moves it any more: the
  request is refused, and the limit's own step is taken and kept although the request fails.
  An unanswered order is cancelled and its units return to the lot; an accepted one whose
  problem window has closed is complete.\<close>

theorem a_passed_limit_decides:
  assumes "market_ok db" and "find_order i db = Some t" and "find_listing (t_listingId t) db = Some l"
    and "overdueAt now t"
  shows "(case updateTransaction i input viewer now db of
      (Inr t', db') \<Rightarrow> False
    | (Inl e, db') \<Rightarrow> isTraceError e
        \<and> map_option t_status (find_order i db')
          = Some (if t_status t = T_pending then T_cancelled else T_completed)
        \<and> map_option l_quantityAvailable (find_listing (t_listingId t) db')
          = Some (l_quantityAvailable l + (if t_status t = T_pending then t_quantity t else 0))
        \<and> market_ok db')"
proof -
  obtain a to where due: "timedStep t now = Some (a, to)"
    using assms(4) overdueAt_iff_timedStep by fastforce
  have to: "to = (if t_status t = T_pending then T_cancelled else T_completed)"
    using due by (auto simp: timedStep_def split: if_splits)
  have tid: "t_id t = i" and t: "find_order (t_id t) db = Some t"
    using find_row_SomeD [OF assms(2)] assms(2) by auto
  let ?s = "timed_order_step a to now" and ?db = "stepped_db t l (timed_order_step a to now) db"
  have c: "closeIfOverdue i now db = Inr (Some a, ?db)" and ok: "market_ok ?db"
    using closeIfOverdue_due [OF assms(1,2) due] assms(3) by auto
  have moved: "find_order i ?db = Some (moved_order ?s t)"
    using assms(2) tid by (simp add: stepped_transactions find_row_update_same)
  have opn: "isOpen t" using order_moves_open [OF timedStep_moves [OF due]] by (simp add: isOpen_def)
  have "map_option l_quantityAvailable (find_listing (t_listingId t) ?db)
      = Some (l_quantityAvailable l + (if st_to ?s = T_cancelled then t_quantity t else 0))"
    using stepped_lot [OF assms(1) t assms(3) opn, of ?s] listing_found [OF assms(3)] to by simp
  moreover have "t_status (moved_order ?s t) \<notin> set (step_from b)" for b
    using to by (cases b) auto
  then obtain e where "updateTransaction_tx i input viewer (Some a) now ?db = Inl e" "isTraceError e"
    using updateTransaction_tx_ok [OF ok, of i input viewer "Some a" now] moved by auto
  ultimately show ?thesis
    using c moved ok by (cases "t_status t = T_pending") (simp_all add: updateTransaction_def to)
qed

theorem a_passed_limit_decides_witness:
  "(case updateTransaction 30 (an_action Accept) sample_seller 300000000 ordered_db of
      (Inr t', db') \<Rightarrow> False
    | (Inl e, db') \<Rightarrow> map_option t_status (find_order 30 db') = Some T_cancelled \<and> market_ok db')"
proof -
  define t where "t = the (find_order 30 ordered_db)"
  define l where "l = the (find_listing 20 ordered_db)"
  have f: "find_order 30 ordered_db = Some t" "find_listing (t_listingId t) ordered_db = Some l"
    "overdueAt 300000000 t" and d: "t_status t = T_pending" unfolding t_def l_def by code_simp+
  show ?thesis
    using a_passed_limit_decides [OF ordered_db_ok f, of "an_action Accept" sample_seller] d
    by (auto split: sum.splits prod.splits)
qed

text \<open>The condition the sweep's query writes in SQL, the step the code takes and the
  deadlines agree: an order is selected as overdue exactly when it has a timed step.\<close>

theorem overdue_query_matches_timedStep:
  "overdueAt now t = (timedStep t now \<noteq> None)"
  by (rule overdueAt_iff_timedStep)

subsection \<open>The sweep\<close>

text \<open>C8: A sweep never fails on a state that satisfies the invariant and, as long as no more
  than the 500 rows it takes at a time are due, leaves no order past its limit and no lot on
  sale past its date, other than one that an open order holds.\<close>

theorem a_sweep_leaves_nothing_due:
  assumes "market_ok db"
  shows "(case sweepOrderLifecycle now db of (Inl e, db') \<Rightarrow> False
    | (Inr swept, db') \<Rightarrow> market_ok db'
        \<and> (overdue_count now db \<le> 500 \<longrightarrow> (\<forall>t \<in> set (transactions db'). \<not> overdueAt now t))
        \<and> (dated_count now db \<le> 500 \<longrightarrow> (\<forall>l \<in> set (listings db').
            l_status l = L_active \<and> past (l_expiresAt l) now \<longrightarrow> openOrders (l_id l) db' \<noteq> 0)))"
proof -
  obtain r db' where s: "sweepOrderLifecycle now db = (Inr r, db')" "market_ok db'"
    using sweep_ok [OF assms] by blast
  show ?thesis using s sweep_clears [OF assms s(1)] by simp
qed

theorem a_sweep_leaves_nothing_due_witness:
  "\<exists>swept db'. sweepOrderLifecycle 300000000 ordered_db = (Inr swept, db')
    \<and> (list_all (\<lambda>t. \<not> overdueAt 300000000 t) (transactions db'))"
proof -
  have "overdue_count 300000000 ordered_db \<le> 500" by code_simp
  then show ?thesis
    using a_sweep_leaves_nothing_due [OF ordered_db_ok, of 300000000]
    by (cases "sweepOrderLifecycle 300000000 ordered_db"; cases "fst (sweepOrderLifecycle 300000000 ordered_db)")
      (simp_all add: list_all_iff)
qed

subsection \<open>Editing a lot\<close>

lemma edited_lot:
  assumes "find_listing i db = Some l"
  shows "find_listing i (edited_db l q input now db) = Some (edited_row l q input db)"
    and "j \<noteq> i \<Longrightarrow> find_listing j (edited_db l q input now db) = find_listing j db"
    and "transactions (edited_db l q input now db) = transactions db"
  using assms find_row_SomeD [OF assms]
  by (auto simp: edited_db_def edited_row_def listings_settled_db find_row_update_same find_row_update_other)

lemma edited_row_simps:
  "l_pricePence (edited_row l q input db) = or_keep (ui_pricePence input) (l_pricePence l)"
  "l_quantity (edited_row l q input db) = or_keep (ui_quantity input) (l_quantity l)"
  "l_quantityAvailable (edited_row l q input db) = q"
  "l_minOrderQuantity (edited_row l q input db) = or_keep (ui_minOrderQuantity input) (l_minOrderQuantity l)"
  "l_expiresAt (edited_row l q input db) = or_keep (ui_expiresAt input) (l_expiresAt l)"
  by (simp_all add: edited_row_def) (simp add: settled_row_def apply_patch_def patch_of_input_def)

lemma updateListing_stock_kept:
  "updateListing_stock input l = Inr q \<Longrightarrow>
    or_keep (ui_quantity input) (l_quantity l) - q = l_quantity l - l_quantityAvailable l"
  by (auto simp: updateListing_stock_def Let_def split: option.splits if_splits)

lemma listingChanges_iff:
  "(f, b, a) \<in> set (listingChanges l l') \<longleftrightarrow> b = listing_field f l \<and> a = listing_field f l' \<and> b \<noteq> a"
  by (cases f) (auto simp: listingChanges_def EDITABLE_FIELDS_def)



subsection \<open>The checker\<close>

definition no_stored_fingerprint :: "passport \<Rightarrow> string" where
  "no_stored_fingerprint p = ''''"

text \<open>C9: On a state that satisfies the invariant, with passports whose stored fingerprint is
  empty or current, the repository's invariant check reports no error, except a minimum order
  above its lot's quantity where a listing has one.\<close>

theorem checker_accepts_the_invariant:
  assumes "market_ok db" and "fingerprints_current fp db"
  shows "\<forall>v. v \<notin> set (errors_of (check_db fp ck now db))
    \<or> (vi_rule v = Minimum_order \<and> (\<exists>l \<in> set (listings db). l_quantity l < l_minOrderQuantity l))"
  using checker_errors [OF assms] by blast

theorem checker_accepts_the_invariant_witness:
  "check_exitCode False (check_db no_stored_fingerprint (\<lambda>p. None) 300 ordered_db) = 0"
proof -
  have f: "fingerprints_current no_stored_fingerprint ordered_db"
    "list_all (\<lambda>l. l_minOrderQuantity l \<le> l_quantity l) (listings ordered_db)" by code_simp+
  have "errors_of (check_db no_stored_fingerprint (\<lambda>p. None) 300 ordered_db) = []"
  proof (rule ccontr)
    assume "errors_of (check_db no_stored_fingerprint (\<lambda>p. None) 300 ordered_db) \<noteq> []"
    then obtain v where "v \<in> set (errors_of (check_db no_stored_fingerprint (\<lambda>p. None) 300 ordered_db))"
      by (meson list.set_sel(1))
    then show False
      using checker_accepts_the_invariant [OF ordered_db_ok f(1), of "\<lambda>p. None" 300] f(2)
      by (fastforce simp: list_all_iff)
  qed
  then show ?thesis by (simp add: check_exitCode_def)
qed

end

