(* ===== verification/Sql_Like.thy ===== *)
theory Sql_Like
  imports Text_Functions
begin

text \<open>
  The \<open>ILIKE\<close> operator of the searches, and the escaping of \<open>inspectionConditions\<close>
  (\<open>query.q.replace(/[\\%_]/g, '\\$&')\<close>). A pattern that ends in its escape character, which
  Postgres refuses, matches nothing here; no pattern the code builds ends that way.
\<close>

definition percent :: char where "percent = CHR ''%''"
definition underscore :: char where "underscore = CHR ''_''"
definition backslash :: char where "backslash = CHR 0x5C"

fun like_match :: "string \<Rightarrow> string \<Rightarrow> bool" where
  "like_match [] s = (s = [])"
| "like_match (c # p) s =
     (if c = percent then
        like_match p s \<or> (case s of [] \<Rightarrow> False | x # xs \<Rightarrow> like_match (c # p) xs)
      else if c = backslash then
        (case p of [] \<Rightarrow> False
         | d # q \<Rightarrow> (case s of [] \<Rightarrow> False | x # xs \<Rightarrow> x = d \<and> like_match q xs))
      else
        (case s of [] \<Rightarrow> False | x # xs \<Rightarrow> (c = underscore \<or> x = c) \<and> like_match p xs))"

definition ilike :: "string \<Rightarrow> string \<Rightarrow> bool" where
  "ilike s pattern \<longleftrightarrow> like_match (toLowerCase pattern) (toLowerCase s)"

definition special :: "char \<Rightarrow> bool" where
  "special c \<longleftrightarrow> c = backslash \<or> c = percent \<or> c = underscore"

fun escape_like :: "string \<Rightarrow> string" where
  "escape_like [] = []"
| "escape_like (c # s) = (if special c then backslash # c # escape_like s else c # escape_like s)"

text \<open>\<open>contains q s\<close>: \<open>q\<close> occurs in \<open>s\<close>; \<open>contained\<close> decides it.\<close>

definition contains :: "string \<Rightarrow> string \<Rightarrow> bool" where
  "contains q s \<longleftrightarrow> (\<exists>a b. s = a @ q @ b)"

lemma like_percent_end: "like_match [percent] s"
  by (induction s) auto

lemma special_chars [simp]:
  "percent \<noteq> backslash" "backslash \<noteq> percent" "underscore \<noteq> backslash" "backslash \<noteq> underscore"
  "percent \<noteq> underscore" "underscore \<noteq> percent"
  by (simp_all add: percent_def backslash_def underscore_def)

lemma like_escaped: "like_match (escape_like q @ [percent]) s \<longleftrightarrow> (\<exists>b. s = q @ b)"
proof (induction q arbitrary: s)
  case Nil
  then show ?case using like_percent_end by simp
next
  case (Cons c q)
  then show ?case by (cases s) (auto simp: special_def)
qed

lemma like_percent_start: "like_match (percent # p) s \<longleftrightarrow> (\<exists>a b. s = a @ b \<and> like_match p b)"
proof (induction s)
  case Nil
  then show ?case by simp
next
  case (Cons x s)
  have "like_match (percent # p) (x # s) \<longleftrightarrow> like_match p (x # s) \<or> like_match (percent # p) s" by simp
  also have "\<dots> \<longleftrightarrow> (\<exists>a b. x # s = a @ b \<and> like_match p b)"
    unfolding Cons.IH by (metis append_Cons append_Nil list.inject neq_Nil_conv append_eq_Cons_conv)
  finally show ?case .
qed

lemma like_contains: "like_match (percent # escape_like q @ [percent]) s \<longleftrightarrow> contains q s"
  unfolding like_percent_start like_escaped contains_def by auto

lemma toLowerCase_append: "toLowerCase (a @ b) = toLowerCase a @ toLowerCase b"
  by (simp add: toLowerCase_def)

lemma lower_code: "char_code (lower_char c) = (if 65 \<le> char_code c \<and> char_code c \<le> 90 then char_code c + 32 else char_code c)"
  by (simp add: lower_char_def char_code_def)

lemma special_code: "special c \<longleftrightarrow> char_code c \<in> {92, 37, 95}"
proof -
  have "char_code backslash = 92" "char_code percent = 37" "char_code underscore = 95"
    by (simp_all add: backslash_def percent_def underscore_def char_code_def)
  then show ?thesis unfolding special_def code_eq_iff [symmetric] by auto
qed

lemma lower_special: "special (lower_char c) = special c"
  by (simp add: special_code lower_code)

lemma lower_special_char [simp]:
  "lower_char percent = percent" "lower_char backslash = backslash"
  by (simp_all add: lower_char_def char_code_def percent_def backslash_def)

lemma lower_escape: "toLowerCase (escape_like q) = escape_like (toLowerCase q)"
  by (induction q) (simp_all add: toLowerCase_def lower_special)

lemma ilike_contains:
  "ilike s (percent # escape_like q @ [percent]) \<longleftrightarrow> contains (toLowerCase q) (toLowerCase s)"
proof -
  have "toLowerCase (percent # escape_like q @ [percent]) = percent # escape_like (toLowerCase q) @ [percent]"
    using lower_escape [of q] by (simp add: toLowerCase_def)
  then show ?thesis by (simp only: ilike_def like_contains)
qed

lemma ilike_prefix:
  "ilike s (escape_like q @ [percent]) \<longleftrightarrow> (\<exists>b. toLowerCase s = toLowerCase q @ b)"
proof -
  have "toLowerCase (escape_like q @ [percent]) = escape_like (toLowerCase q) @ [percent]"
    using lower_escape [of q] by (simp add: toLowerCase_def)
  then show ?thesis by (simp only: ilike_def like_escaped)
qed

end
