(* ===== verification/Quality_Reports.thy ===== *)
theory Quality_Reports
  imports Passport_Rules Sql_Like "HOL-Library.Product_Lexorder"
begin

text \<open>
  \<open>modules/quality/quality.service.ts\<close>: inspections and sellers' checks. A report names its
  reporter's role; an inspector's grade can afterwards be changed only by an inspector or the
  platform.
\<close>

subsection \<open>Who is reporting\<close>

record reporter =
  rp_id :: uuid
  rp_role :: user_role
  rp_organisationId :: "uuid option"

definition reportsOnEveryOrganisation :: "user_role \<Rightarrow> bool" where
  "reportsOnEveryOrganisation r \<longleftrightarrow> r = Inspector \<or> r = Platform_admin"

subsection \<open>Filing a report\<close>

record report_input =
  ri_passportId :: uuid
  ri_structuralScore :: "int option"
  ri_aestheticScore :: "int option"
  ri_environmentalScore :: "int option"
  ri_overallGrade :: grade
  ri_reportNotes :: "string option"
  ri_photoUrls :: "string list"

definition score_ok :: "int option \<Rightarrow> bool" where
  "score_ok v = within (\<lambda>n. 1 \<le> n \<and> n \<le> 10) v"

definition CreateQualityReportSchema :: "report_input \<Rightarrow> bool" where
  "CreateQualityReportSchema i \<longleftrightarrow> score_ok (ri_structuralScore i) \<and> score_ok (ri_aestheticScore i)
     \<and> score_ok (ri_environmentalScore i) \<and> within (\<lambda>s. length s \<le> 4000) (ri_reportNotes i)"

definition new_report :: "time \<Rightarrow> uuid \<Rightarrow> report_input \<Rightarrow> reporter \<Rightarrow> quality_report" where
  "new_report now newId i rep = \<lparr>
     q_id = newId, q_passportId = ri_passportId i, q_inspectorId = rp_id rep,
     q_inspectorRole = Some (rp_role rep), q_structuralScore = ri_structuralScore i,
     q_aestheticScore = ri_aestheticScore i, q_environmentalScore = ri_environmentalScore i,
     q_overallGrade = Some (ri_overallGrade i), q_reportNotes = ri_reportNotes i,
     q_photoUrls = ri_photoUrls i, q_blockchainTxHash = None, q_disputed = False,
     q_createdAt = now \<rparr>"

definition createQualityReport_check :: "report_input \<Rightarrow> reporter \<Rightarrow> trace_db \<Rightarrow> passport outcome" where
  "createQualityReport_check i rep db =
     (case find_passport (ri_passportId i) db of
        None \<Rightarrow> Inl (NotFoundError R_passport (Some (ri_passportId i)))
      | Some p \<Rightarrow>
          if p_status p = P_draft then Inl (ConflictError Not_registered_yet)
          else if \<not> reportsOnEveryOrganisation (rp_role rep) \<and> rp_organisationId rep \<noteq> Some (p_organisationId p)
          then Inl (ForbiddenError Hub_checks_own_only)
          else Inr p)"

text \<open>
  \<open>gradeStands\<close> is decided after the report is inserted, so a first inspection counts itself;
  that changes nothing, because an inspector's report is not a seller's check.
\<close>

definition gradeStands :: "reporter \<Rightarrow> uuid \<Rightarrow> trace_db \<Rightarrow> bool" where
  "gradeStands rep i db \<longleftrightarrow>
     inspectionSource (Some (rp_role rep)) = Seller_check \<and> hasIndependentInspection i db"

definition regrade :: "api_env \<Rightarrow> time \<Rightarrow> uuid \<Rightarrow> grade \<Rightarrow> trace_db \<Rightarrow> trace_db" where
  "regrade env now i g db =
     (let db1 = update_passport i (\<lambda>r. r\<lparr>p_conditionGrade := Some g, p_updatedAt := now\<rparr>) db
      in case find_passport i db1 of None \<Rightarrow> db1 | Some p \<Rightarrow> snd (reanchorPassport env now p db1))"

definition createQualityReport ::
  "api_env \<Rightarrow> time \<Rightarrow> uuid \<Rightarrow> report_input \<Rightarrow> reporter \<Rightarrow> trace_db \<Rightarrow> quality_report outcome \<times> trace_db" where
  "createQualityReport env now newId i rep db =
     (case createQualityReport_check i rep db of
        Inl e \<Rightarrow> (Inl e, db)
      | Inr p \<Rightarrow>
          let report = new_report now newId i rep;
              db1 = qualityReports_update (\<lambda>qs. qs @ [report]) db
          in (Inr report,
              if \<not> gradeStands rep (p_id p) db1 \<and> Some (ri_overallGrade i) \<noteq> p_conditionGrade p
              then regrade env now (ri_passportId i) (ri_overallGrade i) db1
              else db1))"

subsection \<open>Flagging a report\<close>

definition disputeReport :: "uuid \<Rightarrow> user_role \<Rightarrow> uuid option \<Rightarrow> trace_db \<Rightarrow> quality_report outcome \<times> trace_db" where
  "disputeReport i role orgId db =
     (case find_report i db of
        None \<Rightarrow> (Inl (NotFoundError R_quality_report (Some i)), db)
      | Some q \<Rightarrow>
          (case find_passport (q_passportId q) db of
             None \<Rightarrow> (Inl PlainError, db)
           | Some p \<Rightarrow>
               let holds = orgId \<noteq> None \<and> orgId = Some (p_organisationId p) in
               if \<not> holds \<and> role \<noteq> Platform_admin then (Inl (ForbiddenError Only_holder_flags), db)
               else if q_disputed q then (Inl (ConflictError Report_already_flagged), db)
               else (Inr (q\<lparr>q_disputed := True\<rparr>),
                     qualityReports_update (update_rows q_id i (\<lambda>r. r\<lparr>q_disputed := True\<rparr>)) db)))"

subsection \<open>Reading reports\<close>

text \<open>A report as anyone may see it: the reporter's name and role, never the e-mail or the id.\<close>

record public_report =
  pq_id :: uuid
  pq_passportId :: uuid
  pq_structuralScore :: "int option"
  pq_aestheticScore :: "int option"
  pq_environmentalScore :: "int option"
  pq_overallGrade :: "grade option"
  pq_reportNotes :: "string option"
  pq_photoUrls :: "string list"
  pq_blockchainTxHash :: "string option"
  pq_disputed :: bool
  pq_createdAt :: time
  pq_inspector :: "(string \<times> user_role) option"
  pq_source :: inspection_source

definition toPublic :: "trace_db \<Rightarrow> quality_report \<Rightarrow> public_report" where
  "toPublic db q =
     (let role = reporter_role db q in
      \<lparr> pq_id = q_id q, pq_passportId = q_passportId q, pq_structuralScore = q_structuralScore q,
        pq_aestheticScore = q_aestheticScore q, pq_environmentalScore = q_environmentalScore q,
        pq_overallGrade = q_overallGrade q, pq_reportNotes = q_reportNotes q,
        pq_photoUrls = q_photoUrls q, pq_blockchainTxHash = q_blockchainTxHash q,
        pq_disputed = q_disputed q, pq_createdAt = q_createdAt q,
        pq_inspector = (case (find_user (q_inspectorId q) db, role) of
           (Some u, Some r) \<Rightarrow> Some (u_name u, r) | _ \<Rightarrow> None),
        pq_source = inspectionSource role \<rparr>)"

definition newest_reports :: "quality_report list \<Rightarrow> quality_report list" where
  "newest_reports = sort_key (\<lambda>q. - q_createdAt q)"

definition getReportsByPassport :: "uuid \<Rightarrow> trace_db \<Rightarrow> public_report list outcome" where
  "getReportsByPassport i db =
     (case find_passport i db of
        None \<Rightarrow> Inl (NotFoundError R_passport (Some i))
      | Some p \<Rightarrow> Inr (map (toPublic db) (newest_reports (filter (\<lambda>q. q_passportId q = i) (qualityReports db)))))"

definition getReportById :: "uuid \<Rightarrow> trace_db \<Rightarrow> public_report outcome" where
  "getReportById i db =
     (case find_report i db of
        None \<Rightarrow> Inl (NotFoundError R_quality_report (Some i))
      | Some q \<Rightarrow> Inr (toPublic db q))"

definition first_photo :: "passport \<Rightarrow> string option" where
  "first_photo p = (case photos_of p of [] \<Rightarrow> None | u # us \<Rightarrow> Some u)"

definition listInspectorReports :: "uuid \<Rightarrow> trace_db \<Rightarrow> (quality_report \<times> (string \<times> string option \<times> string \<times> string option) option) list" where
  "listInspectorReports inspectorId db =
     map (\<lambda>q. (q, map_option (\<lambda>p. (p_productName p, p_serialNumber p, p_categoryL1 p,
                      first_photo p))
                 (find_passport (q_passportId q) db)))
       (newest_reports (filter (\<lambda>q. q_inspectorId q = inspectorId) (qualityReports db)))"

subsection \<open>Materials to inspect\<close>

definition independent_reports :: "uuid \<Rightarrow> trace_db \<Rightarrow> quality_report list" where
  "independent_reports i db =
     filter (\<lambda>q. q_passportId q = i \<and> reporter_role db q = Some Inspector) (qualityReports db)"

record materials_query =
  mq_q :: "string option"
  mq_categoryL1 :: "string option"
  mq_uninspected :: bool
  mq_page :: nat
  mq_limit :: nat

definition text_given :: "string option \<Rightarrow> bool" where
  "text_given s \<longleftrightarrow> s \<noteq> None \<and> s \<noteq> Some ''''"

definition inspectionConditions ::
  "(uuid \<Rightarrow> string) \<Rightarrow> materials_query \<Rightarrow> user_role \<Rightarrow> uuid option \<Rightarrow> trace_db \<Rightarrow> passport \<Rightarrow> bool" where
  "inspectionConditions uuidText query role orgId db p \<longleftrightarrow>
     p_status p \<noteq> P_draft
     \<and> (reportsOnEveryOrganisation role \<or> orgId = Some (p_organisationId p))
     \<and> (text_given (mq_categoryL1 query) \<longrightarrow> mq_categoryL1 query = Some (p_categoryL1 p))
     \<and> (mq_uninspected query \<longrightarrow> independent_reports (p_id p) db = [])
     \<and> (text_given (mq_q query) \<longrightarrow>
          (let e = escape_like (or_keep (mq_q query) '''');
               pattern = [percent] @ e @ [percent]
           in ilike (p_productName p) pattern
              \<or> (case p_serialNumber p of None \<Rightarrow> False | Some s \<Rightarrow> ilike s pattern)
              \<or> ilike (uuidText (p_id p)) (e @ [percent])))"

definition last_independent :: "trace_db \<Rightarrow> passport \<Rightarrow> time option" where
  "last_independent db p =
     (case independent_reports (p_id p) db of [] \<Rightarrow> None | q # qs \<Rightarrow> Some (Max (set (map q_createdAt (q # qs)))))"

text \<open>
  \<open>asc nulls first\<close>, then the product name in the database's collation, given as the rank
  \<open>nameRank\<close>. Only materials with an organisation row are listed; all are counted.
\<close>

definition material_rank :: "(string \<Rightarrow> nat) \<Rightarrow> trace_db \<Rightarrow> passport \<Rightarrow> int \<times> int \<times> nat" where
  "material_rank nameRank db p =
     (case last_independent db p of None \<Rightarrow> (0, 0, nameRank (p_productName p))
      | Some t \<Rightarrow> (1, t, nameRank (p_productName p)))"

record material_row =
  mr_id :: uuid
  mr_productName :: string
  mr_serialNumber :: "string option"
  mr_categoryL1 :: string
  mr_categoryL2 :: "string option"
  mr_conditionGrade :: "grade option"
  mr_conditionNotes :: "string option"
  mr_status :: passport_status
  mr_unitOfMeasure :: "string option"
  mr_dimensions :: "json option"
  mr_photo :: "string option"
  mr_organisationName :: string
  mr_reportCount :: nat
  mr_lastIndependentInspectionAt :: "time option"

definition material_row_of :: "trace_db \<Rightarrow> organisation \<Rightarrow> passport \<Rightarrow> material_row" where
  "material_row_of db org p = \<lparr>
     mr_id = p_id p, mr_productName = p_productName p, mr_serialNumber = p_serialNumber p,
     mr_categoryL1 = p_categoryL1 p, mr_categoryL2 = p_categoryL2 p,
     mr_conditionGrade = p_conditionGrade p, mr_conditionNotes = p_conditionNotes p,
     mr_status = p_status p, mr_unitOfMeasure = p_unitOfMeasure p, mr_dimensions = p_dimensions p,
     mr_photo = first_photo p, mr_organisationName = o_name org,
     mr_reportCount = length (filter (\<lambda>q. q_passportId q = p_id p) (qualityReports db)),
     mr_lastIndependentInspectionAt = last_independent db p \<rparr>"

definition page_of :: "nat \<Rightarrow> nat \<Rightarrow> 'a list \<Rightarrow> 'a list" where
  "page_of page limit xs = take limit (drop ((page - 1) * limit) xs)"

definition listMaterialsForInspection ::
  "(uuid \<Rightarrow> string) \<Rightarrow> (string \<Rightarrow> nat) \<Rightarrow> materials_query \<Rightarrow> reporter \<Rightarrow> trace_db \<Rightarrow> material_row list \<times> nat" where
  "listMaterialsForInspection uuidText nameRank query rep db =
     (let found = filter (inspectionConditions uuidText query (rp_role rep) (rp_organisationId rep) db)
                    (materialPassports db);
          joined = filter (\<lambda>p. find_organisation (p_organisationId p) db \<noteq> None) found
      in (map (\<lambda>p. material_row_of db (the (find_organisation (p_organisationId p) db)) p)
            (page_of (mq_page query) (mq_limit query) (sort_key (material_rank nameRank db) joined)),
          length found))"

definition getInspectionSummary :: "(uuid \<Rightarrow> string) \<Rightarrow> reporter \<Rightarrow> trace_db \<Rightarrow> nat \<times> nat \<times> nat" where
  "getInspectionSummary uuidText rep db =
     (let none = \<lparr>mq_q = None, mq_categoryL1 = None, mq_uninspected = False, mq_page = 1, mq_limit = 20\<rparr>;
          counted = (\<lambda>query. length (filter (inspectionConditions uuidText query (rp_role rep) (rp_organisationId rep) db)
                                       (materialPassports db)))
      in (counted none, counted (none\<lparr>mq_uninspected := True\<rparr>),
          length (filter (\<lambda>q. q_inspectorId q = rp_id rep) (qualityReports db))))"

subsection \<open>What a report changes\<close>

lemma createQualityReport_check_ok:
  "createQualityReport_check i rep db = Inr p \<longleftrightarrow>
     find_passport (ri_passportId i) db = Some p \<and> p_status p \<noteq> P_draft
     \<and> (rp_role rep = Inspector \<or> rp_role rep = Platform_admin \<or> rp_organisationId rep = Some (p_organisationId p))"
  by (auto simp: createQualityReport_check_def reportsOnEveryOrganisation_def split: option.splits)

lemma seller_check_iff: "inspectionSource (Some r) = Seller_check \<longleftrightarrow> r \<noteq> Inspector \<and> r \<noteq> Platform_admin"
  by (cases r) auto

lemma independent_appended:
  "hasIndependentInspection i (qualityReports_update (\<lambda>qs. qs @ [q]) db) \<longleftrightarrow>
     hasIndependentInspection i db
     \<or> (q_passportId q = i \<and> q_overallGrade q \<noteq> None \<and> reporter_role db q = Some Inspector)"
  by (simp add: hasIndependentInspection_def reporter_role_def cong: option.case_cong)

lemma gradeStands_before:
  "gradeStands rep j (qualityReports_update (\<lambda>qs. qs @ [new_report now newId i rep]) db) = gradeStands rep j db"
  by (auto simp: gradeStands_def independent_appended seller_check_iff new_report_def reporter_role_def)

lemma independent_same:
  "qualityReports db' = qualityReports db \<Longrightarrow> users db' = users db \<Longrightarrow>
    hasIndependentInspection i db' = hasIndependentInspection i db"
  by (simp add: hasIndependentInspection_def reporter_role_def cong: option.case_cong)

lemma reanchor_tables [simp]:
  "qualityReports (snd (reanchorPassport env now p db)) = qualityReports db"
  "storedObjects (snd (reanchorPassport env now p db)) = storedObjects db"
  by (simp_all add: reanchorPassport_def simulatePassportAnchor_def Let_def)

lemma regrade_ok:
  assumes p: "find_passport i db = Some p" and ids: "distinct (map p_id (materialPassports db))"
  shows "\<exists>q. find_passport i (regrade env now i g db) = Some q \<and> p_status q = p_status p
      \<and> p_organisationId q = p_organisationId p \<and> p_conditionPhotos q = p_conditionPhotos p
      \<and> p_conditionGrade q = Some g"
    and "j \<noteq> i \<Longrightarrow> find_passport j (regrade env now i g db) = find_passport j db"
    and "others_same db (regrade env now i g db)"
    and "qualityReports (regrade env now i g db) = qualityReports db"
    and "storedObjects (regrade env now i g db) = storedObjects db"
    and "records_ok env db \<Longrightarrow> records_ok env (regrade env now i g db)"
proof -
  define f where "f = (\<lambda>r::passport. r\<lparr>p_conditionGrade := Some g, p_updatedAt := now\<rparr>)"
  define db1 where "db1 = update_passport i f db"
  have f: "p_id (f r) = p_id r" "p_status (f r) = p_status r" "p_organisationId (f r) = p_organisationId r"
    "p_conditionPhotos (f r) = p_conditionPhotos r" "p_conditionGrade (f r) = Some g" for r
    by (simp_all add: f_def)
  have i: "p_id p = i" using p find_passport_id by blast
  have row: "find_passport (p_id (f p)) db1 = Some (f p)" using p i f by (simp add: db1_def)
  have run: "regrade env now i g db = snd (reanchorPassport env now (f p) db1)"
    using p f(1) by (simp add: regrade_def Let_def f_def [symmetric] db1_def)
  have ids1: "distinct (map p_id (materialPassports db1))"
    using ids passport_tbl.keys_after_update [of f i db] f(1) by (simp add: db1_def update_passport_def)
  have rest: "\<forall>q \<in> set (materialPassports db1). p_id q \<noteq> p_id (f p) \<longrightarrow> fits env q" if "records_ok env db"
    using that i f(1) by (auto simp: records_ok_def db1_def update_passport_def set_update_rows)
  show "\<exists>q. find_passport i (regrade env now i g db) = Some q \<and> p_status q = p_status p
      \<and> p_organisationId q = p_organisationId p \<and> p_conditionPhotos q = p_conditionPhotos p
      \<and> p_conditionGrade q = Some g"
    using row i f by (simp add: run reanchorPassport_def simulatePassportAnchor_def Let_def)
  show "find_passport j (regrade env now i g db) = find_passport j db" if "j \<noteq> i"
    using row i f that by (simp add: run reanchorPassport_def simulatePassportAnchor_def Let_def) (simp add: db1_def f)
  show "others_same db (regrade env now i g db)"
    by (simp add: run reanchorPassport_def simulatePassportAnchor_def Let_def db1_def)
  show "qualityReports (regrade env now i g db) = qualityReports db"
    "storedObjects (regrade env now i g db) = storedObjects db"
    by (simp_all add: run) (simp_all add: db1_def)
  show "records_ok env (regrade env now i g db)" if "records_ok env db"
    unfolding run using reanchor_ok(1) [OF row rest [OF that] ids1] .
qed

lemma createQualityReport_cases:
  assumes run: "createQualityReport env now newId i rep db = (r, db')"
    and ids: "distinct (map p_id (materialPassports db))"
  shows "(\<exists>e. r = Inl e \<and> db' = db \<and> createQualityReport_check i rep db = Inl e)
    \<or> (\<exists>p q. createQualityReport_check i rep db = Inr p \<and> r = Inr (new_report now newId i rep)
        \<and> qualityReports db' = qualityReports db @ [new_report now newId i rep]
        \<and> find_passport (ri_passportId i) db' = Some q \<and> p_status q = p_status p
        \<and> p_organisationId q = p_organisationId p \<and> p_conditionPhotos q = p_conditionPhotos p
        \<and> p_conditionGrade q = (if gradeStands rep (ri_passportId i) db then p_conditionGrade p else Some (ri_overallGrade i))
        \<and> (\<forall>j. j \<noteq> ri_passportId i \<longrightarrow> find_passport j db' = find_passport j db)
        \<and> others_same db db' \<and> storedObjects db' = storedObjects db
        \<and> (records_ok env db \<longrightarrow> records_ok env db'))"
proof (cases "createQualityReport_check i rep db")
  case (Inl e)
  then have "r = Inl e \<and> db' = db" using run by (simp add: createQualityReport_def)
  then show ?thesis using Inl by blast
next
  case (Inr p)
  let ?j = "ri_passportId i"
  define rpt where "rpt = new_report now newId i rep"
  define db1 where "db1 = qualityReports_update (\<lambda>qs. qs @ [rpt]) db"
  have p: "find_passport ?j db = Some p" "p_id p = ?j"
    using Inr find_passport_id by (auto simp: createQualityReport_check_ok)
  have p1: "find_passport ?j db1 = Some p" "distinct (map p_id (materialPassports db1))"
    using p ids by (simp_all add: db1_def)
  have stands: "gradeStands rep ?j db1 = gradeStands rep ?j db"
    by (simp add: db1_def rpt_def gradeStands_before)
  have "createQualityReport env now newId i rep db
      = (Inr rpt, if \<not> gradeStands rep ?j db \<and> Some (ri_overallGrade i) \<noteq> p_conditionGrade p
           then regrade env now ?j (ri_overallGrade i) db1 else db1)"
    using Inr p stands by (simp add: createQualityReport_def Let_def rpt_def db1_def)
  then have eq: "r = Inr rpt" "db' = (if \<not> gradeStands rep ?j db \<and> Some (ri_overallGrade i) \<noteq> p_conditionGrade p
      then regrade env now ?j (ri_overallGrade i) db1 else db1)"
    unfolding run prod.inject by blast+
  have base: "others_same db db1" "storedObjects db1 = storedObjects db"
    "qualityReports db1 = qualityReports db @ [rpt]" "records_ok env db1 = records_ok env db"
    "\<And>j. find_passport j db1 = find_passport j db"
    by (simp_all add: db1_def)
  show ?thesis
  proof (cases "\<not> gradeStands rep ?j db \<and> Some (ri_overallGrade i) \<noteq> p_conditionGrade p")
    case True
    then have d: "db' = regrade env now ?j (ri_overallGrade i) db1" by (simp add: eq)
    note rg = regrade_ok [OF p1, where env = env and now = now and g = "ri_overallGrade i", folded d]
    from rg(1) obtain q where q: "find_passport ?j db' = Some q" "p_status q = p_status p"
      "p_organisationId q = p_organisationId p" "p_conditionPhotos q = p_conditionPhotos p"
      "p_conditionGrade q = Some (ri_overallGrade i)" by blast
    have o: "others_same db db'" by (rule others_same_trans [OF base(1) rg(3)])
    have t: "qualityReports db' = qualityReports db @ [rpt]" "storedObjects db' = storedObjects db"
      "\<forall>j. j \<noteq> ?j \<longrightarrow> find_passport j db' = find_passport j db" "records_ok env db \<longrightarrow> records_ok env db'"
      using rg(2,4-6) base(2-5) by simp_all
    show ?thesis using Inr eq(1) q o t True unfolding rpt_def by auto
  next
    case False
    then have "db' = db1" by (auto simp: eq)
    then show ?thesis using Inr eq(1) base p1(1) False by (auto simp: rpt_def)
  qed
qed

subsection \<open>Properties\<close>

text \<open>
  C25: Filing a report. It is refused, and then changes nothing, exactly on a passport that does
  not exist, is a draft, or is another organisation's while the reporter is neither an
  inspector nor the platform. Otherwise it is recorded under the reporter's role, the
  material's grade becomes the report's (unless it is a seller's check of a material an
  inspector has graded), and nothing else of any passport's status, organisation or photos
  changes; a recorded fingerprint stays that of its passport.
\<close>

theorem filing_a_report:
  assumes run: "createQualityReport env now newId i rep db = (r, db')" and ok: "records_ok env db"
  shows "((\<exists>q. r = Inr q) \<longleftrightarrow> (\<exists>p. find_passport (ri_passportId i) db = Some p \<and> p_status p \<noteq> P_draft
        \<and> (rp_role rep = Inspector \<or> rp_role rep = Platform_admin \<or> rp_organisationId rep = Some (p_organisationId p))))
    \<and> records_ok env db' \<and> transactions db' = transactions db \<and> listings db' = listings db
    \<and> (case r of
         Inl e \<Rightarrow> db' = db
       | Inr q \<Rightarrow> qualityReports db' = qualityReports db @ [q] \<and> q_inspectorRole q = Some (rp_role rep)
           \<and> q_overallGrade q = Some (ri_overallGrade i)
           \<and> (\<exists>p p'. find_passport (ri_passportId i) db = Some p \<and> find_passport (ri_passportId i) db' = Some p'
               \<and> p_status p' = p_status p \<and> p_organisationId p' = p_organisationId p
               \<and> p_conditionPhotos p' = p_conditionPhotos p
               \<and> p_conditionGrade p' =
                   (if rp_role rep \<noteq> Inspector \<and> rp_role rep \<noteq> Platform_admin
                       \<and> hasIndependentInspection (ri_passportId i) db
                    then p_conditionGrade p else Some (ri_overallGrade i))))"
proof -
  have ids: "distinct (map p_id (materialPassports db))" using ok by (simp add: records_ok_def)
  have stands: "gradeStands rep j db \<longleftrightarrow> rp_role rep \<noteq> Inspector \<and> rp_role rep \<noteq> Platform_admin
      \<and> hasIndependentInspection j db" for j
    by (auto simp: gradeStands_def seller_check_iff)
  from createQualityReport_cases [OF run ids] show ?thesis
  proof (elim disjE exE conjE, goal_cases)
    case (1 e)
    then have "\<not> (\<exists>p. createQualityReport_check i rep db = Inr p)" by simp
    then show ?case using 1 ok unfolding createQualityReport_check_ok by auto
  next
    case (2 p q)
    then show ?case using ok unfolding createQualityReport_check_ok stands
      by (auto simp: others_same_def new_report_def)
  qed
qed

text \<open>What a seller can do to the grade of a material: edit its passport, or file a check.\<close>

datatype seller_action =
  Edit_passport time uuid passport_input uuid uuid
| File_check time uuid report_input reporter

fun seller_step :: "api_env \<Rightarrow> trace_db \<Rightarrow> seller_action \<Rightarrow> trace_db" where
  "seller_step env db (Edit_passport now i input userId orgId) = snd (updatePassport env now i input userId orgId db)"
| "seller_step env db (File_check now newId input rep) = snd (createQualityReport env now newId input rep db)"

fun by_seller :: "seller_action \<Rightarrow> bool" where
  "by_seller (Edit_passport now i input userId orgId) = True"
| "by_seller (File_check now newId input rep) = (rp_role rep \<noteq> Inspector \<and> rp_role rep \<noteq> Platform_admin)"

definition graded_by_inspection :: "api_env \<Rightarrow> uuid \<Rightarrow> grade option \<Rightarrow> trace_db \<Rightarrow> bool" where
  "graded_by_inspection env i g db \<longleftrightarrow> records_ok env db \<and> hasIndependentInspection i db
     \<and> (\<exists>p. find_passport i db = Some p \<and> p_conditionGrade p = g)"

interpretation sellers: guarded_system "seller_step env" "\<lambda>db. by_seller" "graded_by_inspection env i g" for env i g
proof
  fix db and a :: seller_action
  assume inv: "graded_by_inspection env i g db" and by_s: "by_seller a"
  then obtain p where p: "find_passport i db = Some p" "p_conditionGrade p = g" "hasIndependentInspection i db"
    "records_ok env db" "distinct (map p_id (materialPassports db))"
    by (auto simp: graded_by_inspection_def records_ok_def)
  show "graded_by_inspection env i g (seller_step env db a)"
  proof (cases a)
    case (Edit_passport now j input userId orgId)
    obtain r db' where run: "updatePassport env now j input userId orgId db = (r, db')" by (meson surj_pair)
    have step: "seller_step env db a = db'" using run Edit_passport by simp
    from updatePassport_cases [OF run] show ?thesis
    proof (elim disjE exE conjE, goal_cases)
      case (1 e)
      then show ?case using inv step by simp
    next
      case (2 e q)
      then show ?case using inv step by simp
    next
      case (3 q)
      have "hasIndependentInspection i db'"
        using p(3) independent_same [of db' db i] 3 by (simp add: others_same_def)
      moreover have "\<exists>p'. find_passport i db' = Some p' \<and> p_conditionGrade p' = g"
      proof (cases "j = i")
        case True
        then have "q = p" "or_old (pi_conditionGrade input) (p_conditionGrade q) = p_conditionGrade q"
          using 3 p by (auto simp: updatePassport_check_ok or_old_def split: option.splits)
        then show ?thesis using 3 True p by simp
      next
        case False
        then show ?thesis using 3 p by auto
      qed
      ultimately show ?case using 3 p step by (simp add: graded_by_inspection_def)
    qed
  next
    case (File_check now newId input rep)
    obtain r db' where run: "createQualityReport env now newId input rep db = (r, db')" by (meson surj_pair)
    have step: "seller_step env db a = db'" using run File_check by simp
    from createQualityReport_cases [OF run p(5)] show ?thesis
    proof (elim disjE exE conjE, goal_cases)
      case (1 e)
      then show ?case using inv step by simp
    next
      case (2 q q')
      have "hasIndependentInspection i db'"
        using p(3) 2 by (auto simp: hasIndependentInspection_def reporter_role_def others_same_def cong: option.case_cong)
      moreover have "\<exists>p'. find_passport i db' = Some p' \<and> p_conditionGrade p' = g"
      proof (cases "ri_passportId input = i")
        case True
        have "gradeStands rep i db" using by_s File_check p by (simp add: gradeStands_def seller_check_iff)
        then show ?thesis using 2 True p by (auto simp: createQualityReport_check_ok)
      next
        case False
        then show ?thesis using 2 p by auto
      qed
      ultimately show ?case using 2 p step by (simp add: graded_by_inspection_def)
    qed
  qed
qed

text \<open>
  Once an inspector has graded a material, its grade is the inspection's: no run of edits by
  anyone and of checks by anyone but an inspector or the platform changes it.
\<close>

theorem an_inspected_grade_stands:
  assumes "records_ok env db" and "hasIndependentInspection i db" and "find_passport i db = Some p"
    and "\<forall>a \<in> set as. by_seller a"
  shows "\<exists>p'. find_passport i (run_calls (seller_step env) db as) = Some p' \<and> p_conditionGrade p' = p_conditionGrade p
    \<and> hasIndependentInspection i (run_calls (seller_step env) db as)"
proof -
  have "graded_by_inspection env i (p_conditionGrade p) db"
    using assms by (simp add: graded_by_inspection_def)
  then have "graded_by_inspection env i (p_conditionGrade p) (run_calls (seller_step env) db as)"
    using assms(4) by (intro sellers.run_keeps sellers.admissible_all) auto
  then show ?thesis by (auto simp: graded_by_inspection_def)
qed

text \<open>
  The inspectors' search is literal: whatever characters it contains, wildcards included, a
  registered material within the reporter's reach is found exactly when its name or serial
  number contains the text, or its id starts with it, up to letter case.
\<close>

theorem inspection_search_is_literal:
  assumes "mq_q query = Some t" and "t \<noteq> ''''" and "mq_categoryL1 query = None" and "\<not> mq_uninspected query"
  shows "inspectionConditions uuidText query role orgId db p \<longleftrightarrow>
    p_status p \<noteq> P_draft \<and> (role = Inspector \<or> role = Platform_admin \<or> orgId = Some (p_organisationId p))
    \<and> (contains (toLowerCase t) (toLowerCase (p_productName p))
       \<or> (\<exists>s. p_serialNumber p = Some s \<and> contains (toLowerCase t) (toLowerCase s))
       \<or> (\<exists>rest. toLowerCase (uuidText (p_id p)) = toLowerCase t @ rest))"
  using assms
  by (simp add: inspectionConditions_def text_given_def reportsOnEveryOrganisation_def Let_def
      ilike_contains ilike_prefix split: option.split)

definition every_material :: "nat \<Rightarrow> nat \<Rightarrow> materials_query" where
  "every_material page limit =
     \<lparr>mq_q = None, mq_categoryL1 = None, mq_uninspected = False, mq_page = page, mq_limit = limit\<rparr>"

text \<open>
  The dashboard and the list agree: the number of materials the summary shows a reporter is
  the total the unfiltered list reports, and the number not yet inspected the total of the
  list restricted to those, whatever page is asked for.
\<close>

theorem inspection_summary_matches_the_list:
  "fst (getInspectionSummary uuidText rep db)
      = snd (listMaterialsForInspection uuidText nameRank (every_material page limit) rep db)
    \<and> fst (snd (getInspectionSummary uuidText rep db))
        = snd (listMaterialsForInspection uuidText nameRank ((every_material page limit)\<lparr>mq_uninspected := True\<rparr>) rep db)
    \<and> length (fst (listMaterialsForInspection uuidText nameRank (every_material page limit) rep db)) \<le> limit"
  by (simp add: getInspectionSummary_def listMaterialsForInspection_def inspectionConditions_def [abs_def]
      text_given_def every_material_def Let_def page_of_def)

text \<open>
  Flagging a report succeeds exactly when the report is not yet flagged and the caller
  belongs to the organisation that holds the material or is the platform; it then marks that
  report and changes nothing else, and a second flag is refused.
\<close>

theorem flagging_a_report:
  assumes run: "disputeReport i role orgId db = (r, db')"
    and ids: "distinct (map q_id (qualityReports db))"
  shows "((\<exists>q. r = Inr q) \<longleftrightarrow> (\<exists>q p. find_report i db = Some q \<and> find_passport (q_passportId q) db = Some p
        \<and> \<not> q_disputed q \<and> (orgId = Some (p_organisationId p) \<or> role = Platform_admin)))
    \<and> (case r of
         Inl e \<Rightarrow> db' = db
       | Inr q \<Rightarrow> find_report i db' = Some q \<and> q_disputed q
           \<and> (\<forall>j. j \<noteq> i \<longrightarrow> find_report j db' = find_report j db)
           \<and> materialPassports db' = materialPassports db
           \<and> (\<exists>e. fst (disputeReport i role orgId db') = Inl e))"
proof -
  have find: "find_report j (qualityReports_update (update_rows q_id i (\<lambda>r. r\<lparr>q_disputed := True\<rparr>)) db)
    = (if j = i then map_option (\<lambda>r. r\<lparr>q_disputed := True\<rparr>) (find_report i db) else find_report j db)" for j
    by (rule report_tbl.find_after_update) simp
  show ?thesis
    using run find
    by (cases "find_report i db"; cases "find_passport (q_passportId (the (find_report i db))) db")
      (auto simp: disputeReport_def Let_def split: if_splits)
qed

subsection \<open>Witnesses\<close>

definition an_inspector :: reporter where
  "an_inspector = \<lparr>rp_id = 3, rp_role = Inspector, rp_organisationId = None\<rparr>"

definition the_hub :: reporter where
  "the_hub = \<lparr>rp_id = 2, rp_role = Hub_admin, rp_organisationId = Some 1\<rparr>"

definition graded :: "grade \<Rightarrow> report_input" where
  "graded g = \<lparr>ri_passportId = 10, ri_structuralScore = None, ri_aestheticScore = None,
     ri_environmentalScore = None, ri_overallGrade = g, ri_reportNotes = None, ri_photoUrls = []\<rparr>"

definition inspected_db :: trace_db where
  "inspected_db = snd (createQualityReport sample_env 5 40 (graded Grade_B) an_inspector sample_db)"

theorem filing_a_report_witness:
  "\<exists>q. fst (createQualityReport sample_env 5 40 (graded Grade_B) an_inspector sample_db) = Inr q
    \<and> q_inspectorRole q = Some Inspector \<and> records_ok sample_env inspected_db"
proof -
  obtain r db' where run: "createQualityReport sample_env 5 40 (graded Grade_B) an_inspector sample_db = (r, db')"
    by (meson surj_pair)
  have "find_passport (ri_passportId (graded Grade_B)) sample_db = Some sample_passport" "p_status sample_passport = P_active"
    by (simp_all add: graded_def sample_defs)
  then have "\<exists>q. r = Inr q" "records_ok sample_env db'"
    using filing_a_report [OF run sample_records_ok] by (auto simp: an_inspector_def)
  then show ?thesis
    using filing_a_report [OF run sample_records_ok] run by (auto simp: inspected_db_def an_inspector_def)
qed

lemma inspected_ok: "records_ok sample_env inspected_db" "hasIndependentInspection 10 inspected_db"
  "\<exists>p. find_passport 10 inspected_db = Some p \<and> p_conditionGrade p = Some Grade_B"
proof -
  obtain r db' where run: "createQualityReport sample_env 5 40 (graded Grade_B) an_inspector sample_db = (r, db')"
    by (meson surj_pair)
  have ids: "distinct (map p_id (materialPassports sample_db))" by (simp add: sample_defs)
  have db': "db' = inspected_db" using run by (simp add: inspected_db_def)
  have chk: "createQualityReport_check (graded Grade_B) an_inspector sample_db = Inr sample_passport"
    unfolding createQualityReport_check_ok by (simp add: graded_def an_inspector_def sample_defs)
  have stands: "\<not> gradeStands an_inspector 10 sample_db" by (simp add: gradeStands_def an_inspector_def)
  from createQualityReport_cases [OF run ids] chk stands sample_records_ok [of sample_env]
  have res: "records_ok sample_env db'" "qualityReports db' = qualityReports sample_db @ [new_report 5 40 (graded Grade_B) an_inspector]"
    "\<exists>p. find_passport 10 db' = Some p \<and> p_conditionGrade p = Some Grade_B"
    by (auto simp: graded_def)
  then show "records_ok sample_env inspected_db"
    "\<exists>p. find_passport 10 inspected_db = Some p \<and> p_conditionGrade p = Some Grade_B" by (simp_all add: db')
  show "hasIndependentInspection 10 inspected_db"
    using res(2) by (simp add: hasIndependentInspection_def db' new_report_def graded_def an_inspector_def reporter_role_def)
qed

theorem an_inspected_grade_stands_witness:
  "\<exists>p. find_passport 10 (run_calls (seller_step sample_env) inspected_db
        [Edit_passport 6 10 (no_fields\<lparr>pi_conditionGrade := Some Grade_A\<rparr>) 2 1, File_check 7 41 (graded Grade_A) the_hub]) = Some p
     \<and> p_conditionGrade p = Some Grade_B"
proof -
  obtain p where p: "find_passport 10 inspected_db = Some p" "p_conditionGrade p = Some Grade_B"
    using inspected_ok by blast
  have "\<forall>a \<in> set [Edit_passport 6 10 (no_fields\<lparr>pi_conditionGrade := Some Grade_A\<rparr>) 2 1, File_check 7 41 (graded Grade_A) the_hub].
      by_seller a" by (simp add: the_hub_def)
  from an_inspected_grade_stands [OF inspected_ok(1,2) p(1) this] p(2) show ?thesis by auto
qed

theorem inspection_search_is_literal_witness:
  "inspectionConditions decimal ((every_material 1 20)\<lparr>mq_q := Some ''oak''\<rparr>) Inspector None sample_db sample_passport
    \<and> \<not> inspectionConditions decimal ((every_material 1 20)\<lparr>mq_q := Some ''o%k''\<rparr>) Inspector None sample_db sample_passport"
proof
  have "contains (toLowerCase ''oak'') (toLowerCase ''Oak beam'')"
    unfolding contains_def by (rule exI [of _ "''''"], rule exI [of _ "'' beam''"]) code_simp
  then show "inspectionConditions decimal ((every_material 1 20)\<lparr>mq_q := Some ''oak''\<rparr>) Inspector None sample_db sample_passport"
    by (subst inspection_search_is_literal [of _ "''oak''"]) (simp_all add: every_material_def sample_passport_def)
  show "\<not> inspectionConditions decimal ((every_material 1 20)\<lparr>mq_q := Some ''o%k''\<rparr>) Inspector None sample_db sample_passport"
    by code_simp
qed

theorem flagging_a_report_witness:
  "\<exists>q. fst (disputeReport 40 Supplier (Some 1) inspected_db) = Inr q \<and> q_disputed q"
proof -
  obtain r db' where run: "disputeReport 40 Supplier (Some 1) inspected_db = (r, db')" by (meson surj_pair)
  have "case (find_report 40 inspected_db, map_option p_organisationId (find_passport 10 inspected_db)) of
      (Some q, Some org) \<Rightarrow> q_passportId q = 10 \<and> \<not> q_disputed q \<and> org = 1 | _ \<Rightarrow> False" by code_simp
  moreover have "distinct (map q_id (qualityReports inspected_db))" by code_simp
  ultimately show ?thesis using flagging_a_report [OF run] run by (auto split: option.splits sum.splits)
qed

end
