(* ===== verification/Marketplace_Reads.thy ===== *)
theory Marketplace_Reads
  imports Marketplace_Properties Quality_Reports
begin

text \<open>
  The reading half of \<open>marketplace.service.ts\<close>: the listing page, the search with its facets
  and statistics, a hub's own listings, and the orders of a viewer with the actions offered on
  each. Reading the orders is not a pure read: it first closes the orders whose time limits
  have passed.

  Parameters: the order and the sum of numeric texts (\<open>numeric\<close> columns, computed by the
  database), and the text of a listing's carbon saving.
\<close>

subsection \<open>One listing\<close>

record passport_brief =
  pb_productName :: string
  pb_categoryL1 :: string
  pb_categoryL2 :: "string option"
  pb_unitOfMeasure :: "string option"
  pb_conditionGrade :: "grade option"
  pb_conditionNotes :: "string option"
  pb_carbonSavingsVsNew :: "string option"
  pb_qrCodeUrl :: "string option"

record passport_card = passport_brief +
  pc_origin :: "passport_origin option"
  pc_photo :: "string option"

record organisation_card =
  oc_name :: string
  oc_slug :: string

definition passport_brief_of :: "passport \<Rightarrow> passport_brief" where
  "passport_brief_of p = \<lparr> pb_productName = p_productName p, pb_categoryL1 = p_categoryL1 p,
     pb_categoryL2 = p_categoryL2 p, pb_unitOfMeasure = p_unitOfMeasure p,
     pb_conditionGrade = p_conditionGrade p, pb_conditionNotes = p_conditionNotes p,
     pb_carbonSavingsVsNew = p_carbonSavingsVsNew p, pb_qrCodeUrl = p_qrCodeUrl p \<rparr>"

definition passport_card_of :: "passport \<Rightarrow> passport_card" where
  "passport_card_of p = \<lparr> pb_productName = p_productName p, pb_categoryL1 = p_categoryL1 p,
     pb_categoryL2 = p_categoryL2 p, pb_unitOfMeasure = p_unitOfMeasure p,
     pb_conditionGrade = p_conditionGrade p, pb_conditionNotes = p_conditionNotes p,
     pb_carbonSavingsVsNew = p_carbonSavingsVsNew p, pb_qrCodeUrl = p_qrCodeUrl p,
     pc_origin = p_origin p, pc_photo = first_photo p \<rparr>"

definition organisation_card_of :: "organisation \<Rightarrow> organisation_card" where
  "organisation_card_of g = \<lparr> oc_name = o_name g, oc_slug = o_slug g \<rparr>"

definition shown_listing :: "time \<Rightarrow> listing \<Rightarrow> listing" where
  "shown_listing now l = l\<lparr>l_status := listingStatusAt (l_status l) (l_expiresAt l) now\<rparr>"

record listing_page =
  lg_listing :: listing
  lg_orderableQuantity :: int
  lg_passport :: passport_card
  lg_organisation :: "organisation_card option"

text \<open>A listing without its passport, which a foreign key rules out, is a \<open>TypeError\<close>.\<close>

definition getListingById :: "uuid \<Rightarrow> bool \<Rightarrow> time \<Rightarrow> trace_db \<Rightarrow> listing_page outcome" where
  "getListingById listingId keepLastCuratedUnit now db =
     (case find_listing listingId db of
        None \<Rightarrow> Inl (NotFoundError R_listing (Some listingId))
      | Some l \<Rightarrow>
          case find_passport (l_passportId l) db of
            None \<Rightarrow> Inl PlainError
          | Some p \<Rightarrow> Inr \<lparr>
              lg_listing = shown_listing now l,
              lg_orderableQuantity =
                orderableQuantity (l_quantityAvailable l) (p_customAttributes p) keepLastCuratedUnit,
              lg_passport = passport_card_of p,
              lg_organisation = map_option organisation_card_of (find_organisation (l_organisationId l) db) \<rparr>)"

definition listHubListings ::
  "uuid \<Rightarrow> time \<Rightarrow> trace_db \<Rightarrow> (listing \<times> passport_brief option \<times> organisation_card option) list" where
  "listHubListings organisationId now db =
     map (\<lambda>l. (shown_listing now l, map_option passport_brief_of (find_passport (l_passportId l) db),
            map_option organisation_card_of (find_organisation (l_organisationId l) db)))
       (sort_key (\<lambda>l. - l_createdAt l) (filter (\<lambda>l. l_organisationId l = organisationId) (listings db)))"

subsection \<open>Browsing\<close>

definition browseConditions :: "bool \<Rightarrow> time \<Rightarrow> listing \<Rightarrow> passport \<Rightarrow> bool" where
  "browseConditions curatedOnly now l p \<longleftrightarrow>
     l_status l = L_active \<and> \<not> past (l_expiresAt l) now \<and> (curatedOnly \<longrightarrow> curated (p_customAttributes p))"

text \<open>The inner joins: a row is a listing with its passport (and organisation).\<close>

definition join_passports :: "trace_db \<Rightarrow> (listing \<times> passport) list" where
  "join_passports db = List.map_filter
     (\<lambda>l. map_option (Pair l) (find_passport (l_passportId l) db)) (listings db)"

definition join_organisations :: "trace_db \<Rightarrow> (listing \<times> passport \<times> organisation) list" where
  "join_organisations db = List.map_filter
     (\<lambda>(l, p). map_option (\<lambda>g. (l, p, g)) (find_organisation (l_organisationId l) db)) (join_passports db)"

datatype sort_column = By_createdAt | By_pricePence | By_carbonSavingsVsNew

record marketplace_query =
  bq_q :: "string option"
  bq_categoryL1 :: "string option"
  bq_categoryL2 :: "string option"
  bq_conditionGrade :: "grade option"
  bq_minPricePence :: "int option"
  bq_maxPricePence :: "int option"
  bq_hubSlug :: "string option"
  bq_page :: nat
  bq_limit :: nat
  bq_sortBy :: sort_column
  bq_ascending :: bool

definition MarketplaceQuerySchema :: "marketplace_query \<Rightarrow> bool" where
  "MarketplaceQuerySchema query \<longleftrightarrow>
     (case bq_minPricePence query of None \<Rightarrow> True | Some p \<Rightarrow> 0 \<le> p)
     \<and> (case bq_maxPricePence query of None \<Rightarrow> True | Some p \<Rightarrow> 0 \<le> p)
     \<and> 1 \<le> bq_page query \<and> 1 \<le> bq_limit query \<and> bq_limit query \<le> 50"

definition search_matches ::
  "marketplace_query \<Rightarrow> bool \<Rightarrow> time \<Rightarrow> listing \<times> passport \<times> organisation \<Rightarrow> bool" where
  "search_matches query curatedOnly now row =
     (let (l, p, g) = row; pattern = [percent] @ or_keep (bq_q query) '''' @ [percent] in
      browseConditions curatedOnly now l p
      \<and> (case bq_minPricePence query of None \<Rightarrow> True | Some m \<Rightarrow> m \<le> l_pricePence l)
      \<and> (case bq_maxPricePence query of None \<Rightarrow> True | Some m \<Rightarrow> l_pricePence l \<le> m)
      \<and> (text_given (bq_categoryL1 query) \<longrightarrow> bq_categoryL1 query = Some (p_categoryL1 p))
      \<and> (text_given (bq_categoryL2 query) \<longrightarrow> bq_categoryL2 query = p_categoryL2 p)
      \<and> (bq_conditionGrade query \<noteq> None \<longrightarrow> bq_conditionGrade query = p_conditionGrade p)
      \<and> (text_given (bq_hubSlug query) \<longrightarrow> bq_hubSlug query = Some (o_slug g))
      \<and> (text_given (bq_q query) \<longrightarrow>
           ilike (p_productName p) pattern \<or> ilike (p_categoryL1 p) pattern
           \<or> (case p_conditionNotes p of None \<Rightarrow> False | Some n \<Rightarrow> ilike n pattern)))"

text \<open>\<open>ORDER BY\<close> a column that may be null: nulls count as the greatest value.\<close>

definition order_rows :: "bool \<Rightarrow> ('r \<Rightarrow> int option) \<Rightarrow> 'r list \<Rightarrow> 'r list" where
  "order_rows ascending column rows =
     (let nulls = filter (\<lambda>r. column r = None) rows; rest = filter (\<lambda>r. column r \<noteq> None) rows
      in if ascending then sort_key (\<lambda>r. the (column r)) rest @ nulls
         else nulls @ sort_key (\<lambda>r. - the (column r)) rest)"

fun sort_value :: "(string \<Rightarrow> int) \<Rightarrow> sort_column \<Rightarrow> listing \<times> passport \<times> organisation \<Rightarrow> int option" where
  "sort_value numericRank By_createdAt (l, p, g) = Some (l_createdAt l)"
| "sort_value numericRank By_pricePence (l, p, g) = Some (l_pricePence l)"
| "sort_value numericRank By_carbonSavingsVsNew (l, p, g) =
     map_option numericRank (p_carbonSavingsVsNew p)"

record search_result =
  sr_data :: "(listing \<times> passport_card \<times> organisation_card) list"
  sr_total :: nat
  sr_page :: nat
  sr_limit :: nat

definition searchListings ::
  "(string \<Rightarrow> int) \<Rightarrow> marketplace_query \<Rightarrow> bool \<Rightarrow> time \<Rightarrow> trace_db \<Rightarrow> search_result" where
  "searchListings numericRank query curatedOnly now db =
     (let found = filter (search_matches query curatedOnly now) (join_organisations db);
          rows = page_of (bq_page query) (bq_limit query)
            (order_rows (bq_ascending query) (sort_value numericRank (bq_sortBy query)) found)
      in \<lparr> sr_data = map (\<lambda>(l, p, g). (l, passport_card_of p, organisation_card_of g)) rows,
           sr_total = length found, sr_page = bq_page query, sr_limit = bq_limit query \<rparr>)"

text \<open>
  \<open>roundedSum\<close> stands for the database's sum of the products in double precision and
  \<open>Math.round\<close>; a passport without a figure adds nothing.
\<close>

definition getMarketplaceStats ::
  "((string \<times> int) list \<Rightarrow> int) \<Rightarrow> bool \<Rightarrow> time \<Rightarrow> trace_db \<Rightarrow> int \<times> nat" where
  "getMarketplaceStats roundedSum curatedOnly now db =
     (let rows = filter (\<lambda>(l, p). browseConditions curatedOnly now l p) (join_passports db)
      in (roundedSum (List.map_filter
            (\<lambda>(l, p). map_option (\<lambda>s. (s, l_quantityAvailable l)) (p_carbonSavingsVsNew p)) rows),
          length rows))"

text \<open>The string sort of JavaScript, on ASCII, and the distinct values of a column.\<close>

fun insert_text :: "string \<Rightarrow> string list \<Rightarrow> string list" where
  "insert_text s [] = [s]"
| "insert_text s (x # xs) = (if codes_le s x then s # x # xs else x # insert_text s xs)"

definition sort_texts :: "string list \<Rightarrow> string list" where
  "sort_texts ss = foldr insert_text ss []"

definition getMarketplaceFacets :: "bool \<Rightarrow> time \<Rightarrow> trace_db \<Rightarrow> string list \<times> grade list" where
  "getMarketplaceFacets curatedOnly now db =
     (let rows = filter (\<lambda>(l, p). browseConditions curatedOnly now l p) (join_passports db);
          grades = remdups (List.map_filter (\<lambda>(l, p). p_conditionGrade p) rows)
      in (sort_texts (remdups (map (\<lambda>(l, p). p_categoryL1 p) rows)),
          filter (\<lambda>g. g \<in> set grades) [Grade_A, Grade_B, Grade_C, Grade_D]))"

subsection \<open>The orders of a viewer\<close>

text \<open>
  A relation \<open>with: \<open>listing\<close>\<close> yields null when the row is absent; a foreign key rules it out.
\<close>

definition seller_of :: "viewer \<Rightarrow> order \<Rightarrow> trace_db \<Rightarrow> bool" where
  "seller_of viewer t db =
     (case find_listing (t_listingId t) db of
        None \<Rightarrow> False | Some l \<Rightarrow> sellsFor viewer (t_sellerId t) (l_organisationId l))"

definition getTransactionById :: "uuid \<Rightarrow> viewer \<Rightarrow> trace_db \<Rightarrow> order outcome" where
  "getTransactionById transactionId viewer db =
     (case find_order transactionId db of
        None \<Rightarrow> Inl (NotFoundError R_order (Some transactionId))
      | Some t \<Rightarrow>
          let isParty = t_buyerId t = v_userId viewer \<or> seller_of viewer t db
          in if \<not> isParty \<and> v_role viewer \<noteq> Platform_admin
             then Inl (NotFoundError R_order (Some transactionId)) else Inr t)"

record order_step_shown =
  os_action :: event_action
  os_toStatus :: order_status
  os_actorSide :: actor_side
  os_note :: "string option"
  os_createdAt :: time

definition toStep :: "order_event \<Rightarrow> order_step_shown" where
  "toStep e = \<lparr> os_action = e_action e, os_toStatus = e_toStatus e, os_actorSide = e_actorSide e,
     os_note = e_note e, os_createdAt = e_createdAt e \<rparr>"

definition events_of :: "order \<Rightarrow> trace_db \<Rightarrow> order_event list" where
  "events_of t db = sort_key e_createdAt (filter (\<lambda>e. e_transactionId e = t_id t) (orderEvents db))"

record order_for_viewer =
  ov_order :: order
  ov_responseDeadline :: "time option"
  ov_passportId :: "uuid option"
  ov_productName :: "string option"
  ov_unitOfMeasure :: "string option"
  ov_viewerSide :: order_side
  ov_allowedActions :: "order_action list"
  ov_steps :: "order_step_shown list"
  ov_isNew :: bool
  ov_needsViewer :: bool

text \<open>The \<open>where\<close> of the list: orders placed, sold in person, or sold by the organisation.\<close>

definition mine :: "viewer \<Rightarrow> trace_db \<Rightarrow> order \<Rightarrow> bool" where
  "mine viewer db t \<longleftrightarrow>
     t_buyerId t = v_userId viewer \<or> t_sellerId t = v_userId viewer
     \<or> (v_organisationId viewer \<noteq> None \<and> v_role viewer \<in> set SELLER_ROLES
        \<and> t_listingId t \<in> l_id ` {l \<in> set (listings db). Some (l_organisationId l) = v_organisationId viewer})"

definition listing_passport :: "order \<Rightarrow> trace_db \<Rightarrow> passport option" where
  "listing_passport t db =
     (case find_listing (t_listingId t) db of None \<Rightarrow> None | Some l \<Rightarrow> find_passport (l_passportId l) db)"

definition moved_by_another :: "viewer \<Rightarrow> time option \<Rightarrow> order_event list \<Rightarrow> bool" where
  "moved_by_another viewer seenAt es =
     (es \<noteq> [] \<and> e_actorId (last es) \<noteq> Some (v_userId viewer)
      \<and> (case seenAt of None \<Rightarrow> True | Some s \<Rightarrow> s < e_createdAt (last es)))"

definition order_for :: "viewer \<Rightarrow> time option \<Rightarrow> trace_db \<Rightarrow> order \<Rightarrow> order_for_viewer" where
  "order_for viewer seenAt db t =
     (let buyer = t_buyerId t = v_userId viewer; seller = seller_of viewer t db; es = events_of t db
      in \<lparr> ov_order = t,
           ov_responseDeadline = (if t_status t = T_pending then Some (responseDeadlineOf t) else None),
           ov_passportId = map_option l_passportId (find_listing (t_listingId t) db),
           ov_productName = map_option p_productName (listing_passport t db),
           ov_unitOfMeasure = (case listing_passport t db of None \<Rightarrow> None | Some p \<Rightarrow> p_unitOfMeasure p),
           ov_viewerSide = (if buyer then Side_buyer else Side_seller),
           ov_allowedActions = allowedActions (t_status t)
             \<lparr> on_buyer = buyer, on_seller = seller, on_admin = (v_role viewer = Platform_admin) \<rparr>,
           ov_steps = map toStep es,
           ov_isNew = moved_by_another viewer seenAt es,
           ov_needsViewer = ((t_status t = T_pending \<and> seller \<and> \<not> buyer) \<or> (t_status t = T_confirmed \<and> buyer)) \<rparr>)"

definition no_sweep :: sweep_result where
  "no_sweep = \<lparr> sw_lapsed = 0, sw_completed = 0, sw_expiredListings = 0 \<rparr>"

definition listUserTransactions ::
  "viewer \<Rightarrow> time \<Rightarrow> trace_db \<Rightarrow> order_for_viewer list outcome \<times> trace_db" where
  "listUserTransactions viewer now db =
     (let overdue = map t_id (filter (\<lambda>t. mine viewer db t \<and> overdueAt now t) (transactions db)) in
      case close_all overdue now no_sweep db of
        (Inl e, db1) \<Rightarrow> (Inl e, db1)
      | (Inr _, db1) \<Rightarrow>
          let seenAt = (case find_user (v_userId viewer) db1 of None \<Rightarrow> None | Some u \<Rightarrow> u_ordersSeenAt u)
          in (Inr (map (order_for viewer seenAt db1)
                (sort_key (\<lambda>t. - t_createdAt t) (filter (mine viewer db1) (transactions db1)))), db1))"

record orders_summary =
  su_needsAction :: nat
  su_changed :: nat
  su_flagged :: nat

definition getOrdersSummary :: "viewer \<Rightarrow> time \<Rightarrow> trace_db \<Rightarrow> orders_summary outcome \<times> trace_db" where
  "getOrdersSummary viewer now db =
     (case listUserTransactions viewer now db of
        (Inl e, db1) \<Rightarrow> (Inl e, db1)
      | (Inr orders, db1) \<Rightarrow>
          (Inr \<lparr> su_needsAction = length (filter ov_needsViewer orders),
                 su_changed = length (filter ov_isNew orders),
                 su_flagged = (if v_role viewer = Platform_admin
                   then length (filter (\<lambda>t. t_status t = T_disputed) (transactions db1)) else 0) \<rparr>, db1))"

definition markOrdersSeen :: "viewer \<Rightarrow> time \<Rightarrow> trace_db \<Rightarrow> trace_db" where
  "markOrdersSeen viewer now db =
     users_update (update_rows u_id (v_userId viewer) (\<lambda>u. u\<lparr>u_ordersSeenAt := Some now\<rparr>)) db"

subsection \<open>Flagged orders\<close>

record resolution =
  re_outcome :: dispute_outcome
  re_note :: "string option"
  re_at :: time

record flagged_order =
  fo_order :: order
  fo_productName :: "string option"
  fo_passportId :: "uuid option"
  fo_unitOfMeasure :: "string option"
  fo_buyer :: "(string \<times> string) option"
  fo_sellerOrganisation :: "string option"
  fo_flaggedAt :: "time option"
  fo_reason :: "string option"
  fo_resolution :: "resolution option"
  fo_steps :: "order_step_shown list"

definition latest :: "order_action \<Rightarrow> order_event list \<Rightarrow> order_event option" where
  "latest action es = List.find (\<lambda>e. e_action e = Person action) (rev es)"

definition flagged_order_of :: "trace_db \<Rightarrow> order \<Rightarrow> flagged_order" where
  "flagged_order_of db t =
     (let es = events_of t db; flag = latest Flag_dispute es; resolved = latest Resolve_dispute es
      in \<lparr> fo_order = t,
           fo_productName = map_option p_productName (listing_passport t db),
           fo_passportId = map_option l_passportId (find_listing (t_listingId t) db),
           fo_unitOfMeasure = (case listing_passport t db of None \<Rightarrow> None | Some p \<Rightarrow> p_unitOfMeasure p),
           fo_buyer = map_option (\<lambda>u. (u_name u, u_email u)) (find_user (t_buyerId t) db),
           fo_sellerOrganisation = (case find_listing (t_listingId t) db of None \<Rightarrow> None
             | Some l \<Rightarrow> map_option o_name (find_organisation (l_organisationId l) db)),
           fo_flaggedAt = map_option e_createdAt flag,
           fo_reason = (case flag of None \<Rightarrow> None | Some e \<Rightarrow> e_note e),
           fo_resolution = map_option (\<lambda>e. \<lparr>
             re_outcome = (if e_toStatus e = T_cancelled then Cancel_order else Sale_stands),
             re_note = e_note e, re_at = e_createdAt e \<rparr>) resolved,
           fo_steps = map toStep es \<rparr>)"

definition flagged_or_resolved :: "trace_db \<Rightarrow> order \<Rightarrow> bool" where
  "flagged_or_resolved db t \<longleftrightarrow> t_status t = T_disputed
     \<or> t_id t \<in> e_transactionId ` {e \<in> set (orderEvents db). e_action e = Person Resolve_dispute}"

definition listFlaggedOrders :: "trace_db \<Rightarrow> flagged_order list" where
  "listFlaggedOrders db =
     (let orders = map (flagged_order_of db) (take 200 (sort_key (\<lambda>t. - t_createdAt t)
            (filter (flagged_or_resolved db) (transactions db))));
          waiting = sort_key (\<lambda>f. or_keep (fo_flaggedAt f) 0)
            (filter (\<lambda>f. t_status (fo_order f) = T_disputed) orders);
          resolved = sort_key (\<lambda>f. - or_keep (map_option re_at (fo_resolution f)) 0)
            (filter (\<lambda>f. t_status (fo_order f) \<noteq> T_disputed) orders)
      in waiting @ resolved)"

subsection \<open>Pages of a search\<close>

lemma concat_pages:
  assumes "length xs \<le> n * limit"
  shows "concat (map (\<lambda>k. page_of k limit xs) [1..<Suc n]) = xs"
proof -
  have "concat (map (\<lambda>k. page_of k limit xs) [1..<Suc n]) = take (n * limit) xs" for n
  proof (induction n)
    case 0
    then show ?case by simp
  next
    case (Suc n)
    have "take (n * limit) xs @ take limit (drop (n * limit) xs) = take (n * limit + limit) xs"
      by (rule take_add [symmetric])
    then show ?case using Suc by (simp add: page_of_def add.commute)
  qed
  then show ?thesis using assms by simp
qed

lemma mset_order_rows: "mset (order_rows up col rows) = mset rows"
proof -
  have "mset (filter (\<lambda>r. col r \<noteq> None) rows) + mset (filter (\<lambda>r. col r = None) rows) = mset rows"
    unfolding mset_filter using multiset_partition [of "mset rows" "\<lambda>r. col r \<noteq> None"] by simp
  then show ?thesis by (simp add: order_rows_def Let_def add.commute)
qed

lemma length_order_rows: "length (order_rows up col rows) = length rows"
  by (metis mset_order_rows size_mset)

lemma set_order_rows: "set (order_rows up col rows) = set rows"
  by (metis mset_order_rows set_mset_mset)

lemma map_filter_ids:
  assumes "\<And>x y. f x = Some y \<Longrightarrow> g y = h x" and "distinct (map h xs)"
  shows "distinct (map g (List.map_filter f xs))" and "set (map g (List.map_filter f xs)) \<subseteq> set (map h xs)"
proof -
  show sub: "set (map g (List.map_filter f xs)) \<subseteq> set (map h xs)" for xs
    using assms(1) by (induction xs) (auto simp: List.map_filter_simps split: option.splits)
  show "distinct (map g (List.map_filter f xs))"
    using assms(2)
  proof (induction xs)
    case Nil
    then show ?case by (simp add: List.map_filter_simps)
  next
    case (Cons x xs)
    then show ?case using sub [of xs] assms(1)
      by (auto simp: List.map_filter_simps split: option.splits)
  qed
qed

lemma set_map_filter: "y \<in> set (List.map_filter f xs) \<longleftrightarrow> (\<exists>x \<in> set xs. f x = Some y)"
  by (induction xs) (auto simp: List.map_filter_simps split: option.splits)

lemma join_passports_iff:
  "(l, p) \<in> set (join_passports db) \<longleftrightarrow> l \<in> set (listings db) \<and> find_passport (l_passportId l) db = Some p"
  by (auto simp: join_passports_def set_map_filter)

lemma join_organisations_iff:
  "(l, p, g) \<in> set (join_organisations db) \<longleftrightarrow> l \<in> set (listings db)
    \<and> find_passport (l_passportId l) db = Some p \<and> find_organisation (l_organisationId l) db = Some g"
  by (auto simp: join_organisations_def set_map_filter join_passports_iff split: prod.splits)

lemma joined_ids:
  assumes "keys_ok db"
  shows "distinct (map (\<lambda>r. l_id (fst r)) (join_organisations db))"
proof -
  have "distinct (map (\<lambda>r. l_id (fst r)) (join_passports db))"
    unfolding join_passports_def
    by (rule map_filter_ids(1) [where h = l_id]) (use assms in \<open>auto simp: keys_ok_def\<close>)
  then show ?thesis
    unfolding join_organisations_def
    by (rule map_filter_ids(1) [where h = "\<lambda>r. l_id (fst r)", rotated]) auto
qed

definition card_row :: "listing \<times> passport \<times> organisation \<Rightarrow> listing \<times> passport_card \<times> organisation_card" where
  "card_row = (\<lambda>(l, p, g). (l, passport_card_of p, organisation_card_of g))"

definition on_page :: "nat \<Rightarrow> marketplace_query \<Rightarrow> marketplace_query" where
  "on_page k query = query\<lparr>bq_page := k\<rparr>"

lemma search_matches_page: "search_matches (on_page k query) c now = search_matches query c now"
  by (rule ext) (simp add: search_matches_def on_page_def)

lemma concat_map_map: "concat (map (\<lambda>k. map f (g k)) ks) = map f (concat (map g ks))"
  by (induction ks) auto

lemma all_pages:
  assumes "sr_total (searchListings rank query c now db) \<le> n * bq_limit query"
  shows "concat (map (\<lambda>k. sr_data (searchListings rank (on_page k query) c now db)) [1..<Suc n])
    = map card_row (order_rows (bq_ascending query) (sort_value rank (bq_sortBy query))
        (filter (search_matches query c now) (join_organisations db)))"
proof -
  let ?xs = "order_rows (bq_ascending query) (sort_value rank (bq_sortBy query))
    (filter (search_matches query c now) (join_organisations db))"
  have "length ?xs \<le> n * bq_limit query"
    using assms by (simp add: length_order_rows searchListings_def Let_def)
  then have "concat (map (\<lambda>k. map card_row (page_of k (bq_limit query) ?xs)) [1..<Suc n]) = map card_row ?xs"
    by (simp only: concat_map_map concat_pages)
  moreover have "sr_data (searchListings rank (on_page k query) c now db)
      = map card_row (page_of k (bq_limit query) ?xs)" for k
    unfolding searchListings_def Let_def search_matches_page by (simp add: on_page_def card_row_def)
  ultimately show ?thesis by simp
qed


definition browse_all :: marketplace_query where
  "browse_all = \<lparr> bq_q = None, bq_categoryL1 = None, bq_categoryL2 = None, bq_conditionGrade = None,
     bq_minPricePence = None, bq_maxPricePence = None, bq_hubSlug = None, bq_page = 1, bq_limit = 20,
     bq_sortBy = By_createdAt, bq_ascending = False \<rparr>"


subsection \<open>The facets\<close>

lemma set_insert_text [simp]: "set (insert_text s xs) = insert s (set xs)"
  by (induction xs) auto

lemma set_sort_texts [simp]: "set (sort_texts ss) = set ss"
  by (induction ss) (auto simp: sort_texts_def)

lemma sorted_insert_text: "sorted_wrt codes_le xs \<Longrightarrow> sorted_wrt codes_le (insert_text s xs)"
proof (induction xs)
  case Nil
  then show ?case by simp
next
  case (Cons x xs)
  show ?case
  proof (cases "codes_le s x")
    case True
    then show ?thesis using Cons.prems by (auto intro: codes_le_trans)
  next
    case False
    then have "codes_le x s" using codes_le_total by blast
    then show ?thesis using False Cons by auto
  qed
qed

lemma sorted_sort_texts: "sorted_wrt codes_le (sort_texts ss)"
  by (induction ss) (simp_all add: sort_texts_def sorted_insert_text)

lemma facet_iff:
  "c \<in> set (fst (getMarketplaceFacets curatedOnly now db)) \<longleftrightarrow>
    (\<exists>l p. (l, p) \<in> set (join_passports db) \<and> browseConditions curatedOnly now l p \<and> p_categoryL1 p = c)"
  "g \<in> set (snd (getMarketplaceFacets curatedOnly now db)) \<longleftrightarrow>
    (\<exists>l p. (l, p) \<in> set (join_passports db) \<and> browseConditions curatedOnly now l p \<and> p_conditionGrade p = Some g)"
proof -
  show "c \<in> set (fst (getMarketplaceFacets curatedOnly now db)) \<longleftrightarrow>
    (\<exists>l p. (l, p) \<in> set (join_passports db) \<and> browseConditions curatedOnly now l p \<and> p_categoryL1 p = c)"
    by (auto simp: getMarketplaceFacets_def Let_def image_iff split: prod.splits)
  show "g \<in> set (snd (getMarketplaceFacets curatedOnly now db)) \<longleftrightarrow>
    (\<exists>l p. (l, p) \<in> set (join_passports db) \<and> browseConditions curatedOnly now l p \<and> p_conditionGrade p = Some g)"
    by (cases g) (auto simp: getMarketplaceFacets_def Let_def set_map_filter split: prod.splits)
qed

lemma search_total_pos:
  assumes "\<forall>l \<in> set (listings db). find_organisation (l_organisationId l) db \<noteq> None"
  shows "0 < sr_total (searchListings rank query curatedOnly now db) \<longleftrightarrow>
    (\<exists>l p g. (l, p) \<in> set (join_passports db) \<and> find_organisation (l_organisationId l) db = Some g
      \<and> search_matches query curatedOnly now (l, p, g))"
proof -
  have "0 < sr_total (searchListings rank query curatedOnly now db) \<longleftrightarrow>
      (\<exists>r \<in> set (join_organisations db). search_matches query curatedOnly now r)"
    by (auto simp: searchListings_def Let_def filter_empty_conv)
  then show ?thesis by (auto simp: join_organisations_iff join_passports_iff)
qed

text \<open>The facets are exactly the values worth filtering by: a category is among them if and
  only if the search for it finds something, and so is a grade. They come sorted.\<close>

theorem facets_are_the_searchable_values:
  assumes "\<forall>l \<in> set (listings db). find_organisation (l_organisationId l) db \<noteq> None" and "c \<noteq> ''''"
  shows "(c \<in> set (fst (getMarketplaceFacets curatedOnly now db))) =
      (0 < sr_total (searchListings rank (browse_all\<lparr>bq_categoryL1 := Some c\<rparr>) curatedOnly now db))
    \<and> (g \<in> set (snd (getMarketplaceFacets curatedOnly now db))) =
      (0 < sr_total (searchListings rank (browse_all\<lparr>bq_conditionGrade := Some g\<rparr>) curatedOnly now db))
    \<and> sorted_wrt codes_le (fst (getMarketplaceFacets curatedOnly now db))"
proof (intro conjI)
  have org: "\<exists>g. find_organisation (l_organisationId l) db = Some g"
    if "(l, p) \<in> set (join_passports db)" for l p
    using that assms(1) by (auto simp: join_passports_iff)
  show "(c \<in> set (fst (getMarketplaceFacets curatedOnly now db))) =
      (0 < sr_total (searchListings rank (browse_all\<lparr>bq_categoryL1 := Some c\<rparr>) curatedOnly now db))"
    unfolding facet_iff search_total_pos [OF assms(1)]
    using org assms(2) by (fastforce simp: search_matches_def browse_all_def text_given_def Let_def)
  show "(g \<in> set (snd (getMarketplaceFacets curatedOnly now db))) =
      (0 < sr_total (searchListings rank (browse_all\<lparr>bq_conditionGrade := Some g\<rparr>) curatedOnly now db))"
    unfolding facet_iff search_total_pos [OF assms(1)]
    using org by (fastforce simp: search_matches_def browse_all_def text_given_def Let_def)
  show "sorted_wrt codes_le (fst (getMarketplaceFacets curatedOnly now db))"
    by (simp add: getMarketplaceFacets_def Let_def sorted_sort_texts)
qed

theorem facets_are_the_searchable_values_witness:
  "''structural-timber'' \<in> set (fst (getMarketplaceFacets False 300 on_sale_db))
    \<and> sr_total (searchListings (\<lambda>s. 0) (browse_all\<lparr>bq_categoryL1 := Some ''structural-timber''\<rparr>) False 300 on_sale_db) > 0"
proof -
  have "list_all (\<lambda>l. find_organisation (l_organisationId l) on_sale_db \<noteq> None) (listings on_sale_db)"
    "''structural-timber'' \<in> set (fst (getMarketplaceFacets False 300 on_sale_db))" by code_simp+
  then show ?thesis
    using facets_are_the_searchable_values [of on_sale_db "''structural-timber''" False 300 "\<lambda>s. 0" Grade_A]
    by (simp add: list_all_iff)
qed

subsection \<open>The orders a viewer reads\<close>

lemma mine_lots:
  "map (\<lambda>l. (l_id l, l_organisationId l)) (listings db) = map (\<lambda>l. (l_id l, l_organisationId l)) (listings db')
    \<Longrightarrow> mine viewer db t = mine viewer db' t"
proof -
  assume same: "map (\<lambda>l. (l_id l, l_organisationId l)) (listings db)
    = map (\<lambda>l. (l_id l, l_organisationId l)) (listings db')"
  have key: "x \<in> l_id ` {l \<in> set (listings d). Some (l_organisationId l) = v_organisationId viewer} \<longleftrightarrow>
      (\<exists>g. (x, g) \<in> set (map (\<lambda>l. (l_id l, l_organisationId l)) (listings d)) \<and> Some g = v_organisationId viewer)"
    for x d by auto
  show "mine viewer db t = mine viewer db' t" unfolding mine_def key same ..
qed

lemma mine_iff_party:
  assumes keys: "keys_ok db" and l: "find_listing (t_listingId t) db = Some l"
  shows "mine viewer db t \<longleftrightarrow> t_buyerId t = v_userId viewer \<or> seller_of viewer t db"
proof -
  have unique: "r = l" if "r \<in> set (listings db)" "t_listingId t = l_id r" for r
    using listing_unique [OF keys that(1)] that(2) l by simp
  have lin: "l \<in> set (listings db)" "t_listingId t = l_id l" using listing_found [OF l] by simp_all
  have one: "t_listingId t \<in> l_id ` {r \<in> set (listings db). Some (l_organisationId r) = v_organisationId viewer}
      \<longleftrightarrow> Some (l_organisationId l) = v_organisationId viewer"
    unfolding image_iff mem_Collect_eq using lin unique by blast
  show ?thesis unfolding mine_def one seller_of_def l sellsFor_def by auto
qed

text \<open>What the list is, on a state that satisfies the invariant.\<close>

lemma listUserTransactions_cases:
  assumes ok: "market_ok db"
  obtains db1 seenAt where "listUserTransactions viewer now db
      = (Inr (map (order_for viewer seenAt db1)
          (sort_key (\<lambda>t. - t_createdAt t) (filter (mine viewer db1) (transactions db1)))), db1)"
    and "market_ok db1"
    and "\<And>t. t \<in> set (transactions db1) \<Longrightarrow> mine viewer db1 t \<Longrightarrow> \<not> overdueAt now t"
proof -
  let ?ids = "map t_id (filter (\<lambda>t. mine viewer db t \<and> overdueAt now t) (transactions db))"
  obtain r db1 where c: "close_all ?ids now no_sweep db = (Inr r, db1)" and ok1: "market_ok db1"
    using close_all_ok [OF ok] by blast
  have "map (\<lambda>l. (l_id l, l_organisationId l)) (listings db1) = map (\<lambda>l. (l_id l, l_organisationId l)) (listings db)"
    by (rule close_all_lots [OF _ ok c]) (simp add: settled_row_def apply_patch_def)
  then have same: "mine viewer db1 t = mine viewer db t" for t by (rule mine_lots)
  have "\<not> overdueAt now t" if "t \<in> set (transactions db1)" "mine viewer db1 t" for t
  proof
    assume "overdueAt now t"
    then have "t \<in> set (transactions db) \<and> t_id t \<notin> set ?ids"
      by (rule close_all_removes [OF ok c that(1)])
    then show False using that(2) \<open>overdueAt now t\<close> same by auto
  qed
  then show ?thesis
    using that [OF _ ok1, of "case find_user (v_userId viewer) db1 of None \<Rightarrow> None | Some u \<Rightarrow> u_ordersSeenAt u"] c
    by (simp add: listUserTransactions_def Let_def)
qed

lemma order_found: "market_ok db \<Longrightarrow> t \<in> set (transactions db) \<Longrightarrow> find_order (t_id t) db = Some t"
  by (simp add: market_ok_def keys_ok_def find_row_distinct)

text \<open>The order page shows, to anyone but a platform admin, the orders one is a party to.\<close>

lemma order_page_iff_mine:
  assumes ok: "market_ok db" and role: "v_role viewer \<noteq> Platform_admin"
  shows "t \<in> set (transactions db) \<and> mine viewer db t \<longleftrightarrow> getTransactionById (t_id t) viewer db = Inr t"
proof (cases "find_order (t_id t) db = Some t")
  case True
  have keys: "keys_ok db" using ok by (simp add: market_ok_def)
  obtain m where "find_listing (t_listingId t) db = Some m" using order_has_listing [OF ok True] by blast
  then have "mine viewer db t \<longleftrightarrow> t_buyerId t = v_userId viewer \<or> seller_of viewer t db"
    by (rule mine_iff_party [OF keys])
  then show ?thesis using True role find_row_SomeD [OF True]
    by (simp add: getTransactionById_def Let_def)
next
  case False
  then show ?thesis using order_found [OF ok]
    by (auto simp: getTransactionById_def Let_def split: option.splits if_splits)
qed

text \<open>The actions on a list entry are those that succeed, for an order in time.\<close>

lemma entry_actions:
  assumes ok: "market_ok db" and t: "t \<in> set (transactions db)" and due: "\<not> overdueAt now t"
  shows "(\<exists>t'. fst (updateTransaction (t_id t) input viewer now db) = Inr t')
    \<longleftrightarrow> ut_action input \<in> set (ov_allowedActions (order_for viewer seenAt db t))"
proof -
  obtain m where m: "find_listing (t_listingId t) db = Some m"
    using order_has_listing [OF ok order_found [OF ok t]] by blast
  have "ov_allowedActions (order_for viewer seenAt db t) = allowedActions (t_status t) (standing_of viewer t m)"
    by (simp add: order_for_def Let_def standing_of_def seller_of_def m)
  then show ?thesis
    using tx_result [OF ok order_found [OF ok t] m, of input viewer None now]
    by (auto simp: updateTransaction_in_time [OF ok order_found [OF ok t] due] split: sum.splits)
qed

lemma order_for_order [simp]: "ov_order (order_for viewer seenAt db t) = t"
  by (simp add: order_for_def Let_def)

text \<open>C11: Reading one's orders never fails on a state that satisfies the invariant. The list
  holds exactly the orders one is a party to, which are exactly those the order page shows to
  someone who is not a platform admin; none of them is past a time limit; and the actions
  listed for an order are exactly those a request on it would succeed with.\<close>

theorem listed_actions_succeed:
  assumes "market_ok db"
  shows "(case listUserTransactions viewer now db of (Inl e, db') \<Rightarrow> False
    | (Inr rows, db') \<Rightarrow> market_ok db'
        \<and> (v_role viewer = Platform_admin
            \<or> (\<forall>t. (t \<in> ov_order ` set rows) = (getTransactionById (t_id t) viewer db' = Inr t)))
        \<and> (\<forall>r \<in> set rows. \<not> overdueAt now (ov_order r)
            \<and> (\<forall>input. (\<exists>t'. fst (updateTransaction (t_id (ov_order r)) input viewer now db') = Inr t')
                = (ut_action input \<in> set (ov_allowedActions r)))))"
proof -
  obtain db1 seenAt where l: "listUserTransactions viewer now db
      = (Inr (map (order_for viewer seenAt db1)
          (sort_key (\<lambda>t. - t_createdAt t) (filter (mine viewer db1) (transactions db1)))), db1)"
    and ok: "market_ok db1"
    and due: "\<And>t. t \<in> set (transactions db1) \<Longrightarrow> mine viewer db1 t \<Longrightarrow> \<not> overdueAt now t"
    using listUserTransactions_cases [OF assms] by blast
  let ?rows = "map (order_for viewer seenAt db1)
    (sort_key (\<lambda>t. - t_createdAt t) (filter (mine viewer db1) (transactions db1)))"
  have "ov_order ` set ?rows = {t \<in> set (transactions db1). mine viewer db1 t}" by (force simp: image_iff)
  then have shown: "t \<in> ov_order ` set ?rows \<longleftrightarrow> getTransactionById (t_id t) viewer db1 = Inr t"
    if "v_role viewer \<noteq> Platform_admin" for t
    using order_page_iff_mine [OF ok that] by blast
  have "\<not> overdueAt now (ov_order r)
      \<and> (\<forall>input. (\<exists>t'. fst (updateTransaction (t_id (ov_order r)) input viewer now db1) = Inr t')
          = (ut_action input \<in> set (ov_allowedActions r)))" if r: "r \<in> set ?rows" for r
  proof -
    obtain t where t: "t \<in> set (transactions db1)" "mine viewer db1 t" "r = order_for viewer seenAt db1 t"
      using r by auto
    then show ?thesis using due [OF t(1,2)] entry_actions [OF ok t(1)] by simp
  qed
  then show ?thesis unfolding l prod.case sum.case using ok shown by blast
qed

theorem listed_actions_succeed_witness:
  "(case listUserTransactions sample_seller 300 ordered_db of (Inl e, db') \<Rightarrow> False
    | (Inr rows, db') \<Rightarrow> map ov_allowedActions rows = [[Accept, Reject, Cancel]]
        \<and> (\<exists>t'. fst (updateTransaction 30 (an_action Accept) sample_seller 300 db') = Inr t'))"
proof -
  have "(case listUserTransactions sample_seller 300 ordered_db of (Inl e, db') \<Rightarrow> False
    | (Inr rows, db') \<Rightarrow> map ov_allowedActions rows = [[Accept, Reject, Cancel]]
        \<and> map (\<lambda>r. t_id (ov_order r)) rows = [30])" by code_simp
  then obtain rows db' r where l: "listUserTransactions sample_seller 300 ordered_db = (Inr rows, db')"
    and r: "rows = [r]" "ov_allowedActions r = [Accept, Reject, Cancel]" "t_id (ov_order r) = 30"
    by (auto split: prod.splits sum.splits)
  have "\<exists>t'. fst (updateTransaction 30 (an_action Accept) sample_seller 300 db') = Inr t'"
    using listed_actions_succeed [OF ordered_db_ok, of sample_seller 300] r
    by (simp add: l an_action_def)
  then show ?thesis using l r by simp
qed

text \<open>Once a viewer has opened their orders, none of them counts as changed any more, until
  something happens to one: with no later step recorded and no time limit passed, the summary
  says nothing has changed.\<close>

theorem seen_orders_are_not_new:
  assumes "market_ok db" and "find_user (v_userId viewer) db = Some u"
    and "\<forall>e \<in> set (orderEvents db). e_createdAt e \<le> now"
    and "\<forall>t \<in> set (transactions db). \<not> overdueAt later t"
  shows "\<exists>s. getOrdersSummary viewer later (markOrdersSeen viewer now db)
    = (Inr s, markOrdersSeen viewer now db) \<and> su_changed s = 0"
proof -
  let ?db = "markOrdersSeen viewer now db"
  have frame: "transactions ?db = transactions db" "orderEvents ?db = orderEvents db" "listings ?db = listings db"
    by (simp_all add: markOrdersSeen_def)
  have none: "map t_id (filter (\<lambda>t. mine viewer ?db t \<and> overdueAt later t) (transactions ?db)) = []"
    using assms(4) by (simp add: frame filter_empty_conv)
  have seen: "find_user (v_userId viewer) ?db = Some (u\<lparr>u_ordersSeenAt := Some now\<rparr>)"
    unfolding markOrdersSeen_def by (subst user_tbl.find_after_update) (simp_all add: assms(2))
  have "\<not> moved_by_another viewer (Some now) (events_of t ?db)" for t
  proof
    assume m: "moved_by_another viewer (Some now) (events_of t ?db)"
    then have "last (events_of t ?db) \<in> set (events_of t ?db)" by (simp add: moved_by_another_def)
    then have "last (events_of t ?db) \<in> set (orderEvents db)" by (auto simp: events_of_def frame)
    then have "e_createdAt (last (events_of t ?db)) \<le> now" using assms(3) by blast
    then show False using m by (simp add: moved_by_another_def)
  qed
  then have "\<not> ov_isNew (order_for viewer (Some now) ?db t)" for t by (simp add: order_for_def Let_def)
  then show ?thesis
    unfolding getOrdersSummary_def listUserTransactions_def none Let_def close_all.simps
    by (simp add: seen filter_empty_conv)
qed

theorem seen_orders_are_not_new_witness:
  "map_prod (\<lambda>r. case r of Inl e \<Rightarrow> 0 | Inr s \<Rightarrow> su_changed s) (\<lambda>d. ())
      (getOrdersSummary sample_seller 300 ordered_db) = (1, ())
    \<and> map_prod (\<lambda>r. case r of Inl e \<Rightarrow> 1 | Inr s \<Rightarrow> su_changed s) (\<lambda>d. ())
      (getOrdersSummary sample_seller 300 (markOrdersSeen sample_seller 250 ordered_db)) = (0, ())"
proof
  show "map_prod (\<lambda>r. case r of Inl e \<Rightarrow> 0 | Inr s \<Rightarrow> su_changed s) (\<lambda>d. ())
      (getOrdersSummary sample_seller 300 ordered_db) = (1, ())" by code_simp
  have "find_user (v_userId sample_seller) ordered_db \<noteq> None" by code_simp
  then obtain u where u: "find_user (v_userId sample_seller) ordered_db = Some u" by blast
  have "list_all (\<lambda>e. e_createdAt e \<le> 250) (orderEvents ordered_db)"
    "list_all (\<lambda>t. \<not> overdueAt 300 t) (transactions ordered_db)" by code_simp+
  then show "map_prod (\<lambda>r. case r of Inl e \<Rightarrow> 1 | Inr s \<Rightarrow> su_changed s) (\<lambda>d. ())
      (getOrdersSummary sample_seller 300 (markOrdersSeen sample_seller 250 ordered_db)) = (0, ())"
    using seen_orders_are_not_new [OF ordered_db_ok u, of 250 300] by (auto simp: list_all_iff)
qed

text \<open>The platform admin's list holds every order with an open problem and every order a
  problem of which was resolved, each once (up to the 200 newest); those still waiting come
  first, the longest waiting on top.\<close>

theorem flagged_orders_wait_in_turn:
  assumes "length (filter (flagged_or_resolved db) (transactions db)) \<le> 200"
  shows "mset (map fo_order (listFlaggedOrders db)) = mset (filter (flagged_or_resolved db) (transactions db))
    \<and> (\<exists>n. list_all (\<lambda>f. t_status (fo_order f) = T_disputed) (take n (listFlaggedOrders db))
        \<and> list_all (\<lambda>f. t_status (fo_order f) \<noteq> T_disputed) (drop n (listFlaggedOrders db))
        \<and> sorted (map (\<lambda>f. or_keep (fo_flaggedAt f) 0) (take n (listFlaggedOrders db))))"
proof -
  let ?sorted = "sort_key (\<lambda>t. - t_createdAt t) (filter (flagged_or_resolved db) (transactions db))"
  let ?orders = "map (flagged_order_of db) (take 200 ?sorted)"
  let ?waits = "\<lambda>f. t_status (fo_order f) = T_disputed"
  let ?waiting = "sort_key (\<lambda>f. or_keep (fo_flaggedAt f) 0) (filter ?waits ?orders)"
  let ?resolved = "sort_key (\<lambda>f. - or_keep (map_option re_at (fo_resolution f)) 0) (filter (\<lambda>f. \<not> ?waits f) ?orders)"
  have list: "listFlaggedOrders db = ?waiting @ ?resolved" by (simp add: listFlaggedOrders_def Let_def)
  have "mset (listFlaggedOrders db) = mset ?orders"
    unfolding list mset_append mset_sort mset_filter by (rule multiset_partition [symmetric])
  then have "image_mset fo_order (mset (listFlaggedOrders db)) = image_mset fo_order (mset ?orders)" by simp
  moreover have "fo_order (flagged_order_of db t) = t" for t by (simp add: flagged_order_of_def Let_def)
  moreover have "take 200 ?sorted = ?sorted" using assms by simp
  ultimately have "mset (map fo_order (listFlaggedOrders db)) = mset (filter (flagged_or_resolved db) (transactions db))"
    by (simp add: multiset.map_comp comp_def)
  moreover have "take (length ?waiting) (listFlaggedOrders db) = ?waiting"
    "drop (length ?waiting) (listFlaggedOrders db) = ?resolved" unfolding list by simp_all
  moreover have "sorted (map (\<lambda>f. or_keep (fo_flaggedAt f) 0) ?waiting)" by (rule sorted_sort_key)
  moreover have "list_all ?waits ?waiting" "list_all (\<lambda>f. \<not> ?waits f) ?resolved"
    unfolding list_all_iff set_sort set_filter by blast+
  ultimately show ?thesis
    by (intro conjI exI [of _ "length ?waiting"]) (simp_all only:)
qed

definition flagged_db :: trace_db where
  "flagged_db = snd (updateTransaction 30 \<lparr> ut_action = Flag_dispute, ut_notes = Some ''broken'', ut_outcome = None \<rparr>
     sample_buyer 500 (snd (updateTransaction 30 (an_action Accept) sample_seller 400 ordered_db)))"

theorem flagged_orders_wait_in_turn_witness:
  "map (\<lambda>f. t_id (fo_order f)) (listFlaggedOrders flagged_db) = [30]"
proof -
  have f: "map t_id (filter (flagged_or_resolved flagged_db) (transactions flagged_db)) = [30]" by code_simp
  then have "length (filter (flagged_or_resolved flagged_db) (transactions flagged_db)) \<le> 200"
    by (metis length_map list.size(3,4) One_nat_def add_0 Suc_eq_plus1 one_le_numeral)
  then have "mset (map fo_order (listFlaggedOrders flagged_db))
      = mset (filter (flagged_or_resolved flagged_db) (transactions flagged_db))"
    using flagged_orders_wait_in_turn by blast
  then have "mset (map t_id (map fo_order (listFlaggedOrders flagged_db)))
      = mset (map t_id (filter (flagged_or_resolved flagged_db) (transactions flagged_db)))"
    by (simp only: mset_map)
  then have "mset (map (\<lambda>f. t_id (fo_order f)) (listFlaggedOrders flagged_db)) = {#30#}"
    unfolding f map_map comp_def by simp
  then show ?thesis by (simp only: mset_single_iff)
qed

end
