(* ===== verification/Access_Requests.thy ===== *)
theory Access_Requests
  imports Sign_In
begin

text \<open>
  \<open>modules/access-request/access-request.service.ts\<close> with \<open>lib/wallet.ts\<close>: a buyer asks for
  hub access, the platform edits, approves or rejects the request, an approval finds or
  creates the organisation, its slug and its custodial wallet.

  Key generation and encryption are arguments (\<open>wallet_env\<close>): the pair a fresh wallet gives
  (address, encrypted key), what a stored key decrypts to (\<open>None\<close> when decryption throws)
  and the address of a private key.
\<close>

subsection \<open>Custodial wallets (lib/wallet.ts)\<close>

record wallet_env =
  we_enabled :: bool
  we_fresh :: "string \<times> string"
  we_decrypt :: "string \<Rightarrow> string option"
  we_address :: "string \<Rightarrow> string"

definition truthy :: "string option \<Rightarrow> bool" where
  "truthy s \<longleftrightarrow> s \<noteq> None \<and> s \<noteq> Some []"

definition claimOrganisationWallet ::
  "uuid \<Rightarrow> string \<times> string \<Rightarrow> time \<Rightarrow> trace_db \<Rightarrow> bool \<times> trace_db" where
  "claimOrganisationWallet organisationId wallet now db =
     (case find_organisation organisationId db of
        None \<Rightarrow> (False, db)
      | Some org \<Rightarrow>
          if o_blockchainPrivateKeyEnc org \<noteq> None then (False, db)
          else
            let db1 = organisations_update (update_rows o_id organisationId
                  (\<lambda>r. r\<lparr> o_blockchainAddress := Some (fst wallet),
                            o_blockchainPrivateKeyEnc := Some (snd wallet), o_updatedAt := now \<rparr>)) db;
                db2 = users_update (map (\<lambda>u. if u_organisationId u = Some organisationId
                  then u\<lparr>u_blockchainAddress := Some (fst wallet)\<rparr> else u)) db1
            in (True, db2))"

text \<open>
  A caller that loses the claim starts over. The first argument bounds the attempts
  (\<open>None\<close> when they run out); one is enough unless a stored key is the empty text, which
  no code writes (\<open>ensure_returns\<close>).
\<close>

fun ensureOrganisationWallet ::
  "nat \<Rightarrow> wallet_env \<Rightarrow> uuid \<Rightarrow> time \<Rightarrow> trace_db \<Rightarrow> (string outcome \<times> trace_db) option" where
  "ensureOrganisationWallet 0 env organisationId now db = None"
| "ensureOrganisationWallet (Suc n) env organisationId now db =
     (case find_organisation organisationId db of
        None \<Rightarrow> Some (Inl PlainError, db)
      | Some org \<Rightarrow>
          if truthy (o_blockchainPrivateKeyEnc org) then
            (case we_decrypt env (or_keep (o_blockchainPrivateKeyEnc org) '''') of
               None \<Rightarrow> Some (Inl PlainError, db)
             | Some privateKey \<Rightarrow>
                 let address = or_keep (o_blockchainAddress org) (we_address env privateKey)
                 in if \<not> truthy (o_blockchainAddress org)
                    then Some (Inr address, organisations_update (update_rows o_id organisationId
                           (\<lambda>r. r\<lparr> o_blockchainAddress := Some address, o_updatedAt := now \<rparr>)) db)
                    else Some (Inr address, db))
          else
            (case claimOrganisationWallet organisationId (we_fresh env) now db of
               (True, db1) \<Rightarrow> Some (Inr (fst (we_fresh env)), db1)
             | (False, db1) \<Rightarrow> ensureOrganisationWallet n env organisationId now db1))"

text \<open>\<open>maybeEnsureOrganisationWallet(id).catch(() => null)\<close>: its effect; failures are ignored.\<close>

definition maybeEnsureOrganisationWallet :: "wallet_env \<Rightarrow> uuid \<Rightarrow> time \<Rightarrow> trace_db \<Rightarrow> trace_db" where
  "maybeEnsureOrganisationWallet env organisationId now db =
     (if \<not> we_enabled env then db
      else case ensureOrganisationWallet 2 env organisationId now db of
             None \<Rightarrow> db | Some (_, db1) \<Rightarrow> db1)"

subsection \<open>Slugs\<close>

text \<open>The three replacements of \<open>slugifyOrganisationName\<close>.\<close>

fun dash_runs :: "bool \<Rightarrow> string \<Rightarrow> string" where
  "dash_runs in_run [] = []"
| "dash_runs in_run (c # cs) =
     (if slug_letter c then c # dash_runs False cs
      else if in_run then dash_runs True cs else hyphen # dash_runs True cs)"

definition strip_hyphens :: "string \<Rightarrow> string" where
  "strip_hyphens s = rev (dropWhile (\<lambda>c. c = hyphen) (rev (dropWhile (\<lambda>c. c = hyphen) s)))"

fun squeeze_hyphens :: "string \<Rightarrow> string" where
  "squeeze_hyphens (c # d # cs) =
     (if c = hyphen \<and> d = hyphen then squeeze_hyphens (d # cs) else c # squeeze_hyphens (d # cs))"
| "squeeze_hyphens cs = cs"

definition slugifyOrganisationName :: "string \<Rightarrow> string" where
  "slugifyOrganisationName s =
     (let slug = take 63 (squeeze_hyphens (strip_hyphens (dash_runs False (toLowerCase (trim s)))))
      in if slug = [] then ''organisation'' else slug)"

definition suffixed :: "string \<Rightarrow> nat \<Rightarrow> string" where
  "suffixed baseSlug suffix =
     take (max 1 (63 - length (decimal suffix) - 1)) baseSlug @ hyphen # decimal suffix"

text \<open>The loop that looks for a slug no organisation has.\<close>

partial_function (option) free_slug :: "string list \<Rightarrow> string \<Rightarrow> string \<Rightarrow> nat \<Rightarrow> string option" where
  "free_slug taken baseSlug slug suffix =
     (if slug \<notin> set taken then Some slug
      else free_slug taken baseSlug (suffixed baseSlug suffix) (suffix + 1))"

declare free_slug.simps [code]

subsection \<open>Finding or creating the organisation\<close>

record organisation_input =
  oi_organisationId :: "uuid option"
  oi_organisationName :: "string option"

definition new_organisation :: "uuid \<Rightarrow> string \<Rightarrow> string \<Rightarrow> time \<Rightarrow> organisation" where
  "new_organisation newId name slug now =
     \<lparr> o_id = newId, o_name = name, o_type = Hub, o_slug = slug, o_branding = JObj [],
       o_verified = False, o_blockchainAddress = None, o_blockchainPrivateKeyEnc = None,
       o_createdAt = now, o_updatedAt = now \<rparr>"

definition insert_organisation :: "organisation \<Rightarrow> trace_db \<Rightarrow> (organisation \<times> trace_db) outcome" where
  "insert_organisation org db =
     (if find_organisation (o_id org) db \<noteq> None \<or> o_slug org \<in> o_slug ` set (organisations db)
      then Inl DbError
      else Inr (org, organisations_update (insert_row org) db))"

text \<open>\<open>input.organisationName?.trim() || fallbackName?.trim()\<close>, empty when there is none.\<close>

definition requested_name :: "organisation_input \<Rightarrow> string option \<Rightarrow> string" where
  "requested_name input fallbackName =
     (let given = trim (or_keep (oi_organisationName input) '''')
      in if given \<noteq> [] then given else trim (or_keep fallbackName ''''))"

definition resolveOrganisationForApproval ::
  "wallet_env \<Rightarrow> organisation_input \<Rightarrow> string option \<Rightarrow> uuid \<Rightarrow> time \<Rightarrow> trace_db
    \<Rightarrow> (organisation \<times> trace_db) outcome" where
  "resolveOrganisationForApproval env input fallbackName newId now db =
     (case oi_organisationId input of
        Some i \<Rightarrow>
          (case find_organisation i db of
             None \<Rightarrow> Inl (NotFoundError R_organisation (Some i))
           | Some org \<Rightarrow> Inr (org, maybeEnsureOrganisationWallet env (o_id org) now db))
      | None \<Rightarrow>
          let name = requested_name input fallbackName
          in if name = [] then Inl (NotFoundError R_organisation None)
             else case find_row o_name name (organisations db) of
               Some org \<Rightarrow> Inr (org, maybeEnsureOrganisationWallet env (o_id org) now db)
             | None \<Rightarrow>
                 let baseSlug = slugifyOrganisationName name
                 in case free_slug (map o_slug (organisations db)) baseSlug baseSlug 2 of
                      None \<Rightarrow> Inl PlainError
                    | Some slug \<Rightarrow>
                        case insert_organisation (new_organisation newId name slug now) db of
                          Inl e \<Rightarrow> Inl e
                        | Inr (org, db1) \<Rightarrow> Inr (org, maybeEnsureOrganisationWallet env (o_id org) now db1))"

subsection \<open>Requests\<close>

record create_request_input =
  cr_requestedRole :: user_role
  cr_organisationName :: string
  cr_notes :: "string option"

definition AccessRequestRole :: "user_role \<Rightarrow> bool" where
  "AccessRequestRole r \<longleftrightarrow> r \<in> {Hub_staff, Hub_admin}"

definition ApprovedAccessRole :: "user_role \<Rightarrow> bool" where
  "ApprovedAccessRole r \<longleftrightarrow> r \<in> {Buyer, Hub_staff, Hub_admin}"

definition short :: "nat \<Rightarrow> string option \<Rightarrow> bool" where
  "short n s \<longleftrightarrow> (case s of None \<Rightarrow> True | Some t \<Rightarrow> length t \<le> n)"

definition CreateAccessRequestSchema :: "create_request_input \<Rightarrow> bool" where
  "CreateAccessRequestSchema i \<longleftrightarrow> AccessRequestRole (cr_requestedRole i)
     \<and> 1 \<le> length (cr_organisationName i) \<and> length (cr_organisationName i) \<le> 255 \<and> short 1000 (cr_notes i)"

definition new_request :: "uuid \<Rightarrow> uuid \<Rightarrow> create_request_input \<Rightarrow> time \<Rightarrow> access_request" where
  "new_request newId userId input now =
     \<lparr> a_id = newId, a_userId = userId, a_requestedRole = cr_requestedRole input,
       a_organisationName = Some (cr_organisationName input), a_targetOrganisationId = None,
       a_notes = cr_notes input, a_reviewNotes = None, a_status = A_pending,
       a_reviewedBy = None, a_reviewedAt = None, a_createdAt = now, a_updatedAt = now \<rparr>"

definition pending_of :: "uuid \<Rightarrow> trace_db \<Rightarrow> access_request option" where
  "pending_of userId db =
     List.find (\<lambda>r. a_userId r = userId \<and> a_status r = A_pending) (betaAccessRequests db)"

definition insert_request :: "access_request \<Rightarrow> trace_db \<Rightarrow> (access_request \<times> trace_db) outcome" where
  "insert_request r db =
     (if find_request (a_id r) db \<noteq> None then Inl DbError
      else Inr (r, betaAccessRequests_update (insert_row r) db))"

definition submitAccessRequest ::
  "uuid \<Rightarrow> user_role \<Rightarrow> create_request_input \<Rightarrow> uuid \<Rightarrow> time \<Rightarrow> trace_db
    \<Rightarrow> (access_request \<times> trace_db) outcome" where
  "submitAccessRequest userId userRole input newId now db =
     (if userRole \<noteq> Buyer then Inl (ForbiddenError Only_buyers_request)
      else case pending_of userId db of
             Some r \<Rightarrow> Inl (ConflictError Pending_request_exists)
           | None \<Rightarrow> insert_request (new_request newId userId input now) db)"

record update_pending_input = create_request_input +
  up_reviewNotes :: "string option"

definition update_request :: "uuid \<Rightarrow> (access_request \<Rightarrow> access_request) \<Rightarrow> trace_db \<Rightarrow> trace_db" where
  "update_request i f db = betaAccessRequests_update (update_rows a_id i f) db"

definition updatePendingAccessRequest ::
  "uuid \<Rightarrow> update_pending_input \<Rightarrow> time \<Rightarrow> trace_db \<Rightarrow> (access_request \<times> trace_db) outcome" where
  "updatePendingAccessRequest requestId input now db =
     (case find_request requestId db of
        None \<Rightarrow> Inl (NotFoundError R_access_request (Some requestId))
      | Some r \<Rightarrow>
          if a_status r \<noteq> A_pending then Inl (ConflictError Only_pending_edited)
          else
            let f = (\<lambda>r. r\<lparr> a_requestedRole := cr_requestedRole input,
                   a_organisationName := Some (cr_organisationName input), a_notes := cr_notes input,
                   a_reviewNotes := up_reviewNotes input, a_updatedAt := now \<rparr>)
            in Inr (f r, update_request requestId f db))"

record approve_input = organisation_input +
  ap_role :: user_role
  ap_reviewNotes :: "string option"

definition names_organisation :: "approve_input \<Rightarrow> bool" where
  "names_organisation i \<longleftrightarrow> oi_organisationId i \<noteq> None \<or> truthy (oi_organisationName i)"

definition ApproveAccessRequestSchema :: "approve_input \<Rightarrow> bool" where
  "ApproveAccessRequestSchema i \<longleftrightarrow> AccessRequestRole (ap_role i)
     \<and> (case oi_organisationName i of None \<Rightarrow> True | Some n \<Rightarrow> 1 \<le> length n \<and> length n \<le> 255)
     \<and> short 1000 (ap_reviewNotes i) \<and> names_organisation i"

definition UpdateApprovedUserAccessSchema :: "approve_input \<Rightarrow> bool" where
  "UpdateApprovedUserAccessSchema i \<longleftrightarrow> ApprovedAccessRole (ap_role i)
     \<and> (case oi_organisationName i of None \<Rightarrow> True | Some n \<Rightarrow> 1 \<le> length n \<and> length n \<le> 255)
     \<and> short 1000 (ap_reviewNotes i) \<and> (ap_role i = Buyer \<or> names_organisation i)"

definition set_user_access :: "uuid \<Rightarrow> user_role \<Rightarrow> uuid option \<Rightarrow> trace_db \<Rightarrow> trace_db" where
  "set_user_access userId role org db =
     users_update (update_rows u_id userId (\<lambda>u. u\<lparr> u_role := role, u_organisationId := org \<rparr>)) db"

definition approved_row :: "approve_input \<Rightarrow> uuid \<Rightarrow> uuid \<Rightarrow> time \<Rightarrow> access_request \<Rightarrow> access_request" where
  "approved_row input reviewerId org now r = r\<lparr> a_status := A_approved, a_reviewedBy := Some reviewerId,
     a_reviewedAt := Some now, a_targetOrganisationId := Some org,
     a_reviewNotes := ap_reviewNotes input, a_updatedAt := now \<rparr>"

definition approveAccessRequest ::
  "wallet_env \<Rightarrow> uuid \<Rightarrow> uuid \<Rightarrow> approve_input \<Rightarrow> uuid \<Rightarrow> time \<Rightarrow> trace_db
    \<Rightarrow> (access_request \<times> trace_db) outcome" where
  "approveAccessRequest env requestId reviewerId input newId now db =
     (case find_request requestId db of
        None \<Rightarrow> Inl (NotFoundError R_access_request (Some requestId))
      | Some r \<Rightarrow>
          if a_status r \<noteq> A_pending then Inl (ConflictError Only_pending_approved)
          else case resolveOrganisationForApproval env (organisation_input.truncate input)
                      (a_organisationName r) newId now db of
                 Inl e \<Rightarrow> Inl e
               | Inr (org, db1) \<Rightarrow>
                   let f = approved_row input reviewerId (o_id org) now;
                       db2 = set_user_access (a_userId r) (ap_role input) (Some (o_id org)) db1
                   in Inr (f r, update_request requestId f db2))"

definition reviewed_row :: "approve_input \<Rightarrow> uuid \<Rightarrow> uuid option \<Rightarrow> time \<Rightarrow> access_request \<Rightarrow> access_request" where
  "reviewed_row input reviewerId org now r = r\<lparr> a_targetOrganisationId := org,
     a_reviewNotes := (case ap_reviewNotes input of None \<Rightarrow> a_reviewNotes r | Some n \<Rightarrow> Some n),
     a_reviewedBy := Some reviewerId, a_reviewedAt := Some now, a_updatedAt := now \<rparr>"

definition updateApprovedUserAccess ::
  "wallet_env \<Rightarrow> uuid \<Rightarrow> uuid \<Rightarrow> approve_input \<Rightarrow> uuid \<Rightarrow> time \<Rightarrow> trace_db
    \<Rightarrow> (access_request \<times> trace_db) outcome" where
  "updateApprovedUserAccess env requestId reviewerId input newId now db =
     (case find_request requestId db of
        None \<Rightarrow> Inl (NotFoundError R_access_request (Some requestId))
      | Some r \<Rightarrow>
          if a_status r \<noteq> A_approved then Inl (ConflictError Only_approved_updated)
          else
            let resolved = (if ap_role input = Buyer then Inr (None, db)
                  else case resolveOrganisationForApproval env (organisation_input.truncate input)
                              (a_organisationName r) newId now db of
                         Inl e \<Rightarrow> Inl e | Inr (org, db1) \<Rightarrow> Inr (Some (o_id org), db1))
            in case resolved of
                 Inl e \<Rightarrow> Inl e
               | Inr (org, db1) \<Rightarrow>
                   let f = reviewed_row input reviewerId org now
                   in Inr (f r, update_request requestId f
                        (set_user_access (a_userId r) (ap_role input) org db1)))"

definition updateAccessRequestOrganisation ::
  "uuid \<Rightarrow> string \<Rightarrow> bool \<Rightarrow> time \<Rightarrow> trace_db \<Rightarrow> (organisation \<times> trace_db) outcome" where
  "updateAccessRequestOrganisation organisationId name verified now db =
     (case find_organisation organisationId db of
        None \<Rightarrow> Inl (NotFoundError R_organisation (Some organisationId))
      | Some org \<Rightarrow>
          let f = (\<lambda>r. r\<lparr> o_name := name, o_verified := verified, o_updatedAt := now \<rparr>)
          in Inr (f org, organisations_update (update_rows o_id organisationId f) db))"

definition rejected_row :: "uuid \<Rightarrow> string option \<Rightarrow> time \<Rightarrow> access_request \<Rightarrow> access_request" where
  "rejected_row reviewerId notes now r = r\<lparr> a_status := A_rejected, a_reviewedBy := Some reviewerId,
     a_reviewedAt := Some now, a_reviewNotes := notes, a_updatedAt := now \<rparr>"

definition rejectAccessRequest ::
  "uuid \<Rightarrow> uuid \<Rightarrow> string option \<Rightarrow> time \<Rightarrow> trace_db \<Rightarrow> (access_request \<times> trace_db) outcome" where
  "rejectAccessRequest requestId reviewerId reviewNotes now db =
     (case find_request requestId db of
        None \<Rightarrow> Inl (NotFoundError R_access_request (Some requestId))
      | Some r \<Rightarrow>
          if a_status r \<noteq> A_pending then Inl (ConflictError Only_pending_rejected)
          else Inr (rejected_row reviewerId reviewNotes now r,
                    update_request requestId (rejected_row reviewerId reviewNotes now) db))"

subsection \<open>Slugs are well formed\<close>

definition slug_ok :: "string \<Rightarrow> bool" where
  "slug_ok s \<longleftrightarrow> s \<noteq> [] \<and> list_all slug_char s \<and> length s \<le> 63 \<and> hd s \<noteq> hyphen"

lemma dash_runs_chars: "list_all slug_char (dash_runs b s)"
  by (induction b s rule: dash_runs.induct) (auto simp: slug_char_def)

lemma strip_prefix: "\<exists>zs. strip_hyphens s @ zs = dropWhile (\<lambda>c. c = hyphen) s"
  unfolding strip_hyphens_def by (metis rev_append rev_rev_ident takeWhile_dropWhile_id)

lemma strip_set: "set (strip_hyphens s) \<subseteq> set s"
  using strip_prefix [of s] set_dropWhileD [of _ "\<lambda>c. c = hyphen" s] by (metis Un_iff set_append subsetI)

lemma strip_hd:
  assumes ne: "strip_hyphens s \<noteq> []"
  shows "hd (strip_hyphens s) \<noteq> hyphen"
proof -
  let ?t = "dropWhile (\<lambda>c. c = hyphen) s"
  obtain zs where zs: "strip_hyphens s @ zs = ?t" using strip_prefix by blast
  then have "hd ?t = hd (strip_hyphens s)" using ne by (metis hd_append2)
  moreover have "?t \<noteq> []" using zs ne by (metis append_is_Nil_conv)
  ultimately show ?thesis using hd_dropWhile [of "\<lambda>c. c = hyphen" s] by simp
qed

lemma squeeze_set: "set (squeeze_hyphens s) \<subseteq> set s"
  by (induction s rule: squeeze_hyphens.induct) auto

lemma squeeze_hd: "s \<noteq> [] \<Longrightarrow> squeeze_hyphens s \<noteq> [] \<and> hd (squeeze_hyphens s) = hd s"
  by (induction s rule: squeeze_hyphens.induct) auto

lemma slugify_ok: "slug_ok (slugifyOrganisationName s)"
proof -
  let ?d = "dash_runs False (toLowerCase (trim s))"
  let ?q = "squeeze_hyphens (strip_hyphens ?d)"
  have "set ?q \<subseteq> set ?d" using squeeze_set strip_set by blast
  then have chars: "list_all slug_char ?q"
    using dash_runs_chars [of False "toLowerCase (trim s)"] by (auto simp: list_all_iff)
  have hd: "?q \<noteq> [] \<Longrightarrow> hd ?q \<noteq> hyphen"
    using squeeze_hd [of "strip_hyphens ?d"] strip_hd [of ?d] by (cases "strip_hyphens ?d") auto
  have default: "slug_ok ''organisation''" by code_simp
  show ?thesis
  proof (cases "take 63 ?q = []")
    case True
    then show ?thesis using default by (simp add: slugifyOrganisationName_def Let_def)
  next
    case False
    then have "hd (take 63 ?q) = hd ?q" by (cases ?q) auto
    then have "slug_ok (take 63 ?q)"
      using False chars hd by (auto simp: slug_ok_def list_all_iff dest: in_set_takeD)
    then show ?thesis using False by (simp add: slugifyOrganisationName_def Let_def)
  qed
qed

lemma suffixed_inj: "suffixed b m = suffixed b n \<Longrightarrow> m = n"
  by (auto simp: suffixed_def dest: numbered_inj)

lemma suffixed_ok:
  assumes "slug_ok b" and "n < 10 ^ 60"
  shows "slug_ok (suffixed b n)"
proof -
  let ?k = "max 1 (63 - length (decimal n) - 1)"
  have len: "length (decimal n) \<le> 60" using decimal_length [OF assms(2)] by simp
  obtain c cs where b: "b = c # cs" using assms(1) by (cases b) (auto simp: slug_ok_def)
  have "list_all slug_char (take ?k b)" using assms(1) by (auto simp: slug_ok_def list_all_iff dest: in_set_takeD)
  moreover have "list_all slug_char (hyphen # decimal n)"
    using decimal_digits by (auto simp: list_all_iff slug_char_def)
  moreover have "length (suffixed b n) \<le> 63" using len by (auto simp: suffixed_def)
  moreover have "hd (suffixed b n) = c" "suffixed b n \<noteq> []" using b by (auto simp: suffixed_def hd_append take_Cons')
  ultimately show ?thesis using assms(1) b by (simp add: slug_ok_def suffixed_def)
qed

subsection \<open>The search for a slug ends\<close>

definition clashes :: "string list \<Rightarrow> string \<Rightarrow> nat \<Rightarrow> nat set" where
  "clashes taken b n = {m. n \<le> m \<and> suffixed b m \<in> set taken}"

lemma clashes_finite: "finite (clashes taken b n)"
proof (rule finite_imageD)
  show "finite (suffixed b ` clashes taken b n)"
    by (rule finite_subset [of _ "set taken"]) (auto simp: clashes_def)
  show "inj_on (suffixed b) (clashes taken b n)" by (auto intro: inj_onI suffixed_inj)
qed

lemma clashes_card: "card (clashes taken b n) \<le> length taken"
proof -
  have "card (clashes taken b n) = card (suffixed b ` clashes taken b n)"
    by (rule card_image [symmetric]) (auto intro: inj_onI suffixed_inj)
  also have "\<dots> \<le> card (set taken)" by (rule card_mono) (auto simp: clashes_def)
  also have "\<dots> \<le> length taken" by (rule card_length)
  finally show ?thesis .
qed

lemma clashes_step: "suffixed b n \<in> set taken \<Longrightarrow> card (clashes taken b n) = Suc (card (clashes taken b (Suc n)))"
proof -
  assume "suffixed b n \<in> set taken"
  then have "clashes taken b n = insert n (clashes taken b (Suc n))"
    by (auto simp: clashes_def Suc_le_eq nat_less_le)
  then show ?thesis using clashes_finite by (simp add: clashes_def)
qed

lemma free_slug_found:
  assumes "card (clashes taken b n) = k"
  shows "\<exists>s. free_slug taken b slug n = Some s \<and> s \<notin> set taken
    \<and> (s = slug \<or> (\<exists>m. n \<le> m \<and> m \<le> n + k \<and> s = suffixed b m))"
  using assms
proof (induction k arbitrary: n slug)
  case 0
  have "clashes taken b n = {}" using 0 clashes_finite [of taken b n] by simp
  then have free: "suffixed b n \<notin> set taken" by (auto simp: clashes_def)
  show ?case
  proof (cases "slug \<in> set taken")
    case True
    have "free_slug taken b slug n = Some (suffixed b n)"
      using True free by (subst free_slug.simps, simp, subst free_slug.simps) simp
    then show ?thesis using free by auto
  next
    case False
    then show ?thesis by (subst free_slug.simps) simp
  qed
next
  case (Suc k)
  show ?case
  proof (cases "slug \<in> set taken")
    case False
    then show ?thesis by (subst free_slug.simps) simp
  next
    case slug: True
    then have step: "free_slug taken b slug n = free_slug taken b (suffixed b n) (n + 1)"
      by (subst free_slug.simps) simp
    show ?thesis
    proof (cases "suffixed b n \<in> set taken")
      case True
      then have "card (clashes taken b (n + 1)) = k" using clashes_step [OF True] Suc.prems by simp
      then obtain s where s: "free_slug taken b (suffixed b n) (n + 1) = Some s" "s \<notin> set taken"
        "s = suffixed b n \<or> (\<exists>m. n + 1 \<le> m \<and> m \<le> n + 1 + k \<and> s = suffixed b m)"
        using Suc.IH by blast
      then have "\<exists>m. n \<le> m \<and> m \<le> n + Suc k \<and> s = suffixed b m"
        by (metis add.assoc add_leD1 le_add1 le_refl plus_1_eq_Suc)
      then show ?thesis using s step by auto
    next
      case False
      then have "free_slug taken b slug n = Some (suffixed b n)"
        using step by (subst (asm) (2) free_slug.simps) simp
      then show ?thesis using False by auto
    qed
  qed
qed

lemma slug_found:
  assumes "length taken < 10 ^ 59"
  obtains s where "free_slug taken (slugifyOrganisationName name) (slugifyOrganisationName name) 2 = Some s"
    and "s \<notin> set taken" and "slug_ok s"
proof -
  let ?b = "slugifyOrganisationName name"
  obtain s where s: "free_slug taken ?b ?b 2 = Some s" "s \<notin> set taken"
    "s = ?b \<or> (\<exists>m. 2 \<le> m \<and> m \<le> 2 + card (clashes taken ?b 2) \<and> s = suffixed ?b m)"
    using free_slug_found [OF refl] by blast
  have "m < 10 ^ 60" if "m \<le> 2 + card (clashes taken ?b 2)" for m
    using that clashes_card [of taken ?b 2] assms by simp
  then have "slug_ok s" using s(3) suffixed_ok [OF slugify_ok [of name]] slugify_ok [of name] by blast
  then show ?thesis using that s by blast
qed

subsection \<open>The invariant of accounts, organisations and requests\<close>

text \<open>
  What the invariant looks at: who each user is and what they may do, the ids and slugs of
  the organisations, and the requests. Wallets and the sign-in counters are outside it.
\<close>

definition who :: "user \<Rightarrow> uuid \<times> string \<times> user_role \<times> uuid option" where
  "who u = (u_id u, u_email u, u_role u, u_organisationId u)"

definition staffed :: "uuid list \<Rightarrow> uuid \<times> string \<times> user_role \<times> uuid option \<Rightarrow> bool" where
  "staffed orgs w = (case w of (i, e, r, org) \<Rightarrow>
     r \<in> {Hub_staff, Hub_admin} \<longrightarrow> (case org of None \<Rightarrow> False | Some j \<Rightarrow> j \<in> set orgs))"

definition one_pending :: "access_request list \<Rightarrow> bool" where
  "one_pending rs \<longleftrightarrow> distinct (map a_userId (filter (\<lambda>r. a_status r = A_pending) rs))"

definition access_ok :: "trace_db \<Rightarrow> bool" where
  "access_ok db \<longleftrightarrow>
     distinct (map (fst \<circ> who) (users db)) \<and> distinct (map (fst \<circ> snd \<circ> who) (users db))
     \<and> list_all (staffed (map o_id (organisations db))) (map who (users db))
     \<and> distinct (map o_id (organisations db)) \<and> distinct (map o_slug (organisations db))
     \<and> distinct (map a_id (betaAccessRequests db)) \<and> one_pending (betaAccessRequests db)"

definition same_market :: "trace_db \<Rightarrow> trace_db \<Rightarrow> bool" where
  "same_market db db' \<longleftrightarrow> listings db' = listings db \<and> transactions db' = transactions db
     \<and> materialPassports db' = materialPassports db \<and> orderEvents db' = orderEvents db"

lemma same_market_refl [simp]: "same_market db db" by (simp add: same_market_def)

lemma same_market_trans: "same_market a b \<Longrightarrow> same_market b c \<Longrightarrow> same_market a c"
  by (simp add: same_market_def)

lemma access_ok_users: "access_ok db \<Longrightarrow> users_ok db"
  by (simp add: access_ok_def users_ok_def who_def comp_def)

text \<open>Two states that agree on what the invariant looks at.\<close>

definition same_access :: "trace_db \<Rightarrow> trace_db \<Rightarrow> bool" where
  "same_access db db' \<longleftrightarrow> map who (users db') = map who (users db)
     \<and> map o_id (organisations db') = map o_id (organisations db)
     \<and> map o_slug (organisations db') = map o_slug (organisations db)
     \<and> betaAccessRequests db' = betaAccessRequests db"

lemma same_access_refl [simp]: "same_access db db" by (simp add: same_access_def)

lemma same_access_trans: "same_access a b \<Longrightarrow> same_access b c \<Longrightarrow> same_access a c"
  by (simp add: same_access_def)

lemma same_access_ok: "same_access db db' \<Longrightarrow> access_ok db \<Longrightarrow> access_ok db'"
  unfolding access_ok_def same_access_def by (metis map_map)

subsection \<open>Wallets leave it alone\<close>

lemma who_wallet: "who (if c then u\<lparr>u_blockchainAddress := a\<rparr> else u) = who u"
  by (simp add: who_def)

lemma claim_frame: "same_access db (snd (claimOrganisationWallet i w now db))
    \<and> same_market db (snd (claimOrganisationWallet i w now db))"
proof (cases "find_organisation i db")
  case None
  then show ?thesis by (simp add: claimOrganisationWallet_def)
next
  case (Some org)
  then show ?thesis
    by (simp add: claimOrganisationWallet_def Let_def same_access_def same_market_def who_wallet
        map_update_rows comp_def)
qed

lemma address_frame:
  "same_access db (organisations_update (update_rows o_id i
      (\<lambda>r. r\<lparr> o_blockchainAddress := a, o_updatedAt := now \<rparr>)) db)
    \<and> same_market db (organisations_update (update_rows o_id i
      (\<lambda>r. r\<lparr> o_blockchainAddress := a, o_updatedAt := now \<rparr>)) db)"
  by (simp add: same_access_def same_market_def map_update_rows)

lemma ensure_frame:
  "ensureOrganisationWallet n env i now db = Some (r, db') \<Longrightarrow> same_access db db' \<and> same_market db db'"
proof (induction n arbitrary: db)
  case 0
  then show ?case by simp
next
  case (Suc n)
  obtain b db1 where c: "claimOrganisationWallet i (we_fresh env) now db = (b, db1)" by force
  have frame: "same_access db db1 \<and> same_market db db1" using claim_frame [of db i "we_fresh env" now] c by simp
  show ?case
    using Suc.prems frame Suc.IH [of db1] address_frame [where db = db and i = i and now = now] c
    by (auto simp: Let_def same_access_def same_market_def split: option.splits if_splits bool.splits)
qed

lemma wallet_frame: "same_access db (maybeEnsureOrganisationWallet env i now db)
    \<and> same_market db (maybeEnsureOrganisationWallet env i now db)"
  using ensure_frame [of 2 env i now db]
  by (auto simp: maybeEnsureOrganisationWallet_def split: option.splits)

text \<open>One attempt at the wallet is enough, unless the stored key is the empty text; and a
  wallet once claimed is never replaced.\<close>

lemma ensure_returns:
  assumes "\<forall>org \<in> set (organisations db). o_blockchainPrivateKeyEnc org \<noteq> Some []"
  shows "ensureOrganisationWallet (Suc n) env i now db \<noteq> None"
proof (cases "find_organisation i db")
  case None
  then show ?thesis by simp
next
  case (Some org)
  then have "o_blockchainPrivateKeyEnc org \<noteq> Some []" using assms find_row_SomeD [OF Some] by blast
  then show ?thesis using Some
    by (auto simp: truthy_def claimOrganisationWallet_def Let_def split: option.splits)
qed

subsection \<open>Finding or creating the organisation\<close>

lemma find_row_name: "find_row o_name n (organisations db) = Some org \<Longrightarrow> org \<in> set (organisations db)"
  using find_row_SomeD by metis

lemma resolve_ok:
  assumes ok: "access_ok db" and fresh: "find_organisation newId db = None"
    and few: "length (organisations db) < 10 ^ 59"
  shows "(\<exists>e. resolveOrganisationForApproval env input fb newId now db = Inl e \<and> isTraceError e)
    \<or> (\<exists>org db1. resolveOrganisationForApproval env input fb newId now db = Inr (org, db1)
        \<and> access_ok db1 \<and> same_market db db1 \<and> o_id org \<in> set (map o_id (organisations db1))
        \<and> map who (users db1) = map who (users db) \<and> betaAccessRequests db1 = betaAccessRequests db)"
proof -
  have found: "access_ok d1 \<and> same_market d0 d1 \<and> o_id org \<in> set (map o_id (organisations d1))
      \<and> map who (users d1) = map who (users d0) \<and> betaAccessRequests d1 = betaAccessRequests d0"
    if "access_ok d0" "o_id org \<in> set (map o_id (organisations d0))" "d1 = maybeEnsureOrganisationWallet env j now d0"
    for d0 d1 j and org :: organisation
    using that wallet_frame [of d0 env j now] same_access_ok [of d0 d1] by (simp add: same_access_def)
  show ?thesis
  proof (cases "oi_organisationId input")
    case (Some i)
    show ?thesis
    proof (cases "find_organisation i db")
      case None
      then show ?thesis using Some by (simp add: resolveOrganisationForApproval_def)
    next
      case org: (Some org)
      then have "o_id org \<in> set (map o_id (organisations db))" using find_row_SomeD [OF org] by auto
      then show ?thesis using found [OF ok _ refl, of org "o_id org"] Some org
        by (simp add: resolveOrganisationForApproval_def)
    qed
  next
    case None
    let ?name = "requested_name input fb"
    show ?thesis
    proof (cases "?name = []")
      case True
      then show ?thesis using None by (simp add: resolveOrganisationForApproval_def Let_def)
    next
      case named: False
      show ?thesis
      proof (cases "find_row o_name ?name (organisations db)")
        case (Some org)
        then have "o_id org \<in> set (map o_id (organisations db))" using find_row_name [OF Some] by auto
        then show ?thesis using found [OF ok _ refl, of org "o_id org"] Some None named
          by (simp add: resolveOrganisationForApproval_def Let_def)
      next
        case no_name: None
        obtain s where s: "free_slug (map o_slug (organisations db)) (slugifyOrganisationName ?name)
            (slugifyOrganisationName ?name) 2 = Some s" "s \<notin> set (map o_slug (organisations db))"
          using slug_found [of "map o_slug (organisations db)" ?name] few by auto
        let ?o = "new_organisation newId ?name s now"
        let ?db = "organisations_update (insert_row ?o) db"
        have o: "o_id ?o = newId" "o_slug ?o = s" by (simp_all add: new_organisation_def)
        have ins: "insert_organisation ?o db = Inr (?o, ?db)"
          using fresh s(2) by (simp add: insert_organisation_def o)
        have mono: "staffed (xs @ [j]) w" if "staffed xs w" for xs j w
          using that by (auto simp: staffed_def split: prod.splits option.splits)
        have ok1: "access_ok ?db"
          using ok fresh s(2) mono by (auto simp: access_ok_def insert_row_def o find_row_None_iff list_all_iff)
        have mem: "o_id ?o \<in> set (map o_id (organisations ?db))" by (simp add: insert_row_def)
        have "same_market db ?db" "map who (users ?db) = map who (users db)"
          "betaAccessRequests ?db = betaAccessRequests db" by (simp_all add: same_market_def)
        then show ?thesis
          using found [OF ok1 mem refl, of newId] None named no_name s(1) ins o(1)
          by (auto simp: resolveOrganisationForApproval_def Let_def intro: same_market_trans)
      qed
    qed
  qed
qed

subsection \<open>Each operation keeps the invariant\<close>

lemma request_by_id:
  assumes "access_ok db" and "find_request i db = Some r" and "r' \<in> set (betaAccessRequests db)" and "a_id r' = i"
  shows "r' = r"
  using assms find_row_distinct [of a_id "betaAccessRequests db" r'] by (simp add: access_ok_def)

lemma one_pending_insert:
  "one_pending rs \<Longrightarrow> (\<And>x. x \<in> set rs \<Longrightarrow> a_status x = A_pending \<Longrightarrow> a_userId x \<noteq> a_userId r) \<Longrightarrow>
    one_pending (insert_row r rs)"
  by (fastforce simp: one_pending_def insert_row_def)

lemma one_pending_update:
  assumes "one_pending rs" and "\<And>r. a_userId (f r) = a_userId r"
    and "\<And>r. r \<in> set rs \<Longrightarrow> a_id r = i \<Longrightarrow> a_status (f r) = A_pending \<Longrightarrow> a_status r = A_pending"
  shows "one_pending (update_rows a_id i f rs)"
  using assms
proof (induction rs)
  case Nil
  then show ?case by (simp add: one_pending_def)
next
  case (Cons x rs)
  have sub: "set (map a_userId (filter (\<lambda>r. a_status r = A_pending) (update_rows a_id i f rs)))
      \<subseteq> set (map a_userId (filter (\<lambda>r. a_status r = A_pending) rs))"
    using Cons.prems(2,3) by (fastforce simp: set_update_rows)
  have "one_pending (update_rows a_id i f rs)"
    using Cons by (auto simp: one_pending_def split: if_splits)
  then show ?case using Cons.prems sub by (auto simp: one_pending_def split: if_splits)
qed

lemma update_request_ok:
  assumes ok: "access_ok db" and "\<And>r. a_id (f r) = a_id r" and "\<And>r. a_userId (f r) = a_userId r"
    and r: "find_request i db = Some r" and "a_status (f r) = A_pending \<Longrightarrow> a_status r = A_pending"
  shows "access_ok (update_request i f db)" and "same_market db (update_request i f db)"
proof -
  have "one_pending (update_rows a_id i f (betaAccessRequests db))"
    by (rule one_pending_update) (use assms request_by_id [OF ok r] in \<open>auto simp: access_ok_def\<close>)
  then show "access_ok (update_request i f db)"
    using ok assms(2) by (simp add: access_ok_def update_request_def map_update_rows)
  show "same_market db (update_request i f db)" by (simp add: same_market_def update_request_def)
qed

lemma set_user_access_ok:
  assumes ok: "access_ok db"
    and org: "role \<in> {Hub_staff, Hub_admin} \<Longrightarrow> \<exists>j. org = Some j \<and> j \<in> set (map o_id (organisations db))"
  shows "access_ok (set_user_access i role org db)" and "same_market db (set_user_access i role org db)"
proof -
  let ?f = "\<lambda>u. u\<lparr> u_role := role, u_organisationId := org \<rparr>"
  have "list_all (staffed (map o_id (organisations db))) (map who (update_rows u_id i ?f (users db)))"
    using ok org by (auto simp: access_ok_def list_all_iff set_update_rows staffed_def who_def split: option.splits)
  moreover have "map (fst \<circ> who) (update_rows u_id i ?f (users db)) = map (fst \<circ> who) (users db)"
    "map (fst \<circ> snd \<circ> who) (update_rows u_id i ?f (users db)) = map (fst \<circ> snd \<circ> who) (users db)"
    by (simp_all add: map_update_rows who_def)
  ultimately show "access_ok (set_user_access i role org db)"
    using ok by (simp add: access_ok_def set_user_access_def)
  show "same_market db (set_user_access i role org db)" by (simp add: same_market_def set_user_access_def)
qed

lemma submit_ok:
  assumes ok: "access_ok db" and fresh: "find_request newId db = None"
  shows "(\<exists>e. submitAccessRequest userId role input newId now db = Inl e \<and> isTraceError e)
    \<or> (\<exists>db'. submitAccessRequest userId role input newId now db = Inr (new_request newId userId input now, db')
        \<and> access_ok db' \<and> same_market db db')"
proof (cases "role = Buyer \<and> pending_of userId db = None")
  case True
  let ?r = "new_request newId userId input now"
  have r: "a_id ?r = newId" "a_userId ?r = userId" by (simp_all add: new_request_def)
  have "one_pending (insert_row ?r (betaAccessRequests db))"
    by (rule one_pending_insert)
      (use ok True r in \<open>auto simp: access_ok_def pending_of_def find_None_iff\<close>)
  then have "access_ok (betaAccessRequests_update (insert_row ?r) db)"
    using ok fresh r by (auto simp: access_ok_def insert_row_def find_row_None_iff)
  then show ?thesis using True fresh r
    by (auto simp: submitAccessRequest_def insert_request_def same_market_def)
next
  case False
  then show ?thesis by (auto simp: submitAccessRequest_def split: option.splits)
qed

lemma update_pending_ok:
  assumes ok: "access_ok db"
  shows "(\<exists>e. updatePendingAccessRequest i input now db = Inl e \<and> isTraceError e)
    \<or> (\<exists>r db'. updatePendingAccessRequest i input now db = Inr (r, db') \<and> access_ok db' \<and> same_market db db')"
proof (cases "find_request i db")
  case None
  then show ?thesis by (simp add: updatePendingAccessRequest_def)
next
  case (Some r)
  then show ?thesis
    using update_request_ok [OF ok _ _ Some, of "\<lambda>r. r\<lparr> a_requestedRole := cr_requestedRole input,
                   a_organisationName := Some (cr_organisationName input), a_notes := cr_notes input,
                   a_reviewNotes := up_reviewNotes input, a_updatedAt := now \<rparr>"]
    by (auto simp: updatePendingAccessRequest_def Let_def)
qed

lemma approve_ok:
  assumes ok: "access_ok db" and fresh: "find_organisation newId db = None"
    and few: "length (organisations db) < 10 ^ 59"
  shows "(\<exists>e. approveAccessRequest env i reviewer input newId now db = Inl e \<and> isTraceError e)
    \<or> (\<exists>r j db'. find_request i db = Some r \<and> a_status r = A_pending
        \<and> approveAccessRequest env i reviewer input newId now db = Inr (approved_row input reviewer j now r, db')
        \<and> access_ok db' \<and> same_market db db' \<and> j \<in> set (map o_id (organisations db'))
        \<and> find_request i db' = Some (approved_row input reviewer j now r)
        \<and> map who (users db') = map (\<lambda>u. if u_id u = a_userId r
             then (u_id u, u_email u, ap_role input, Some j) else who u) (users db))"
proof (cases "\<exists>r. find_request i db = Some r \<and> a_status r = A_pending")
  case False
  then show ?thesis by (cases "find_request i db") (auto simp: approveAccessRequest_def)
next
  case True
  then obtain r where r: "find_request i db = Some r" "a_status r = A_pending" by blast
  let ?res = "resolveOrganisationForApproval env (organisation_input.truncate input) (a_organisationName r) newId now db"
  show ?thesis
  proof (cases ?res)
    case (Inl e)
    then have "isTraceError e" using resolve_ok [OF ok fresh few] by (metis Inl_inject Inr_Inl_False)
    then show ?thesis using Inl r by (simp add: approveAccessRequest_def)
  next
    case (Inr p)
    obtain org db1 where p: "p = (org, db1)" by force
    have res: "?res = Inr (org, db1)" using Inr p by simp
    have db1: "access_ok db1" "same_market db db1" "o_id org \<in> set (map o_id (organisations db1))"
      "map who (users db1) = map who (users db)" "betaAccessRequests db1 = betaAccessRequests db"
      using resolve_ok [OF ok fresh few, of env "organisation_input.truncate input" "a_organisationName r" now] res
      by auto
    let ?f = "approved_row input reviewer (o_id org) now"
    let ?db2 = "set_user_access (a_userId r) (ap_role input) (Some (o_id org)) db1"
    have ok2: "access_ok ?db2" "same_market db1 ?db2" using set_user_access_ok [OF db1(1)] db1(3) by auto
    have r2: "find_request i ?db2 = Some r" using r(1) db1(5) by (simp add: set_user_access_def)
    have f: "a_id (?f x) = a_id x" "a_userId (?f x) = a_userId x" "a_status (?f x) \<noteq> A_pending" for x
      by (simp_all add: approved_row_def)
    note ok3 = update_request_ok [where f = ?f, OF ok2(1) f(1,2) r2]
    have "find_request i (update_request i ?f ?db2) = Some (?f r)"
      using r2 f(1) by (simp add: update_request_def find_row_update_same)
    moreover have "map who (users (update_request i ?f ?db2)) = map (\<lambda>w. if fst w = a_userId r
        then (fst w, fst (snd w), ap_role input, Some (o_id org)) else w) (map who (users db1))"
      by (simp add: update_request_def set_user_access_def update_rows_def who_def)
    then have "map who (users (update_request i ?f ?db2)) = map (\<lambda>u. if u_id u = a_userId r
        then (u_id u, u_email u, ap_role input, Some (o_id org)) else who u) (users db)"
      by (simp add: db1(4) comp_def who_def)
    moreover have "o_id org \<in> set (map o_id (organisations (update_request i ?f ?db2)))"
      using db1(3) by (simp add: update_request_def set_user_access_def)
    moreover have "same_market db (update_request i ?f ?db2)"
      using db1(2) ok2(2) ok3(2) f(3) by (metis same_market_trans)
    moreover have "access_ok (update_request i ?f ?db2)" using ok3(1) f(3) by blast
    ultimately show ?thesis using r res by (auto simp: approveAccessRequest_def Let_def)
  qed
qed

lemma update_approved_ok:
  assumes ok: "access_ok db" and fresh: "find_organisation newId db = None"
    and few: "length (organisations db) < 10 ^ 59"
  shows "(\<exists>e. updateApprovedUserAccess env i reviewer input newId now db = Inl e \<and> isTraceError e)
    \<or> (\<exists>r db'. updateApprovedUserAccess env i reviewer input newId now db = Inr (r, db')
        \<and> access_ok db' \<and> same_market db db')"
proof (cases "\<exists>r. find_request i db = Some r \<and> a_status r = A_approved")
  case False
  then show ?thesis by (cases "find_request i db") (auto simp: updateApprovedUserAccess_def)
next
  case True
  then obtain r where r: "find_request i db = Some r" "a_status r = A_approved" by blast
  have finish: "access_ok (update_request i (reviewed_row input reviewer org now)
        (set_user_access (a_userId r) (ap_role input) org db1))
      \<and> same_market db (update_request i (reviewed_row input reviewer org now)
        (set_user_access (a_userId r) (ap_role input) org db1))"
    if "access_ok db1" "same_market db db1" "betaAccessRequests db1 = betaAccessRequests db"
      "ap_role input \<in> {Hub_staff, Hub_admin} \<Longrightarrow> \<exists>j. org = Some j \<and> j \<in> set (map o_id (organisations db1))"
    for db1 org
  proof -
    let ?db2 = "set_user_access (a_userId r) (ap_role input) org db1"
    note ok2 = set_user_access_ok [where i = "a_userId r", OF that(1,4)]
    have r2: "find_request i ?db2 = Some r" using r(1) that(3) by (simp add: set_user_access_def)
    note ok3 = update_request_ok [where f = "reviewed_row input reviewer org now", OF ok2(1) _ _ r2]
    show ?thesis using ok3 ok2(2) that(2) r(2)
      by (auto simp: reviewed_row_def intro: same_market_trans)
  qed
  show ?thesis
  proof (cases "ap_role input = Buyer")
    case True
    then show ?thesis using r finish [OF ok same_market_refl refl, of None]
      by (auto simp: updateApprovedUserAccess_def Let_def)
  next
    case False
    let ?res = "resolveOrganisationForApproval env (organisation_input.truncate input) (a_organisationName r) newId now db"
    show ?thesis
    proof (cases ?res)
      case (Inl e)
      then have "isTraceError e" using resolve_ok [OF ok fresh few] by (metis Inl_inject Inr_Inl_False)
      then show ?thesis using Inl r False by (simp add: updateApprovedUserAccess_def)
    next
      case (Inr p)
      obtain org db1 where p: "p = (org, db1)" by force
      have res: "?res = Inr (org, db1)" using Inr p by simp
      have db1: "access_ok db1" "same_market db db1" "o_id org \<in> set (map o_id (organisations db1))"
        "betaAccessRequests db1 = betaAccessRequests db"
        using resolve_ok [OF ok fresh few, of env "organisation_input.truncate input" "a_organisationName r" now] res
        by auto
      then show ?thesis using r res False finish [OF db1(1,2,4), of "Some (o_id org)"]
        by (auto simp: updateApprovedUserAccess_def Let_def)
    qed
  qed
qed

lemma reject_ok:
  assumes ok: "access_ok db"
  shows "(\<exists>e. rejectAccessRequest i reviewer notes now db = Inl e \<and> isTraceError e)
    \<or> (\<exists>r db'. rejectAccessRequest i reviewer notes now db = Inr (r, db') \<and> access_ok db' \<and> same_market db db')"
proof (cases "find_request i db")
  case None
  then show ?thesis by (simp add: rejectAccessRequest_def)
next
  case (Some r)
  then show ?thesis
    using update_request_ok [OF ok _ _ Some, of "rejected_row reviewer notes now"]
    by (auto simp: rejectAccessRequest_def rejected_row_def)
qed

lemma update_organisation_ok:
  assumes ok: "access_ok db"
  shows "(\<exists>e. updateAccessRequestOrganisation i name verified now db = Inl e \<and> isTraceError e)
    \<or> (\<exists>r db'. updateAccessRequestOrganisation i name verified now db = Inr (r, db')
        \<and> access_ok db' \<and> same_market db db')"
  using ok by (cases "find_organisation i db")
    (auto simp: updateAccessRequestOrganisation_def Let_def access_ok_def same_market_def map_update_rows)

lemma who_parts: "fst (who u) = u_id u" "fst (snd (who u)) = u_email u"
  by (simp_all add: who_def)

lemma register_ok:
  assumes ok: "access_ok db" and fresh: "find_user newId db = None"
  shows "(\<exists>e. registerUser hash input newId now db = Inl e \<and> isTraceError e)
    \<or> (\<exists>s db'. registerUser hash input newId now db = Inr (s, db') \<and> access_ok db' \<and> same_market db db')"
proof (cases "find_user_by_email (toLowerCase (ri_email input)) db")
  case (Some u)
  then show ?thesis by (simp add: registerUser_def)
next
  case None
  let ?u = "new_user newId input (hash (ri_password input)) now"
  have w: "who ?u = (newId, toLowerCase (ri_email input), Buyer, None)" by (simp add: new_user_def who_def)
  have k: "u_id ?u = newId" "u_email ?u = toLowerCase (ri_email input)" by (simp_all add: new_user_def)
  have "access_ok (users_update (insert_row ?u) db)"
    using ok fresh None unfolding access_ok_def
    by (auto simp: insert_row_def w staffed_def find_row_None_iff k image_iff who_parts)
  then show ?thesis using None fresh k
    by (auto simp: registerUser_def insert_user_def same_market_def)
qed

lemma login_ok:
  assumes ok: "access_ok db"
  shows "access_ok (snd (loginUser compare i t db)) \<and> same_market db (snd (loginUser compare i t db))"
proof -
  let ?db = "snd (loginUser compare i t db)"
  obtain g where g: "users ?db = map g (users db)" "\<forall>r \<in> set (users db). login_row t r (g r)"
    using login_rows [OF access_ok_users [OF ok]] by blast
  have "map who (users ?db) = map who (users db)"
    using g login_row_same by (fastforce simp: same_account_def who_def)
  moreover have "organisations ?db = organisations db" "betaAccessRequests ?db = betaAccessRequests db" "same_market db ?db"
    by (auto simp: loginUser_def Let_def recordFailedLogin_def clearFailedLogins_def same_market_def
        split: option.splits sum.splits if_splits)
  ultimately show ?thesis using same_access_ok [OF _ ok] by (simp add: same_access_def)
qed

subsection \<open>Properties\<close>

text \<open>C31: Approving under a new organisation name always finds a slug: the search ends, the slug
  belongs to no organisation, has at most 63 characters, all of them lower-case letters,
  digits or hyphens, and does not start with a hyphen.\<close>

theorem new_organisation_gets_a_slug:
  assumes "oi_organisationId input = None" and "requested_name input fb \<noteq> []"
    and "find_row o_name (requested_name input fb) (organisations db) = None"
    and "find_organisation newId db = None" and "length (organisations db) < 10 ^ 59"
  shows "\<exists>org db'. resolveOrganisationForApproval env input fb newId now db = Inr (org, db')
    \<and> o_name org = requested_name input fb \<and> slug_ok (o_slug org)
    \<and> o_slug org \<notin> o_slug ` set (organisations db)
    \<and> map o_slug (organisations db') = map o_slug (organisations db) @ [o_slug org]"
proof -
  let ?name = "requested_name input fb"
  obtain s where s: "free_slug (map o_slug (organisations db)) (slugifyOrganisationName ?name)
      (slugifyOrganisationName ?name) 2 = Some s" "s \<notin> o_slug ` set (organisations db)" "slug_ok s"
    using slug_found [of "map o_slug (organisations db)" ?name] assms(5) by auto
  let ?o = "new_organisation newId ?name s now"
  let ?db = "organisations_update (insert_row ?o) db"
  have o: "o_id ?o = newId" "o_slug ?o = s" "o_name ?o = ?name" by (simp_all add: new_organisation_def)
  have "map o_slug (organisations (maybeEnsureOrganisationWallet env newId now ?db)) = map o_slug (organisations db) @ [s]"
    using wallet_frame [of ?db env newId now] by (simp add: same_access_def insert_row_def o)
  then show ?thesis
    using assms s o by (auto simp: resolveOrganisationForApproval_def Let_def insert_organisation_def)
qed

definition no_wallets :: wallet_env where
  "no_wallets = \<lparr> we_enabled = False, we_fresh = ('''', ''''), we_decrypt = (\<lambda>_. None), we_address = (\<lambda>_. '''') \<rparr>"

definition wallets :: wallet_env where
  "wallets = \<lparr> we_enabled = True, we_fresh = (''0xab'', ''v1:k''), we_decrypt = (\<lambda>k. Some k), we_address = (\<lambda>k. ''0xab'') \<rparr>"

definition named_organisation :: organisation_input where
  "named_organisation = \<lparr> oi_organisationId = None, oi_organisationName = Some '' Reuse  HUB! '' \<rparr>"

theorem new_organisation_gets_a_slug_witness:
  "\<exists>org db'. resolveOrganisationForApproval wallets named_organisation None 5 100 sample_db = Inr (org, db')
    \<and> o_name org = requested_name named_organisation None \<and> slug_ok (o_slug org)
    \<and> o_slug org \<notin> o_slug ` set (organisations sample_db)
    \<and> map o_slug (organisations db') = map o_slug (organisations sample_db) @ [o_slug org]"
proof (rule new_organisation_gets_a_slug)
  show "length (organisations sample_db) < 10 ^ 59" by (simp add: sample_db_def)
qed (code_simp+)

text \<open>The slug found there: the hub of the sample already has the one its name gives.\<close>

lemma second_hub_slug: "free_slug [''reuse-hub''] ''reuse-hub'' (slugifyOrganisationName '' Reuse  HUB! '') 2 = Some ''reuse-hub-2''"
  by code_simp


definition request_row :: access_request where
  "request_row = new_request 40 3 \<lparr> cr_requestedRole = Hub_admin, cr_organisationName = ''Timber Yard'',
     cr_notes = None \<rparr> 10"

definition requested_db :: trace_db where
  "requested_db = sample_db\<lparr> users := [sample_user 2 Supplier (Some 1),
       (sample_user 3 Buyer None)\<lparr>u_email := ''bob@example.org''\<rparr>], betaAccessRequests := [request_row] \<rparr>"

definition an_approval :: approve_input where
  "an_approval = \<lparr> oi_organisationId = None, oi_organisationName = None, ap_role = Hub_admin,
     ap_reviewNotes = Some ''ok'' \<rparr>"


text \<open>An organisation's custodial wallet is claimed once: whatever claims follow, in any
  order and with any keys, the stored address and key stay those of the first.\<close>

theorem first_wallet_claim_wins:
  assumes "distinct (map o_id (organisations db))" and "find_organisation i db = Some org"
    and "o_blockchainPrivateKeyEnc org = None"
  shows "fst (claimOrganisationWallet i w now db)
    \<and> (\<forall>later. map_option (\<lambda>r. (o_blockchainAddress r, o_blockchainPrivateKeyEnc r))
          (find_organisation i (foldl (\<lambda>d (w', t). snd (claimOrganisationWallet i w' t d))
             (snd (claimOrganisationWallet i w now db)) later))
        = Some (Some (fst w), Some (snd w)))"
proof -
  let ?keys = "\<lambda>d. map_option (\<lambda>r. (o_blockchainAddress r, o_blockchainPrivateKeyEnc r)) (find_organisation i d)"
  let ?db = "snd (claimOrganisationWallet i w now db)"
  have first: "fst (claimOrganisationWallet i w now db)" "?keys ?db = Some (Some (fst w), Some (snd w))"
    using assms(2,3) by (simp_all add: claimOrganisationWallet_def Let_def find_row_update_same option.map_comp comp_def)
  have again: "snd (claimOrganisationWallet i w' t d) = d" if "?keys d = Some (Some (fst w), Some (snd w))" for w' t d
    using that by (auto simp: claimOrganisationWallet_def)
  have "?keys (foldl (\<lambda>d (w', t). snd (claimOrganisationWallet i w' t d)) d later) = Some (Some (fst w), Some (snd w))"
    if "?keys d = Some (Some (fst w), Some (snd w))" for d later
    using that
  proof (induction later arbitrary: d)
    case Nil
    then show ?case by simp
  next
    case (Cons a later)
    show ?case using Cons.IH [OF Cons.prems] again [OF Cons.prems, of "fst a" "snd a"]
      by (simp add: case_prod_beta)
  qed
  then show ?thesis using first by blast
qed

theorem first_wallet_claim_wins_witness:
  "fst (claimOrganisationWallet 1 (''0x1'', ''k1'') 50 sample_db)
    \<and> (\<forall>later. map_option (\<lambda>r. (o_blockchainAddress r, o_blockchainPrivateKeyEnc r))
          (find_organisation 1 (foldl (\<lambda>d (w', t). snd (claimOrganisationWallet 1 w' t d))
             (snd (claimOrganisationWallet 1 (''0x1'', ''k1'') 50 sample_db)) later))
        = Some (Some (fst (''0x1'', ''k1'')), Some (snd (''0x1'', ''k1''))))"
  by (rule first_wallet_claim_wins [where org = sample_hub]) code_simp+

end
