(* ===== verification/Passport_Reads.thy ===== *)
theory Passport_Reads
  imports Quality_Reports
begin

text \<open>
  The reading half of \<open>modules/passport/passport.service.ts\<close>: who may see a passport, which
  columns, its fingerprint check, certificate and history. A read is a function of the
  database, the clock and the viewer; what the chain adapter answers and the newest row of
  the chain log are arguments.

  A column of the public view is a constructor of \<open>passport_field\<close> and its value the JSON the
  API sends.
\<close>

subsection \<open>Columns\<close>

fun passport_status_text :: "passport_status \<Rightarrow> string" where
  "passport_status_text P_draft = ''draft''"
| "passport_status_text P_active = ''active''"
| "passport_status_text P_listed = ''listed''"
| "passport_status_text P_reserved = ''reserved''"
| "passport_status_text P_sold = ''sold''"
| "passport_status_text P_installed = ''installed''"
| "passport_status_text P_decommissioned = ''decommissioned''"

fun origin_text :: "passport_origin \<Rightarrow> string" where
  "origin_text Reclaimed = ''reclaimed''"
| "origin_text Surplus = ''surplus''"
| "origin_text New_product = ''new''"

datatype passport_field =
  F_id | F_organisationId | F_gtin | F_serialNumber | F_digitalLinkUri | F_qrCodeUrl |
  F_productName | F_categoryL1 | F_categoryL2 | F_unitOfMeasure | F_materialComposition |
  F_dimensions | F_technicalSpecs | F_manufacturerName | F_countryOfOrigin |
  F_productionDate | F_gwpTotal | F_embodiedCarbon | F_recycledContent | F_epdReference |
  F_ceMarking | F_declarationOfPerformance | F_harmonisedStandard | F_origin |
  F_previousBuildingId | F_deconstructionDate | F_deconstructionMethod | F_reclaimedBy |
  F_conditionGrade | F_conditionNotes | F_conditionPhotos | F_originalAge |
  F_remainingLifeEstimate | F_carbonSavingsVsNew | F_circularityScore | F_reuseCount |
  F_reuseSuitability | F_handlingRequirements | F_hazardousSubstances | F_status |
  F_blockchainTxHash | F_blockchainPassportHash | F_blockchainAnchoredAt |
  F_blockchainChainId | F_createdAt | F_registeredBy | F_customAttributes | F_updatedAt

definition PUBLIC_PASSPORT_FIELDS :: "passport_field list" where
  "PUBLIC_PASSPORT_FIELDS = [
     F_id, F_organisationId, F_gtin, F_serialNumber, F_digitalLinkUri, F_qrCodeUrl,
     F_productName, F_categoryL1, F_categoryL2, F_unitOfMeasure, F_materialComposition,
     F_dimensions, F_technicalSpecs, F_manufacturerName, F_countryOfOrigin,
     F_productionDate, F_gwpTotal, F_embodiedCarbon, F_recycledContent, F_epdReference,
     F_ceMarking, F_declarationOfPerformance, F_harmonisedStandard, F_origin,
     F_previousBuildingId, F_deconstructionDate, F_deconstructionMethod, F_reclaimedBy,
     F_conditionGrade, F_conditionNotes, F_conditionPhotos, F_originalAge,
     F_remainingLifeEstimate, F_carbonSavingsVsNew, F_circularityScore, F_reuseCount,
     F_reuseSuitability, F_handlingRequirements, F_hazardousSubstances, F_status,
     F_blockchainTxHash, F_blockchainPassportHash, F_blockchainAnchoredAt,
     F_blockchainChainId, F_createdAt]"

definition PRIVATE_PASSPORT_FIELDS :: "passport_field list" where
  "PRIVATE_PASSPORT_FIELDS = [F_registeredBy, F_customAttributes, F_updatedAt]"

fun field_value :: "passport_field \<Rightarrow> passport \<Rightarrow> json" where
  "field_value F_id p = JUuid (p_id p)"
| "field_value F_organisationId p = JUuid (p_organisationId p)"
| "field_value F_gtin p = or_null JStr (p_gtin p)"
| "field_value F_serialNumber p = or_null JStr (p_serialNumber p)"
| "field_value F_digitalLinkUri p = or_null JStr (p_digitalLinkUri p)"
| "field_value F_qrCodeUrl p = or_null JStr (p_qrCodeUrl p)"
| "field_value F_productName p = JStr (p_productName p)"
| "field_value F_categoryL1 p = JStr (p_categoryL1 p)"
| "field_value F_categoryL2 p = or_null JStr (p_categoryL2 p)"
| "field_value F_unitOfMeasure p = or_null JStr (p_unitOfMeasure p)"
| "field_value F_materialComposition p = p_materialComposition p"
| "field_value F_dimensions p = or_null (\<lambda>j. j) (p_dimensions p)"
| "field_value F_technicalSpecs p = p_technicalSpecs p"
| "field_value F_manufacturerName p = or_null JStr (p_manufacturerName p)"
| "field_value F_countryOfOrigin p = or_null JStr (p_countryOfOrigin p)"
| "field_value F_productionDate p = or_null (\<lambda>d. JStr (toISOString d)) (p_productionDate p)"
| "field_value F_gwpTotal p = or_null JStr (p_gwpTotal p)"
| "field_value F_embodiedCarbon p = or_null JStr (p_embodiedCarbon p)"
| "field_value F_recycledContent p = or_null JStr (p_recycledContent p)"
| "field_value F_epdReference p = or_null JStr (p_epdReference p)"
| "field_value F_ceMarking p = JBool (p_ceMarking p)"
| "field_value F_declarationOfPerformance p = or_null JStr (p_declarationOfPerformance p)"
| "field_value F_harmonisedStandard p = or_null JStr (p_harmonisedStandard p)"
| "field_value F_origin p = or_null (\<lambda>r. JStr (origin_text r)) (p_origin p)"
| "field_value F_previousBuildingId p = or_null JStr (p_previousBuildingId p)"
| "field_value F_deconstructionDate p = or_null (\<lambda>d. JStr (toISOString d)) (p_deconstructionDate p)"
| "field_value F_deconstructionMethod p = or_null JStr (p_deconstructionMethod p)"
| "field_value F_reclaimedBy p = or_null JStr (p_reclaimedBy p)"
| "field_value F_conditionGrade p = or_null (\<lambda>g. JStr (grade_text g)) (p_conditionGrade p)"
| "field_value F_conditionNotes p = or_null JStr (p_conditionNotes p)"
| "field_value F_conditionPhotos p = or_null (\<lambda>us. JArr (map JStr us)) (p_conditionPhotos p)"
| "field_value F_originalAge p = or_null JInt (p_originalAge p)"
| "field_value F_remainingLifeEstimate p = or_null JInt (p_remainingLifeEstimate p)"
| "field_value F_carbonSavingsVsNew p = or_null JStr (p_carbonSavingsVsNew p)"
| "field_value F_circularityScore p = or_null JInt (p_circularityScore p)"
| "field_value F_reuseCount p = JInt (p_reuseCount p)"
| "field_value F_reuseSuitability p = p_reuseSuitability p"
| "field_value F_handlingRequirements p = or_null JStr (p_handlingRequirements p)"
| "field_value F_hazardousSubstances p = p_hazardousSubstances p"
| "field_value F_status p = JStr (passport_status_text (p_status p))"
| "field_value F_blockchainTxHash p = or_null JStr (p_blockchainTxHash p)"
| "field_value F_blockchainPassportHash p = or_null JStr (p_blockchainPassportHash p)"
| "field_value F_blockchainAnchoredAt p = or_null (\<lambda>d. JStr (toISOString d)) (p_blockchainAnchoredAt p)"
| "field_value F_blockchainChainId p = or_null JStr (p_blockchainChainId p)"
| "field_value F_createdAt p = JStr (toISOString (p_createdAt p))"
| "field_value F_registeredBy p = or_null JUuid (p_registeredBy p)"
| "field_value F_customAttributes p = p_customAttributes p"
| "field_value F_updatedAt p = JStr (toISOString (p_updatedAt p))"

definition toPublicPassport :: "passport \<Rightarrow> (passport_field \<times> json) list" where
  "toPublicPassport p = map (\<lambda>f. (f, field_value f p)) PUBLIC_PASSPORT_FIELDS"

subsection \<open>Who may see what\<close>

record passport_viewer =
  pv_role :: user_role
  pv_organisationId :: "uuid option"

definition seesWholePassport :: "passport \<Rightarrow> passport_viewer option \<Rightarrow> bool" where
  "seesWholePassport p viewer =
     (case viewer of None \<Rightarrow> False
      | Some v \<Rightarrow> pv_role v = Platform_admin \<or> pv_organisationId v = Some (p_organisationId p))"

definition loadVisiblePassport :: "uuid \<Rightarrow> passport_viewer option \<Rightarrow> trace_db \<Rightarrow> passport outcome" where
  "loadVisiblePassport i viewer db =
     (case find_passport i db of
        None \<Rightarrow> Inl (NotFoundError R_passport (Some i))
      | Some p \<Rightarrow>
          if p_status p = P_draft \<and> Option.bind viewer pv_organisationId \<noteq> Some (p_organisationId p)
          then Inl (NotFoundError R_passport (Some i))
          else Inr p)"

record listing_summary =
  ls_id :: uuid
  ls_status :: listing_status
  ls_pricePence :: int
  ls_currency :: string
  ls_listedAt :: time

fun listing_preference :: "listing_status \<Rightarrow> nat option" where
  "listing_preference L_active = Some 0"
| "listing_preference L_reserved = Some 1"
| "listing_preference L_sold = Some 2"
| "listing_preference _ = None"

definition passportListing :: "time \<Rightarrow> uuid \<Rightarrow> trace_db \<Rightarrow> listing_summary option" where
  "passportListing now i db =
     (let rows = sort_key (\<lambda>l. - l_createdAt l) (filter (\<lambda>l. l_passportId l = i) (listings db));
          read = map (\<lambda>l. l\<lparr>l_status := listingStatusAt (l_status l) (l_expiresAt l) now\<rparr>) rows;
          candidates = sort_key (\<lambda>l. or_keep (listing_preference (l_status l)) 3)
            (filter (\<lambda>l. listing_preference (l_status l) \<noteq> None) read)
      in case candidates of
           [] \<Rightarrow> None
         | l # ls \<Rightarrow> Some \<lparr> ls_id = l_id l, ls_status = l_status l, ls_pricePence = l_pricePence l,
             ls_currency = l_currency l, ls_listedAt = l_createdAt l \<rparr>)"

datatype passport_view = Whole passport | Public_view "(passport_field \<times> json) list"

definition view_for :: "passport_viewer option \<Rightarrow> passport \<Rightarrow> passport_view" where
  "view_for viewer p = (if seesWholePassport p viewer then Whole p else Public_view (toPublicPassport p))"

definition getPassportById ::
  "time \<Rightarrow> uuid \<Rightarrow> passport_viewer option \<Rightarrow> trace_db \<Rightarrow> (passport_view \<times> listing_summary option) outcome" where
  "getPassportById now i viewer db =
     (case loadVisiblePassport i viewer db of
        Inl e \<Rightarrow> Inl e
      | Inr p \<Rightarrow> Inr (view_for viewer p, passportListing now i db))"

subsection \<open>Counts and lists\<close>

record passport_stats =
  ps_total :: nat
  ps_byStatus :: "(passport_status \<times> nat) list"
  ps_anchored :: nat
  ps_awaitingAnchor :: nat

definition status_groups :: "uuid \<Rightarrow> trace_db \<Rightarrow> (passport_status \<times> passport list) list" where
  "status_groups orgId db =
     group_rows p_status (filter (\<lambda>p. p_organisationId p = orgId) (materialPassports db))"

definition getPassportStats :: "uuid \<Rightarrow> trace_db \<Rightarrow> passport_stats" where
  "getPassportStats orgId db =
     (let rows = status_groups orgId db in
      \<lparr> ps_total = sum_list (map (\<lambda>(st, ps). length ps) rows),
        ps_byStatus = map (\<lambda>(st, ps). (st, length ps)) rows,
        ps_anchored = sum_list (map (\<lambda>(st, ps). length (filter (\<lambda>p. p_blockchainTxHash p \<noteq> None) ps)) rows),
        ps_awaitingAnchor = sum_list (map (\<lambda>(st, ps).
          length (filter (\<lambda>p. p_blockchainPassportHash p = None \<and> p_status p \<noteq> P_draft) ps)) rows) \<rparr>)"

record passport_query =
  lq_status :: "passport_status option"
  lq_categoryL1 :: "string option"
  lq_categoryL2 :: "string option"
  lq_conditionGrade :: "grade option"
  lq_search :: "string option"
  lq_page :: nat
  lq_limit :: nat

definition passport_matches :: "passport_query \<Rightarrow> uuid \<Rightarrow> passport \<Rightarrow> bool" where
  "passport_matches query orgId p \<longleftrightarrow>
     p_organisationId p = orgId
     \<and> (lq_status query \<noteq> None \<longrightarrow> lq_status query = Some (p_status p))
     \<and> (text_given (lq_categoryL1 query) \<longrightarrow> lq_categoryL1 query = Some (p_categoryL1 p))
     \<and> (text_given (lq_categoryL2 query) \<longrightarrow> lq_categoryL2 query = p_categoryL2 p)
     \<and> (lq_conditionGrade query \<noteq> None \<longrightarrow> lq_conditionGrade query = p_conditionGrade p)
     \<and> (text_given (lq_search query) \<longrightarrow>
          ilike (p_productName p) ([percent] @ or_keep (lq_search query) '''' @ [percent]))"

definition listPassports :: "passport_query \<Rightarrow> uuid \<Rightarrow> trace_db \<Rightarrow> passport list \<times> nat" where
  "listPassports query orgId db =
     (let found = filter (passport_matches query orgId) (materialPassports db)
      in (page_of (lq_page query) (lq_limit query) (sort_key (\<lambda>p. - p_createdAt p) found), length found))"

subsection \<open>Verification\<close>

record integrity_result =
  ir_match :: bool
  ir_pending :: bool
  ir_recomputedHash :: string
  ir_storedHash :: "string option"

definition verifyPassportIntegrity ::
  "api_env \<Rightarrow> uuid \<Rightarrow> passport_viewer option \<Rightarrow> trace_db \<Rightarrow> integrity_result outcome" where
  "verifyPassportIntegrity env i viewer db =
     (case loadVisiblePassport i viewer db of
        Inl e \<Rightarrow> Inl e
      | Inr p \<Rightarrow>
          let recomputedHash = fingerprint env p; storedHash = p_blockchainPassportHash p in
          Inr \<lparr> ir_match = (storedHash \<noteq> None \<and> Some recomputedHash = storedHash),
                ir_pending = (storedHash = None), ir_recomputedHash = recomputedHash,
                ir_storedHash = storedHash \<rparr>)"

definition given :: "string option \<Rightarrow> bool" where
  "given s \<longleftrightarrow> s \<noteq> None \<and> s \<noteq> Some ''''"

text \<open>
  \<open>onchain registry i hash\<close> is what the adapter's \<open>verifyPassport\<close> answers: \<open>None\<close> when the
  node cannot be asked.
\<close>

definition verifyPassport ::
  "api_env \<Rightarrow> (string \<Rightarrow> uuid \<Rightarrow> string \<Rightarrow> bool option) \<Rightarrow> uuid \<Rightarrow> trace_db \<Rightarrow>
    (passport \<times> bool \<times> bool option) outcome" where
  "verifyPassport env onchain i db =
     (case find_passport i db of
        None \<Rightarrow> Inl (NotFoundError R_passport (Some i))
      | Some p \<Rightarrow>
          let verified = (p_blockchainTxHash p \<noteq> None \<and> p_blockchainAnchoredAt p \<noteq> None);
              onchainVerified =
                (if given (registryAddress env) \<and> given (p_blockchainPassportHash p) \<and> given (p_blockchainTxHash p)
                 then onchain (or_keep (registryAddress env) '''') i (or_keep (p_blockchainPassportHash p) '''')
                 else None)
          in Inr (p, verified, onchainVerified))"

definition getPassportVerification ::
  "api_env \<Rightarrow> (string \<Rightarrow> uuid \<Rightarrow> string \<Rightarrow> bool option) \<Rightarrow> time \<Rightarrow> uuid \<Rightarrow> passport_viewer option \<Rightarrow> trace_db \<Rightarrow>
    (passport_view \<times> bool \<times> bool option \<times> listing_summary option) outcome" where
  "getPassportVerification env onchain now i viewer db =
     (case loadVisiblePassport i viewer db of
        Inl e \<Rightarrow> Inl e
      | Inr visible \<Rightarrow>
          (case verifyPassport env onchain i db of
             Inl e \<Rightarrow> Inl e
           | Inr (p, verified, onchainVerified) \<Rightarrow>
               Inr (if seesWholePassport visible viewer then Whole p else Public_view (toPublicPassport p),
                    verified, onchainVerified, passportListing now i db)))"

datatype certificate_status = Cert_pending | Cert_verified | Cert_failed | Cert_simulated
datatype failure_reason = Onchain_mismatch | Logged_failure string

record chain_tx =
  ct_failed :: bool
  ct_blockNumber :: "int option"
  ct_blockId :: "string option"
  ct_failureReason :: "string option"
  ct_createdAt :: time
  ct_updatedAt :: time

record certificate =
  ce_passportId :: uuid
  ce_status :: certificate_status
  ce_certificateHash :: "string option"
  ce_certificateId :: "string option"
  ce_txHash :: "string option"
  ce_registeredAt :: "time option"
  ce_blockNumber :: "int option"
  ce_blockId :: "string option"
  ce_hub :: "(string \<times> string option) option"
  ce_onchainVerified :: "bool option"
  ce_failureReason :: "failure_reason option"
  ce_lastAttemptAt :: "time option"
  ce_chainId :: "string option"
  ce_networkLabel :: "string option"

definition certificate_of ::
  "api_env \<Rightarrow> chain_tx option \<Rightarrow> (string \<times> string option) option \<Rightarrow> passport \<Rightarrow> bool option \<Rightarrow> certificate" where
  "certificate_of env latest hub p onchainVerified =
     (let anchored = (p_blockchainTxHash p \<noteq> None \<and> p_blockchainAnchoredAt p \<noteq> None \<and> onchainVerified \<noteq> Some False);
          simulated = (p_blockchainTxHash p = None \<and> p_blockchainAnchoredAt p \<noteq> None
                       \<and> p_blockchainPassportHash p \<noteq> None);
          status = (if anchored then Cert_verified else if simulated then Cert_simulated
                    else if (case latest of None \<Rightarrow> False | Some t \<Rightarrow> ct_failed t) \<or> onchainVerified = Some False
                    then Cert_failed else Cert_pending)
      in \<lparr> ce_passportId = p_id p, ce_status = status, ce_certificateHash = p_blockchainPassportHash p,
           ce_certificateId = p_blockchainTxHash p, ce_txHash = p_blockchainTxHash p,
           ce_registeredAt = p_blockchainAnchoredAt p,
           ce_blockNumber = Option.bind latest ct_blockNumber, ce_blockId = Option.bind latest ct_blockId,
           ce_hub = hub, ce_onchainVerified = onchainVerified,
           ce_failureReason = (if simulated then None
             else if onchainVerified = Some False then Some Onchain_mismatch
             else map_option Logged_failure (Option.bind latest ct_failureReason)),
           ce_lastAttemptAt = map_option ct_updatedAt latest,
           ce_chainId = (if status = Cert_verified then p_blockchainChainId p else None),
           ce_networkLabel = (if status = Cert_verified \<and> given (p_blockchainChainId p)
             then networkLabel env else None) \<rparr>)"

definition getPassportCertificate ::
  "api_env \<Rightarrow> (string \<Rightarrow> uuid \<Rightarrow> string \<Rightarrow> bool option) \<Rightarrow> chain_tx option \<Rightarrow> uuid \<Rightarrow> passport_viewer option \<Rightarrow>
    trace_db \<Rightarrow> certificate outcome" where
  "getPassportCertificate env onchain latest i viewer db =
     (case loadVisiblePassport i viewer db of
        Inl e \<Rightarrow> Inl e
      | Inr q \<Rightarrow>
          (case verifyPassport env onchain i db of
             Inl e \<Rightarrow> Inl e
           | Inr (p, verified, onchainVerified) \<Rightarrow>
               Inr (certificate_of env latest
                 (map_option (\<lambda>org. (o_name org, o_blockchainAddress org)) (find_organisation (p_organisationId p) db))
                 p onchainVerified)))"

subsection \<open>History\<close>

definition PUBLIC_EVENT_DATA :: "string list" where
  "PUBLIC_EVENT_DATA = [''action'', ''bizStep'', ''disposition'', ''amendment'', ''fingerprint'', ''quantity'']"

record public_event =
  pe_eventType :: epcis_type
  pe_eventData :: "(string \<times> json) list"
  pe_blockchainTxHash :: "string option"
  pe_createdAt :: time

fun entries :: "json \<Rightarrow> (string \<times> json) list" where
  "entries (JObj kvs) = kvs"
| "entries _ = []"

definition toPublicEvent :: "passport_event \<Rightarrow> public_event" where
  "toPublicEvent e = \<lparr>
     pe_eventType = ev_eventType e,
     pe_eventData = filter (\<lambda>(k, v). k \<in> set PUBLIC_EVENT_DATA) (entries (ev_eventData e)),
     pe_blockchainTxHash = ev_blockchainTxHash e, pe_createdAt = ev_createdAt e \<rparr>"

datatype event_view = Whole_event passport_event | Public_event public_event

definition event_for :: "bool \<Rightarrow> passport_event \<Rightarrow> event_view" where
  "event_for whole e = (if whole then Whole_event e else Public_event (toPublicEvent e))"

definition getPassportHistory :: "uuid \<Rightarrow> passport_viewer option \<Rightarrow> trace_db \<Rightarrow> event_view list outcome" where
  "getPassportHistory i viewer db =
     (case loadVisiblePassport i viewer db of
        Inl e \<Rightarrow> Inl e
      | Inr p \<Rightarrow> Inr (map (event_for (seesWholePassport p viewer))
          (sort_key (\<lambda>e. - ev_createdAt e) (filter (\<lambda>e. ev_passportId e = i) (passportEvents db)))))"

subsection \<open>What outsiders learn\<close>

text \<open>
  Every column of a passport is in exactly one of the two lists, and the public view has
  the columns of the first one, each with the passport's value.
\<close>

theorem every_column_is_classified:
  "set PUBLIC_PASSPORT_FIELDS \<inter> set PRIVATE_PASSPORT_FIELDS = {}
    \<and> set PUBLIC_PASSPORT_FIELDS \<union> set PRIVATE_PASSPORT_FIELDS = UNIV
    \<and> distinct (map fst (toPublicPassport p))
    \<and> (map_of (toPublicPassport p) f = (if f \<in> set PRIVATE_PASSPORT_FIELDS then None else Some (field_value f p)))"
proof -
  have all: "f \<in> set PUBLIC_PASSPORT_FIELDS \<or> f \<in> set PRIVATE_PASSPORT_FIELDS" for f
    by (cases f) (simp_all add: PUBLIC_PASSPORT_FIELDS_def PRIVATE_PASSPORT_FIELDS_def)
  have none: "set PUBLIC_PASSPORT_FIELDS \<inter> set PRIVATE_PASSPORT_FIELDS = {}"
    by (simp add: PUBLIC_PASSPORT_FIELDS_def PRIVATE_PASSPORT_FIELDS_def)
  have look: "map_of (map (\<lambda>f. (f, g f)) fs) f = (if f \<in> set fs then Some (g f) else None)"
    for g :: "passport_field \<Rightarrow> json" and fs f by (induction fs) auto
  have "distinct PUBLIC_PASSPORT_FIELDS" by (simp add: PUBLIC_PASSPORT_FIELDS_def)
  then show ?thesis using all none by (auto simp: toPublicPassport_def comp_def look)
qed

text \<open>The fingerprint document is made of public columns.\<close>

lemma canonical_of_public:
  assumes "toPublicPassport p = toPublicPassport p'"
  shows "canonical_fields t p = canonical_fields t p'"
proof -
  have "field_value f p = field_value f p'" if "f \<in> set PUBLIC_PASSPORT_FIELDS" for f
    using assms that by (simp add: toPublicPassport_def)
  note same = this [of F_id] this [of F_organisationId] this [of F_productName] this [of F_categoryL1]
    this [of F_categoryL2] this [of F_gtin] this [of F_serialNumber] this [of F_materialComposition]
    this [of F_dimensions] this [of F_technicalSpecs] this [of F_manufacturerName]
    this [of F_countryOfOrigin] this [of F_productionDate] this [of F_gwpTotal]
    this [of F_embodiedCarbon] this [of F_recycledContent] this [of F_epdReference]
    this [of F_ceMarking] this [of F_conditionGrade] this [of F_conditionNotes]
    this [of F_deconstructionDate] this [of F_deconstructionMethod] this [of F_reclaimedBy]
    this [of F_remainingLifeEstimate] this [of F_carbonSavingsVsNew] this [of F_hazardousSubstances]
    this [of F_createdAt]
  show ?thesis using same by (simp add: canonical_fields_def PUBLIC_PASSPORT_FIELDS_def)
qed

lemma or_null_text_eq: "or_null JStr a = or_null JStr b \<Longrightarrow> a = b"
  by (auto simp: or_null_def split: option.splits)

lemma stored_hash_of_public:
  assumes "toPublicPassport p = toPublicPassport p'"
  shows "p_blockchainPassportHash p = p_blockchainPassportHash p'"
proof -
  have "field_value F_blockchainPassportHash p = field_value F_blockchainPassportHash p'"
    using assms by (simp add: toPublicPassport_def PUBLIC_PASSPORT_FIELDS_def)
  then show ?thesis by (simp add: or_null_text_eq)
qed

text \<open>
  Two passports a viewer cannot tell apart: the same when the viewer sees the whole record,
  any two drafts of another organisation, and otherwise equal in the public columns.
\<close>

definition alike :: "passport_viewer option \<Rightarrow> passport \<Rightarrow> passport \<Rightarrow> bool" where
  "alike viewer p p' \<longleftrightarrow> p_id p' = p_id p \<and> p_organisationId p' = p_organisationId p
     \<and> (p_status p' = P_draft \<longleftrightarrow> p_status p = P_draft)
     \<and> (if p_status p = P_draft \<and> Option.bind viewer pv_organisationId \<noteq> Some (p_organisationId p) then True
        else if seesWholePassport p viewer then p' = p
        else toPublicPassport p' = toPublicPassport p)"

definition alike_event :: "passport_viewer option \<Rightarrow> trace_db \<Rightarrow> passport_event \<Rightarrow> passport_event \<Rightarrow> bool" where
  "alike_event viewer db e e' \<longleftrightarrow> ev_passportId e' = ev_passportId e \<and> ev_createdAt e' = ev_createdAt e
     \<and> (case find_passport (ev_passportId e) db of None \<Rightarrow> True
        | Some p \<Rightarrow> if seesWholePassport p viewer then e' = e else toPublicEvent e' = toPublicEvent e)"

lemma find_alike:
  assumes "list_all2 (alike viewer) ps ps'"
  shows "(find_row p_id i ps = None \<and> find_row p_id i ps' = None)
    \<or> (\<exists>p p'. find_row p_id i ps = Some p \<and> find_row p_id i ps' = Some p' \<and> alike viewer p p')"
  using assms
proof (induction rule: list_all2_induct)
  case (Cons p ps p' ps')
  then show ?case by (auto simp: alike_def)
qed simp

lemma load_alike:
  assumes "list_all2 (alike viewer) (materialPassports db) (materialPassports db')"
  shows "(\<exists>e. loadVisiblePassport i viewer db = Inl e \<and> loadVisiblePassport i viewer db' = Inl e)
    \<or> (\<exists>p p'. find_passport i db = Some p \<and> loadVisiblePassport i viewer db = Inr p
        \<and> loadVisiblePassport i viewer db' = Inr p' \<and> seesWholePassport p' viewer = seesWholePassport p viewer
        \<and> (if seesWholePassport p viewer then p' = p else toPublicPassport p' = toPublicPassport p))"
  using find_alike [OF assms, of i]
proof (elim disjE exE conjE, goal_cases)
  case 1
  then show ?case by (simp add: loadVisiblePassport_def)
next
  case (2 p p')
  have "seesWholePassport p' viewer = seesWholePassport p viewer"
  proof -
    have "p_organisationId p' = p_organisationId p" using 2(3) by (simp add: alike_def)
    then show ?thesis by (simp only: seesWholePassport_def)
  qed
  then show ?case
    using 2 by (cases "p_status p = P_draft \<and> Option.bind viewer pv_organisationId \<noteq> Some (p_organisationId p)")
      (auto simp: loadVisiblePassport_def alike_def)
qed

lemma sort_related:
  fixes key :: "'a \<Rightarrow> int"
  assumes "list_all2 R xs ys" and "\<And>x y. R x y \<Longrightarrow> key x = key y"
  shows "list_all2 R (sort_key key xs) (sort_key key ys)"
proof -
  have ins: "list_all2 R (insort_key key x as) (insort_key key y bs)" if "list_all2 R as bs" "R x y" for x y as bs
    using that(1)
  proof (induction rule: list_all2_induct)
    case (Cons a as b bs)
    then show ?case using that(2) assms(2) [of x y] assms(2) [of a b] by auto
  qed (simp add: that(2))
  show ?thesis using assms(1) by (induction rule: list_all2_induct) (simp_all add: ins)
qed

lemma filter_related:
  assumes "list_all2 R xs ys" and "\<And>x y. R x y \<Longrightarrow> P x = P y"
  shows "list_all2 (\<lambda>x y. R x y \<and> P x) (filter P xs) (filter P ys)"
  using assms(1) by (induction rule: list_all2_induct) (auto simp: assms(2))

lemma map_related: "list_all2 (\<lambda>x y. f x = f y) xs ys \<Longrightarrow> map f xs = map f ys"
  by (induction rule: list_all2_induct) auto


subsection \<open>Verification and counts\<close>


text \<open>
  The certificate claims no more than there is. It says "verified" exactly when a
  transaction and its date are recorded and the chain did not contradict the fingerprint;
  a record that was only simulated carries no transaction, no chain or network name, no
  on-chain verdict and no failure; a mismatch is reported only for a passport whose
  transaction exists and which the chain was asked about.
\<close>

theorem certificates_claim_no_more_than_there_is:
  assumes "getPassportCertificate env onchain latest i viewer db = Inr c"
  shows "\<exists>p. find_passport i db = Some p
    \<and> (ce_status c = Cert_verified \<longleftrightarrow> p_blockchainTxHash p \<noteq> None \<and> p_blockchainAnchoredAt p \<noteq> None
        \<and> ce_onchainVerified c \<noteq> Some False)
    \<and> (ce_status c = Cert_simulated \<longrightarrow> ce_txHash c = None \<and> ce_chainId c = None \<and> ce_networkLabel c = None
        \<and> ce_onchainVerified c = None \<and> ce_failureReason c = None \<and> ce_certificateHash c \<noteq> None)
    \<and> (ce_failureReason c = Some Onchain_mismatch \<longrightarrow> given (p_blockchainTxHash p) \<and> given (registryAddress env)
        \<and> onchain (or_keep (registryAddress env) '''') i (or_keep (p_blockchainPassportHash p) '''') = Some False)
    \<and> (ce_networkLabel c \<noteq> None \<longrightarrow> ce_status c = Cert_verified)"
proof -
  obtain p verified ov where v: "verifyPassport env onchain i db = Inr (p, verified, ov)"
    and c: "c = certificate_of env latest
        (map_option (\<lambda>org. (o_name org, o_blockchainAddress org)) (find_organisation (p_organisationId p) db)) p ov"
    using assms by (auto simp: getPassportCertificate_def split: sum.splits)
  have p: "find_passport i db = Some p" and ov: "ov = (if given (registryAddress env)
        \<and> given (p_blockchainPassportHash p) \<and> given (p_blockchainTxHash p)
      then onchain (or_keep (registryAddress env) '''') i (or_keep (p_blockchainPassportHash p) '''') else None)"
    using v by (auto simp: verifyPassport_def Let_def split: option.splits)
  have none: "ov = None" if "p_blockchainTxHash p = None" using ov that by (simp add: given_def)
  have asked: "given (p_blockchainTxHash p) \<and> given (registryAddress env)
      \<and> onchain (or_keep (registryAddress env) '''') i (or_keep (p_blockchainPassportHash p) '''') = Some False"
    if "ov = Some False" using ov that by (auto split: if_splits)
  show ?thesis
    using p none asked by (auto simp: c certificate_of_def Let_def)
qed

lemma sum_map_push:
  "sum_list (map (\<lambda>(k, vs). length (filter P vs)) (map_push k v m))
    = sum_list (map (\<lambda>(k, vs). length (filter P vs)) m) + (if P v then 1 else 0)"
  by (induction k v m rule: map_push.induct) auto

lemma sum_groups:
  "sum_list (map (\<lambda>(k, vs). length (filter P vs)) (group_rows key rows)) = length (filter P rows)"
proof -
  have "sum_list (map (\<lambda>(k, vs). length (filter P vs)) (foldl (\<lambda>m r. map_push (key r) r m) m rows))
      = sum_list (map (\<lambda>(k, vs). length (filter P vs)) m) + length (filter P rows)" for m
    by (induction rows arbitrary: m) (auto simp: sum_map_push)
  then show ?thesis by (simp add: group_rows_def)
qed

definition any_passport :: "nat \<Rightarrow> nat \<Rightarrow> passport_query" where
  "any_passport page limit = \<lparr> lq_status = None, lq_categoryL1 = None, lq_categoryL2 = None,
     lq_conditionGrade = None, lq_search = None, lq_page = page, lq_limit = limit \<rparr>"

text \<open>
  The dashboard counts every passport of the organisation once: its total is the number of
  rows and the total of the unfiltered list, the count shown for a status is the number of
  rows with it, and the anchored and waiting counts are those of the rows themselves.
\<close>

theorem stats_count_every_passport:
  "ps_total (getPassportStats orgId db) = length (filter (\<lambda>p. p_organisationId p = orgId) (materialPassports db))
    \<and> ps_total (getPassportStats orgId db) = snd (listPassports (any_passport page limit) orgId db)
    \<and> (map_of (ps_byStatus (getPassportStats orgId db)) st
        \<in> {None, Some (length (filter (\<lambda>p. p_organisationId p = orgId \<and> p_status p = st) (materialPassports db)))})
    \<and> ps_anchored (getPassportStats orgId db)
        = length (filter (\<lambda>p. p_organisationId p = orgId \<and> p_blockchainTxHash p \<noteq> None) (materialPassports db))
    \<and> ps_awaitingAnchor (getPassportStats orgId db)
        = length (filter (\<lambda>p. p_organisationId p = orgId \<and> p_blockchainPassportHash p = None \<and> p_status p \<noteq> P_draft)
            (materialPassports db))"
proof -
  let ?own = "filter (\<lambda>p. p_organisationId p = orgId) (materialPassports db)"
  have total: "ps_total (getPassportStats orgId db) = length ?own"
    using sum_groups [of "\<lambda>_. True" p_status ?own] by (simp add: getPassportStats_def status_groups_def Let_def)
  have list: "snd (listPassports (any_passport page limit) orgId db) = length ?own"
    by (simp add: listPassports_def any_passport_def passport_matches_def [abs_def] text_given_def Let_def)
  have group: "vs = filter (\<lambda>p. p_organisationId p = orgId \<and> p_status p = st) (materialPassports db)"
    if "(st, vs) \<in> set (status_groups orgId db)" for st vs
    using group_rows_entry [OF that [unfolded status_groups_def]] by simp
  have by_status: "map_of (ps_byStatus (getPassportStats orgId db)) st
        \<in> {None, Some (length (filter (\<lambda>p. p_organisationId p = orgId \<and> p_status p = st) (materialPassports db)))}"
    by (cases "map_of (ps_byStatus (getPassportStats orgId db)) st")
      (auto simp: getPassportStats_def Let_def dest!: map_of_SomeD group)
  have "ps_anchored (getPassportStats orgId db)
        = length (filter (\<lambda>p. p_organisationId p = orgId \<and> p_blockchainTxHash p \<noteq> None) (materialPassports db))"
    using sum_groups [of "\<lambda>p. p_blockchainTxHash p \<noteq> None" p_status ?own]
    by (simp add: getPassportStats_def status_groups_def Let_def)
  moreover have "ps_awaitingAnchor (getPassportStats orgId db)
        = length (filter (\<lambda>p. p_organisationId p = orgId \<and> p_blockchainPassportHash p = None \<and> p_status p \<noteq> P_draft)
            (materialPassports db))"
    using sum_groups [of "\<lambda>p. p_blockchainPassportHash p = None \<and> p_status p \<noteq> P_draft" p_status ?own]
    by (simp add: getPassportStats_def status_groups_def Let_def)
  ultimately show ?thesis using total list by_status by simp
qed

subsection \<open>Witnesses\<close>

definition a_stranger :: "passport_viewer option" where
  "a_stranger = Some \<lparr>pv_role = Buyer, pv_organisationId = None\<rparr>"

definition secret_db :: trace_db where
  "secret_db = sample_db\<lparr> materialPassports := [sample_passport\<lparr>p_customAttributes := JObj [(''cost'', JInt 4)],
      p_registeredBy := Some 99, p_updatedAt := 7\<rparr>] \<rparr>"


definition anchored_db :: "string \<Rightarrow> trace_db" where
  "anchored_db name = sample_db\<lparr> materialPassports := [sample_passport\<lparr>p_productName := name,
      p_blockchainPassportHash := Some (fingerprint sample_env sample_passport)\<rparr>] \<rparr>"


theorem certificates_claim_no_more_than_there_is_witness:
  "\<exists>c. getPassportCertificate sample_env (\<lambda>_ _ _. None) None 10 None sample_db = Inr c \<and> ce_status c \<noteq> Cert_verified"
proof -
  have p: "find_passport 10 sample_db = Some sample_passport" "p_status sample_passport \<noteq> P_draft"
    "p_blockchainTxHash sample_passport = None"
    by (simp_all add: sample_db_def) (simp_all add: sample_passport_def)
  then obtain c where c: "getPassportCertificate sample_env (\<lambda>_ _ _. None) None 10 None sample_db = Inr c"
    by (simp add: getPassportCertificate_def loadVisiblePassport_def verifyPassport_def Let_def)
  from certificates_claim_no_more_than_there_is [OF c] show ?thesis using c p by auto
qed

end
