(* ===== verification/Platform_Runs.thy ===== *)
theory Platform_Runs
  imports Marketplace_Reads Access_Requests Passport_Reads
begin

text \<open>
  The components together: every request of the API that changes state, as one call on the
  whole platform (the tables and the files), and what holds after any run of them.

  \<open>platform_ok\<close> joins the invariants of the components. A marketplace request changes only
  the status of passports; a passport request changes no status that the marketplace relies
  on; accounts and requests are apart from both. These frame facts are what this theory adds
  to the lemmas of the components.
\<close>

subsection \<open>What a marketplace write leaves alone\<close>

definition kept :: "api_env \<Rightarrow> trace_db \<Rightarrow> trace_db \<Rightarrow> bool" where
  "kept env db db' \<longleftrightarrow> organisations db' = organisations db \<and> users db' = users db
     \<and> betaAccessRequests db' = betaAccessRequests db \<and> qualityReports db' = qualityReports db
     \<and> storedObjects db' = storedObjects db \<and> anchorQueue db' = anchorQueue db
     \<and> (records_ok env db \<longrightarrow> records_ok env db')"

lemma kept_refl [simp]: "kept env db db" by (simp add: kept_def)

lemma kept_trans: "kept env a b \<Longrightarrow> kept env b c \<Longrightarrow> kept env a c"
  by (simp add: kept_def)

lemma kept_writes [simp]:
  "kept env a (listings_update f db) = kept env a db"
  "kept env a (transactions_update g db) = kept env a db"
  "kept env a (passportEvents_update h db) = kept env a db"
  "kept env a (orderEvents_update k db) = kept env a db"
  by (simp_all add: kept_def records_ok_def)

lemma fits_status [simp]: "fits env (p\<lparr>p_status := s, p_updatedAt := n\<rparr>) = fits env p"
  by (simp add: fits_def)

lemma kept_status: "kept env a db \<Longrightarrow> kept env a (set_passport_status i s n db)"
proof -
  assume k: "kept env a db"
  have "records_ok env db \<Longrightarrow> records_ok env (set_passport_status i s n db)"
    unfolding set_passport_status_def update_passport_def [symmetric]
    by (rule records_update) simp_all
  then show ?thesis using k by (simp add: kept_def set_passport_status_def)
qed

lemma kept_settle: "settleLot l q ch reopen now db = Inr (x, db') \<Longrightarrow> kept env db db'"
  by (auto simp: settleLot_def update_listing_row_def Let_def intro!: kept_status
      split: option.splits if_splits)

lemma kept_create: "createListing input i s org now db = Inr (x, db') \<Longrightarrow> kept env db db'"
  by (auto simp: createListing_def createListing_write_def insert_listing_def Let_def intro!: kept_status
      split: sum.splits if_splits)

lemma kept_edit: "updateListing i input org now db = Inr (x, db') \<Longrightarrow> kept env db db'"
  by (auto simp: updateListing_def updateListing_tx_def split: sum.splits prod.splits dest: kept_settle)

lemma kept_cancel: "cancelListing i org now db = Inr (x, db') \<Longrightarrow> kept env db db'"
  by (auto simp: cancelListing_def cancelListing_write_def update_listing_row_def intro!: kept_status
      split: sum.splits option.splits if_splits)

lemma kept_offer:
  assumes "makeOffer input buyer keep newId now db = Inr (x, db')"
  shows "kept env db db'"
proof -
  obtain l where l: "find_listing (mo_listingId input) db = Some l"
    using assms by (cases "find_listing (mo_listingId input) db") (simp_all add: makeOffer_def)
  obtain u where u: "listing_open_to buyer l now = Inr u"
    using assms l by (cases "listing_open_to buyer l now") (simp_all add: makeOffer_def)
  obtain q where q: "offer_quantity input l
      (orderableQuantity (l_quantityAvailable l) (offered_attributes l db) keep) = Inr q"
    using assms l u by (cases "offer_quantity input l
      (orderableQuantity (l_quantityAvailable l) (offered_attributes l db) keep)")
      (simp_all add: makeOffer_def offered_attributes_def Let_def)
  let ?ev = "placed_event newId buyer (mo_notes input) now"
  let ?t = "new_order newId l buyer q (mo_notes input) now"
  have eq: "makeOffer input buyer keep newId now db = (case insert_order ?t db of Inl e \<Rightarrow> Inl e
      | Inr (t, d) \<Rightarrow> case settleLot l (l_quantityAvailable l - q) no_changes False now
          (orderEvents_update (insert_row ?ev) d) of Inl e \<Rightarrow> Inl e | Inr (_, d2) \<Rightarrow> Inr (t, d2))"
    using l u q unfolding makeOffer_def offered_attributes_def Let_def by simp
  obtain t d where t: "insert_order ?t db = Inr (t, d)"
    using assms unfolding eq by (cases "insert_order ?t db") (simp, force)
  obtain r where "settleLot l (l_quantityAvailable l - q) no_changes False now
      (orderEvents_update (insert_row ?ev) d) = Inr (r, db')"
    using assms unfolding eq t sum.case prod.case
    by (cases "settleLot l (l_quantityAvailable l - q) no_changes False now
      (orderEvents_update (insert_row ?ev) d)") (simp, force)
  then have "kept env (orderEvents_update (insert_row ?ev) d) db'" by (rule kept_settle)
  moreover have "kept env db (orderEvents_update (insert_row ?ev) d)"
    using t by (auto simp: insert_order_def split: if_splits)
  ultimately show ?thesis by (rule kept_trans [rotated])
qed

lemma kept_step: "applyStep t l step db = Inr (x, db') \<Longrightarrow> kept env db db'"
proof -
  assume a: "applyStep t l step db = Inr (x, db')"
  obtain u d where u: "update_order_row t step db = Inr (u, d)"
    using a by (cases "update_order_row t step db") (auto simp: applyStep_def)
  then have d: "kept env db d"
    by (auto simp: update_order_row_def split: option.splits if_splits)
  let ?q = "min (l_quantity l) (l_quantityAvailable l + (if st_to step = T_cancelled then t_quantity t else 0))"
  obtain r d2 where s: "settleLot l ?q no_changes False (st_now step) d = Inr (r, d2)"
    using a u by (cases "settleLot l ?q no_changes False (st_now step) d") (auto simp: applyStep_def Let_def)
  have "kept env db d2" using d kept_settle [OF s] kept_trans by blast
  then show ?thesis using a u s by (auto simp: applyStep_def Let_def)
qed

lemma kept_close: "closeIfOverdue i now db = Inr (x, db') \<Longrightarrow> kept env db db'"
  by (auto simp: closeIfOverdue_def split: option.splits sum.splits dest: kept_step)

lemma kept_close_all: "close_all is now res db = (r, db') \<Longrightarrow> kept env db db'"
proof (induction "is" arbitrary: res db)
  case Nil
  then show ?case by simp
next
  case (Cons i "is")
  then show ?case
    by (cases "closeIfOverdue i now db") (auto dest: kept_close intro: kept_trans)
qed

lemma kept_expire: "expire_listing i now db = Inr (x, db') \<Longrightarrow> kept env db db'"
  by (auto simp: expire_listing_def update_listing_row_def intro!: kept_status
      split: option.splits sum.splits if_splits)

lemma kept_expire_all: "expire_all is now res db = (r, db') \<Longrightarrow> kept env db db'"
proof (induction "is" arbitrary: res db)
  case Nil
  then show ?case by simp
next
  case (Cons i "is")
  then show ?case
    by (cases "expire_listing i now db") (auto dest: kept_expire intro: kept_trans split: if_splits)
qed

lemma kept_action: "kept env db (snd (updateTransaction i input viewer now db))"
proof (cases "closeIfOverdue i now db")
  case (Inl e)
  then show ?thesis by (simp add: updateTransaction_def)
next
  case (Inr r)
  obtain a d where r: "r = (a, d)" by (cases r)
  have d: "kept env db d" using kept_close Inr r by simp
  have "kept env d d2" if "updateTransaction_tx i input viewer a now d = Inr (t, d2)" for t d2
    using that by (auto simp: updateTransaction_tx_def Let_def split: option.splits if_splits timed_action.splits
        dest: kept_step)
  then show ?thesis
    using Inr r d kept_trans [OF d] by (cases "updateTransaction_tx i input viewer a now d")
      (auto simp: updateTransaction_def)
qed

lemma kept_sweep: "kept env db (snd (sweepOrderLifecycle now db))"
proof -
  obtain r d where c: "close_all (due_orders now db) now
      \<lparr> sw_lapsed = 0, sw_completed = 0, sw_expiredListings = 0 \<rparr> db = (r, d)" by fastforce
  then have d: "kept env db d" by (rule kept_close_all)
  show ?thesis
  proof (cases r)
    case (Inl e)
    then show ?thesis using c d by (simp add: sweepOrderLifecycle_def)
  next
    case (Inr res)
    obtain r2 d2 where e: "expire_all (stale_listings now d) now res d = (r2, d2)" by fastforce
    then have "kept env d d2" by (rule kept_expire_all)
    then show ?thesis using c e Inr kept_trans [OF d] by (simp add: sweepOrderLifecycle_def)
  qed
qed

lemma kept_list: "kept env db (snd (listUserTransactions viewer now db))"
  by (auto simp: listUserTransactions_def Let_def split: prod.splits sum.splits intro: kept_close_all)

subsection \<open>What a passport write leaves alone\<close>

definition statuses_kept :: "trace_db \<Rightarrow> trace_db \<Rightarrow> bool" where
  "statuses_kept db db' \<longleftrightarrow> (\<forall>i p. find_passport i db = Some p \<longrightarrow>
     (\<exists>p'. find_passport i db' = Some p' \<and> p_status p' = p_status p))"

lemma statuses_kept_refl [simp]: "statuses_kept db db" by (simp add: statuses_kept_def)

lemma statuses_kept_row:
  assumes "find_passport i db = Some p" and "find_passport i db' = Some q" and "p_status q = p_status p"
    and "\<forall>j. j \<noteq> i \<longrightarrow> find_passport j db' = find_passport j db"
  shows "statuses_kept db db'"
  unfolding statuses_kept_def using assms by (metis option.inject)

lemma market_ok_passports:
  assumes ok: "market_ok db" and same: "others_same db db'"
    and ids: "distinct (map p_id (materialPassports db'))" and st: "statuses_kept db db'"
  shows "market_ok db'"
proof -
  have eq: "listings db' = listings db" "transactions db' = transactions db"
    using same by (simp_all add: others_same_def)
  have counts: "openOrders i db' = openOrders i db" "taken i db' = taken i db" for i
    by (simp_all add: openOrders_def taken_def eq)
  have "passport_agrees db' l" if agrees: "passport_agrees db l" for l
  proof (cases "live l")
    case True
    then obtain p where "find_passport (l_passportId l) db = Some p"
      "passport_status_for_lot (l_status l) = Some (p_status p)"
      using agrees by (cases "l_status l") (auto simp: passport_agrees_def live_def)
    moreover from this obtain p' where "find_passport (l_passportId l) db' = Some p'" "p_status p' = p_status p"
      using st unfolding statuses_kept_def by blast
    ultimately show ?thesis by (simp add: passport_agrees_def)
  next
    case False
    then show ?thesis by (simp add: passport_agrees_def)
  qed
  then have "listing_ok db l \<Longrightarrow> listing_ok db' l" for l
    by (simp add: listing_ok_def stock_ok_def status_ok_def counts)
  moreover have "order_ok db' t = order_ok db t" for t by (simp add: order_ok_def eq)
  moreover have "exclusive db' = exclusive db" by (simp add: exclusive_def eq)
  moreover have "keys_ok db'" using ok ids by (simp add: market_ok_def keys_ok_def eq)
  ultimately show ?thesis using ok unfolding market_ok_def eq by blast
qed

lemma market_ok_same:
  assumes "same_market db db'" and "market_ok db"
  shows "market_ok db'"
proof -
  have eq: "listings db' = listings db" "transactions db' = transactions db"
    "materialPassports db' = materialPassports db"
    using assms(1) by (simp_all add: same_market_def)
  have "openOrders i db' = openOrders i db" "taken i db' = taken i db" for i
    by (simp_all add: openOrders_def taken_def eq)
  then have "listing_ok db' l = listing_ok db l" for l
    by (simp add: listing_ok_def stock_ok_def status_ok_def passport_agrees_def eq)
  moreover have "order_ok db' t = order_ok db t" for t by (simp add: order_ok_def eq)
  moreover have "exclusive db' = exclusive db" by (simp add: exclusive_def eq)
  moreover have "keys_ok db' = keys_ok db" by (simp add: keys_ok_def eq)
  ultimately show ?thesis using assms(2) unfolding market_ok_def eq by blast
qed

lemma access_ok_others: "others_same db db' \<Longrightarrow> access_ok db \<Longrightarrow> access_ok db'"
  by (simp add: others_same_def access_ok_def)

lemma access_ok_kept: "kept env db db' \<Longrightarrow> access_ok db \<Longrightarrow> access_ok db'"
  by (simp add: kept_def access_ok_def)

subsection \<open>The invariant of the platform\<close>

definition platform_ok :: "api_env \<Rightarrow> trace_db \<Rightarrow> bool" where
  "platform_ok env db \<longleftrightarrow> market_ok db \<and> access_ok db \<and> records_ok env db"

lemma platform_by_market: "platform_ok env db \<Longrightarrow> kept env db db' \<Longrightarrow> market_ok db' \<Longrightarrow> platform_ok env db'"
  using access_ok_kept by (auto simp: platform_ok_def kept_def)

lemma platform_by_passports:
  "platform_ok env db \<Longrightarrow> others_same db db' \<Longrightarrow> statuses_kept db db' \<Longrightarrow> records_ok env db' \<Longrightarrow> platform_ok env db'"
  using market_ok_passports access_ok_others by (auto simp: platform_ok_def records_ok_def)

lemma platform_by_access:
  "platform_ok env db \<Longrightarrow> same_market db db' \<Longrightarrow> access_ok db' \<Longrightarrow> platform_ok env db'"
  using market_ok_same records_same [of db' db env] by (auto simp: platform_ok_def same_market_def)

subsection \<open>The calls\<close>

text \<open>
  The arguments are what the route has checked: a body that passed its schema (at the time
  \<open>sent\<close>, where the schema looks at the clock), the session's user, the clock of the handler
  and the ids the database will draw.
\<close>

text \<open>The deployment: libraries and configuration, the same for every call.\<close>

record platform =
  pf_api :: api_env
  pf_wallet :: wallet_env
  pf_hash :: "string \<Rightarrow> string"
  pf_compare :: "string \<Rightarrow> string \<Rightarrow> bool"
  pf_keepLastCuratedUnit :: bool

datatype call =
  Create_listing create_listing_input uuid uuid uuid time time
| Update_listing uuid update_listing_input uuid time time
| Cancel_listing uuid uuid time
| Make_offer make_offer_input viewer uuid time
| Update_transaction uuid update_transaction_input viewer time
| Sweep time
| List_orders viewer time
| Orders_seen viewer time
| Create_passport time uuid passport_input uuid uuid
| Update_passport time uuid passport_input uuid uuid
| Upload_photo time int uuid string string uuid
| File_report time uuid report_input reporter
| Dispute_report uuid user_role "uuid option"
| Register register_input uuid time
| Login login_input time
| Submit_request uuid user_role create_request_input uuid time
| Edit_request uuid update_pending_input time
| Approve_request uuid uuid approve_input uuid time
| Update_access uuid uuid approve_input uuid time
| Reject_request uuid uuid "string option" time
| Update_organisation uuid string bool time

text \<open>An answer is the error, if any; the files change only with the passports.\<close>

definition answer_of :: "'a outcome \<Rightarrow> trace_error option" where
  "answer_of r = (case r of Inl e \<Rightarrow> Some e | Inr x \<Rightarrow> None)"

definition in_db :: "files \<Rightarrow> ('a outcome \<times> trace_db) \<Rightarrow> trace_error option \<times> state" where
  "in_db st r = (answer_of (fst r), (st, snd r))"

definition atomic :: "trace_db \<Rightarrow> ('a \<times> trace_db) outcome \<Rightarrow> 'a outcome \<times> trace_db" where
  "atomic db r = (case r of Inl e \<Rightarrow> (Inl e, db) | Inr (x, db') \<Rightarrow> (Inr x, db'))"

definition with_files :: "('a outcome \<times> state) \<Rightarrow> trace_error option \<times> state" where
  "with_files r = (answer_of (fst r), snd r)"

fun perform :: "platform \<Rightarrow> state \<Rightarrow> call \<Rightarrow> trace_error option \<times> state" where
  "perform pf (st, db) (Create_listing input i s org sent now) = in_db st (atomic db (createListing input i s org now db))"
| "perform pf (st, db) (Update_listing i input org sent now) = in_db st (atomic db (updateListing i input org now db))"
| "perform pf (st, db) (Cancel_listing i org now) = in_db st (atomic db (cancelListing i org now db))"
| "perform pf (st, db) (Make_offer input v i now) =
     in_db st (atomic db (makeOffer input v (pf_keepLastCuratedUnit pf) i now db))"
| "perform pf (st, db) (Update_transaction i input v now) = in_db st (updateTransaction i input v now db)"
| "perform pf (st, db) (Sweep now) = in_db st (sweepOrderLifecycle now db)"
| "perform pf (st, db) (List_orders v now) = in_db st (listUserTransactions v now db)"
| "perform pf (st, db) (Orders_seen v now) = (None, (st, markOrdersSeen v now db))"
| "perform pf s (Create_passport now i input u org) = with_files (createPassport (pf_api pf) now i input u org s)"
| "perform pf (st, db) (Update_passport now i input u org) = in_db st (updatePassport (pf_api pf) now i input u org db)"
| "perform pf s (Upload_photo now free i salt buffer org) =
     with_files (uploadPassportPhoto (pf_api pf) now free i salt buffer org s)"
| "perform pf (st, db) (File_report now i input rep) = in_db st (createQualityReport (pf_api pf) now i input rep db)"
| "perform pf (st, db) (Dispute_report i r org) = in_db st (disputeReport i r org db)"
| "perform pf (st, db) (Register input i now) = in_db st (atomic db (registerUser (pf_hash pf) input i now db))"
| "perform pf (st, db) (Login input now) = in_db st (loginUser (pf_compare pf) input now db)"
| "perform pf (st, db) (Submit_request u r input i now) = in_db st (atomic db (submitAccessRequest u r input i now db))"
| "perform pf (st, db) (Edit_request i input now) = in_db st (atomic db (updatePendingAccessRequest i input now db))"
| "perform pf (st, db) (Approve_request i rv input j now) =
     in_db st (atomic db (approveAccessRequest (pf_wallet pf) i rv input j now db))"
| "perform pf (st, db) (Update_access i rv input j now) =
     in_db st (atomic db (updateApprovedUserAccess (pf_wallet pf) i rv input j now db))"
| "perform pf (st, db) (Reject_request i rv why now) = in_db st (atomic db (rejectAccessRequest i rv why now db))"
| "perform pf (st, db) (Update_organisation i name verified now) =
     in_db st (atomic db (updateAccessRequestOrganisation i name verified now db))"

definition platform_step :: "platform \<Rightarrow> state \<Rightarrow> call \<Rightarrow> state" where
  "platform_step pf s c = snd (perform pf s c)"

text \<open>
  A call is admissible when its body passed the schema of its route and the ids drawn for new
  rows are new (and, for the slug of a new organisation, there are not yet \<open>10 ^ 59\<close> of them).
\<close>

fun admissible_call :: "trace_db \<Rightarrow> call \<Rightarrow> bool" where
  "admissible_call db (Create_listing input i s org sent now) =
     (CreateListingSchema sent input \<and> find_listing i db = None)"
| "admissible_call db (Update_listing i input org sent now) = UpdateListingSchema sent input"
| "admissible_call db (Make_offer input v i now) = (MakeOfferSchema input \<and> find_order i db = None)"
| "admissible_call db (Create_passport now i input u org) = (find_passport i db = None)"
| "admissible_call db (Register input i now) = (find_user i db = None)"
| "admissible_call db (Submit_request u r input i now) = (find_request i db = None)"
| "admissible_call db (Approve_request i rv input j now) =
     (find_organisation j db = None \<and> length (organisations db) < 10 ^ 59)"
| "admissible_call db (Update_access i rv input j now) =
     (find_organisation j db = None \<and> length (organisations db) < 10 ^ 59)"
| "admissible_call db _ = True"

fun admissible_run :: "platform \<Rightarrow> state \<Rightarrow> call list \<Rightarrow> bool" where
  "admissible_run pf s [] = True"
| "admissible_run pf s (c # cs) = (admissible_call (snd s) c \<and> admissible_run pf (platform_step pf s c) cs)"

subsection \<open>Every call keeps the invariant\<close>

definition good :: "api_env \<Rightarrow> trace_error option \<times> state \<Rightarrow> bool" where
  "good env r \<longleftrightarrow> platform_ok env (snd (snd r)) \<and> (\<forall>e. fst r = Some e \<longrightarrow> isTraceError e)"

lemma good_atomic:
  assumes "platform_ok env db"
    and "(\<exists>e. r = Inl e \<and> isTraceError e) \<or> (\<exists>x db'. r = Inr (x, db') \<and> platform_ok env db')"
  shows "good env (in_db st (atomic db r))"
  using assms by (auto simp: good_def in_db_def atomic_def answer_of_def)

lemma good_listing_calls:
  assumes ok: "platform_ok env db"
  shows "CreateListingSchema sent input \<Longrightarrow> find_listing i db = None \<Longrightarrow>
      good env (in_db st (atomic db (createListing input i s org now db)))"
    and "UpdateListingSchema sent input' \<Longrightarrow> good env (in_db st (atomic db (updateListing i input' org now db)))"
    and "good env (in_db st (atomic db (cancelListing i org now db)))"
proof -
  have m: "market_ok db" using ok by (simp add: platform_ok_def)
  show "good env (in_db st (atomic db (createListing input i s org now db)))"
    if "CreateListingSchema sent input" "find_listing i db = None"
    using createListing_ok [OF m that, of s org now] platform_by_market [OF ok] kept_create
    by (intro good_atomic [OF ok]) blast
  show "good env (in_db st (atomic db (updateListing i input' org now db)))" if "UpdateListingSchema sent input'"
    using updateListing_ok [OF m that, of i org now] platform_by_market [OF ok] kept_edit
    by (intro good_atomic [OF ok]) blast
  show "good env (in_db st (atomic db (cancelListing i org now db)))"
    using cancelListing_ok [OF m, of i org now] platform_by_market [OF ok] kept_cancel
    by (intro good_atomic [OF ok]) blast
qed

lemma good_order_calls:
  assumes ok: "platform_ok env db"
  shows "MakeOfferSchema input \<Longrightarrow> find_order i db = None \<Longrightarrow>
      good env (in_db st (atomic db (makeOffer input v keep i now db)))"
    and "good env (in_db st (updateTransaction i input' v now db))"
    and "good env (in_db st (sweepOrderLifecycle now db))"
    and "good env (in_db st (listUserTransactions v now db))"
proof -
  have m: "market_ok db" using ok by (simp add: platform_ok_def)
  show "good env (in_db st (atomic db (makeOffer input v keep i now db)))"
    if "MakeOfferSchema input" "find_order i db = None"
    using makeOffer_cases [OF m that, of v keep now] platform_by_market [OF ok] kept_offer
    by (intro good_atomic [OF ok]) blast
  show "good env (in_db st (updateTransaction i input' v now db))"
    using updateTransaction_keeps [OF m, of i input' v now] platform_by_market [OF ok kept_action]
    by (auto simp: good_def in_db_def answer_of_def split: sum.splits)
  show "good env (in_db st (sweepOrderLifecycle now db))"
    using sweep_ok [OF m, of now] platform_by_market [OF ok kept_sweep, of now]
    by (auto simp: good_def in_db_def answer_of_def)
  obtain rows db1 where "listUserTransactions v now db = (Inr rows, db1)" "market_ok db1"
    using listUserTransactions_cases [OF m] by metis
  then show "good env (in_db st (listUserTransactions v now db))"
    using platform_by_market [OF ok kept_list, of v now] by (auto simp: good_def in_db_def answer_of_def)
qed

lemma good_seen: "platform_ok env db \<Longrightarrow> platform_ok env (markOrdersSeen v now db)"
proof -
  assume ok: "platform_ok env db"
  have "same_market db (markOrdersSeen v now db)" by (simp add: same_market_def markOrdersSeen_def)
  moreover have "same_access db (markOrdersSeen v now db)"
    by (simp add: same_access_def markOrdersSeen_def map_update_rows who_def)
  then have "access_ok (markOrdersSeen v now db)"
    by (rule same_access_ok) (use ok in \<open>simp add: platform_ok_def\<close>)
  ultimately show ?thesis by (rule platform_by_access [OF ok])
qed

lemma good_access_calls:
  assumes ok: "platform_ok env db"
  shows "find_user i db = None \<Longrightarrow> good env (in_db st (atomic db (registerUser hash r i now db)))"
    and "find_request i db = None \<Longrightarrow> good env (in_db st (atomic db (submitAccessRequest u role c i now db)))"
    and "good env (in_db st (atomic db (updatePendingAccessRequest i p now db)))"
    and "find_organisation j db = None \<Longrightarrow> length (organisations db) < 10 ^ 59 \<Longrightarrow>
      good env (in_db st (atomic db (approveAccessRequest w i rv a j now db)))"
    and "find_organisation j db = None \<Longrightarrow> length (organisations db) < 10 ^ 59 \<Longrightarrow>
      good env (in_db st (atomic db (updateApprovedUserAccess w i rv a j now db)))"
    and "good env (in_db st (atomic db (rejectAccessRequest i rv why now db)))"
    and "good env (in_db st (atomic db (updateAccessRequestOrganisation i name verified now db)))"
proof -
  have a: "access_ok db" using ok by (simp add: platform_ok_def)
  note by_access = platform_by_access [OF ok]
  show "good env (in_db st (atomic db (registerUser hash r i now db)))" if "find_user i db = None"
    using register_ok [OF a that, of hash r now] by_access by (intro good_atomic [OF ok]) blast
  show "good env (in_db st (atomic db (submitAccessRequest u role c i now db)))" if "find_request i db = None"
    using submit_ok [OF a that, of u role c now] by_access by (intro good_atomic [OF ok]) blast
  show "good env (in_db st (atomic db (updatePendingAccessRequest i p now db)))"
    using update_pending_ok [OF a, of i p now] by_access by (intro good_atomic [OF ok]) blast
  show "good env (in_db st (atomic db (approveAccessRequest w i rv a' j now db)))"
    if "find_organisation j db = None" "length (organisations db) < 10 ^ 59" for a'
    using approve_ok [OF a that, of w i rv a' now] by_access by (intro good_atomic [OF ok]) blast
  show "good env (in_db st (atomic db (updateApprovedUserAccess w i rv a' j now db)))"
    if "find_organisation j db = None" "length (organisations db) < 10 ^ 59" for a'
    using update_approved_ok [OF a that, of w i rv a' now] by_access by (intro good_atomic [OF ok]) blast
  show "good env (in_db st (atomic db (rejectAccessRequest i rv why now db)))"
    using reject_ok [OF a, of i rv why now] by_access by (intro good_atomic [OF ok]) blast
  show "good env (in_db st (atomic db (updateAccessRequestOrganisation i name verified now db)))"
    using update_organisation_ok [OF a, of i name verified now] by_access by (intro good_atomic [OF ok]) blast
qed

lemma keeps_passport_calls:
  assumes ok: "platform_ok env (snd s)"
  shows "find_passport i (snd s) = None \<Longrightarrow> platform_ok env (snd (snd (createPassport env now i input u org s)))"
    and "platform_ok env (snd (updatePassport env now i input' u org (snd s)))"
    and "platform_ok env (snd (snd (uploadPassportPhoto env now free i salt buffer org s)))"
proof -
  have rec: "records_ok env (snd s)" using ok by (simp add: platform_ok_def)
  note by_passports = platform_by_passports [OF ok]
  show "platform_ok env (snd (snd (createPassport env now i input u org s)))" if fresh: "find_passport i (snd s) = None"
  proof -
    obtain r s' where run: "createPassport env now i input u org s = (r, s')" by (meson surj_pair)
    have "only_row env i (snd s) (snd s')" using createPassport_cases [OF run fresh] by blast
    then have o1: "others_same (snd s) (snd s')" "records_ok env (snd s')"
      and same: "\<forall>j. j \<noteq> i \<longrightarrow> find_passport j (snd s') = find_passport j (snd s)"
      using rec by (auto simp: only_row_def)
    have "statuses_kept (snd s) (snd s')"
      unfolding statuses_kept_def
    proof (intro allI impI)
      fix j p assume p: "find_passport j (snd s) = Some p"
      then have "j \<noteq> i" using fresh by auto
      then show "\<exists>p'. find_passport j (snd s') = Some p' \<and> p_status p' = p_status p" using same p by simp
    qed
    then show ?thesis using by_passports o1 run by simp
  qed
  show "platform_ok env (snd (updatePassport env now i input' u org (snd s)))"
  proof -
    obtain r db' where run: "updatePassport env now i input' u org (snd s) = (r, db')" by (meson surj_pair)
    from updatePassport_cases [OF run] show ?thesis
    proof (elim disjE exE conjE, goal_cases)
      case (1 e)
      then show ?case using ok run by simp
    next
      case (2 e p)
      then show ?case using ok run by simp
    next
      case (3 p)
      have "find_passport i (snd s) = Some p" using 3(1) by (simp add: updatePassport_check_ok)
      then have "statuses_kept (snd s) db'" by (rule statuses_kept_row [OF _ 3(4) _ 3(5)]) simp
      then show ?case using by_passports [OF 3(6)] 3(9) rec run by simp
    qed
  qed
  show "platform_ok env (snd (snd (uploadPassportPhoto env now free i salt buffer org s)))"
  proof -
    obtain r s' where run: "uploadPassportPhoto env now free i salt buffer org s = (r, s')" by (meson surj_pair)
    from uploadPassportPhoto_cases [OF run rec] show ?thesis
    proof (elim disjE exE conjE, goal_cases)
      case (1 e)
      then show ?case using ok run by simp
    next
      case (2 p normalised url)
      have "statuses_kept (snd s) (snd s')" by (rule statuses_kept_row [OF 2(1) 2(8) _ 2(9)]) simp
      then show ?case using by_passports 2 run by simp
    qed
  qed
qed

lemma report_check_result:
  "createQualityReport_check i rep db = Inr p \<Longrightarrow> find_passport (ri_passportId i) db = Some p"
  "createQualityReport_check i rep db = Inl e \<Longrightarrow> isTraceError e"
  by (auto simp: createQualityReport_check_def split: option.splits if_splits)

lemma good_report:
  assumes ok: "platform_ok env db"
  shows "good env (in_db st (createQualityReport env now newId i rep db))"
proof -
  have rec: "records_ok env db" using ok by (simp add: platform_ok_def)
  then have ids: "distinct (map p_id (materialPassports db))" by (simp add: records_ok_def)
  obtain r db' where run: "createQualityReport env now newId i rep db = (r, db')" by (meson surj_pair)
  from createQualityReport_cases [OF run ids] show ?thesis
  proof (elim disjE exE conjE, goal_cases)
    case (1 e)
    then show ?case using ok run report_check_result(2) by (auto simp: good_def in_db_def answer_of_def)
  next
    case (2 p q)
    have "statuses_kept db db'"
      by (rule statuses_kept_row [OF report_check_result(1) [OF 2(1)] 2(4,5,9)])
    then have "platform_ok env db'" using platform_by_passports [OF ok] 2 rec by simp
    then show ?case using run 2 by (simp add: good_def in_db_def answer_of_def)
  qed
qed

lemma keeps_dispute: "platform_ok env db \<Longrightarrow> platform_ok env (snd (disputeReport i role org db))"
proof -
  assume ok: "platform_ok env db"
  have "others_same db (snd (disputeReport i role org db))"
    and "materialPassports (snd (disputeReport i role org db)) = materialPassports db"
    by (auto simp: disputeReport_def Let_def split: option.splits)
  then show ?thesis
    using platform_by_passports [OF ok] ok records_same [of "snd (disputeReport i role org db)" db env]
    by (simp add: statuses_kept_def platform_ok_def)
qed

lemma keeps_login:
  assumes "platform_ok env db"
  shows "platform_ok env (snd (loginUser compare input now db))"
proof -
  have "access_ok db" using assms by (simp add: platform_ok_def)
  from login_ok [OF this, of compare input now] show ?thesis
    by (elim conjE) (rule platform_by_access [OF assms])
qed

text \<open>Four calls can also answer with an internal error: the findings on ages and on the
  sign-in counter, a failing file write, and a report whose passport is gone.\<close>

fun may_fail_internally :: "call \<Rightarrow> bool" where
  "may_fail_internally (Create_passport now i input u org) = True"
| "may_fail_internally (Update_passport now i input u org) = True"
| "may_fail_internally (Upload_photo now free i salt buffer org) = True"
| "may_fail_internally (Dispute_report i r org) = True"
| "may_fail_internally (Login input now) = True"
| "may_fail_internally _ = False"

lemma in_db_state: "snd (snd (in_db st r)) = snd r" by (simp add: in_db_def)

lemma perform_keeps:
  assumes ok: "platform_ok (pf_api pf) (snd s)" and adm: "admissible_call (snd s) c"
  shows "platform_ok (pf_api pf) (snd (snd (perform pf s c)))"
    and "\<not> may_fail_internally c \<Longrightarrow> fst (perform pf s c) = Some e \<Longrightarrow> isTraceError e"
proof -
  obtain st db where s: "s = (st, db)" by (cases s)
  have ok': "platform_ok (pf_api pf) db" using ok s by simp
  note calls = good_listing_calls [OF ok'] good_order_calls [OF ok'] good_access_calls [OF ok'] good_report [OF ok']
  have seen: "good (pf_api pf) (None, (st, markOrdersSeen v now db))" for v now
    using good_seen [OF ok'] by (simp add: good_def)
  have g: "good (pf_api pf) (perform pf s c)" if "\<not> may_fail_internally c"
    using that adm unfolding s by (cases c) (auto intro: calls seen)
  then show "\<not> may_fail_internally c \<Longrightarrow> fst (perform pf s c) = Some e \<Longrightarrow> isTraceError e"
    by (simp add: good_def)
  show "platform_ok (pf_api pf) (snd (snd (perform pf s c)))"
  proof (cases "may_fail_internally c")
    case False
    then show ?thesis using g by (simp add: good_def)
  next
    case True
    then show ?thesis
      using adm s keeps_passport_calls [OF ok] keeps_dispute [OF ok'] keeps_login [OF ok']
      by (cases c) (simp_all add: with_files_def in_db_state)
  qed
qed

subsection \<open>Orders only move forward\<close>

definition same_terms :: "order \<Rightarrow> order \<Rightarrow> bool" where
  "same_terms t t' \<longleftrightarrow> t_listingId t' = t_listingId t \<and> t_buyerId t' = t_buyerId t
     \<and> t_sellerId t' = t_sellerId t \<and> t_quantity t' = t_quantity t \<and> t_amountPence t' = t_amountPence t"

definition later :: "trace_db \<Rightarrow> trace_db \<Rightarrow> bool" where
  "later db db' \<longleftrightarrow> (\<forall>i t. find_order i db = Some t \<longrightarrow> (\<exists>t'. find_order i db' = Some t'
     \<and> same_terms t t' \<and> order_moves\<^sup>*\<^sup>* (t_status t) (t_status t')))"

lemma same_terms_refl [simp]: "same_terms t t" by (simp add: same_terms_def)

lemma same_terms_moved [simp]: "same_terms t (moved_order step t)" by (simp add: same_terms_def)

lemma later_same: "transactions db' = transactions db \<Longrightarrow> later db db'"
  by (simp add: later_def)

lemma later_trans:
  assumes "later a b" and "later b c"
  shows "later a c"
  unfolding later_def
proof (intro allI impI)
  fix i t assume "find_order i a = Some t"
  then obtain t1 where t1: "find_order i b = Some t1" "same_terms t t1" "order_moves\<^sup>*\<^sup>* (t_status t) (t_status t1)"
    using assms(1) unfolding later_def by blast
  then obtain t2 where "find_order i c = Some t2" "same_terms t1 t2" "order_moves\<^sup>*\<^sup>* (t_status t1) (t_status t2)"
    using assms(2) unfolding later_def by blast
  then show "\<exists>t'. find_order i c = Some t' \<and> same_terms t t' \<and> order_moves\<^sup>*\<^sup>* (t_status t) (t_status t')"
    using t1 by (auto simp: same_terms_def intro: rtranclp_trans)
qed

lemma later_append: "transactions db' = transactions db @ ts \<Longrightarrow> later db db'"
proof -
  assume a: "transactions db' = transactions db @ ts"
  have "find_row t_id i rows = Some t \<Longrightarrow> find_row t_id i (rows @ ts) = Some t" for i t rows
    by (induction rows) auto
  then show ?thesis by (auto simp: later_def a)
qed

lemma later_step:
  assumes "find_order (t_id t) db = Some t" and "order_moves (t_status t) (st_to step)"
  shows "later db (stepped_db t l step db)"
  unfolding later_def stepped_transactions
proof (intro allI impI)
  fix i u assume u: "find_order i db = Some u"
  show "\<exists>t'. find_row t_id i (update_rows t_id (t_id t) (moved_order step) (transactions db)) = Some t'
      \<and> same_terms u t' \<and> order_moves\<^sup>*\<^sup>* (t_status u) (t_status t')"
  proof (cases "i = t_id t")
    case True
    then have "u = t" using u assms(1) by simp
    then show ?thesis using u True assms(2) by (auto simp: find_row_update_same)
  next
    case False
    then show ?thesis using u by (simp add: find_row_update_other)
  qed
qed

lemma later_close:
  assumes ok: "market_ok db" and c: "closeIfOverdue i now db = Inr (a, db')"
  shows "later db db'"
proof (cases "\<exists>t b to. find_order i db = Some t \<and> timedStep t now = Some (b, to)")
  case True
  then obtain t b to where t: "find_order i db = Some t" "timedStep t now = Some (b, to)" by blast
  obtain l where "closeIfOverdue i now db = Inr (Some b, stepped_db t l (timed_order_step b to now) db)"
    using closeIfOverdue_due [OF ok t] by blast
  then show ?thesis
    using later_step [of t db "timed_order_step b to now" l] c t timedStep_moves [OF t(2)] find_row_SomeD [OF t(1)]
    by simp
next
  case False
  then have "closeIfOverdue i now db = Inr (None, db)"
    by (intro closeIfOverdue_not_due) (metis not_Some_eq prod.exhaust_sel)
  then show ?thesis using c by (simp add: later_same)
qed

lemma later_close_all: "market_ok db \<Longrightarrow> close_all is now res db = (r, db') \<Longrightarrow> later db db'"
proof (induction "is" arbitrary: res db)
  case Nil
  then show ?case by (simp add: later_same)
next
  case (Cons i "is")
  obtain a d where c: "closeIfOverdue i now db = Inr (a, d)" "market_ok d"
    using closeIfOverdue_ok [OF Cons.prems(1)] by blast
  then show ?case using later_trans [OF later_close [OF Cons.prems(1) c(1)]] Cons.IH [OF c(2)] Cons.prems(2)
    by simp
qed

lemma later_sweep: "market_ok db \<Longrightarrow> later db (snd (sweepOrderLifecycle now db))"
proof -
  assume ok: "market_ok db"
  obtain res d where c: "close_all (due_orders now db) now
      \<lparr> sw_lapsed = 0, sw_completed = 0, sw_expiredListings = 0 \<rparr> db = (Inr res, d)" and okd: "market_ok d"
    using close_all_ok [OF ok] by blast
  obtain r d2 where e: "expire_all (stale_listings now d) now res d = (Inr r, d2)"
    using expire_all_ok [OF okd] by blast
  have "transactions d2 = transactions d" using expire_all_spec [OF okd e] by blast
  then show ?thesis
    using later_trans [OF later_close_all [OF ok c] later_same] c e by (simp add: sweepOrderLifecycle_def)
qed

lemma later_action: "market_ok db \<Longrightarrow> later db (snd (updateTransaction i input viewer now db))"
proof -
  assume ok: "market_ok db"
  obtain a d where c: "closeIfOverdue i now db = Inr (a, d)" and okd: "market_ok d"
    using closeIfOverdue_ok [OF ok] by blast
  note closed = later_close [OF ok c]
  from updateTransaction_tx_ok [OF okd, of i input viewer a now] show ?thesis
  proof (elim disjE exE conjE, goal_cases)
    case (1 e)
    then show ?case using c closed by (simp add: updateTransaction_def)
  next
    case (2 t l)
    have "find_order (t_id t) d = Some t" using 2(1) find_row_SomeD [OF 2(1)] by simp
    then have "later d (stepped_db t l (person_order_step input viewer (standing_of viewer t l) now) d)"
      by (rule later_step) (rule person_step_moves [OF 2(4)])
    then show ?case using c 2(5) later_trans [OF closed] by (simp add: updateTransaction_def)
  qed
qed

lemma later_list: "market_ok db \<Longrightarrow> later db (snd (listUserTransactions viewer now db))"
  by (auto simp: listUserTransactions_def Let_def split: prod.splits sum.splits intro: later_close_all)

lemma later_others: "others_same db db' \<Longrightarrow> later db db'" "same_market db db' \<Longrightarrow> later db db'"
  by (rule later_same, simp add: others_same_def same_market_def)+

lemma later_atomic:
  assumes "\<And>x db'. r = Inr (x, db') \<Longrightarrow> later db db'"
  shows "later db (snd (atomic db r))"
  using assms by (cases r) (auto simp: atomic_def later_same)

lemma later_market_calls:
  assumes ok: "market_ok db"
  shows "CreateListingSchema sent input \<Longrightarrow> find_listing i db = None \<Longrightarrow>
      later db (snd (atomic db (createListing input i s org now db)))"
    and "UpdateListingSchema sent input' \<Longrightarrow> later db (snd (atomic db (updateListing i input' org now db)))"
    and "later db (snd (atomic db (cancelListing i org now db)))"
    and "MakeOfferSchema offer \<Longrightarrow> find_order i db = None \<Longrightarrow>
      later db (snd (atomic db (makeOffer offer v keep i now db)))"
proof -
  show "later db (snd (atomic db (createListing input i s org now db)))"
    if "CreateListingSchema sent input" "find_listing i db = None"
    by (rule later_atomic, rule later_same) (use createListing_ok [OF ok that, of s org now] in auto)
  show "later db (snd (atomic db (updateListing i input' org now db)))" if "UpdateListingSchema sent input'"
    by (rule later_atomic, rule later_same)
      (use updateListing_ok [OF ok that, of i org now] in \<open>auto simp: edited_db_def\<close>)
  show "later db (snd (atomic db (cancelListing i org now db)))"
    by (rule later_atomic, rule later_same) (use cancelListing_ok [OF ok, of i org now] in auto)
  show "later db (snd (atomic db (makeOffer offer v keep i now db)))"
    if "MakeOfferSchema offer" "find_order i db = None"
    by (rule later_atomic, rule later_append)
      (use makeOffer_cases [OF ok that, of v keep now] in \<open>auto simp: placed_transactions\<close>)
qed

lemma later_passport_calls:
  assumes rec: "records_ok env (snd s)"
  shows "find_passport i (snd s) = None \<Longrightarrow> later (snd s) (snd (snd (createPassport env now i input u org s)))"
    and "later (snd s) (snd (updatePassport env now i input' u org (snd s)))"
    and "later (snd s) (snd (snd (uploadPassportPhoto env now free i salt buffer org s)))"
    and "later (snd s) (snd (createQualityReport env now newId rinput rep (snd s)))"
    and "later (snd s) (snd (disputeReport i role orgo (snd s)))"
proof -
  have ids: "distinct (map p_id (materialPassports (snd s)))" using rec by (simp add: records_ok_def)
  show "later (snd s) (snd (snd (createPassport env now i input u org s)))" if "find_passport i (snd s) = None"
  proof -
    obtain r s' where run: "createPassport env now i input u org s = (r, s')" by (meson surj_pair)
    then show ?thesis using createPassport_cases [OF run that] by (auto simp: only_row_def later_others)
  qed
  show "later (snd s) (snd (updatePassport env now i input' u org (snd s)))"
  proof -
    obtain r d where run: "updatePassport env now i input' u org (snd s) = (r, d)" by (meson surj_pair)
    have "others_same (snd s) d" using updatePassport_cases [OF run] by (elim disjE exE conjE) simp_all
    then show ?thesis using run later_others by simp
  qed
  show "later (snd s) (snd (snd (uploadPassportPhoto env now free i salt buffer org s)))"
  proof -
    obtain r s' where run: "uploadPassportPhoto env now free i salt buffer org s = (r, s')" by (meson surj_pair)
    have "others_same (snd s) (snd s')" using uploadPassportPhoto_cases [OF run rec] by (elim disjE exE conjE) simp_all
    then show ?thesis using run later_others by simp
  qed
  show "later (snd s) (snd (createQualityReport env now newId rinput rep (snd s)))"
  proof -
    obtain r d where run: "createQualityReport env now newId rinput rep (snd s) = (r, d)" by (meson surj_pair)
    have "others_same (snd s) d" using createQualityReport_cases [OF run ids] by (elim disjE exE conjE) simp_all
    then show ?thesis using run later_others by simp
  qed
  show "later (snd s) (snd (disputeReport i role orgo (snd s)))"
    by (rule later_same) (auto simp: disputeReport_def Let_def split: option.splits)
qed

lemma later_access_calls:
  assumes a: "access_ok db"
  shows "find_user i db = None \<Longrightarrow> later db (snd (atomic db (registerUser hash r i now db)))"
    and "find_request i db = None \<Longrightarrow> later db (snd (atomic db (submitAccessRequest u role c i now db)))"
    and "later db (snd (atomic db (updatePendingAccessRequest i p now db)))"
    and "find_organisation j db = None \<Longrightarrow> length (organisations db) < 10 ^ 59 \<Longrightarrow>
      later db (snd (atomic db (approveAccessRequest w i rv ap j now db)))"
    and "find_organisation j db = None \<Longrightarrow> length (organisations db) < 10 ^ 59 \<Longrightarrow>
      later db (snd (atomic db (updateApprovedUserAccess w i rv ap j now db)))"
    and "later db (snd (atomic db (rejectAccessRequest i rv why now db)))"
    and "later db (snd (atomic db (updateAccessRequestOrganisation i name verified now db)))"
    and "later db (snd (loginUser compare input now db))"
proof -
  note frame = later_atomic later_others(2)
  show "later db (snd (atomic db (registerUser hash r i now db)))" if "find_user i db = None"
    by (rule frame(1), rule frame(2)) (use register_ok [OF a that, of hash r now] in auto)
  show "later db (snd (atomic db (submitAccessRequest u role c i now db)))" if "find_request i db = None"
    by (rule frame(1), rule frame(2)) (use submit_ok [OF a that, of u role c now] in auto)
  show "later db (snd (atomic db (updatePendingAccessRequest i p now db)))"
    by (rule frame(1), rule frame(2)) (use update_pending_ok [OF a, of i p now] in auto)
  show "later db (snd (atomic db (approveAccessRequest w i rv ap j now db)))"
    if "find_organisation j db = None" "length (organisations db) < 10 ^ 59"
    by (rule frame(1), rule frame(2)) (use approve_ok [OF a that, of w i rv ap now] in auto)
  show "later db (snd (atomic db (updateApprovedUserAccess w i rv ap j now db)))"
    if "find_organisation j db = None" "length (organisations db) < 10 ^ 59"
    by (rule frame(1), rule frame(2)) (use update_approved_ok [OF a that, of w i rv ap now] in auto)
  show "later db (snd (atomic db (rejectAccessRequest i rv why now db)))"
    by (rule frame(1), rule frame(2)) (use reject_ok [OF a, of i rv why now] in auto)
  show "later db (snd (atomic db (updateAccessRequestOrganisation i name verified now db)))"
    by (rule frame(1), rule frame(2)) (use update_organisation_ok [OF a, of i name verified now] in auto)
  show "later db (snd (loginUser compare input now db))"
    using login_ok [OF a, of compare input now] later_others(2) by blast
qed

lemma perform_later:
  assumes ok: "platform_ok (pf_api pf) (snd s)" and adm: "admissible_call (snd s) c"
  shows "later (snd s) (snd (snd (perform pf s c)))"
proof -
  obtain st db where s: "s = (st, db)" by (cases s)
  have ok': "market_ok db" "access_ok db" "records_ok (pf_api pf) (snd (st, db))"
    using ok s by (simp_all add: platform_ok_def)
  have seen: "later db (markOrdersSeen v now db)" for v now by (rule later_same) (simp add: markOrdersSeen_def)
  note calls = later_market_calls [OF ok'(1)] later_action [OF ok'(1)] later_sweep [OF ok'(1)]
    later_list [OF ok'(1)] later_access_calls [OF ok'(2)] later_passport_calls [OF ok'(3), simplified] seen
  show ?thesis
    using adm unfolding s by (cases c) (auto simp: in_db_state with_files_def intro: calls)
qed

subsection \<open>Runs\<close>

interpretation runs: guarded_system "platform_step pf" "\<lambda>(s::state) c. admissible_call (snd s) c"
  "\<lambda>(s::state). platform_ok (pf_api pf) (snd s) \<and> later db0 (snd s)" for pf db0
proof (unfold_locales, elim conjE)
  fix s :: state and c assume "platform_ok (pf_api pf) (snd s)" "later db0 (snd s)" "admissible_call (snd s) c"
  then show "platform_ok (pf_api pf) (snd (platform_step pf s c)) \<and> later db0 (snd (platform_step pf s c))"
    using perform_keeps(1) perform_later later_trans unfolding platform_step_def by blast
qed

lemma admissible_run_iff: "admissible_run pf s cs \<longleftrightarrow> runs.admissible pf s cs"
proof (induction cs arbitrary: s)
  case Nil
  then show ?case by (simp add: runs.admissible.intros)
next
  case (Cons c cs)
  then show ?case by (auto intro: runs.admissible.intros elim: runs.admissible.cases)
qed

lemma run_keeps_platform:
  assumes "platform_ok (pf_api pf) (snd s)" and "admissible_run pf s cs"
  shows "platform_ok (pf_api pf) (snd (run_calls (platform_step pf) s cs))"
    and "later (snd s) (snd (run_calls (platform_step pf) s cs))"
  using runs.run_keeps [of pf s cs "snd s"] assms by (auto simp: admissible_run_iff later_same)

lemma loadVisiblePassport_row: "loadVisiblePassport i viewer db = Inr p \<Longrightarrow> p \<in> set (materialPassports db)"
  by (auto simp: loadVisiblePassport_def dest: find_row_SomeD split: option.splits if_splits)

lemma records_ok_consequences:
  assumes "records_ok env db"
  shows "fingerprints_current (fingerprint env) db"
    and "verifyPassportIntegrity env i viewer db = Inr r \<Longrightarrow> ir_match r \<or> ir_pending r"
proof -
  show "fingerprints_current (fingerprint env) db"
    using assms by (auto simp: fingerprints_current_def records_ok_def fits_def list_all_iff)
  show "ir_match r \<or> ir_pending r" if verified: "verifyPassportIntegrity env i viewer db = Inr r"
  proof -
    obtain p where "loadVisiblePassport i viewer db = Inr p"
      and r: "r = \<lparr> ir_match = (p_blockchainPassportHash p \<noteq> None \<and> Some (fingerprint env p) = p_blockchainPassportHash p),
        ir_pending = (p_blockchainPassportHash p = None), ir_recomputedHash = fingerprint env p,
        ir_storedHash = p_blockchainPassportHash p \<rparr>"
      using verified by (auto simp: verifyPassportIntegrity_def Let_def split: sum.splits)
    then have "fits env p" using assms loadVisiblePassport_row by (auto simp: records_ok_def)
    then show ?thesis by (auto simp: r fits_def)
  qed
qed

text \<open>C1: Whatever requests follow one another, in any order and by anyone, successful or refused,
  the platform stays consistent: the stock, statuses and deadlines of the marketplace, the
  accounts and requests, and the stored fingerprints keep their invariants. So the
  repository's invariant check never reports an error other than a minimum order above its
  lot's quantity, and the integrity check of a passport never reports a mismatch.\<close>

theorem every_run_keeps_the_platform_consistent:
  assumes "platform_ok (pf_api pf) (snd s)" and "admissible_run pf s cs"
    and "db = snd (run_calls (platform_step pf) s cs)"
  shows "platform_ok (pf_api pf) db
    \<and> (\<forall>v. v \<notin> set (errors_of (check_db (fingerprint (pf_api pf)) ck now db)) \<or> vi_rule v = Minimum_order)
    \<and> (case verifyPassportIntegrity (pf_api pf) i viewer db of Inl e \<Rightarrow> True | Inr r \<Rightarrow> ir_match r \<or> ir_pending r)"
proof -
  have ok: "platform_ok (pf_api pf) db" using run_keeps_platform(1) [OF assms(1,2)] assms(3) by simp
  then have m: "market_ok db" and rec: "records_ok (pf_api pf) db" by (simp_all add: platform_ok_def)
  show ?thesis
    using ok checker_errors [OF m records_ok_consequences(1) [OF rec]] records_ok_consequences(2) [OF rec]
    by (auto split: sum.splits)
qed

text \<open>C2: Over any run no order ever disappears, goes back to an earlier status or changes its
  terms: its lot, parties, quantity and amount stay, and its status is reached from the old
  one by the steps of the order's life. In particular an order that is completed, resolved or
  cancelled stays so.\<close>

theorem orders_only_move_forward:
  assumes "platform_ok (pf_api pf) (snd s)" and "admissible_run pf s cs"
    and "find_order i (snd s) = Some t"
  shows "\<exists>t'. find_order i (snd (run_calls (platform_step pf) s cs)) = Some t'
    \<and> t_listingId t' = t_listingId t \<and> t_buyerId t' = t_buyerId t \<and> t_sellerId t' = t_sellerId t
    \<and> t_quantity t' = t_quantity t \<and> t_amountPence t' = t_amountPence t
    \<and> order_moves\<^sup>*\<^sup>* (t_status t) (t_status t')
    \<and> (t_status t \<notin> {T_completed, T_resolved, T_cancelled} \<or> t_status t' = t_status t)"
proof -
  obtain t' where t': "find_order i (snd (run_calls (platform_step pf) s cs)) = Some t'" "same_terms t t'"
    "order_moves\<^sup>*\<^sup>* (t_status t) (t_status t')"
    using run_keeps_platform(2) [OF assms(1,2)] assms(3) unfolding later_def by blast
  have "t_status t' = t_status t" if "t_status t \<in> {T_completed, T_resolved, T_cancelled}"
    using t'(3) that by (auto elim: converse_rtranclpE)
  then show ?thesis using t' by (auto simp: same_terms_def)
qed

text \<open>C3: On a consistent platform a request answers with success or with one of the API's own
  errors, never with an internal one; except for the five calls listed in
  \<open>may_fail_internally\<close>.\<close>

theorem requests_fail_only_with_answers:
  assumes "platform_ok (pf_api pf) (snd s)" and "admissible_call (snd s) c" and "\<not> may_fail_internally c"
  shows "(case fst (perform pf s c) of None \<Rightarrow> True | Some e \<Rightarrow> isTraceError e \<and> statusCode e \<noteq> 500)"
proof -
  have "isTraceError e \<Longrightarrow> statusCode e \<noteq> 500" for e
  proof (cases e)
    case (CodedError c)
    then show ?thesis by (cases c) auto
  qed auto
  then show ?thesis
    using perform_keeps(2) [OF assms(1,2,3)] by (auto split: option.splits)
qed

subsection \<open>Examples of runs\<close>

definition sample_platform :: platform where
  "sample_platform = \<lparr> pf_api = sample_env, pf_wallet = no_wallets, pf_hash = (\<lambda>s. s),
     pf_compare = (\<lambda>a b. a = b), pf_keepLastCuratedUnit = False \<rparr>"

definition start_db :: trace_db where
  "start_db = sample_db\<lparr>users := [sample_user 2 Supplier (Some 1),
     (sample_user 3 Buyer None)\<lparr>u_email := ''bob@example.org''\<rparr>]\<rparr>"

definition a_sale :: "call list" where
  "a_sale = [Create_listing sample_lot 20 2 1 90 100, Make_offer (sample_offer (Some 6)) sample_buyer 30 200]"

definition what_follows :: "call list" where
  "what_follows = [Update_transaction 30 (an_action Accept) sample_seller 300,
     Create_passport 310 11 beam 2 1, Cancel_listing 20 1 320, List_orders sample_buyer 400,
     Update_transaction 30 (an_action Confirm_delivery) sample_buyer 500, Sweep 600]"

lemma start_ok: "platform_ok sample_env start_db"
proof -
  have "same_market sample_db start_db" by (simp add: same_market_def start_db_def)
  then have "market_ok start_db" using sample_db_ok by (rule market_ok_same)
  moreover have "access_ok start_db" by code_simp
  moreover have "records_ok sample_env start_db"
    using sample_records_ok [of sample_env] records_same [of start_db sample_db sample_env]
    by (simp add: start_db_def)
  ultimately show ?thesis by (simp add: platform_ok_def)
qed

lemma admissible_run_append:
  "admissible_run pf s (xs @ ys) \<longleftrightarrow> admissible_run pf s xs \<and> admissible_run pf (run_calls (platform_step pf) s xs) ys"
  by (induction xs arbitrary: s) (simp_all add: run_calls_def)

lemma sample_admissible: "admissible_run sample_platform (no_files, start_db) (a_sale @ what_follows)"
  by code_simp

theorem every_run_keeps_the_platform_consistent_witness:
  "market_ok (snd (run_calls (platform_step sample_platform) (no_files, start_db) (a_sale @ what_follows)))"
proof -
  have p: "pf_api sample_platform = sample_env" by (simp add: sample_platform_def)
  show ?thesis
    using sample_admissible every_run_keeps_the_platform_consistent [OF _ _ refl,
        of sample_platform "(no_files, start_db)" "a_sale @ what_follows"] start_ok
    by (simp add: p platform_ok_def)
qed

definition sold_state :: state where
  "sold_state = run_calls (platform_step sample_platform) (no_files, start_db) a_sale"

lemma sold_ok: "platform_ok (pf_api sample_platform) (snd sold_state)"
  unfolding sold_state_def using sample_admissible
  by (intro run_keeps_platform(1)) (simp_all add: admissible_run_append sample_platform_def start_ok)

theorem orders_only_move_forward_witness:
  "\<exists>t'. find_order 30 (snd (run_calls (platform_step sample_platform) sold_state what_follows)) = Some t'
    \<and> t_quantity t' = 6 \<and> order_moves\<^sup>*\<^sup>* T_pending (t_status t')"
proof -
  define t where "t = the (find_order 30 (snd sold_state))"
  have t: "find_order 30 (snd sold_state) = Some t" and d: "t_quantity t = 6" "t_status t = T_pending"
    unfolding t_def by code_simp+
  have "admissible_run sample_platform sold_state what_follows"
    using sample_admissible by (simp add: sold_state_def admissible_run_append)
  then show ?thesis using orders_only_move_forward [OF sold_ok _ t] d by auto
qed

theorem requests_fail_only_with_answers_witness:
  "(case fst (perform sample_platform (no_files, start_db) (Cancel_listing 20 1 320)) of
      None \<Rightarrow> False | Some e \<Rightarrow> statusCode e \<noteq> 500)"
proof -
  have ok: "platform_ok (pf_api sample_platform) (snd (no_files, start_db))"
    by (simp add: sample_platform_def start_ok)
  have "fst (perform sample_platform (no_files, start_db) (Cancel_listing 20 1 320)) \<noteq> None" by code_simp
  then show ?thesis
    using requests_fail_only_with_answers [OF ok, of "Cancel_listing 20 1 320"]
    by (auto split: option.splits)
qed

end
