(* ===== verification/Anchoring.thy ===== *)
theory Anchoring
  imports Platform_Runs
begin

text \<open>
  \<open>workers/anchor-passport.worker.ts\<close> with \<open>lib/anchor-decision.ts\<close>: the job that puts a
  passport's fingerprint on chain, and the sweep that repairs what the jobs missed.

  A job reads the passport and the registry, submits a transaction, waits for its receipt
  (up to a minute) and then writes the passport's anchor columns. Other requests run in the
  meantime, so the job is three definitions (\<open>anchor_begin\<close>, \<open>anchor_send\<close>,
  \<open>anchor_finish\<close>), and \<open>processAnchorJob\<close> is the three back to back.

  The chain and the queue are parameters (\<open>job_env\<close>): what the registry answers, whether the
  organisation's wallet has the hub role, how each transaction fares, and in \<open>jobState\<close> the
  state of the queue's job with a passport's stable id.
\<close>

subsection \<open>What to do for a passport\<close>

record onchain_anchor =
  oa_registered :: bool
  oa_dataHash :: "string option"
  oa_owner :: "string option"

datatype anchor_action = Register_passport | Update_hash | Skip_passport

definition decideAnchorAction :: "onchain_anchor \<Rightarrow> string \<Rightarrow> anchor_action" where
  "decideAnchorAction onchain recomputedHash =
     (if \<not> oa_registered onchain then Register_passport
      else if map_option toLowerCase (oa_dataHash onchain) = Some (toLowerCase recomputedHash)
      then Skip_passport else Update_hash)"

subsection \<open>The worker's tables and its surroundings\<close>

datatype tx_status = Tx_pending | Tx_submitted | Tx_succeeded | Tx_failed

text \<open>A row of \<open>blockchain_transactions\<close>; its position in the list is its id.\<close>

record tx_row =
  tx_action :: string
  tx_passport :: "uuid option"
  tx_status :: tx_status
  tx_txHash :: "string option"
  tx_certificateHash :: "string option"
  tx_confirmedAt :: "time option"

record audit_row =
  au_action :: string
  au_resourceId :: uuid
  au_succeeded :: bool

record worker_state =
  ws_db :: trace_db
  ws_txs :: "tx_row list"
  ws_audit :: "audit_row list"

text \<open>How a transaction fares: an error when it is submitted; a receipt that says it was
  reverted; no receipt in time, although it may yet be packed; or a good receipt.\<close>

datatype delivery = Not_submitted | Reverted string | Unconfirmed string | Confirmed string

fun tx_id :: "delivery \<Rightarrow> string option" where
  "tx_id Not_submitted = None"
| "tx_id (Reverted t) = Some t"
| "tx_id (Unconfirmed t) = Some t"
| "tx_id (Confirmed t) = Some t"

fun confirmed :: "delivery \<Rightarrow> string option" where
  "confirmed (Confirmed t) = Some t"
| "confirmed _ = None"

record job_env =
  je_api :: api_env
  je_wallet :: wallet_env
  je_anchor :: "onchain_anchor option"
  je_chainId :: string
  je_logged :: bool
  je_audited :: bool
  je_deployerKey :: bool
  je_hasHubRole :: "bool option"
  je_grant :: delivery
  je_transfer :: delivery
  je_deliver :: delivery

text \<open>An insert into either log that fails is only reported, and the job goes on: \<open>written\<close>
  and \<open>logged\<close> say whether it succeeds. The updates of a log row that exists are taken to.\<close>

definition recordAuditEvent :: "bool \<Rightarrow> string \<Rightarrow> uuid \<Rightarrow> bool \<Rightarrow> worker_state \<Rightarrow> worker_state" where
  "recordAuditEvent written action i succeeded s =
     (if \<not> written then s
      else ws_audit_update (\<lambda>es. es @ [\<lparr>au_action = action, au_resourceId = i, au_succeeded = succeeded\<rparr>]) s)"

definition createBlockchainTransaction ::
  "bool \<Rightarrow> string \<Rightarrow> uuid option \<Rightarrow> string option \<Rightarrow> worker_state \<Rightarrow> nat option \<times> worker_state" where
  "createBlockchainTransaction logged action passport certificateHash s =
     (if \<not> logged then (None, s)
      else (Some (length (ws_txs s)), ws_txs_update (\<lambda>ts. ts @ [\<lparr>tx_action = action,
        tx_passport = passport, tx_status = Tx_pending, tx_txHash = None,
        tx_certificateHash = certificateHash, tx_confirmedAt = None\<rparr>]) s))"

definition updateBlockchainTransaction ::
  "nat option \<Rightarrow> (tx_row \<Rightarrow> tx_row) \<Rightarrow> worker_state \<Rightarrow> worker_state" where
  "updateBlockchainTransaction log f s =
     (case log of None \<Rightarrow> s | Some k \<Rightarrow> ws_txs_update (\<lambda>ts. if k < length ts then ts[k := f (ts ! k)] else ts) s)"

definition tx_submitted :: "string \<Rightarrow> tx_row \<Rightarrow> tx_row" where
  "tx_submitted t r = r\<lparr>tx_txHash := Some t, tx_status := Tx_submitted\<rparr>"

definition tx_succeeded :: "time \<Rightarrow> tx_row \<Rightarrow> tx_row" where
  "tx_succeeded now r = r\<lparr>tx_status := Tx_succeeded, tx_confirmedAt := Some now\<rparr>"

definition tx_failed :: "tx_row \<Rightarrow> tx_row" where
  "tx_failed r = r\<lparr>tx_status := Tx_failed\<rparr>"

definition log_submission :: "nat option \<Rightarrow> delivery \<Rightarrow> worker_state \<Rightarrow> worker_state" where
  "log_submission log d s =
     (case tx_id d of None \<Rightarrow> s | Some t \<Rightarrow> updateBlockchainTransaction log (tx_submitted t) s)"

subsection \<open>The hub role and the owner on chain\<close>

definition ensureHubRole :: "job_env \<Rightarrow> uuid \<Rightarrow> time \<Rightarrow> worker_state \<Rightarrow> unit outcome \<times> worker_state" where
  "ensureHubRole je organisationId now s =
     (case je_hasHubRole je of
        None \<Rightarrow> (Inl PlainError, s)
      | Some True \<Rightarrow> (Inr (), s)
      | Some False \<Rightarrow>
          if \<not> je_deployerKey je then (Inl PlainError, s)
          else
            let (log, s1) = createBlockchainTransaction (je_logged je) ''org.grantHubRole'' None None s;
                s2 = log_submission log (je_grant je) s1
            in case confirmed (je_grant je) of
                 Some t \<Rightarrow> (Inr (), recordAuditEvent (je_audited je) ''org.grantHubRole'' organisationId True
                             (updateBlockchainTransaction log (tx_succeeded now) s2))
               | None \<Rightarrow> (Inl PlainError, recordAuditEvent (je_audited je) ''org.grantHubRole'' organisationId False
                             (updateBlockchainTransaction log tx_failed s2)))"

definition repairPassportOwnership ::
  "job_env \<Rightarrow> uuid \<Rightarrow> time \<Rightarrow> worker_state \<Rightarrow> unit outcome \<times> worker_state" where
  "repairPassportOwnership je i now s =
     (if \<not> je_deployerKey je then (Inl PlainError, s)
      else
        let (log, s1) = createBlockchainTransaction (je_logged je) ''passport.transferOwner'' (Some i) None s
        in case confirmed (je_transfer je) of
             Some t \<Rightarrow> (Inr (), updateBlockchainTransaction log
                          (\<lambda>r. tx_succeeded now (r\<lparr>tx_txHash := Some t\<rparr>)) s1)
           | None \<Rightarrow> (Inl PlainError, updateBlockchainTransaction log tx_failed s1))"

subsection \<open>The job\<close>

datatype anchor_plan =
  No_passport
| Up_to_date passport string
| Submit_anchor passport string anchor_action

text \<open>Up to the decision. A chain that cannot be read is recorded and fails the job.\<close>

definition anchor_begin :: "job_env \<Rightarrow> uuid \<Rightarrow> worker_state \<Rightarrow> anchor_plan outcome \<times> worker_state" where
  "anchor_begin je i s =
     (case find_passport i (ws_db s) of
        None \<Rightarrow> (Inr No_passport, s)
      | Some p \<Rightarrow>
          if \<not> given (registryAddress (je_api je)) then (Inl PlainError, s)
          else
            let dataHash = fingerprint (je_api je) p in
            case je_anchor je of
              None \<Rightarrow> (Inl PlainError, recordAuditEvent (je_audited je) ''passport.anchor'' i False s)
            | Some onchain \<Rightarrow>
                (case decideAnchorAction onchain dataHash of
                   Skip_passport \<Rightarrow> (Inr (Up_to_date p dataHash), s)
                 | action \<Rightarrow> (Inr (Submit_anchor p dataHash action), s)))"

definition syncAlreadyAnchored :: "job_env \<Rightarrow> time \<Rightarrow> passport \<Rightarrow> string \<Rightarrow> worker_state \<Rightarrow> worker_state" where
  "syncAlreadyAnchored je now passport dataHash s =
     (if given (p_blockchainTxHash passport) \<and> p_blockchainPassportHash passport = Some dataHash
         \<and> p_blockchainChainId passport = Some (je_chainId je) then s
      else
        let rows = order_rows False tx_confirmedAt
              (filter (\<lambda>t. tx_passport t = Some (p_id passport) \<and> tx_status t = Tx_succeeded) (ws_txs s));
            anchoringTx = List.find (\<lambda>t. tx_certificateHash t = Some dataHash) rows;
            txHash = (case Option.bind anchoringTx tx_txHash of
                        None \<Rightarrow> p_blockchainTxHash passport | Some t \<Rightarrow> Some t);
            anchoredAt = (case Option.bind anchoringTx tx_confirmedAt of
                            None \<Rightarrow> or_keep (p_blockchainAnchoredAt passport) now | Some d \<Rightarrow> d)
        in ws_db_update (update_passport (p_id passport) (\<lambda>r. r\<lparr> p_blockchainTxHash := txHash,
             p_blockchainPassportHash := Some dataHash, p_blockchainAnchoredAt := Some anchoredAt,
             p_blockchainChainId := Some (je_chainId je), p_updatedAt := now \<rparr>)) s)"

definition audit_action :: "anchor_action \<Rightarrow> string" where
  "audit_action action = (if action = Register_passport then ''passport.anchor'' else ''passport.reanchor'')"

text \<open>The \<open>catch\<close>: the log row and an audit event say that it failed; the job throws.\<close>

definition anchor_failed :: "job_env \<Rightarrow> anchor_action \<Rightarrow> uuid \<Rightarrow> nat option \<Rightarrow> worker_state \<Rightarrow> worker_state" where
  "anchor_failed je action i log s =
     recordAuditEvent (je_audited je) (audit_action action) i False (updateBlockchainTransaction log tx_failed s)"

text \<open>The wallet, the hub role or the repair of the owner, then the transaction and its receipt.\<close>

definition prepare_wallet ::
  "job_env \<Rightarrow> time \<Rightarrow> passport \<Rightarrow> anchor_action \<Rightarrow> worker_state \<Rightarrow> unit outcome \<times> worker_state" where
  "prepare_wallet je now p action s =
     (case ensureOrganisationWallet 2 (je_wallet je) (p_organisationId p) now (ws_db s) of
        None \<Rightarrow> (Inl PlainError, s)
      | Some (Inl e, db1) \<Rightarrow> (Inl e, s\<lparr>ws_db := db1\<rparr>)
      | Some (Inr address, db1) \<Rightarrow>
          let s1 = s\<lparr>ws_db := db1\<rparr> in
          if action = Register_passport then ensureHubRole je (p_organisationId p) now s1
          else case Option.bind (je_anchor je) oa_owner of
            None \<Rightarrow> (Inr (), s1)
          | Some owner \<Rightarrow>
              if owner \<noteq> '''' \<and> toLowerCase owner \<noteq> toLowerCase address
              then repairPassportOwnership je (p_id p) now s1 else (Inr (), s1))"

definition anchor_send ::
  "job_env \<Rightarrow> time \<Rightarrow> passport \<Rightarrow> string \<Rightarrow> anchor_action \<Rightarrow> worker_state
    \<Rightarrow> (string \<times> nat option) outcome \<times> worker_state" where
  "anchor_send je now p dataHash action s =
     (let (log, s1) = createBlockchainTransaction (je_logged je) (audit_action action) (Some (p_id p))
            (Some dataHash) s
      in case prepare_wallet je now p action s1 of
           (Inl e, s2) \<Rightarrow> (Inl e, anchor_failed je action (p_id p) log s2)
         | (Inr _, s2) \<Rightarrow>
             let s3 = log_submission log (je_deliver je) s2
             in case confirmed (je_deliver je) of
                  None \<Rightarrow> (Inl PlainError, anchor_failed je action (p_id p) log s3)
                | Some t \<Rightarrow> (Inr (t, log), s3))"

definition anchored_row :: "string \<Rightarrow> string \<Rightarrow> string \<Rightarrow> time \<Rightarrow> passport \<Rightarrow> passport" where
  "anchored_row t dataHash chainId now r = r\<lparr> p_blockchainTxHash := Some t,
     p_blockchainPassportHash := Some dataHash, p_blockchainAnchoredAt := Some now,
     p_blockchainChainId := Some chainId, p_updatedAt := now \<rparr>"

definition anchor_finish ::
  "job_env \<Rightarrow> time \<Rightarrow> passport \<Rightarrow> string \<Rightarrow> anchor_action \<Rightarrow> string \<Rightarrow> nat option \<Rightarrow> worker_state \<Rightarrow> worker_state" where
  "anchor_finish je now p dataHash action t log s =
     recordAuditEvent (je_audited je) (audit_action action) (p_id p) True
       (updateBlockchainTransaction log (tx_succeeded now)
         (ws_db_update (update_passport (p_id p) (anchored_row t dataHash (je_chainId je) now)) s))"

text \<open>The job, with what other requests do to the tables while it waits for the receipt.\<close>

definition anchor_job_around ::
  "(trace_db \<Rightarrow> trace_db) \<Rightarrow> job_env \<Rightarrow> time \<Rightarrow> time \<Rightarrow> uuid \<Rightarrow> worker_state \<Rightarrow> unit outcome \<times> worker_state" where
  "anchor_job_around other je now ended i s =
     (case anchor_begin je i s of
        (Inl e, s1) \<Rightarrow> (Inl e, s1)
      | (Inr No_passport, s1) \<Rightarrow> (Inr (), s1)
      | (Inr (Up_to_date p dataHash), s1) \<Rightarrow> (Inr (), syncAlreadyAnchored je now p dataHash s1)
      | (Inr (Submit_anchor p dataHash action), s1) \<Rightarrow>
          (case anchor_send je now p dataHash action s1 of
             (Inl e, s2) \<Rightarrow> (Inl e, s2)
           | (Inr (t, log), s2) \<Rightarrow>
               (Inr (), anchor_finish je ended p dataHash action t log (ws_db_update other s2))))"

definition processAnchorJob :: "job_env \<Rightarrow> time \<Rightarrow> time \<Rightarrow> uuid \<Rightarrow> worker_state \<Rightarrow> unit outcome \<times> worker_state" where
  "processAnchorJob = anchor_job_around (\<lambda>db. db)"

subsection \<open>The sweep\<close>

definition SWEEP_BATCH_SIZE :: nat where "SWEEP_BATCH_SIZE = 50"
definition RECONCILE_BATCH_SIZE :: nat where "RECONCILE_BATCH_SIZE = 200"

definition findUnanchoredPassports :: "nat \<Rightarrow> trace_db \<Rightarrow> (uuid \<times> uuid) list" where
  "findUnanchoredPassports limit db =
     map (\<lambda>p. (p_id p, p_organisationId p)) (take limit (sort_key p_createdAt
       (filter (\<lambda>p. p_blockchainTxHash p = None \<and> p_status p \<noteq> P_draft) (materialPassports db))))"

fun issue_each :: "api_env \<Rightarrow> time \<Rightarrow> uuid list \<Rightarrow> nat \<Rightarrow> state \<Rightarrow> nat \<times> state" where
  "issue_each env now [] issued s = (issued, s)"
| "issue_each env now (i # is) issued s =
     (case issuePassportIdentifiers env now i s of
        (Inl e, s1) \<Rightarrow> issue_each env now is issued s1
      | (Inr p, s1) \<Rightarrow> issue_each env now is (issued + 1) s1)"

definition backfillPassportIdentifiers :: "api_env \<Rightarrow> time \<Rightarrow> nat \<Rightarrow> state \<Rightarrow> nat \<times> state" where
  "backfillPassportIdentifiers env now limit s =
     issue_each env now (findPassportsMissingIdentifiers env limit (snd s)) 0 s"

definition unanchored_row :: "passport \<Rightarrow> passport" where
  "unanchored_row r = r\<lparr> p_blockchainPassportHash := None, p_blockchainTxHash := None,
     p_blockchainAnchoredAt := None \<rparr>"

fun clear_stale :: "api_env \<Rightarrow> passport list \<Rightarrow> nat \<Rightarrow> trace_db \<Rightarrow> nat \<times> trace_db" where
  "clear_stale env [] marked db = (marked, db)"
| "clear_stale env (p # ps) marked db =
     (if Some (fingerprint env p) = p_blockchainPassportHash p then clear_stale env ps marked db
      else clear_stale env ps (marked + 1) (update_passport (p_id p) unanchored_row db))"

definition reconcileStaleAnchors :: "api_env \<Rightarrow> nat \<Rightarrow> trace_db \<Rightarrow> nat \<times> trace_db" where
  "reconcileStaleAnchors env limit db =
     clear_stale env (take limit (sort_key (\<lambda>p. - p_updatedAt p)
       (filter (\<lambda>p. p_blockchainTxHash p \<noteq> None) (materialPassports db)))) 0 db"

datatype job_state = Job_waiting | Job_delayed | Job_active | Job_completed | Job_failed

definition enqueueSweepAnchor ::
  "(uuid \<Rightarrow> job_state option) \<Rightarrow> uuid \<times> uuid \<Rightarrow> trace_db \<Rightarrow> bool \<times> trace_db" where
  "enqueueSweepAnchor jobState = (\<lambda>(i, org) db.
     if jobState i \<in> {Some Job_waiting, Some Job_delayed, Some Job_active} then (False, db)
     else (True, enqueue_anchor i org db))"

definition processSweepJob ::
  "api_env \<Rightarrow> (uuid \<Rightarrow> job_state option) \<Rightarrow> time \<Rightarrow> state \<Rightarrow> state" where
  "processSweepJob env jobState now s =
     (let s1 = snd (backfillPassportIdentifiers env now SWEEP_BATCH_SIZE s) in
      if simulateAnchor env then s1
      else
        let db2 = snd (reconcileStaleAnchors env RECONCILE_BATCH_SIZE (snd s1));
            pending = findUnanchoredPassports SWEEP_BATCH_SIZE db2
        in (fst s1, fold (\<lambda>job db. snd (enqueueSweepAnchor jobState job db)) pending db2))"

subsection \<open>A job leaves the passport current, or records that it failed\<close>

lemma log_frames [simp]:
  "ws_db (updateBlockchainTransaction log f s) = ws_db s"
  "ws_audit (updateBlockchainTransaction log f s) = ws_audit s"
  "ws_db (snd (createBlockchainTransaction logged action pid h s)) = ws_db s"
  "ws_audit (snd (createBlockchainTransaction logged action pid h s)) = ws_audit s"
  "ws_db (recordAuditEvent w action i ok s) = ws_db s"
  "ws_audit (recordAuditEvent True action i ok s)
    = ws_audit s @ [\<lparr>au_action = action, au_resourceId = i, au_succeeded = ok\<rparr>]"
  "ws_db (log_submission log d s) = ws_db s"
  "ws_audit (log_submission log d s) = ws_audit s"
  "ws_db (anchor_failed je a i log s) = ws_db s"
  by (simp_all add: updateBlockchainTransaction_def createBlockchainTransaction_def recordAuditEvent_def
      log_submission_def anchor_failed_def split: option.split)

lemma ensureHubRole_frame: "ws_db (snd (ensureHubRole je i now s)) = ws_db s"
  by (auto simp: ensureHubRole_def Let_def split: option.split bool.split prod.split
      dest: arg_cong [where f = "\<lambda>x. ws_db (snd x)"])

lemma repair_frame: "ws_db (snd (repairPassportOwnership je i now s)) = ws_db s"
  by (auto simp: repairPassportOwnership_def Let_def split: option.split prod.split
      dest: arg_cong [where f = "\<lambda>x. ws_db (snd x)"])

text \<open>Preparing the wallet writes accounts only.\<close>

lemma prepare_frame:
  "same_access (ws_db s) (ws_db (snd (prepare_wallet je now p action s)))
    \<and> same_market (ws_db s) (ws_db (snd (prepare_wallet je now p action s)))"
proof (cases "ensureOrganisationWallet 2 (je_wallet je) (p_organisationId p) now (ws_db s)")
  case None
  then show ?thesis by (simp add: prepare_wallet_def)
next
  case (Some x)
  obtain r db1 where x: "x = (r, db1)" by (cases x)
  have frame: "same_access (ws_db s) db1 \<and> same_market (ws_db s) db1"
    using ensure_frame Some x by blast
  have "ws_db (snd (prepare_wallet je now p action s)) = db1"
    using Some x by (cases r)
      (auto simp: prepare_wallet_def Let_def ensureHubRole_frame repair_frame split: option.split)
  then show ?thesis using frame by simp
qed

lemma send_frame:
  "same_access (ws_db s) (ws_db (snd (anchor_send je now p h action s)))
    \<and> same_market (ws_db s) (ws_db (snd (anchor_send je now p h action s)))"
proof -
  obtain log s1 where c: "createBlockchainTransaction (je_logged je) (audit_action action) (Some (p_id p)) (Some h) s = (log, s1)"
    by fastforce
  then have s1: "ws_db s1 = ws_db s"
    using log_frames(3) [of "je_logged je" "audit_action action" "Some (p_id p)" "Some h" s] by simp
  obtain r s2 where w: "prepare_wallet je now p action s1 = (r, s2)" by fastforce
  have "ws_db (snd (anchor_send je now p h action s)) = ws_db s2"
    using c w by (cases r) (auto simp: anchor_send_def Let_def split: option.split)
  then show ?thesis using prepare_frame [of s1 je now p action] s1 w by simp
qed

text \<open>A failure after the registry was read leaves a failed event behind.\<close>

lemma send_failed:
  assumes "anchor_send je now p h action s = (Inl e, s')" and "je_audited je"
  shows "\<exists>es. ws_audit s' = es @ [\<lparr>au_action = audit_action action, au_resourceId = p_id p, au_succeeded = False\<rparr>]"
  using assms by (auto simp: anchor_send_def Let_def anchor_failed_def split: prod.splits sum.splits option.splits)

lemma send_confirmed: "anchor_send je now p h action s = (Inr (t, log), s') \<Longrightarrow> confirmed (je_deliver je) = Some t"
  by (auto simp: anchor_send_def Let_def split: prod.splits sum.splits option.splits)
lemma platform_by_anchor:
  assumes "platform_ok env db" and "\<And>p. p_id (g p) = p_id p" and "\<And>p. p_status (g p) = p_status p"
    and "\<And>p. find_passport i db = Some p \<Longrightarrow> fits env (g p)"
  shows "platform_ok env (update_passport i g db)"
proof (rule platform_by_passports [OF assms(1)])
  show "others_same db (update_passport i g db)" by simp
  show "statuses_kept db (update_passport i g db)"
    unfolding statuses_kept_def using assms(2,3) by auto
  show "records_ok env (update_passport i g db)"
    using assms by (intro records_update) (auto simp: platform_ok_def)
qed

text \<open>The row an anchor write leaves: the fingerprint is stored and the material is the same.\<close>

definition stored_on :: "string \<Rightarrow> api_env \<Rightarrow> passport \<Rightarrow> passport \<Rightarrow> bool" where
  "stored_on chainId env p p' \<longleftrightarrow> p_blockchainPassportHash p' = Some (fingerprint env p)
     \<and> fingerprint env p' = fingerprint env p \<and> p_blockchainChainId p' = Some chainId
     \<and> p_status p' = p_status p"

lemma anchored_row_keeps [simp]:
  "p_id (anchored_row t h c now p) = p_id p" "p_status (anchored_row t h c now p) = p_status p"
  "fingerprint env (anchored_row t h c now p) = fingerprint env p"
  "p_blockchainPassportHash (anchored_row t h c now p) = Some h"
  "p_blockchainTxHash (anchored_row t h c now p) = Some t"
  "p_blockchainAnchoredAt (anchored_row t h c now p) = Some now"
  "p_blockchainChainId (anchored_row t h c now p) = Some c"
  by (simp_all add: anchored_row_def)

lemma sync_result:
  assumes p: "find_passport i (ws_db s) = Some p" and ok: "platform_ok (je_api je) (ws_db s)"
    and s': "s' = syncAlreadyAnchored je now p (fingerprint (je_api je) p) s"
  shows "platform_ok (je_api je) (ws_db s')
    \<and> (\<exists>p'. find_passport i (ws_db s') = Some p' \<and> stored_on (je_chainId je) (je_api je) p p')
    \<and> (\<forall>j. j \<noteq> i \<longrightarrow> find_passport j (ws_db s') = find_passport j (ws_db s))"
proof (cases "given (p_blockchainTxHash p) \<and> p_blockchainPassportHash p = Some (fingerprint (je_api je) p)
    \<and> p_blockchainChainId p = Some (je_chainId je)")
  case True
  then show ?thesis using p ok s' by (simp add: syncAlreadyAnchored_def stored_on_def)
next
  case False
  have i: "p_id p = i" using find_passport_id p by blast
  obtain txHash anchoredAt where "ws_db s' = update_passport i (\<lambda>r. r\<lparr> p_blockchainTxHash := txHash,
       p_blockchainPassportHash := Some (fingerprint (je_api je) p), p_blockchainAnchoredAt := anchoredAt,
       p_blockchainChainId := Some (je_chainId je), p_updatedAt := now \<rparr>) (ws_db s)"
    using False by (simp add: s' i syncAlreadyAnchored_def Let_def)
  moreover have "platform_ok (je_api je) (update_passport i (\<lambda>r. r\<lparr> p_blockchainTxHash := txHash,
       p_blockchainPassportHash := Some (fingerprint (je_api je) p), p_blockchainAnchoredAt := anchoredAt,
       p_blockchainChainId := Some (je_chainId je), p_updatedAt := now \<rparr>) (ws_db s))"
    by (rule platform_by_anchor [OF ok]) (use p in \<open>simp_all add: fits_def\<close>)
  ultimately show ?thesis using p by (simp add: stored_on_def)
qed

lemma finish_result:
  assumes p: "find_passport i (ws_db s) = Some p" and ok: "platform_ok (je_api je) (ws_db s)"
    and s': "s' = anchor_finish je now p (fingerprint (je_api je) p) action t log s"
  shows "platform_ok (je_api je) (ws_db s')
    \<and> find_passport i (ws_db s') = Some (anchored_row t (fingerprint (je_api je) p) (je_chainId je) now p)
    \<and> (\<forall>j. j \<noteq> i \<longrightarrow> find_passport j (ws_db s') = find_passport j (ws_db s))"
proof -
  have "ws_db s' = update_passport i (anchored_row t (fingerprint (je_api je) p) (je_chainId je) now) (ws_db s)"
    using find_passport_id [OF p] by (simp add: s' anchor_finish_def)
  moreover have "platform_ok (je_api je)
      (update_passport i (anchored_row t (fingerprint (je_api je) p) (je_chainId je) now) (ws_db s))"
    by (rule platform_by_anchor [OF ok]) (use p in \<open>simp_all add: fits_def\<close>)
  ultimately show ?thesis using p by simp
qed

lemma ws_db_same [simp]: "ws_db_update (\<lambda>db. db) s = s"
  by (cases s) simp

lemma begin_cases:
  assumes "find_passport i (ws_db s) = Some p" and "given (registryAddress (je_api je))"
  shows "(case je_anchor je of
      None \<Rightarrow> anchor_begin je i s = (Inl PlainError, recordAuditEvent (je_audited je) ''passport.anchor'' i False s)
    | Some onchain \<Rightarrow>
        if decideAnchorAction onchain (fingerprint (je_api je) p) = Skip_passport
        then anchor_begin je i s = (Inr (Up_to_date p (fingerprint (je_api je) p)), s)
        else anchor_begin je i s = (Inr (Submit_anchor p (fingerprint (je_api je) p)
          (decideAnchorAction onchain (fingerprint (je_api je) p))), s))"
  using assms by (auto simp: anchor_begin_def Let_def split: option.split anchor_action.split)

text \<open>What a job does, by what the registry says and by how the transaction fares.\<close>

lemma job_cases:
  assumes "find_passport i (ws_db s) = Some p" and "given (registryAddress (je_api je))"
    and "h = fingerprint (je_api je) p" and "action = decideAnchorAction onchain h"
  shows "je_anchor je = None \<Longrightarrow> processAnchorJob je now ended i s
      = (Inl PlainError, recordAuditEvent (je_audited je) ''passport.anchor'' i False s)"
    and "je_anchor je = Some onchain \<Longrightarrow> action = Skip_passport \<Longrightarrow> processAnchorJob je now ended i s
      = (Inr (), syncAlreadyAnchored je now p h s)"
    and "je_anchor je = Some onchain \<Longrightarrow> action \<noteq> Skip_passport \<Longrightarrow> processAnchorJob je now ended i s
      = (case anchor_send je now p h action s of (Inl e, s2) \<Rightarrow> (Inl e, s2)
        | (Inr (t, log), s2) \<Rightarrow> (Inr (), anchor_finish je ended p h action t log s2))"
  using begin_cases [OF assms(1,2)] assms(3,4)
  by (simp_all add: processAnchorJob_def anchor_job_around_def split: sum.split prod.split)

lemma send_keeps:
  assumes ok: "platform_ok env (ws_db s)" and send: "anchor_send je now p h action s = (x, s2)"
  shows "platform_ok env (ws_db s2)" and "materialPassports (ws_db s2) = materialPassports (ws_db s)"
proof -
  have frame: "same_access (ws_db s) (ws_db s2) \<and> same_market (ws_db s) (ws_db s2)"
    using send_frame [of s je now p h action] send by simp
  then show "platform_ok env (ws_db s2)"
    using platform_by_access [OF ok] same_access_ok ok by (auto simp: platform_ok_def)
  show "materialPassports (ws_db s2) = materialPassports (ws_db s)" using frame by (simp add: same_market_def)
qed


text \<open>A job for the witnesses: the hub's wallet has its role, the passport is not yet on
  chain, and the transaction is confirmed.\<close>

definition chain_env :: api_env where "chain_env = sample_env\<lparr>registryAddress := Some ''0x1''\<rparr>"

definition sample_job :: "onchain_anchor \<Rightarrow> delivery \<Rightarrow> job_env" where
  "sample_job onchain d = \<lparr> je_api = chain_env, je_wallet = wallets,
     je_anchor = Some onchain, je_chainId = ''test'', je_logged = True, je_audited = True, je_deployerKey = True,
     je_hasHubRole = Some True, je_grant = Not_submitted, je_transfer = Not_submitted, je_deliver = d \<rparr>"

definition not_registered :: onchain_anchor where
  "not_registered = \<lparr>oa_registered = False, oa_dataHash = None, oa_owner = None\<rparr>"

abbreviation first_job :: job_env where
  "first_job \<equiv> sample_job not_registered (Confirmed ''0xt'')"

definition worker_start :: worker_state where
  "worker_start = \<lparr> ws_db = start_db, ws_txs = [], ws_audit = [] \<rparr>"

lemma start_row: "find_passport 10 start_db = Some sample_passport" "find_organisation 1 start_db = Some sample_hub"
  by (simp_all add: start_db_def sample_db_def) (simp_all add: sample_passport_def sample_hub_def)

lemma start_ok_any: "platform_ok env start_db"
  using start_ok sample_records_ok [of env] records_same [of start_db sample_db env]
  by (simp add: platform_ok_def start_db_def)

lemma worker_start_simps [simp]:
  "ws_db worker_start = start_db" "ws_txs worker_start = []" "ws_audit worker_start = []"
  by (simp_all add: worker_start_def)

lemma sample_job_simps [simp]:
  "given (registryAddress (je_api (sample_job onchain d)))" "je_anchor (sample_job onchain d) = Some onchain"
  "je_deliver (sample_job onchain d) = d" "je_hasHubRole (sample_job onchain d) = Some True"
  "je_logged (sample_job onchain d)" "je_wallet (sample_job onchain d) = wallets"
  "je_api (sample_job onchain d) = chain_env" "given (registryAddress chain_env)"
  "decideAnchorAction not_registered h = Register_passport"
  by (simp_all add: sample_job_def chain_env_def given_def not_registered_def decideAnchorAction_def)

lemma wallet_granted:
  assumes "ws_db s = start_db"
  shows "\<exists>db. \<forall>d. prepare_wallet (sample_job onchain d) now sample_passport Register_passport s = (Inr (), s\<lparr>ws_db := db\<rparr>)"
proof -
  have "p_organisationId sample_passport = 1" "o_blockchainPrivateKeyEnc sample_hub = None"
    by (simp_all add: sample_passport_def sample_hub_def)
  then show ?thesis using assms start_row(2)
    by (simp add: prepare_wallet_def numeral_2_eq_2 claimOrganisationWallet_def truthy_def wallets_def
        ensureHubRole_def Let_def) blast
qed

definition logged_tx :: "string \<Rightarrow> tx_status \<Rightarrow> string option \<Rightarrow> tx_row" where
  "logged_tx h st t = \<lparr> tx_action = ''passport.anchor'', tx_passport = Some 10, tx_status = st, tx_txHash = t,
     tx_certificateHash = Some h, tx_confirmedAt = None \<rparr>"

lemma sample_send:
  "\<exists>db. let s1 = \<lparr> ws_db = db, ws_txs = [logged_tx h Tx_submitted (Some ''0xt'')], ws_audit = [] \<rparr> in
    anchor_send (sample_job onchain (Confirmed ''0xt'')) now sample_passport h Register_passport worker_start
      = (Inr (''0xt'', Some 0), s1)
    \<and> anchor_send (sample_job onchain (Unconfirmed ''0xt'')) now sample_passport h Register_passport worker_start
      = (Inl PlainError, anchor_failed (sample_job onchain (Unconfirmed ''0xt'')) Register_passport 10 (Some 0) s1)"
proof -
  define s0 where "s0 = \<lparr> ws_db = start_db, ws_txs = [logged_tx h Tx_pending None], ws_audit = [] \<rparr>"
  have id: "p_id sample_passport = 10" by (simp add: sample_passport_def)
  have "createBlockchainTransaction True (audit_action Register_passport) (Some (p_id sample_passport)) (Some h)
      worker_start = (Some 0, s0)"
    by (simp add: createBlockchainTransaction_def audit_action_def s0_def logged_tx_def worker_start_def id)
  moreover obtain db where "\<And>d. prepare_wallet (sample_job onchain d) now sample_passport Register_passport s0
      = (Inr (), s0\<lparr>ws_db := db\<rparr>)"
    using wallet_granted [of s0 onchain now] by (auto simp: s0_def)
  ultimately show ?thesis
    by (auto simp: anchor_send_def Let_def log_submission_def updateBlockchainTransaction_def tx_submitted_def
        s0_def logged_tx_def id)
qed

lemma sample_run: "\<exists>s'. anchor_job_around other first_job now ended 10 worker_start = (Inr (), s')"
proof -
  let ?h = "fingerprint (je_api first_job) sample_passport"
  have "anchor_begin first_job 10 worker_start
      = (Inr (Submit_anchor sample_passport ?h Register_passport), worker_start)"
    using begin_cases [of 10 worker_start sample_passport first_job] start_row by simp
  then show ?thesis
    using sample_send [of ?h not_registered now] by (auto simp: anchor_job_around_def Let_def)
qed


text \<open>
  While a job waits for its receipt the passport may be edited. The job still writes the
  fingerprint it sent, so the public check then never says "pending", and says "match" exactly
  if the edit left the fingerprint as it was: a real edit shows as a mismatch, until the
  next sweep.
\<close>

theorem an_edit_during_the_wait_shows_as_mismatch:
  assumes p: "find_passport i (ws_db s) = Some p" and reg: "given (registryAddress (je_api je))"
    and chain: "je_anchor je = Some onchain"
    and sends: "decideAnchorAction onchain (fingerprint (je_api je) p) \<noteq> Skip_passport"
    and run: "anchor_job_around other je now ended i s = (Inr x, s')"
    and edit: "\<And>db. find_passport i db = Some p \<Longrightarrow> find_passport i (other db) = Some q"
    and shown: "p_status q \<noteq> P_draft"
  shows "\<exists>res. verifyPassportIntegrity (je_api je) i viewer (ws_db s') = Inr res \<and> \<not> ir_pending res
    \<and> (ir_match res \<longleftrightarrow> fingerprint (je_api je) q = fingerprint (je_api je) p)"
proof -
  let ?h = "fingerprint (je_api je) p"
  let ?a = "decideAnchorAction onchain ?h"
  obtain y s2 where send: "anchor_send je now p ?h ?a s = (y, s2)" by fastforce
  then have rows: "materialPassports (ws_db s2) = materialPassports (ws_db s)"
    using send_frame [of s je now p ?h ?a] by (simp add: same_market_def)
  obtain t log where "s' = anchor_finish je ended p ?h ?a t log (ws_db_update other s2)"
    using begin_cases [OF p reg] chain sends send run
    by (auto simp: anchor_job_around_def split: sum.splits prod.splits)
  moreover have "find_passport i (other (ws_db s2)) = Some q" using p rows by (intro edit) simp
  ultimately have "find_passport i (ws_db s') = Some (anchored_row t ?h (je_chainId je) ended q)"
    using find_passport_id [OF p] by (simp add: anchor_finish_def)
  then show ?thesis
    using shown by (auto simp: verifyPassportIntegrity_def loadVisiblePassport_def Let_def)
qed

definition renamed :: "trace_db \<Rightarrow> trace_db" where
  "renamed = update_passport 10 (\<lambda>r. pending_row 530 (r\<lparr>p_productName := ''Ash beam''\<rparr>))"

theorem an_edit_during_the_wait_shows_as_mismatch_witness:
  "\<exists>res. verifyPassportIntegrity (je_api first_job) 10 None
      (ws_db (snd (anchor_job_around renamed first_job 500 560 10 worker_start))) = Inr res \<and> \<not> ir_pending res"
proof -
  obtain s' where run: "anchor_job_around renamed first_job 500 560 10 worker_start = (Inr (), s')"
    using sample_run by blast
  have p: "find_passport 10 (ws_db worker_start) = Some sample_passport" using start_row by simp
  have q: "find_passport 10 db = Some sample_passport \<Longrightarrow> find_passport 10 (renamed db)
      = Some (pending_row 530 (sample_passport\<lparr>p_productName := ''Ash beam''\<rparr>))" for db
    by (simp add: renamed_def)
  have "p_status (pending_row 530 (sample_passport\<lparr>p_productName := ''Ash beam''\<rparr>)) \<noteq> P_draft"
    by (simp add: sample_passport_def)
  from an_edit_during_the_wait_shows_as_mismatch [OF p sample_job_simps(1,2) _ run q this, where viewer = None]
  show ?thesis by (auto simp: run)
qed
text \<open>
  A transaction whose receipt comes too late. Its log row says it failed; the next job finds
  the registry current, so it submits nothing, and finds no succeeded transaction to restore.
  The job then reports success, but the passport stays without a transaction: its
  certificate says the record was only simulated, although it is on chain, and every sweep
  queues it again.
\<close>

theorem a_late_receipt_is_taken_for_a_simulation:
  assumes p: "find_passport i (ws_db s) = Some p" and reg: "given (registryAddress (je_api je))"
    and never: "p_blockchainTxHash p = None" and shown: "p_status p \<noteq> P_draft"
    and chain: "je_anchor je = Some onchain"
    and current: "decideAnchorAction onchain (fingerprint (je_api je) p) = Skip_passport"
    and log: "\<forall>t \<in> set (ws_txs s). \<not> (tx_passport t = Some i \<and> tx_status t = Tx_succeeded
      \<and> tx_certificateHash t = Some (fingerprint (je_api je) p))"
    and run: "processAnchorJob je now ended i s = (r, s')"
  shows "r = Inr ()
    \<and> (\<exists>c. getPassportCertificate (je_api je) ask lastTx i viewer (ws_db s') = Inr c
        \<and> ce_status c = Cert_simulated \<and> ce_txHash c = None)
    \<and> (i, p_organisationId p) \<in> set (findUnanchoredPassports (length (materialPassports (ws_db s'))) (ws_db s'))"
proof -
  let ?h = "fingerprint (je_api je) p"
  have i: "p_id p = i" using find_passport_id p by blast
  have job: "r = Inr ()" "s' = syncAlreadyAnchored je now p ?h s"
    using begin_cases [OF p reg] run chain current by (simp_all add: processAnchorJob_def anchor_job_around_def)
  have none: "List.find (\<lambda>t. tx_certificateHash t = Some ?h) (order_rows False tx_confirmedAt
      (filter (\<lambda>t. tx_passport t = Some i \<and> tx_status t = Tx_succeeded) (ws_txs s))) = None"
    using log by (auto simp: find_None_iff set_order_rows)
  define g :: "passport \<Rightarrow> passport" where "g = (\<lambda>r. r\<lparr> p_blockchainTxHash := None, p_blockchainPassportHash := Some ?h,
      p_blockchainAnchoredAt := Some (or_keep (p_blockchainAnchoredAt p) now),
      p_blockchainChainId := Some (je_chainId je), p_updatedAt := now \<rparr>)"
  have db: "ws_db s' = update_passport i g (ws_db s)"
    unfolding job(2) syncAlreadyAnchored_def Let_def i none g_def using never by (simp add: given_def)
  have row: "find_passport i (ws_db s') = Some (g p)" unfolding db using p by (simp add: g_def)
  have g: "p_status (g p) \<noteq> P_draft" "p_blockchainTxHash (g p) = None" "p_organisationId (g p) = p_organisationId p"
    "p_blockchainAnchoredAt (g p) \<noteq> None" "p_blockchainPassportHash (g p) \<noteq> None" "p_id (g p) = i"
    using shown i by (simp_all add: g_def)
  have "g p \<in> set (materialPassports (ws_db s'))" using find_row_SomeD [OF row] by simp
  then have "g p \<in> set (filter (\<lambda>q. p_blockchainTxHash q = None \<and> p_status q \<noteq> P_draft) (materialPassports (ws_db s')))"
    using g by simp
  then have "(i, p_organisationId p) \<in> set (findUnanchoredPassports (length (materialPassports (ws_db s'))) (ws_db s'))"
    unfolding findUnanchoredPassports_def using g by force
  moreover have "\<exists>c. getPassportCertificate (je_api je) ask lastTx i viewer (ws_db s') = Inr c
      \<and> ce_status c = Cert_simulated \<and> ce_txHash c = None"
    using row g by (simp add: getPassportCertificate_def loadVisiblePassport_def verifyPassport_def Let_def
        certificate_of_def given_def)
  ultimately show ?thesis using job(1) by blast
qed

text \<open>The witness runs both jobs: the first one's receipt is late, then the registry has the passport.\<close>

definition now_registered :: onchain_anchor where
  "now_registered = \<lparr>oa_registered = True, oa_dataHash = Some (fingerprint chain_env sample_passport),
     oa_owner = Some ''0xab''\<rparr>"

theorem a_late_receipt_is_taken_for_a_simulation_witness:
  "\<exists>c. getPassportCertificate chain_env (\<lambda>_ _ _. Some True) None 10 None
      (ws_db (snd (processAnchorJob (sample_job now_registered Not_submitted) 900 960 10
        (snd (processAnchorJob (sample_job not_registered (Unconfirmed ''0xt'')) 500 560 10 worker_start))))) = Inr c
    \<and> ce_status c = Cert_simulated"
proof -
  let ?h = "fingerprint chain_env sample_passport"
  let ?late = "sample_job not_registered (Unconfirmed ''0xt'')"
  obtain db where send: "anchor_send ?late 500 sample_passport ?h Register_passport worker_start
      = (Inl PlainError, anchor_failed ?late Register_passport 10 (Some 0)
          \<lparr> ws_db = db, ws_txs = [logged_tx ?h Tx_submitted (Some ''0xt'')], ws_audit = [] \<rparr>)"
    using sample_send [of ?h not_registered 500] by (auto simp: Let_def)
  have "anchor_begin ?late 10 worker_start
      = (Inr (Submit_anchor sample_passport ?h Register_passport), worker_start)"
    using begin_cases [of 10 worker_start sample_passport ?late] start_row by simp
  then obtain s1 where s1: "snd (processAnchorJob ?late 500 560 10 worker_start) = s1"
    "s1 = anchor_failed ?late Register_passport 10 (Some 0)
        \<lparr> ws_db = db, ws_txs = [logged_tx ?h Tx_submitted (Some ''0xt'')], ws_audit = [] \<rparr>"
    using send by (simp add: processAnchorJob_def anchor_job_around_def)
  have "materialPassports (ws_db s1) = materialPassports start_db"
    using send_frame [of worker_start ?late 500 sample_passport ?h Register_passport] send
    by (simp add: s1(2) same_market_def)
  then have p: "find_passport 10 (ws_db s1) = Some sample_passport" using start_row by simp
  have log: "\<forall>t \<in> set (ws_txs s1). \<not> (tx_passport t = Some 10 \<and> tx_status t = Tx_succeeded
      \<and> tx_certificateHash t = Some (fingerprint (je_api (sample_job now_registered Not_submitted)) sample_passport))"
    by (simp add: s1(2) anchor_failed_def recordAuditEvent_def updateBlockchainTransaction_def tx_failed_def logged_tx_def)
  have row: "p_blockchainTxHash sample_passport = None" "p_status sample_passport \<noteq> P_draft"
    by (simp_all add: sample_passport_def)
  have skip: "decideAnchorAction now_registered (fingerprint (je_api (sample_job now_registered Not_submitted)) sample_passport)
      = Skip_passport"
    by (simp add: decideAnchorAction_def now_registered_def)
  obtain r s' where run: "processAnchorJob (sample_job now_registered Not_submitted) 900 960 10 s1 = (r, s')" by fastforce
  from a_late_receipt_is_taken_for_a_simulation [OF p sample_job_simps(1) row sample_job_simps(2) skip log run,
      where ask = "\<lambda>_ _ _. Some True" and lastTx = None and viewer = None]
  show ?thesis using run s1(1) by auto
qed
subsection \<open>The sweep repairs\<close>

text \<open>What the backfill leaves of a row: everything the anchoring looks at.\<close>

definition alike_row :: "api_env \<Rightarrow> passport \<Rightarrow> passport \<Rightarrow> bool" where
  "alike_row env p q \<longleftrightarrow> p_id q = p_id p \<and> p_organisationId q = p_organisationId p
     \<and> p_status q = p_status p \<and> p_blockchainTxHash q = p_blockchainTxHash p
     \<and> p_blockchainPassportHash q = p_blockchainPassportHash p \<and> fingerprint env q = fingerprint env p"

lemma alike_row_refl [simp]: "alike_row env p p" by (simp add: alike_row_def)

lemma alike_row_trans: "alike_row env p q \<Longrightarrow> alike_row env q r \<Longrightarrow> alike_row env p r"
  by (simp add: alike_row_def)

lemma alike_rows_refl [simp]: "list_all2 (alike_row env) ps ps" by (simp add: list_all2_refl)

lemma issue_rows:
  assumes "issuePassportIdentifiers env now i s = (r, s')"
  shows "list_all2 (alike_row env) (materialPassports (snd s)) (materialPassports (snd s'))"
proof -
  have written: "list_all2 (alike_row env) (materialPassports (snd s1))
      (materialPassports (snd (snd (write_identifiers env now i qr s1))))" for qr s1
    by (auto simp: write_identifiers_def Let_def update_passport_def update_rows_def list_all2_conv_all_nth
        alike_row_def identified_row_def split: option.split)
  show ?thesis
  proof (cases "isTest env")
    case True
    then show ?thesis using assms written [of s None] by (simp add: issuePassportIdentifiers_def)
  next
    case False
    let ?key = "''passports/'' @ idText env i @ ''/qr.png''"
    obtain a s1 where st: "storeObject env now ?key (qrPng env (passportPublicUrl env i)) ''image/png'' Qr
        None (Some i) s = (a, s1)" by (meson surj_pair)
    then have rows: "materialPassports (snd s1) = materialPassports (snd s)" using storeObject_cases [OF st] by auto
    show ?thesis
    proof (cases a)
      case (Inl e)
      then have "s' = s1" using assms False st by (simp add: issuePassportIdentifiers_def)
      then show ?thesis using rows by simp
    next
      case (Inr url)
      then have "s' = snd (write_identifiers env now i (Some url) s1)"
        using assms False st by (simp add: issuePassportIdentifiers_def)
      then show ?thesis using rows written [of s1 "Some url"] by simp
    qed
  qed
qed

lemma backfill_rows:
  "list_all2 (alike_row env) (materialPassports (snd s)) (materialPassports (snd (snd (issue_each env now is n s))))"
proof (induction "is" arbitrary: n s)
  case Nil
  then show ?case by simp
next
  case (Cons i "is")
  obtain r s1 where one: "issuePassportIdentifiers env now i s = (r, s1)" by (meson surj_pair)
  have "list_all2 (alike_row env) (materialPassports (snd s1)) (materialPassports (snd (snd (issue_each env now (i # is) n s))))"
    using Cons.IH one by (cases r) simp_all
  then show ?case
    using issue_rows [OF one] list_all2_trans [of "alike_row env" "alike_row env" "alike_row env"] alike_row_trans by blast
qed

definition stale :: "api_env \<Rightarrow> passport \<Rightarrow> bool" where
  "stale env p \<longleftrightarrow> p_blockchainPassportHash p \<noteq> Some (fingerprint env p)"

lemma clear_rows:
  "materialPassports (snd (clear_stale env ps m db))
    = map (\<lambda>r. if p_id r \<in> p_id ` set (filter (stale env) ps) then unanchored_row r else r) (materialPassports db)"
proof (induction ps arbitrary: m db)
  case Nil
  then show ?case by simp
next
  case (Cons p ps)
  have id: "p_id (unanchored_row r) = p_id r" "unanchored_row (unanchored_row r) = unanchored_row r" for r
    by (simp_all add: unanchored_row_def)
  show ?case
  proof (cases "stale env p")
    case True
    then have "clear_stale env (p # ps) m db = clear_stale env ps (m + 1) (update_passport (p_id p) unanchored_row db)"
      by (auto simp: stale_def)
    then show ?thesis using True by (auto simp: Cons.IH update_passport_def update_rows_def id)
  next
    case False
    then show ?thesis by (auto simp: Cons.IH stale_def)
  qed
qed

text \<open>With every anchored row looked at, exactly the stale ones are cleared.\<close>

lemma reconcile_rows:
  assumes ids: "distinct (map p_id (materialPassports db))"
    and few: "length (filter (\<lambda>p. p_blockchainTxHash p \<noteq> None) (materialPassports db)) \<le> limit"
  shows "materialPassports (snd (reconcileStaleAnchors env limit db))
    = map (\<lambda>r. if p_blockchainTxHash r \<noteq> None \<and> stale env r then unanchored_row r else r) (materialPassports db)"
proof -
  let ?ps = "take limit (sort_key (\<lambda>p. - p_updatedAt p)
      (filter (\<lambda>p. p_blockchainTxHash p \<noteq> None) (materialPassports db)))"
  have set: "set ?ps = {p \<in> set (materialPassports db). p_blockchainTxHash p \<noteq> None}" using few by simp
  have "p_id r \<in> p_id ` set (filter (stale env) ?ps) \<longleftrightarrow> p_blockchainTxHash r \<noteq> None \<and> stale env r"
    if "r \<in> set (materialPassports db)" for r
    unfolding set_filter set using ids that by (auto simp: distinct_map inj_on_def)
  then show ?thesis by (simp add: reconcileStaleAnchors_def clear_rows)
qed

definition waits :: "(uuid \<Rightarrow> job_state option) \<Rightarrow> uuid \<Rightarrow> bool" where
  "waits jobState i \<longleftrightarrow> jobState i \<in> {Some Job_waiting, Some Job_delayed, Some Job_active}"

lemma enqueue_all:
  "materialPassports (fold (\<lambda>job db. snd (enqueueSweepAnchor jobState job db)) jobs db) = materialPassports db"
  "anchorQueue (fold (\<lambda>job db. snd (enqueueSweepAnchor jobState job db)) jobs db)
    = anchorQueue db @ map (\<lambda>(i, org). \<lparr>j_passportId = i, j_organisationId = org\<rparr>)
        (filter (\<lambda>(i, org). \<not> waits jobState i) jobs)"
  by (induction jobs arbitrary: db) (auto simp: enqueueSweepAnchor_def enqueue_anchor_def waits_def)

text \<open>What the reconciliation makes of one row.\<close>

definition reconciled :: "api_env \<Rightarrow> passport \<Rightarrow> passport" where
  "reconciled env r = (if p_blockchainTxHash r \<noteq> None \<and> stale env r then unanchored_row r else r)"

lemma reconciled_keeps:
  "p_id (reconciled env r) = p_id r" "p_organisationId (reconciled env r) = p_organisationId r"
  "p_status (reconciled env r) = p_status r" "fingerprint env (reconciled env r) = fingerprint env r"
  "p_blockchainTxHash (reconciled env r) = None \<longleftrightarrow> p_blockchainTxHash r = None \<or> stale env r"
  "\<not> stale env r \<Longrightarrow> reconciled env r = r"
  "p_blockchainTxHash (reconciled env r) \<noteq> None \<Longrightarrow> \<not> stale env (reconciled env r)"
  by (auto simp: reconciled_def unanchored_row_def stale_def split: if_splits)

lemma alike_count:
  assumes "list_all2 (alike_row env) ps qs" and "\<And>p q. alike_row env p q \<Longrightarrow> Q p = Q q"
  shows "length (filter Q qs) = length (filter Q ps)"
  using assms(1) by (induction rule: list_all2_induct) (use assms(2) in auto)

abbreviation needy :: "passport \<Rightarrow> bool" where
  "needy p \<equiv> p_blockchainTxHash p = None \<and> p_status p \<noteq> P_draft"

text \<open>The rows after a sweep: those of the backfill, reconciled.\<close>

lemma sweep_rows:
  assumes live: "\<not> simulateAnchor env"
    and ids: "distinct (map p_id (materialPassports (snd s)))"
    and few: "length (filter (\<lambda>p. p_blockchainTxHash p \<noteq> None) (materialPassports (snd s))) \<le> 200"
  obtains rows db2 where "list_all2 (alike_row env) (materialPassports (snd s)) rows"
    and "materialPassports db2 = map (reconciled env) rows"
    and "snd (processSweepJob env jobState now s) = fold (\<lambda>job db. snd (enqueueSweepAnchor jobState job db))
      (findUnanchoredPassports SWEEP_BATCH_SIZE db2) db2"
proof -
  define s1 where "s1 = snd (backfillPassportIdentifiers env now SWEEP_BATCH_SIZE s)"
  let ?rows = "materialPassports (snd s1)"
  have alike: "list_all2 (alike_row env) (materialPassports (snd s)) ?rows"
    unfolding s1_def backfillPassportIdentifiers_def by (rule backfill_rows)
  have "map p_id ?rows = map p_id (materialPassports (snd s))"
    using alike by (induction rule: list_all2_induct) (auto simp: alike_row_def)
  then have "distinct (map p_id ?rows)" using ids by simp
  moreover have "length (filter (\<lambda>p. p_blockchainTxHash p \<noteq> None) ?rows) \<le> RECONCILE_BATCH_SIZE"
    using few alike_count [OF alike, of "\<lambda>p. p_blockchainTxHash p \<noteq> None"]
    by (simp add: alike_row_def RECONCILE_BATCH_SIZE_def)
  ultimately have "materialPassports (snd (reconcileStaleAnchors env RECONCILE_BATCH_SIZE (snd s1)))
      = map (reconciled env) ?rows"
    using reconcile_rows by (simp add: reconciled_def [abs_def])
  then show ?thesis
    using that [OF alike] live by (simp add: processSweepJob_def Let_def s1_def)
qed

text \<open>As long as they fit into a batch, all the registered rows without a transaction are found
  and, unless a job waits for them, queued.\<close>

lemma needy_are_queued:
  assumes "length (filter needy (materialPassports db)) \<le> n" and "p \<in> set (materialPassports db)" and "needy p"
    and "\<not> waits jobState (p_id p)"
  shows "\<lparr>j_passportId = p_id p, j_organisationId = p_organisationId p\<rparr>
    \<in> set (anchorQueue (fold (\<lambda>job db. snd (enqueueSweepAnchor jobState job db)) (findUnanchoredPassports n db) db))"
proof -
  have "set (findUnanchoredPassports n db)
      = (\<lambda>p. (p_id p, p_organisationId p)) ` {p \<in> set (materialPassports db). needy p}"
    unfolding findUnanchoredPassports_def using assms(1) by simp
  then have "(p_id p, p_organisationId p) \<in> set (findUnanchoredPassports n db)"
    using assms(2,3) by (simp add: image_eqI [of _ _ p])
  then have "(p_id p, p_organisationId p) \<in> set (filter (\<lambda>(i, org). \<not> waits jobState i) (findUnanchoredPassports n db))"
    using assms(4) by simp
  then show ?thesis
    unfolding enqueue_all(2) set_append set_map
    by (intro UnI2 image_eqI [of _ _ "(p_id p, p_organisationId p)"]) simp_all
qed

text \<open>
  C17: After a sweep, as long as no more than the 200 rows it reconciles carry a transaction and
  no more than the 50 it queues need a job: no passport claims a transaction for a
  fingerprint that is not its own; every registered passport without a transaction has a job
  waiting, delayed or running, or has just been queued; and nothing else about the passports
  the anchoring looks at has changed, a transaction that stands included.
\<close>

theorem a_sweep_repairs_the_anchors:
  assumes live: "\<not> simulateAnchor env"
    and ids: "distinct (map p_id (materialPassports (snd s)))"
    and few: "length (filter (\<lambda>p. p_blockchainTxHash p \<noteq> None) (materialPassports (snd s))) \<le> 200"
    and due: "length (filter (\<lambda>p. (p_blockchainTxHash p = None \<or> p_blockchainPassportHash p \<noteq> Some (fingerprint env p))
      \<and> p_status p \<noteq> P_draft) (materialPassports (snd s))) \<le> 50"
    and db': "db' = snd (processSweepJob env jobState now s)"
  shows "(\<forall>p \<in> set (materialPassports db').
        (p_blockchainTxHash p \<noteq> None \<longrightarrow> p_blockchainPassportHash p = Some (fingerprint env p))
      \<and> (p_blockchainTxHash p = None \<and> p_status p \<noteq> P_draft \<longrightarrow>
          jobState (p_id p) \<in> {Some Job_waiting, Some Job_delayed, Some Job_active}
          \<or> \<lparr>j_passportId = p_id p, j_organisationId = p_organisationId p\<rparr> \<in> set (anchorQueue db')))
    \<and> list_all2 (\<lambda>p q. p_id q = p_id p \<and> p_organisationId q = p_organisationId p \<and> p_status q = p_status p
        \<and> fingerprint env q = fingerprint env p
        \<and> (if p_blockchainPassportHash p = Some (fingerprint env p)
           then p_blockchainTxHash q = p_blockchainTxHash p \<and> p_blockchainPassportHash q = p_blockchainPassportHash p
           else p_blockchainTxHash q = None))
      (materialPassports (snd s)) (materialPassports db')"
proof -
  obtain rows db2 where alike: "list_all2 (alike_row env) (materialPassports (snd s)) rows"
    and rows2: "materialPassports db2 = map (reconciled env) rows"
    and final: "db' = fold (\<lambda>job db. snd (enqueueSweepAnchor jobState job db))
      (findUnanchoredPassports SWEEP_BATCH_SIZE db2) db2"
    using sweep_rows [OF live ids few] db' by metis
  have rows': "materialPassports db' = map (reconciled env) rows" unfolding final enqueue_all rows2 ..
  have "length (filter needy (materialPassports db2))
      = length (filter (\<lambda>p. (p_blockchainTxHash p = None \<or> stale env p) \<and> p_status p \<noteq> P_draft) rows)"
    by (simp add: rows2 filter_map comp_def reconciled_keeps)
  also have "\<dots> \<le> SWEEP_BATCH_SIZE"
    using due alike_count [OF alike, of "\<lambda>p. (p_blockchainTxHash p = None \<or> stale env p) \<and> p_status p \<noteq> P_draft"]
    by (simp add: alike_row_def stale_def SWEEP_BATCH_SIZE_def)
  finally have queued: "p \<in> set (materialPassports db2) \<Longrightarrow> needy p \<Longrightarrow> waits jobState (p_id p)
      \<or> \<lparr>j_passportId = p_id p, j_organisationId = p_organisationId p\<rparr> \<in> set (anchorQueue db')" for p
    unfolding final using needy_are_queued by blast
  have "list_all2 (\<lambda>p q. p_id q = p_id p \<and> p_organisationId q = p_organisationId p \<and> p_status q = p_status p
        \<and> fingerprint env q = fingerprint env p
        \<and> (if p_blockchainPassportHash p = Some (fingerprint env p)
           then p_blockchainTxHash q = p_blockchainTxHash p \<and> p_blockchainPassportHash q = p_blockchainPassportHash p
           else p_blockchainTxHash q = None)) (materialPassports (snd s)) (map (reconciled env) rows)"
    unfolding list_all2_map2 using alike
  proof (rule list_all2_mono)
    fix p q assume a: "alike_row env p q"
    show "p_id (reconciled env q) = p_id p \<and> p_organisationId (reconciled env q) = p_organisationId p
      \<and> p_status (reconciled env q) = p_status p \<and> fingerprint env (reconciled env q) = fingerprint env p
      \<and> (if p_blockchainPassportHash p = Some (fingerprint env p)
         then p_blockchainTxHash (reconciled env q) = p_blockchainTxHash p
           \<and> p_blockchainPassportHash (reconciled env q) = p_blockchainPassportHash p
         else p_blockchainTxHash (reconciled env q) = None)"
      using a reconciled_keeps [of env q] by (cases "stale env q") (simp_all add: alike_row_def stale_def)
  qed
  moreover have "p_blockchainTxHash p \<noteq> None \<longrightarrow> \<not> stale env p" if "p \<in> set (materialPassports db')" for p
    using that reconciled_keeps(7) unfolding rows' by auto
  ultimately show ?thesis using queued unfolding rows' rows2 waits_def stale_def by blast
qed

text \<open>A passport whose stored fingerprint is not its own, and one without a transaction.\<close>

definition neglected_db :: trace_db where
  "neglected_db = sample_db\<lparr> materialPassports := [sample_passport\<lparr>p_id := 11\<rparr>,
     sample_passport\<lparr>p_blockchainTxHash := Some ''0xt'', p_blockchainPassportHash := Some ''old''\<rparr>] \<rparr>"

theorem a_sweep_repairs_the_anchors_witness:
  "\<exists>db'. db' = snd (processSweepJob chain_env (\<lambda>i. if i = 11 then Some Job_active else Some Job_completed) 70 (no_files, neglected_db))
    \<and> \<lparr>j_passportId = 10, j_organisationId = 1\<rparr> \<in> set (anchorQueue db')"
proof -
  define db' where "db' = snd (processSweepJob chain_env (\<lambda>i. if i = 11 then Some Job_active else Some Job_completed) 70 (no_files, neglected_db))"
  have s: "\<not> simulateAnchor chain_env" "distinct (map p_id (materialPassports (snd (no_files, neglected_db))))"
    "length (filter (\<lambda>p. p_blockchainTxHash p \<noteq> None) (materialPassports (snd (no_files, neglected_db)))) \<le> 200"
    "length (filter (\<lambda>p. (p_blockchainTxHash p = None \<or> p_blockchainPassportHash p \<noteq> Some (fingerprint chain_env p))
      \<and> p_status p \<noteq> P_draft) (materialPassports (snd (no_files, neglected_db)))) \<le> 50"
    by (simp_all add: chain_env_def sample_env_def neglected_db_def sample_db_def sample_passport_def)
  from a_sweep_repairs_the_anchors [OF s db'_def]
  have rows: "\<forall>p \<in> set (materialPassports db'). p_blockchainTxHash p = None \<and> p_status p \<noteq> P_draft \<longrightarrow>
        p_id p = 11 \<or> \<lparr>j_passportId = p_id p, j_organisationId = p_organisationId p\<rparr> \<in> set (anchorQueue db')"
    and same: "list_all2 (\<lambda>p q. p_id q = p_id p \<and> p_organisationId q = p_organisationId p \<and> p_status q = p_status p
        \<and> (p_blockchainPassportHash p \<noteq> Some (fingerprint chain_env p) \<longrightarrow> p_blockchainTxHash q = None))
      (materialPassports neglected_db) (materialPassports db')"
    by (auto elim!: list_all2_mono split: if_splits)
  have "''old'' \<noteq> fingerprint chain_env p" for p by (simp add: computePassportHash_def)
  then have "\<exists>q \<in> set (materialPassports db'). p_id q = 10 \<and> p_organisationId q = 1
      \<and> p_status q = P_active \<and> p_blockchainTxHash q = None"
    using same by (auto simp: neglected_db_def sample_db_def sample_passport_def list_all2_Cons1)
  then obtain q where "q \<in> set (materialPassports db')" "p_id q = 10" "p_organisationId q = 1"
    "p_status q = P_active" "p_blockchainTxHash q = None" by blast
  then have "\<lparr>j_passportId = 10, j_organisationId = 1\<rparr> \<in> set (anchorQueue db')" using rows by force
  then show ?thesis using db'_def by blast
qed

end
