(* ===== verification/Web_Session.thy ===== *)
theory Web_Session
  imports Trace_Prelude
begin

text \<open>
  Who the web client thinks is signed in (\<open>packages/web/src/lib/session.tsx\<close>, with the refusals
  \<open>lib/api-client.ts\<close> reports to it), and the quick look the web server takes at a page's cookie
  (\<open>packages/web/src/middleware.ts\<close>).

  The provider is a state machine. Its state is what the React component keeps (\<open>user\<close>,
  \<open>status\<close>, the \<open>generation\<close> counter) together with what is under way: the running calls of
  \<open>check\<close>, each waiting for the API or for its retry timer, and the calls of \<open>signOut\<close> whose
  \<open>auth.logout()\<close> has not returned. An event is anything that makes the code run on: a
  navigation, a sign-in, an answer, a failed request, a timer. Answers arrive in any order.

  The promise of the component is an abstract machine without numbers, in which every running
  check knows whether anything has happened since it was asked. The provider refines it.
\<close>

subsection \<open>The provider\<close>

datatype session_status = Loading | Signed_in | Signed_out

text \<open>The user the API returned. A JavaScript object has an identity besides its fields.\<close>

record page_user =
  pu_object :: nat
  pu_id :: string
  pu_email :: string
  pu_role :: string
  pu_organisationId :: "string option"

definition sameUser :: "page_user option \<Rightarrow> page_user option \<Rightarrow> bool" where
  "sameUser a b \<longleftrightarrow> a = b
    \<or> (case (a, b) of
        (Some x, Some y) \<Rightarrow> pu_id x = pu_id y \<and> pu_email x = pu_email y \<and> pu_role x = pu_role y
          \<and> pu_organisationId x = pu_organisationId y
      | _ \<Rightarrow> False)"

text \<open>\<open>RETRY_DELAYS_MS\<close>.\<close>

definition RETRY_DELAYS_MS :: "nat list" where
  "RETRY_DELAYS_MS = [1000, 3000]"

datatype pause = Asking | Sleeping

record check_call =
  asked :: nat
  attempt :: nat
  pause :: pause

record provider =
  user :: "page_user option"
  status :: session_status
  generation :: nat
  checks :: "check_call list"
  logouts :: nat

definition apply_answer :: "page_user option \<Rightarrow> provider \<Rightarrow> provider" where
  "apply_answer answer s = s\<lparr>
    user := (if sameUser (user s) answer then user s else answer),
    status := (if answer \<noteq> None then Signed_in else Signed_out) \<rparr>"

text \<open>\<open>check\<close> up to its first \<open>await\<close>.\<close>

definition begin_check :: "provider \<Rightarrow> provider" where
  "begin_check s = s\<lparr>
    generation := Suc (generation s),
    checks := checks s @ [\<lparr> asked = Suc (generation s), attempt = 0, pause = Asking \<rparr>] \<rparr>"

definition end_check :: "nat \<Rightarrow> provider \<Rightarrow> provider" where
  "end_check k s = s\<lparr> checks := filter (\<lambda>c. asked c \<noteq> k) (checks s) \<rparr>"

definition set_check :: "nat \<Rightarrow> (check_call \<Rightarrow> check_call) \<Rightarrow> provider \<Rightarrow> provider" where
  "set_check k f s = s\<lparr> checks := update_rows asked k f (checks s) \<rparr>"

text \<open>\<open>auth.session()\<close> answered.\<close>

definition check_answered :: "nat \<Rightarrow> page_user option \<Rightarrow> provider \<Rightarrow> provider" where
  "check_answered k answer s =
    end_check k (if k = generation s then apply_answer answer s else s)"

text \<open>\<open>auth.session()\<close> threw: stop, give up, or go to sleep.\<close>

definition check_failed :: "nat \<Rightarrow> check_call \<Rightarrow> provider \<Rightarrow> provider" where
  "check_failed k c s =
    (if k \<noteq> generation s then end_check k s
     else if length RETRY_DELAYS_MS \<le> attempt c
     then end_check k (s\<lparr> status := (if status s = Loading then Signed_out else status s) \<rparr>)
     else set_check k (\<lambda>c. c\<lparr> pause := Sleeping \<rparr>) s)"

text \<open>The timer of a retry fired.\<close>

definition check_woken :: "nat \<Rightarrow> provider \<Rightarrow> provider" where
  "check_woken k s =
    (if k \<noteq> generation s then end_check k s
     else set_check k (\<lambda>c. c\<lparr> attempt := Suc (attempt c), pause := Asking \<rparr>) s)"

definition signedIn :: "page_user \<Rightarrow> provider \<Rightarrow> provider" where
  "signedIn u s = apply_answer (Some u) (s\<lparr> generation := Suc (generation s) \<rparr>)"

text \<open>\<open>signOut\<close> up to \<open>await auth.logout()\<close>, and from there on: a failure is ignored.\<close>

definition signOut_begin :: "provider \<Rightarrow> provider" where
  "signOut_begin s = s\<lparr> generation := Suc (generation s), logouts := Suc (logouts s) \<rparr>"

definition signOut_finish :: "provider \<Rightarrow> provider" where
  "signOut_finish s = apply_answer None (s\<lparr> logouts := logouts s - 1 \<rparr>)"

text \<open>\<open>noteSessionEnded\<close>: which refusals make the provider check again.\<close>

definition noteSessionEnded :: "string \<Rightarrow> nat \<Rightarrow> bool" where
  "noteSessionEnded path code \<longleftrightarrow>
    \<not> (code \<noteq> 401 \<or> take (length ''/api/v1/auth/'') path = ''/api/v1/auth/'')"

datatype session_event =
    Navigate
  | Refused string nat
  | Answer nat "page_user option"
  | No_answer nat
  | Timer nat
  | Sign_in page_user
  | Sign_out
  | Logout_returned

fun provider_step :: "session_event \<Rightarrow> provider \<Rightarrow> provider option" where
  "provider_step Navigate s = Some (begin_check s)"
| "provider_step (Refused path code) s = Some (if noteSessionEnded path code then begin_check s else s)"
| "provider_step (Answer k answer) s = (case find_row asked k (checks s) of
      Some c \<Rightarrow> if pause c = Asking then Some (check_answered k answer s) else None
    | None \<Rightarrow> None)"
| "provider_step (No_answer k) s = (case find_row asked k (checks s) of
      Some c \<Rightarrow> if pause c = Asking then Some (check_failed k c s) else None
    | None \<Rightarrow> None)"
| "provider_step (Timer k) s = (case find_row asked k (checks s) of
      Some c \<Rightarrow> if pause c = Sleeping then Some (check_woken k s) else None
    | None \<Rightarrow> None)"
| "provider_step (Sign_in u) s = Some (signedIn u s)"
| "provider_step Sign_out s = Some (signOut_begin s)"
| "provider_step Logout_returned s = (if logouts s = 0 then None else Some (signOut_finish s))"

text \<open>The page mounts: the first check is asked at once.\<close>

definition mounted :: provider where
  "mounted = begin_check \<lparr> user = None, status = Loading, generation = 0, checks = [], logouts = 0 \<rparr>"

fun provider_run :: "session_event list \<Rightarrow> provider \<Rightarrow> provider option" where
  "provider_run [] s = Some s"
| "provider_run (e # es) s = Option.bind (provider_step e s) (provider_run es)"

inductive visited :: "provider \<Rightarrow> bool" where
  start: "visited mounted"
| event: "visited s \<Longrightarrow> provider_step e s = Some s' \<Longrightarrow> visited s'"

subsection \<open>What the provider promises\<close>

text \<open>
  The abstract machine. A running check carries the flag \<open>fresh\<close>: nothing has happened since
  it was asked. \<open>turns\<close> only gives the checks their names, no decision looks at it.
\<close>

datatype page_view = Unknown | Nobody | Somebody page_user

record spec_call =
  name :: nat
  fresh :: bool
  tries_left :: nat
  resting :: bool

record session_spec =
  view :: page_view
  turns :: nat
  calls :: "spec_call list"
  ending :: nat

fun see :: "page_user option \<Rightarrow> page_view \<Rightarrow> page_view" where
  "see None v = Nobody"
| "see (Some u) (Somebody w) = (if sameUser (Some w) (Some u) then Somebody w else Somebody u)"
| "see (Some u) v = Somebody u"

definition outdate :: "session_spec \<Rightarrow> session_spec" where
  "outdate a = a\<lparr> turns := Suc (turns a), calls := map (\<lambda>c. c\<lparr> fresh := False \<rparr>) (calls a) \<rparr>"

definition spec_ask :: "session_spec \<Rightarrow> session_spec" where
  "spec_ask a = (outdate a)\<lparr> calls := map (\<lambda>c. c\<lparr> fresh := False \<rparr>) (calls a)
    @ [\<lparr> name = Suc (turns a), fresh = True, tries_left = 2, resting = False \<rparr>] \<rparr>"

definition drop_call :: "nat \<Rightarrow> session_spec \<Rightarrow> session_spec" where
  "drop_call n a = a\<lparr> calls := filter (\<lambda>c. name c \<noteq> n) (calls a) \<rparr>"

fun spec_step :: "session_event \<Rightarrow> session_spec \<Rightarrow> session_spec option" where
  "spec_step Navigate a = Some (spec_ask a)"
| "spec_step (Refused path code) a = Some (if noteSessionEnded path code then spec_ask a else a)"
| "spec_step (Answer n answer) a = (case find_row name n (calls a) of
      Some c \<Rightarrow> if resting c then None
        else Some (drop_call n (if fresh c then a\<lparr> view := see answer (view a) \<rparr> else a))
    | None \<Rightarrow> None)"
| "spec_step (No_answer n) a = (case find_row name n (calls a) of
      Some c \<Rightarrow> if resting c then None
        else if \<not> fresh c then Some (drop_call n a)
        else if tries_left c = 0
        then Some (drop_call n (a\<lparr> view := (if view a = Unknown then Nobody else view a) \<rparr>))
        else Some (a\<lparr> calls := update_rows name n (\<lambda>c. c\<lparr> resting := True \<rparr>) (calls a) \<rparr>)
    | None \<Rightarrow> None)"
| "spec_step (Timer n) a = (case find_row name n (calls a) of
      Some c \<Rightarrow> if \<not> resting c then None
        else if \<not> fresh c then Some (drop_call n a)
        else Some (a\<lparr> calls := update_rows name n
               (\<lambda>c. c\<lparr> tries_left := tries_left c - 1, resting := False \<rparr>) (calls a) \<rparr>)
    | None \<Rightarrow> None)"
| "spec_step (Sign_in u) a = Some ((outdate a)\<lparr> view := see (Some u) (view a) \<rparr>)"
| "spec_step Sign_out a = Some ((outdate a)\<lparr> ending := Suc (ending a) \<rparr>)"
| "spec_step Logout_returned a =
    (if ending a = 0 then None else Some (a\<lparr> view := Nobody, ending := ending a - 1 \<rparr>))"

fun spec_run :: "session_event list \<Rightarrow> session_spec \<Rightarrow> session_spec option" where
  "spec_run [] a = Some a"
| "spec_run (e # es) a = Option.bind (spec_step e a) (spec_run es)"

definition view_of :: "provider \<Rightarrow> page_view" where
  "view_of s = (case status s of Loading \<Rightarrow> Unknown | Signed_out \<Rightarrow> Nobody
     | Signed_in \<Rightarrow> Somebody (the (user s)))"

definition call_of :: "nat \<Rightarrow> check_call \<Rightarrow> spec_call" where
  "call_of g c = \<lparr> name = asked c, fresh = (asked c = g), tries_left = 2 - attempt c,
     resting = (pause c = Sleeping) \<rparr>"

definition spec_of :: "provider \<Rightarrow> session_spec" where
  "spec_of s = \<lparr> view = view_of s, turns = generation s,
     calls = map (call_of (generation s)) (checks s), ending = logouts s \<rparr>"

subsection \<open>The invariant of the provider\<close>

definition current_check :: "provider \<Rightarrow> check_call option" where
  "current_check s = find_row asked (generation s) (checks s)"

definition provider_ok :: "provider \<Rightarrow> bool" where
  "provider_ok s \<longleftrightarrow> distinct (map asked (checks s))
    \<and> (\<forall>c\<in>set (checks s). asked c \<le> generation s
         \<and> (if pause c = Sleeping then attempt c < 2 else attempt c \<le> 2))
    \<and> (status s = Signed_in \<longleftrightarrow> user s \<noteq> None)
    \<and> (status s = Loading \<longrightarrow> current_check s \<noteq> None \<or> 0 < logouts s)"

lemma provider_okD:
  assumes "provider_ok s"
  shows "distinct (map asked (checks s))" "\<And>c. c \<in> set (checks s) \<Longrightarrow> asked c \<le> generation s"
    "\<And>c. c \<in> set (checks s) \<Longrightarrow> pause c = Sleeping \<Longrightarrow> attempt c < 2"
    "\<And>c. c \<in> set (checks s) \<Longrightarrow> attempt c \<le> 2"
    "status s = Signed_in \<longleftrightarrow> user s \<noteq> None"
    "status s = Loading \<Longrightarrow> current_check s \<noteq> None \<or> 0 < logouts s"
  using assms by (auto simp: provider_ok_def split: if_splits intro: less_imp_le)

lemma sameUser_None [simp]: "sameUser None b \<longleftrightarrow> b = None" "sameUser a None \<longleftrightarrow> a = None"
  by (auto simp: sameUser_def split: option.splits)

lemma new_number_is_free: "provider_ok s \<Longrightarrow> find_row asked (Suc (generation s)) (checks s) = None"
  by (fastforce simp: find_row_None_iff dest: provider_okD(2))

lemmas provider_defs = begin_check_def end_check_def set_check_def apply_answer_def
  check_answered_def check_failed_def check_woken_def signedIn_def signOut_begin_def
  signOut_finish_def RETRY_DELAYS_MS_def

lemma begin_check_ok:
  assumes "provider_ok s"
  shows "provider_ok (begin_check s)"
proof -
  have "current_check (begin_check s) \<noteq> None"
    using new_number_is_free [OF assms] by (simp add: current_check_def begin_check_def find_row_append)
  moreover have "Suc (generation s) \<notin> asked ` set (checks s)"
    using new_number_is_free [OF assms] by (simp add: find_row_None_iff)
  ultimately show ?thesis
    using assms by (auto simp: provider_ok_def begin_check_def split: if_splits)
qed

lemma apply_answer_status [simp]:
  "status (apply_answer a s) = (if a \<noteq> None then Signed_in else Signed_out)"
  "user (apply_answer a s) = (if sameUser (user s) a then user s else a)"
  "generation (apply_answer a s) = generation s" "checks (apply_answer a s) = checks s"
  "logouts (apply_answer a s) = logouts s"
  by (simp_all add: apply_answer_def)

lemma apply_answer_ok:
  "provider_ok s \<Longrightarrow> provider_ok (apply_answer a s)"
  by (auto simp: provider_ok_def)

lemma end_check_ok:
  assumes "provider_ok s" and "k \<noteq> generation s \<or> status s \<noteq> Loading"
  shows "provider_ok (end_check k s)"
  using assms
  by (auto simp: provider_ok_def end_check_def current_check_def find_row_filter_other distinct_map
      inj_on_def split: if_splits)

lemma set_check_ok:
  assumes "provider_ok s" and "\<And>c. asked (f c) = asked c"
    and "\<And>c. find_row asked k (checks s) = Some c \<Longrightarrow>
      (if pause (f c) = Sleeping then attempt (f c) < 2 else attempt (f c) \<le> 2)"
  shows "provider_ok (set_check k f s)"
proof -
  have "find_row asked k (checks s) = Some c" if "c \<in> set (checks s)" "asked c = k" for c
    using that find_row_distinct [of asked "checks s" c] provider_okD(1) [OF assms(1)] by simp
  then show ?thesis
    using assms(1,3)
    by (auto simp: provider_ok_def set_check_def current_check_def map_update_rows assms(2) set_update_rows
        find_row_update_same find_row_update_other split: if_splits)
      (cases "k = generation s"; auto simp: find_row_update_same find_row_update_other assms(2))
qed

lemma numbered_call_ok:
  assumes "provider_ok s" and "find_row asked k (checks s) = Some c"
  shows "asked c = k" "k \<le> generation s" "attempt c \<le> 2" "pause c = Sleeping \<Longrightarrow> attempt c < 2"
  using find_row_SomeD [OF assms(2)] provider_okD(2-4) [OF assms(1), of c] by simp_all

lemma check_answered_ok: "provider_ok s \<Longrightarrow> provider_ok (check_answered k a s)"
  using end_check_ok [of s k] end_check_ok [OF apply_answer_ok, of s k a]
  by (cases a; cases "k = generation s") (auto simp: check_answered_def)

lemma check_failed_ok:
  assumes "provider_ok s" and "find_row asked k (checks s) = Some c"
  shows "provider_ok (check_failed k c s)"
proof -
  have gone: "provider_ok (end_check k s)" if "k \<noteq> generation s"
    using end_check_ok [OF assms(1)] that by simp
  have "provider_ok (s\<lparr> status := (if status s = Loading then Signed_out else status s) \<rparr>)"
    using assms(1) by (auto simp: provider_ok_def current_check_def)
  then have given_up: "provider_ok (end_check k
      (s\<lparr> status := (if status s = Loading then Signed_out else status s) \<rparr>))"
    by (rule end_check_ok) simp
  have "provider_ok (set_check k (\<lambda>c. c\<lparr> pause := Sleeping \<rparr>) s)" if "attempt c < 2"
    by (rule set_check_ok [OF assms(1)]) (use assms(2) that in simp_all)
  then show ?thesis
    using gone given_up
    by (cases "k = generation s"; cases "attempt c < 2") (auto simp: check_failed_def RETRY_DELAYS_MS_def)
qed

lemma check_woken_ok:
  assumes "provider_ok s" and "find_row asked k (checks s) = Some c" and "pause c = Sleeping"
  shows "provider_ok (check_woken k s)"
proof -
  have "provider_ok (end_check k s)" if "k \<noteq> generation s"
    using end_check_ok [OF assms(1)] that by simp
  moreover have "provider_ok (set_check k (\<lambda>c. c\<lparr> attempt := Suc (attempt c), pause := Asking \<rparr>) s)"
    by (rule set_check_ok [OF assms(1)])
      (use assms(2) numbered_call_ok(4) [OF assms(1,2,3)] in simp_all)
  ultimately show ?thesis by (cases "k = generation s") (simp_all add: check_woken_def)
qed

lemma numbers_grow:
  assumes "provider_ok s"
  shows "\<forall>c\<in>set (checks s). asked c \<le> Suc (generation s)
    \<and> (if pause c = Sleeping then attempt c < 2 else attempt c \<le> 2)"
  using provider_okD(2-4) [OF assms] by (simp add: le_SucI)

lemma signedIn_ok: "provider_ok s \<Longrightarrow> provider_ok (signedIn u s)"
  using numbers_grow [of s] by (cases "user s") (simp_all add: provider_ok_def signedIn_def)

lemma signOut_begin_ok: "provider_ok s \<Longrightarrow> provider_ok (signOut_begin s)"
  using numbers_grow [of s] by (simp add: provider_ok_def signOut_begin_def)

lemma signOut_finish_ok: "provider_ok s \<Longrightarrow> provider_ok (signOut_finish s)"
  by (auto simp: provider_ok_def signOut_finish_def)

lemma provider_step_ok:
  assumes "provider_ok s" and "provider_step e s = Some s'"
  shows "provider_ok s'"
  using assms
  by (cases e) (auto split: option.splits if_splits intro: begin_check_ok check_answered_ok
      check_failed_ok check_woken_ok signedIn_ok signOut_begin_ok signOut_finish_ok)

lemma mounted_ok: "provider_ok mounted"
  by (simp add: provider_ok_def mounted_def begin_check_def current_check_def)

lemma provider_run_ok:
  "provider_ok s \<Longrightarrow> provider_run es s = Some s' \<Longrightarrow> provider_ok s'"
  by (induction es arbitrary: s) (auto split: bind_splits intro: provider_step_ok)

lemma provider_run_append:
  "provider_run (es @ fs) s = Option.bind (provider_run es s) (provider_run fs)"
  by (induction es arbitrary: s) (auto split: bind_splits)

lemma visited_run: "provider_run es s = Some s' \<Longrightarrow> visited s \<Longrightarrow> visited s'"
  by (induction es arbitrary: s) (auto split: bind_splits intro: visited.event)

lemma visited_iff: "visited s \<longleftrightarrow> (\<exists>es. provider_run es mounted = Some s)"
proof
  assume "visited s"
  then show "\<exists>es. provider_run es mounted = Some s"
  proof induction
    case start
    show ?case by (rule exI [of _ "[]"]) simp
  next
    case (event s e s')
    then obtain es where "provider_run es mounted = Some s" by blast
    then have "provider_run (es @ [e]) mounted = Some s'"
      using event(2) by (simp add: provider_run_append)
    then show ?case by blast
  qed
qed (auto intro: visited_run visited.start)

lemma visited_ok: "visited s \<Longrightarrow> provider_ok s"
  by (auto simp: visited_iff intro: provider_run_ok [OF mounted_ok])

subsection \<open>Refinement\<close>

lemma find_call:
  "find_row name k (map (call_of g) cs) = map_option (call_of g) (find_row asked k cs)"
  by (induction cs) (auto simp: call_of_def)

lemma calls_outdated:
  assumes "\<And>c. c \<in> set cs \<Longrightarrow> asked c \<le> g"
  shows "map (call_of (Suc g)) cs = map (\<lambda>c. c\<lparr> fresh := False \<rparr>) (map (call_of g) cs)"
  using assms by (force simp: call_of_def)

lemma view_apply [simp]:
  assumes "provider_ok s"
  shows "view_of (apply_answer a s) = see a (view_of s)"
  using provider_okD(5) [OF assms]
  by (cases a; cases "status s") (auto simp: view_of_def sameUser_def split: option.splits)

lemma view_of_updates [simp]:
  "view_of (s\<lparr> generation := g \<rparr>) = view_of s" "view_of (s\<lparr> checks := cs \<rparr>) = view_of s"
  "view_of (s\<lparr> logouts := n \<rparr>) = view_of s"
  by (cases "status s"; simp add: view_of_def)+

lemma spec_of_begin_check: "provider_ok s \<Longrightarrow> spec_of (begin_check s) = spec_ask (spec_of s)"
  using calls_outdated [of "checks s" "generation s", OF provider_okD(2)]
  by (simp add: spec_of_def begin_check_def spec_ask_def outdate_def call_of_def)

lemma spec_of_apply [simp]:
  "provider_ok s \<Longrightarrow> spec_of (apply_answer a s) = (spec_of s)\<lparr> view := see a (view (spec_of s)) \<rparr>"
  by (simp add: spec_of_def)

lemma spec_of_end_check [simp]: "spec_of (end_check k s) = drop_call k (spec_of s)"
  by (simp add: spec_of_def end_check_def drop_call_def filter_map o_def call_of_def)

lemma spec_of_set_check:
  assumes "\<And>c. c \<in> set (checks s) \<Longrightarrow> call_of (generation s) (f c) = g (call_of (generation s) c)"
  shows "spec_of (set_check k f s)
    = (spec_of s)\<lparr> calls := update_rows name k g (calls (spec_of s)) \<rparr>"
  using assms
  by (auto simp: spec_of_def set_check_def update_rows_def) (simp_all add: call_of_def)

lemma spec_of_given_up:
  "provider_ok s \<Longrightarrow> spec_of (s\<lparr> status := (if status s = Loading then Signed_out else status s) \<rparr>)
    = (spec_of s)\<lparr> view := (if view (spec_of s) = Unknown then Nobody else view (spec_of s)) \<rparr>"
  by (cases "status s") (simp_all add: spec_of_def view_of_def)

lemma found_call:
  "find_row asked k (checks s) = Some c \<Longrightarrow>
    find_row name k (calls (spec_of s)) = Some (call_of (generation s) c)"
  "find_row asked k (checks s) = None \<Longrightarrow> find_row name k (calls (spec_of s)) = None"
  by (simp_all add: spec_of_def find_call)

lemma call_of_simps [simp]:
  "name (call_of g c) = asked c" "fresh (call_of g c) \<longleftrightarrow> asked c = g"
  "tries_left (call_of g c) = 2 - attempt c" "resting (call_of g c) \<longleftrightarrow> pause c = Sleeping"
  by (simp_all add: call_of_def)

lemma pause_not [simp]: "pause c \<noteq> Asking \<longleftrightarrow> pause c = Sleeping" "pause c \<noteq> Sleeping \<longleftrightarrow> pause c = Asking"
  by (cases "pause c"; simp)+

lemma refines_Answer:
  assumes "provider_ok s"
  shows "map_option spec_of (provider_step (Answer k a) s) = spec_step (Answer k a) (spec_of s)"
proof (cases "find_row asked k (checks s)")
  case None
  then show ?thesis by (simp add: found_call(2))
next
  case (Some c)
  then show ?thesis
    using assms numbered_call_ok(1) [OF assms Some]
    by (cases "k = generation s") (auto simp: found_call(1) check_answered_def)
qed

lemma refines_No_answer:
  assumes "provider_ok s"
  shows "map_option spec_of (provider_step (No_answer k) s) = spec_step (No_answer k) (spec_of s)"
proof (cases "find_row asked k (checks s)")
  case None
  then show ?thesis by (simp add: found_call(2))
next
  case (Some c)
  have sleep: "spec_of (set_check k (\<lambda>c. c\<lparr> pause := Sleeping \<rparr>) s)
      = (spec_of s)\<lparr> calls := update_rows name k (\<lambda>c. c\<lparr> resting := True \<rparr>) (calls (spec_of s)) \<rparr>"
    by (rule spec_of_set_check) (simp add: call_of_def)
  from Some show ?thesis
    using numbered_call_ok(1) [OF assms Some] spec_of_given_up [OF assms] sleep
    by (cases "k = generation s"; cases "attempt c < 2")
      (auto simp: found_call(1) check_failed_def RETRY_DELAYS_MS_def)
qed

lemma refines_Timer:
  assumes "provider_ok s"
  shows "map_option spec_of (provider_step (Timer k) s) = spec_step (Timer k) (spec_of s)"
proof (cases "find_row asked k (checks s)")
  case None
  then show ?thesis by (simp add: found_call(2))
next
  case (Some c)
  have "spec_of (set_check k (\<lambda>c. c\<lparr> attempt := Suc (attempt c), pause := Asking \<rparr>) s)
      = (spec_of s)\<lparr> calls := update_rows name k
          (\<lambda>c. c\<lparr> tries_left := tries_left c - 1, resting := False \<rparr>) (calls (spec_of s)) \<rparr>"
    by (rule spec_of_set_check) (simp add: call_of_def)
  with Some show ?thesis
    using numbered_call_ok(1) [OF assms Some]
    by (cases "k = generation s") (auto simp: found_call(1) check_woken_def)
qed

lemma refines_turn:
  assumes "provider_ok s"
  shows "spec_of (s\<lparr> generation := Suc (generation s) \<rparr>) = outdate (spec_of s)"
  using calls_outdated [of "checks s" "generation s", OF provider_okD(2) [OF assms]]
  by (simp add: spec_of_def outdate_def)

lemma refines_Sign_in:
  assumes "provider_ok s"
  shows "spec_of (signedIn u s) = (outdate (spec_of s))\<lparr> view := see (Some u) (view (spec_of s)) \<rparr>"
proof -
  have "view_of (signedIn u s) = see (Some u) (view_of s)"
    using provider_okD(5) [OF assms]
    by (cases "status s") (auto simp: signedIn_def view_of_def sameUser_def split: option.splits)
  then show ?thesis
    using refines_turn [OF assms] by (simp add: spec_of_def signedIn_def outdate_def)
qed

lemma refines_signing_out:
  assumes "provider_ok s"
  shows "spec_of (signOut_begin s) = (outdate (spec_of s))\<lparr> ending := Suc (ending (spec_of s)) \<rparr>"
    and "spec_of (signOut_finish s) = (spec_of s)\<lparr> view := Nobody, ending := ending (spec_of s) - 1 \<rparr>"
  using refines_turn [OF assms]
  by (simp_all add: spec_of_def signOut_begin_def signOut_finish_def outdate_def)
    (simp add: view_of_def)

lemma step_refines:
  assumes "provider_ok s"
  shows "map_option spec_of (provider_step e s) = spec_step e (spec_of s)"
proof (cases e)
  case (Answer k a)
  then show ?thesis using refines_Answer [OF assms] by blast
next
  case (No_answer k)
  then show ?thesis using refines_No_answer [OF assms] by blast
next
  case (Timer k)
  then show ?thesis using refines_Timer [OF assms] by blast
next
  case Logout_returned
  then show ?thesis using refines_signing_out(2) [OF assms] by (auto simp: spec_of_def)
qed (use assms in \<open>simp_all add: spec_of_begin_check refines_Sign_in refines_signing_out(1)\<close>)

lemma run_refines:
  "provider_ok s \<Longrightarrow> map_option spec_of (provider_run es s) = spec_run es (spec_of s)"
proof (induction es arbitrary: s)
  case Nil
  show ?case by simp
next
  case (Cons e es)
  have sim: "map_option spec_of (provider_step e s) = spec_step e (spec_of s)"
    by (rule step_refines [OF Cons.prems])
  show ?case
  proof (cases "provider_step e s")
    case None
    then show ?thesis using sim by simp
  next
    case (Some s')
    then show ?thesis
      using sim [symmetric] Cons.IH [OF provider_step_ok [OF Cons.prems Some]] by simp
  qed
qed

subsection \<open>The page ends its first check\<close>

text \<open>The number of the check an event belongs to.\<close>

fun check_of :: "session_event \<Rightarrow> nat option" where
  "check_of (Answer k a) = Some k"
| "check_of (No_answer k) = Some k"
| "check_of (Timer k) = Some k"
| "check_of e = None"

text \<open>How many more events the live check can take.\<close>

definition patience :: "provider \<Rightarrow> nat" where
  "patience s = (case current_check s of None \<Rightarrow> 0
     | Some c \<Rightarrow> 2 * (2 - attempt c) + (if pause c = Asking then 1 else 0))"

lemma live_event:
  assumes "provider_ok s" and "check_of e = Some (generation s)" and "provider_step e s = Some s'"
  shows "generation s' = generation s" and "logouts s' = logouts s" and "patience s' < patience s"
    and "status s' = Loading \<Longrightarrow> current_check s' \<noteq> None"
proof -
  obtain c where c: "current_check s = Some c"
    using assms(2,3) by (cases e) (auto simp: current_check_def split: option.splits)
  note known = c [unfolded current_check_def]
  have bound: "attempt c \<le> 2" "pause c = Sleeping \<Longrightarrow> attempt c < 2"
    using numbered_call_ok(3,4) [OF assms(1) known] by auto
  show "generation s' = generation s" "logouts s' = logouts s"
    using assms(2,3) known
    by (cases e; auto simp: provider_defs check_failed_def check_woken_def split: if_splits)+
  show "patience s' < patience s"
    using assms(2,3) known bound
    by (cases e) (auto simp: patience_def current_check_def check_answered_def end_check_def set_check_def
        check_failed_def check_woken_def RETRY_DELAYS_MS_def find_row_update_same split: if_splits)
  show "current_check s' \<noteq> None" if "status s' = Loading"
    using assms(2,3) known that
    by (cases e) (auto simp: current_check_def check_answered_def end_check_def set_check_def
        check_failed_def check_woken_def find_row_update_same split: if_splits)
qed

lemma live_events:
  assumes "provider_ok s" and "\<forall>e\<in>set es. check_of e = Some (generation s)"
    and "provider_run es s = Some s'"
  shows "length es + patience s' \<le> patience s \<and> generation s' = generation s \<and> logouts s' = logouts s"
  using assms
proof (induction es arbitrary: s)
  case Nil
  then show ?case by simp
next
  case (Cons e es)
  from Cons.prems(3) obtain t where t: "provider_step e s = Some t" "provider_run es t = Some s'"
    by (auto split: bind_splits)
  have e: "check_of e = Some (generation s)" using Cons.prems(2) by simp
  note here = live_event(1-3) [OF Cons.prems(1) e t(1)]
  show ?case
    using Cons.IH [OF provider_step_ok [OF Cons.prems(1) t(1)] _ t(2)] Cons.prems(2) here by simp
qed

lemma patience_at_most: "patience s \<le> 5"
proof (cases "current_check s")
  case (Some c)
  then show ?thesis by (simp add: patience_def) arith
qed (simp add: patience_def)

lemma stale_event:
  assumes "provider_ok s" and "check_of e = Some k" and "k \<noteq> generation s"
    and "provider_step e s = Some s'"
  shows "user s' = user s \<and> status s' = status s \<and> generation s' = generation s"
  using assms
  by (cases e) (auto simp: check_answered_def check_failed_def check_woken_def end_check_def
      split: option.splits if_splits)

lemma stale_events:
  assumes "provider_ok s" and "\<forall>e\<in>set es. \<exists>k. check_of e = Some k \<and> k \<noteq> generation s"
    and "provider_run es s = Some s'"
  shows "user s' = user s \<and> status s' = status s"
  using assms
proof (induction es arbitrary: s)
  case Nil
  then show ?case by simp
next
  case (Cons e es)
  from Cons.prems(3) obtain t where t: "provider_step e s = Some t" "provider_run es t = Some s'"
    by (auto split: bind_splits)
  obtain k where "check_of e = Some k" "k \<noteq> generation s" using Cons.prems(2) by auto
  note here = stale_event [OF Cons.prems(1) this t(1)]
  show ?case
    using Cons.IH [OF provider_step_ok [OF Cons.prems(1) t(1)] _ t(2)] Cons.prems(2) here by simp
qed

subsection \<open>Properties\<close>

text \<open>
  C36: The session provider refines the machine in which a check's answer counts only when nothing
  has happened since it was asked: after any events, in any order, both allow the same next
  events and the page shows the same. The counter, the comparison of numbers and the retry index
  implement the flag.
\<close>

theorem session_provider_refines_its_promise:
  "map_option spec_of (provider_run es mounted)
    = spec_run es \<lparr> view = Unknown, turns = 1,
        calls = [\<lparr> name = 1, fresh = True, tries_left = 2, resting = False \<rparr>], ending = 0 \<rparr>"
  using run_refines [OF mounted_ok, of es]
  by (simp add: spec_of_def mounted_def begin_check_def view_of_def call_of_def)

text \<open>
  After a sign-in no answer, failure or timer of a check asked before it changes the page: it
  shows the user who signed in, and keeps the object it had when that is the same user.
\<close>

theorem older_answers_leave_a_sign_in:
  assumes "visited s" and "\<forall>e\<in>set es. \<exists>k. check_of e = Some k \<and> k \<le> generation s"
    and "provider_run (Sign_in u # es) s = Some t"
  shows "status t = Signed_in \<and> sameUser (user t) (Some u)
    \<and> (sameUser (user s) (Some u) \<longrightarrow> user t = user s)"
proof -
  have ok: "provider_ok (signedIn u s)" by (rule signedIn_ok [OF visited_ok [OF assms(1)]])
  have "user t = user (signedIn u s) \<and> status t = status (signedIn u s)"
    by (rule stale_events [OF ok]) (use assms(2,3) in \<open>auto simp: signedIn_def\<close>)
  then show ?thesis
    by (auto simp: signedIn_def sameUser_def split: option.splits)
qed

definition a_user :: "nat \<Rightarrow> page_user" where
  "a_user obj = \<lparr> pu_object = obj, pu_id = ''u1'', pu_email = ''b@example.com'', pu_role = ''buyer'',
     pu_organisationId = None \<rparr>"

theorem older_answers_leave_a_sign_in_witness:
  "\<exists>t. provider_run [Sign_in (a_user 7), No_answer 1, Answer 2 None]
      (begin_check mounted) = Some t \<and> status t = Signed_in \<and> sameUser (user t) (Some (a_user 7))"
proof -
  have "visited (begin_check mounted)"
    by (rule visited.event [OF visited.start, of Navigate]) simp
  moreover have "\<exists>t. provider_run [Sign_in (a_user 7), No_answer 1, Answer 2 None]
      (begin_check mounted) = Some t"
    by (simp add: mounted_def begin_check_def check_failed_def end_check_def signedIn_def)
  ultimately show ?thesis
    using older_answers_leave_a_sign_in [of "begin_check mounted" "[No_answer 1, Answer 2 None]" "a_user 7"]
    by (auto simp: mounted_def begin_check_def)
qed

text \<open>
  A page that is still loading, with no sign-out under way, has a live check, and that check
  ends the loading: it takes at most five more events of its own (three failures and two timers),
  at any of which an answer settles the page, and when it is over the page is not loading.
\<close>

theorem a_blank_page_ends:
  assumes "visited s" and "status s = Loading" and "logouts s = 0"
    and "\<forall>e\<in>set es. check_of e = Some (generation s)" and "provider_run es s = Some t"
  shows "current_check s \<noteq> None \<and> length es \<le> 5 \<and> (current_check t = None \<longrightarrow> status t \<noteq> Loading)
    \<and> (\<forall>c. current_check t = Some c \<longrightarrow>
        (if pause c = Sleeping then provider_step (Timer (generation s)) t \<noteq> None
         else \<forall>a. \<exists>t'. provider_step (Answer (generation s) a) t = Some t'
                \<and> status t' = (if a = None then Signed_out else Signed_in)))"
proof -
  have ok: "provider_ok s" "provider_ok t"
    using visited_ok assms(1) provider_run_ok [OF _ assms(5)] by auto
  have t: "length es + patience t \<le> patience s" "generation t = generation s" "logouts t = 0"
    using live_events [OF ok(1) assms(4,5)] assms(3) by auto
  have "current_check s \<noteq> None" using provider_okD(6) [OF ok(1) assms(2)] assms(3) by simp
  moreover have "length es \<le> 5" using t(1) patience_at_most [of s] by linarith
  moreover have "current_check t = None \<longrightarrow> status t \<noteq> Loading" using provider_okD(6) [OF ok(2)] t(3) by auto
  moreover have "if pause c = Sleeping then provider_step (Timer (generation s)) t \<noteq> None
      else \<forall>a. \<exists>t'. provider_step (Answer (generation s) a) t = Some t'
        \<and> status t' = (if a = None then Signed_out else Signed_in)" if "current_check t = Some c" for c
    using that by (cases "pause c") (auto simp: current_check_def t(2) check_answered_def end_check_def)
  ultimately show ?thesis by blast
qed

theorem a_blank_page_ends_witness:
  "\<exists>t. provider_run [No_answer 1, Timer 1, No_answer 1, Timer 1, No_answer 1] mounted = Some t
    \<and> current_check t = None \<and> status t \<noteq> Loading"
proof -
  let ?es = "[No_answer 1, Timer 1, No_answer 1, Timer 1, No_answer 1]"
  have "\<exists>t. provider_run ?es mounted = Some t \<and> current_check t = None"
    by (simp add: mounted_def begin_check_def check_failed_def check_woken_def set_check_def
        end_check_def RETRY_DELAYS_MS_def current_check_def)
  moreover have "status mounted = Loading" "logouts mounted = 0" "generation mounted = 1"
    by (simp_all add: mounted_def begin_check_def)
  ultimately show ?thesis
    using a_blank_page_ends [OF visited.start, of ?es] by auto
qed

text \<open>
  Signing out is counted when it begins, not when the API has ended the session. A page
  opened while the sign-out is under way asks a check that passes for current: when its answer,
  sent before the session ended, arrives last, the page shows the user as signed in again. And a
  user who signs in while an earlier sign-out is under way is signed out by its return.
\<close>

theorem a_sign_out_can_be_undone:
  assumes "visited s"
  shows "(\<exists>t. provider_run [Sign_out, Navigate, Logout_returned, Answer (generation s + 2) (Some u)] s = Some t
      \<and> status t = Signed_in \<and> user t = Some u)
    \<and> (\<exists>t. provider_run [Sign_out, Sign_in u, Logout_returned] s = Some t
      \<and> status t = Signed_out \<and> user t = None)"
proof -
  have "find_row asked (Suc (Suc (generation s))) (checks s) = None"
    using provider_okD(2) [OF visited_ok [OF assms]] by (fastforce simp: find_row_None_iff)
  then show ?thesis
    by (auto simp: signOut_begin_def begin_check_def signOut_finish_def check_answered_def
        end_check_def signedIn_def find_row_append)
qed

theorem a_sign_out_can_be_undone_witness:
  "\<exists>t. provider_run [Sign_out, Navigate, Logout_returned, Answer 3 (Some (a_user 1))] mounted = Some t
    \<and> status t = Signed_in"
proof -
  have "generation mounted + 2 = 3" by (simp add: mounted_def begin_check_def)
  then show ?thesis using a_sign_out_can_be_undone [OF visited.start, of "a_user 1"] by metis
qed

end
