(* ===== verification/Catalogue_Data.thy ===== *)
theory Catalogue_Data
  imports Passports
begin

text \<open>
  The curated demo catalogue (\<open>packages/db/scripts/lib/catalogue.ts\<close>): the seven products the
  demo is built around. A product's passport columns are an input record, as the API's, and the
  columns it sets to \<open>null\<close> outright are named in \<open>pd_nulls\<close>; dates are relative to the moment the
  module is loaded. A text is the list of its bytes, so the few characters outside ASCII are written
  as their UTF-8 bytes.
\<close>

definition registered_sign :: string where "registered_sign = [CHR 0xC2, CHR 0xAE]"
definition em_dash :: string where "em_dash = [CHR 0xE2, CHR 0x80, CHR 0x94]"
definition superscript_two :: string where "superscript_two = [CHR 0xC2, CHR 0xB2]"
definition subscript_two :: string where "subscript_two = [CHR 0xE2, CHR 0x82, CHR 0x82]"
definition degree_sign :: string where "degree_sign = [CHR 0xC2, CHR 0xB0]"

record product =
  pd_key :: string
  pd_image :: string
  pd_passport :: "time \<Rightarrow> passport_input"
  pd_nulls :: "string list"
  pd_pricePence :: int
  pd_quantity :: int
  pd_minOrderQuantity :: "int option"
  pd_note :: "string option"

definition productName :: "product \<Rightarrow> string" where
  "productName p = or_keep (pi_productName (pd_passport p 0)) ''''"

definition lotShippingNote :: "product \<Rightarrow> string" where
  "lotShippingNote p = or_keep (pd_note p) ''Delivery from FK7 or collection''"

definition LIVE_LOT_STATUSES :: "listing_status list" where
  "LIVE_LOT_STATUSES = [L_active, L_reserved]"

text \<open>\<open>RECLAIMED\<close>: reclaimed from a building by the hub, unless a product says otherwise.\<close>

definition reclaimed_fields :: "time \<Rightarrow> passport_input" where
  "reclaimed_fields now = no_fields\<lparr>
     pi_origin := Some Reclaimed, pi_deconstructionMethod := Some ''selective'',
     pi_reclaimedBy := Some ''Stirling Reuse Hub'',
     pi_deconstructionDate := Some (now - 120 * DAY_MS) \<rparr>"

definition kbriq :: product where
  "kbriq = \<lparr>
     pd_key = ''kbriq-medero-dark-grey'', pd_image = ''kbriq-medero-dark-grey.jpg'',
     pd_passport = (\<lambda>now. no_fields\<lparr>
       pi_productName := Some (''K-BRIQ'' @ registered_sign @ '' '' @ em_dash @
         '' Medero Dark Grey''),
       pi_unitOfMeasure := Some ''each'',
       pi_categoryL1 := Some ''masonry'',
       pi_categoryL2 := Some ''facing-brick'',
       pi_origin := Some New_product,
       pi_manufacturerName := Some ''Kenoteq'',
       pi_countryOfOrigin := Some ''GB'',
       pi_productionDate := Some (now - 30 * DAY_MS),
       pi_materialComposition := Some (JArr [JObj [(''material'', JStr
         ''Recycled construction & demolition aggregate''), (''percentage'', JInt 90),
         (''recycled'', JBool True)], JObj [(''material'', JStr
         ''Recycled gypsum (plasterboard)''), (''percentage'', JInt 6), (''recycled'', JBool
         True)], JObj [(''material'', JStr ''Recycled pigment''), (''percentage'', JInt 4),
         (''recycled'', JBool True)]]),
       pi_dimensions := Some (JObj [(''length'', JInt 215), (''width'', JNum ''102.5''),
         (''height'', JInt 65), (''weight'', JNum ''2.4''), (''unit'', JStr ''mm''),
         (''weightUnit'', JStr ''kg'')]),
       pi_technicalSpecs := Some (JObj [(''compressiveStrength'', JStr (''30 N/mm'' @
         superscript_two)), (''waterAbsorption'', JStr ''2% by weight''),
         (''thermalConductivity'', JStr ''0.74 W/mK''), (''durability'', JStr ''F2''),
         (''reactionToFire'', JStr ''A2-s1,d0''), (''certification'', JStr ''BBA 25/7367'')]),
       pi_embodiedCarbon := Some ''0.02'',
       pi_recycledContent := Some ''96'',
       pi_carbonSavingsVsNew := Some ''0.49'',
       pi_conditionGrade := Some Grade_A,
       pi_conditionNotes := Some (''New low-carbon brick '' @ em_dash @
         '' over 96% recycled content, <20g CO'' @ subscript_two @ ''e embodied per unit.''),
       pi_remainingLifeEstimate := Some 100,
       pi_circularityScore := Some 96,
       pi_reuseSuitability := Some (JArr [JStr ''Facing brickwork'', JStr ''Internal walls'',
         JStr ''Landscaping'']),
       pi_ceMarking := Some True \<rparr>),
     pd_nulls = [],
     pd_pricePence = 360, pd_quantity = 5000, pd_minOrderQuantity = Some 100, pd_note = None \<rparr>"

definition sisalwool :: product where
  "sisalwool = \<lparr>
     pd_key = ''sisalwool-100'', pd_image = ''sisalwool-100.jpg'',
     pd_passport = (\<lambda>now. no_fields\<lparr>
       pi_productName := Some (''Sisalwool 100 '' @ em_dash @ '' Natural Fibre Insulation''),
       pi_unitOfMeasure := Some ''pack'',
       pi_categoryL1 := Some ''insulation'',
       pi_categoryL2 := Some ''natural-fibre'',
       pi_origin := Some New_product,
       pi_manufacturerName := Some ''Sisalwool'',
       pi_countryOfOrigin := Some ''GB'',
       pi_productionDate := Some (now - 20 * DAY_MS),
       pi_materialComposition := Some (JArr [JObj [(''material'', JStr
         ''Sisal fibre (recycled coffee sacks)''), (''percentage'', JInt 60), (''recycled'',
         JBool True)], JObj [(''material'', JStr ''Sheep wool (textile-industry surplus)''),
         (''percentage'', JInt 40), (''recycled'', JBool True)]]),
       pi_dimensions := Some (JObj [(''length'', JInt 1200), (''width'', JInt 570),
         (''height'', JInt 100), (''unit'', JStr ''mm'')]),
       pi_technicalSpecs := Some (JObj [(''thickness'', JStr ''100mm''), (''widths'', JStr
         ''370mm / 570mm''), (''acoustic'', JStr ''Class A sound absorption''),
         (''reactionToFire'', JStr ''Euroclass E''), (''breathability'', JStr
         ''Absorbs up to 30% of its weight in moisture''), (''pestResistance'', JStr
         ''Long-lasting moth deterrent'')]),
       pi_recycledContent := Some ''90'',
       pi_carbonSavingsVsNew := Some ''8'',
       pi_conditionGrade := Some Grade_A,
       pi_conditionNotes := Some
         ''New breathable natural-fibre insulation from recycled coffee sacks and surplus wool.'',
       pi_remainingLifeEstimate := Some 60,
       pi_circularityScore := Some 90,
       pi_reuseSuitability := Some (JArr [JStr ''Walls'', JStr ''Floors'', JStr ''Roofs'', JStr
         ''Acoustic lining'']),
       pi_ceMarking := Some True \<rparr>),
     pd_nulls = [],
     pd_pricePence = 8200, pd_quantity = 250, pd_minOrderQuantity = None, pd_note = None \<rparr>"

definition aircrete_blocks :: product where
  "aircrete_blocks = \<lparr>
     pd_key = ''reclaimed-aerated-concrete-blocks'', pd_image = ''aerated-concrete-blocks.jpg'',
     pd_passport = (\<lambda>now. (reclaimed_fields now)\<lparr>
       pi_productName := Some ''Reclaimed Aerated Concrete Blocks'',
       pi_unitOfMeasure := Some ''each'',
       pi_categoryL1 := Some ''masonry'',
       pi_categoryL2 := Some ''aac-block'',
       pi_countryOfOrigin := Some ''GB'',
       pi_materialComposition := Some (JArr [JObj [(''material'', JStr
         ''Autoclaved aerated concrete''), (''percentage'', JInt 100)]]),
       pi_technicalSpecs := Some (JObj [(''type'', JStr ''AAC / aircrete block''), (''grade'',
         JStr ''B'')]),
       pi_carbonSavingsVsNew := Some ''2.5'',
       pi_conditionGrade := Some Grade_B,
       pi_conditionNotes := Some ''Reclaimed aircrete blocks in good reusable condition.'',
       pi_remainingLifeEstimate := Some 50,
       pi_circularityScore := Some 85,
       pi_reuseSuitability := Some (JArr [JStr ''Internal partitions'', JStr ''Infill walls'']) \<rparr>),
     pd_nulls = [],
     pd_pricePence = 150, pd_quantity = 30, pd_minOrderQuantity = None, pd_note = None \<rparr>"

definition concrete_lintels :: product where
  "concrete_lintels = \<lparr>
     pd_key = ''reclaimed-concrete-lintels'', pd_image = ''concrete-lintels.jpg'',
     pd_passport = (\<lambda>now. (reclaimed_fields now)\<lparr>
       pi_productName := Some ''Reclaimed Concrete Lintels'',
       pi_unitOfMeasure := Some ''each'',
       pi_categoryL1 := Some ''masonry'',
       pi_categoryL2 := Some ''lintel'',
       pi_countryOfOrigin := Some ''GB'',
       pi_materialComposition := Some (JArr [JObj [(''material'', JStr
         ''Pre-stressed concrete''), (''percentage'', JInt 100)]]),
       pi_technicalSpecs := Some (JObj [(''description'', JStr
         ''12 lintels circa 1.2m; 2 lintels circa 2m'')]),
       pi_carbonSavingsVsNew := Some ''30'',
       pi_conditionGrade := Some Grade_B,
       pi_conditionNotes := Some
         ''12 concrete lintels circa 1.2m and 2 concrete lintels circa 2m.'',
       pi_remainingLifeEstimate := Some 60,
       pi_circularityScore := Some 88,
       pi_reuseSuitability := Some (JArr [JStr ''Door & window openings'']) \<rparr>),
     pd_nulls = [],
     pd_pricePence = 1000, pd_quantity = 14, pd_minOrderQuantity = None, pd_note = None \<rparr>"

definition facing_bricks :: product where
  "facing_bricks = \<lparr>
     pd_key = ''reclaimed-facing-bricks'', pd_image = ''facing-bricks.jpg'',
     pd_passport = (\<lambda>now. (reclaimed_fields now)\<lparr>
       pi_productName := Some ''Reclaimed Facing Bricks'',
       pi_unitOfMeasure := Some ''each'',
       pi_categoryL1 := Some ''masonry'',
       pi_categoryL2 := Some ''facing-brick'',
       pi_countryOfOrigin := Some ''GB'',
       pi_materialComposition := Some (JArr [JObj [(''material'', JStr ''Fired clay''),
         (''percentage'', JInt 100)]]),
       pi_technicalSpecs := Some (JObj [(''type'', JStr ''Perforated facing brick''),
         (''grade'', JStr ''B'')]),
       pi_carbonSavingsVsNew := Some ''0.5'',
       pi_conditionGrade := Some Grade_B,
       pi_conditionNotes := Some
         ''Reclaimed perforated facing bricks, cleaned and palletised.'',
       pi_remainingLifeEstimate := Some 80,
       pi_circularityScore := Some 90,
       pi_reuseSuitability := Some (JArr [JStr ''Facing brickwork'', JStr ''Feature walls'']) \<rparr>),
     pd_nulls = [],
     pd_pricePence = 100, pd_quantity = 150, pd_minOrderQuantity = None, pd_note = None \<rparr>"

definition staircase :: product where
  "staircase = \<lparr>
     pd_key = ''reclaimed-prefabricated-staircase'', pd_image = ''prefabricated-staircase.jpg'',
     pd_passport = (\<lambda>now. (reclaimed_fields now)\<lparr>
       pi_productName := Some ''Reclaimed Prefabricated Staircase'',
       pi_unitOfMeasure := Some ''each'',
       pi_categoryL1 := Some ''structural-timber'',
       pi_categoryL2 := Some ''softwood'',
       pi_countryOfOrigin := Some ''GB'',
       pi_materialComposition := Some (JArr [JObj [(''material'', JStr ''Softwood timber''),
         (''percentage'', JInt 100)]]),
       pi_dimensions := Some (JObj [(''length'', JInt 1720), (''height'', JInt 2450),
         (''unit'', JStr ''mm'')]),
       pi_technicalSpecs := Some (JObj [(''treadDepth'', JStr ''270mm''), (''riserHeight'',
         JStr ''170mm''), (''steps'', JStr ''13''), (''height'', JStr ''2.45m''), (''length'',
         JStr ''1.72m''), (''angle'', JStr (''55'' @ degree_sign))]),
       pi_carbonSavingsVsNew := Some ''80'',
       pi_conditionGrade := Some Grade_B,
       pi_conditionNotes := Some
         (''Prefabricated timber staircase. Tread depth 270mm, riser 170mm, 13 steps, 55'' @
         degree_sign @ '' angle.''),
       pi_remainingLifeEstimate := Some 40,
       pi_circularityScore := Some 82,
       pi_reuseSuitability := Some (JArr [JStr ''Residential stair'', JStr
         ''Mezzanine access'']) \<rparr>),
     pd_nulls = [],
     pd_pricePence = 15000, pd_quantity = 2, pd_minOrderQuantity = None, pd_note = None \<rparr>"

definition stud_walling :: product where
  "stud_walling = \<lparr>
     pd_key = ''reclaimed-aluminium-stud-walling'', pd_image = ''aluminium-stud-walling.jpg'',
     pd_passport = (\<lambda>now. no_fields\<lparr>
       pi_productName := Some ''Surplus Aluminium Stud Walling'',
       pi_unitOfMeasure := Some ''each'',
       pi_categoryL1 := Some ''partitions-linings'',
       pi_categoryL2 := Some ''metal-stud-framing'',
       pi_countryOfOrigin := Some ''GB'',
       pi_origin := Some Surplus,
       pi_deconstructionMethod := None,
       pi_deconstructionDate := None,
       pi_reclaimedBy := Some ''Reconditioning partners'',
       pi_materialComposition := Some (JArr [JObj [(''material'', JStr ''Aluminium''),
         (''percentage'', JInt 100), (''recycled'', JBool True)]]),
       pi_technicalSpecs := Some (JObj [(''type'', JStr ''Metal stud partition framing''),
         (''source'', JStr ''Excess from reconditioning partners'')]),
       pi_carbonSavingsVsNew := Some ''12'',
       pi_conditionGrade := Some Grade_B,
       pi_conditionNotes := Some
         ''Excess aluminium stud walling from reconditioning partners. Unused surplus.'',
       pi_remainingLifeEstimate := Some 30,
       pi_circularityScore := Some 92,
       pi_reuseSuitability := Some (JArr [JStr ''Partition framing'', JStr ''Drylining'']) \<rparr>),
     pd_nulls = [''deconstructionMethod'', ''deconstructionDate''],
     pd_pricePence = 100, pd_quantity = 18, pd_minOrderQuantity = None, pd_note = None \<rparr>"

definition CATALOG :: "product list" where
  "CATALOG = [kbriq, sisalwool, aircrete_blocks, concrete_lintels, facing_bricks, staircase,
     stud_walling]"

text \<open>The names a product was seeded under before, by its key.\<close>

definition SUPERSEDED_PRODUCT_NAMES :: "(string \<times> string list) list" where
  "SUPERSEDED_PRODUCT_NAMES =
     [(''reclaimed-aluminium-stud-walling'', [''Reclaimed Aluminium Stud Walling''])]"

definition isCatalogueName :: "string \<Rightarrow> product \<Rightarrow> bool" where
  "isCatalogueName nm p \<longleftrightarrow> nm = productName p
     \<or> nm \<in> set (or_keep (map_of SUPERSEDED_PRODUCT_NAMES (pd_key p)) [])"

lemmas catalogue_defs = CATALOG_def kbriq_def sisalwool_def aircrete_blocks_def
  concrete_lintels_def facing_bricks_def staircase_def stud_walling_def

lemma catalogue_keys: "map pd_key CATALOG =
    [''kbriq-medero-dark-grey'', ''sisalwool-100'', ''reclaimed-aerated-concrete-blocks'',
     ''reclaimed-concrete-lintels'', ''reclaimed-facing-bricks'',
     ''reclaimed-prefabricated-staircase'', ''reclaimed-aluminium-stud-walling'']"
  by (simp add: catalogue_defs)

lemma catalogue_keys_distinct: "distinct (map pd_key CATALOG)"
  unfolding catalogue_keys by simp

lemma catalogue_terms: "p \<in> set CATALOG \<Longrightarrow>
    1 \<le> pd_pricePence p \<and> pd_pricePence p \<le> MAX_AMOUNT_PENCE
    \<and> 1 \<le> pd_quantity p \<and> pd_quantity p \<le> 5000
    \<and> 1 \<le> or_keep (pd_minOrderQuantity p) 1 \<and> or_keep (pd_minOrderQuantity p) 1 \<le> pd_quantity p"
  by (auto simp: CATALOG_def) (simp_all add: catalogue_defs MAX_AMOUNT_PENCE_def)

end
