(* ===== verification/Catalogue_Lots.thy ===== *)
theory Catalogue_Lots
  imports Catalogue_Data "HOL-Library.Product_Lexorder" "HOL-Library.Multiset"
begin

text \<open>
  Which passport is a catalogue product's lot, and the policies of the scripts that keep the demo
  to one lot per product (\<open>packages/db/scripts/lib\<close>): \<open>catalogue-lots.ts\<close> chooses the lot,
  \<open>demo-trim-policy.ts\<close> plans which surplus lots to take off sale, \<open>demo-spares-policy.ts\<close> which
  spare passports to delete, \<open>guard.ts\<close> checks the target of a script. All of them are pure;
  \<open>Demo_Trim\<close>, \<open>Demo_Spares\<close> and \<open>Demo_Top_Up\<close> run them on the database.

  Ids are compared with \<open>localeCompare\<close>: uuids are hexadecimal texts of one shape, so their order is
  the order of the numbers.
\<close>

subsection \<open>Products and lots (catalogue-lots.ts)\<close>

definition CATALOGUE_KEYS :: "string set" where
  "CATALOGUE_KEYS = set (map pd_key CATALOG)"

definition catalogueKeyOf :: "string \<Rightarrow> json \<Rightarrow> string option" where
  "catalogueKeyOf nm metadata =
     (if json_field ''seedSource'' metadata \<noteq> Some (JStr SEED_TAG) then None
      else case json_field ''catalogueKey'' metadata of
             Some (JStr key) \<Rightarrow> if key \<in> CATALOGUE_KEYS then Some key else None
           | Some (JUuid i) \<Rightarrow> None
           | _ \<Rightarrow> map_option pd_key (List.find (isCatalogueName nm) CATALOG))"

definition demoLotNumberOf :: "json \<Rightarrow> int" where
  "demoLotNumberOf metadata = (case json_field ''demoLotNumber'' metadata of
     Some (JInt n) \<Rightarrow> if n > 0 then n else 1 | _ \<Rightarrow> 1)"

text \<open>
  \<open>productLot\<close> is generic in the rows it chooses from: what it reads of them is given by two
  functions, the id and the custom attributes.
\<close>

definition lot_order :: "('a \<Rightarrow> uuid) \<Rightarrow> ('a \<Rightarrow> json) \<Rightarrow> 'a list \<Rightarrow> 'a list" where
  "lot_order ident attrs = sort_key (\<lambda>p. (demoLotNumberOf (attrs p), ident p))"

definition has_listing :: "(uuid \<Rightarrow> listing_status list) \<Rightarrow> listing_status list \<Rightarrow> uuid \<Rightarrow> bool" where
  "has_listing statusesOf statuses i \<longleftrightarrow> list_ex (\<lambda>s. s \<in> set statuses) (statusesOf i)"

definition productLot ::
  "('a \<Rightarrow> uuid) \<Rightarrow> ('a \<Rightarrow> json) \<Rightarrow> (uuid \<Rightarrow> listing_status list) \<Rightarrow> 'a list \<Rightarrow> 'a option" where
  "productLot ident attrs statusesOf passports =
     (let ordered = lot_order ident attrs passports
      in case List.find (\<lambda>p. has_listing statusesOf LIVE_LOT_STATUSES (ident p)) ordered of
           Some p \<Rightarrow> Some p
         | None \<Rightarrow>
           (case List.find (\<lambda>p. has_listing statusesOf [L_sold] (ident p)) ordered of
              Some p \<Rightarrow> Some p
            | None \<Rightarrow> (case ordered of [] \<Rightarrow> None | p # _ \<Rightarrow> Some p)))"

subsection \<open>Surplus lots on sale (demo-trim-policy.ts)\<close>

record trim_row =
  tr_listingId :: uuid
  tr_passportId :: uuid
  tr_customAttributes :: json
  tr_hasTransaction :: bool

record eligible_lot = trim_row +
  tr_catalogueKey :: string
  tr_demoLotNumber :: int

record trim_plan =
  tp_catalogueKey :: string
  tp_active :: nat
  tp_keepIds :: "uuid list"
  tp_cancelIds :: "uuid list"
  tp_protectedIds :: "uuid list"

definition eligibleDemoLot :: "trim_row \<Rightarrow> eligible_lot option" where
  "eligibleDemoLot row =
     (if json_field ''seedSource'' (tr_customAttributes row) \<noteq> Some (JStr SEED_TAG) then None
      else case json_field ''catalogueKey'' (tr_customAttributes row) of
             Some (JStr key) \<Rightarrow>
               if key \<notin> CATALOGUE_KEYS then None
               else (case json_field ''demoLotNumber'' (tr_customAttributes row) of
                       Some (JInt n) \<Rightarrow>
                         if n < 1 then None
                         else Some (trim_row.extend row \<lparr> tr_catalogueKey = key, tr_demoLotNumber = n \<rparr>)
                     | _ \<Rightarrow> None)
           | _ \<Rightarrow> None)"

definition trim_product :: "nat \<Rightarrow> eligible_lot list \<Rightarrow> product \<Rightarrow> trim_plan" where
  "trim_product targetActive lots p =
     (let active = sort_key (\<lambda>l. (tr_demoLotNumber l, tr_listingId l))
                     (filter (\<lambda>l. tr_catalogueKey l = pd_key p) lots);
          keep = take targetActive active;
          excess = drop targetActive active
      in \<lparr> tp_catalogueKey = pd_key p, tp_active = length active,
           tp_keepIds = map tr_listingId keep,
           tp_cancelIds = map tr_listingId (filter (\<lambda>l. \<not> tr_hasTransaction l) excess),
           tp_protectedIds = map tr_listingId (filter tr_hasTransaction excess) \<rparr>)"

definition planDemoLotTrim :: "eligible_lot list \<Rightarrow> int \<Rightarrow> trim_plan list outcome" where
  "planDemoLotTrim lots targetActive =
     (if targetActive < 1 \<or> targetActive > 10 then Inl PlainError
      else Inr (map (trim_product (nat targetActive) lots) CATALOG))"

subsection \<open>Spare passports (demo-spares-policy.ts)\<close>

record curated_row =
  cr_passportId :: uuid
  cr_productName :: string
  cr_customAttributes :: json
  cr_listingStatuses :: "listing_status list"
  cr_transactions :: nat
  cr_events :: nat
  cr_qualityReports :: nat
  cr_sensorReadings :: nat

datatype spare_reason =
  Has_orders nat | Has_history nat | Has_reports nat | Has_readings nat
| Has_listing "listing_status list"

record spare_plan =
  sp_catalogueKey :: string
  sp_keep :: "(uuid \<times> string) option"
  sp_retire :: "(uuid \<times> string) list"
  sp_protected :: "(uuid \<times> string \<times> spare_reason list) list"

definition RETIRABLE_LISTING :: "listing_status list" where
  "RETIRABLE_LISTING = [L_cancelled, L_expired]"

text \<open>\<open>[...new Set(xs)]\<close>: each value once, at its first place.\<close>

definition first_places :: "'a list \<Rightarrow> 'a list" where
  "first_places xs = rev (remdups (rev xs))"

definition spareProtection :: "curated_row \<Rightarrow> spare_reason list" where
  "spareProtection row =
     (let other = filter (\<lambda>s. s \<notin> set RETIRABLE_LISTING) (cr_listingStatuses row)
      in (if cr_transactions row > 0 then [Has_orders (cr_transactions row)] else [])
       @ (if cr_events row > 0 then [Has_history (cr_events row)] else [])
       @ (if cr_qualityReports row > 0 then [Has_reports (cr_qualityReports row)] else [])
       @ (if cr_sensorReadings row > 0 then [Has_readings (cr_sensorReadings row)] else [])
       @ (if length other > 0 then [Has_listing (first_places other)] else []))"

definition statuses_of_rows :: "curated_row list \<Rightarrow> uuid \<Rightarrow> listing_status list" where
  "statuses_of_rows rows i =
     (case find_row cr_passportId i rows of None \<Rightarrow> [] | Some r \<Rightarrow> cr_listingStatuses r)"

definition lots_of :: "curated_row list \<Rightarrow> product \<Rightarrow> curated_row list" where
  "lots_of rows p =
     filter (\<lambda>r. catalogueKeyOf (cr_productName r) (cr_customAttributes r) = Some (pd_key p)) rows"

definition entry :: "curated_row \<Rightarrow> uuid \<times> string" where
  "entry r = (cr_passportId r, cr_productName r)"

definition spare_plan_of :: "curated_row list \<Rightarrow> product \<Rightarrow> spare_plan" where
  "spare_plan_of rows p =
     (case productLot cr_passportId cr_customAttributes (statuses_of_rows rows) (lots_of rows p) of
        None \<Rightarrow> \<lparr> sp_catalogueKey = pd_key p, sp_keep = None, sp_retire = [], sp_protected = [] \<rparr>
      | Some keeper \<Rightarrow>
          let others = filter (\<lambda>r. cr_passportId r \<noteq> cr_passportId keeper)
                         (lot_order cr_passportId cr_customAttributes (lots_of rows p))
          in \<lparr> sp_catalogueKey = pd_key p, sp_keep = Some (entry keeper),
               sp_retire = map entry (filter (\<lambda>r. spareProtection r = []) others),
               sp_protected = map (\<lambda>r. (cr_passportId r, cr_productName r, spareProtection r))
                 (filter (\<lambda>r. spareProtection r \<noteq> []) others) \<rparr>)"

definition planSpareRetirement :: "curated_row list \<Rightarrow> spare_plan list" where
  "planSpareRetirement rows = map (spare_plan_of rows) CATALOG"

subsection \<open>The target of a script (guard.ts)\<close>

definition VALID_TARGETS :: "string list" where
  "VALID_TARGETS = [''local'', ''staging'', ''demo-production'', ''demo'']"

datatype target_refusal = No_database_url | No_env_flag | Unknown_env | No_declared_env | Wrong_target

fun after_flag :: "string \<Rightarrow> string list \<Rightarrow> string option" where
  "after_flag flag [] = None"
| "after_flag flag (a # argv) =
     (if a = flag then (case argv of [] \<Rightarrow> None | b # _ \<Rightarrow> Some b) else after_flag flag argv)"

text \<open>An empty text is not given, as \<open>!value\<close> says. The masked description is left out.\<close>

definition provided :: "string option \<Rightarrow> bool" where
  "provided v \<longleftrightarrow> v \<noteq> None \<and> v \<noteq> Some []"

definition resolveTarget ::
  "string list \<Rightarrow> (string \<Rightarrow> string option) \<Rightarrow> target_refusal + string \<times> string" where
  "resolveTarget argv env =
     (let databaseUrl = env ''DATABASE_URL'';
          requested = after_flag ''--env'' argv;
          declared = env ''TRACE_ENV''
      in if \<not> provided databaseUrl then Inl No_database_url
         else if \<not> provided requested then Inl No_env_flag
         else if the requested \<notin> set VALID_TARGETS then Inl Unknown_env
         else if \<not> provided declared then Inl No_declared_env
         else if declared \<noteq> requested then Inl Wrong_target
         else Inr (the declared, the databaseUrl))"

subsection \<open>Facts about the choice of a lot\<close>

lemma catalogueKeyOf_key: "catalogueKeyOf nm m = Some k \<Longrightarrow> k \<in> CATALOGUE_KEYS"
  by (auto simp: catalogueKeyOf_def CATALOGUE_KEYS_def find_Some_iff
      split: if_splits option.splits json.splits)

lemma catalogueKeyOf_by_key:
  "json_field ''seedSource'' m = Some (JStr SEED_TAG) \<Longrightarrow>
   json_field ''catalogueKey'' m = Some (JStr k) \<Longrightarrow> k \<in> CATALOGUE_KEYS \<Longrightarrow>
   catalogueKeyOf nm m = Some k"
  by (simp add: catalogueKeyOf_def)

lemma catalogueKeyOf_product: "catalogueKeyOf nm m = Some k \<Longrightarrow> \<exists>p \<in> set CATALOG. pd_key p = k"
  using catalogueKeyOf_key [of nm m k] by (auto simp: CATALOGUE_KEYS_def)

lemma catalogue_product_unique:
  "p \<in> set CATALOG \<Longrightarrow> q \<in> set CATALOG \<Longrightarrow> pd_key p = pd_key q \<Longrightarrow> p = q"
  using catalogue_keys_distinct by (auto simp: distinct_map inj_on_def)

lemma set_lot_order [simp]: "set (lot_order ident attrs xs) = set xs"
  by (simp add: lot_order_def)

lemma mset_lot_order [simp]: "mset (lot_order ident attrs xs) = mset xs"
  by (simp add: lot_order_def)

lemma lot_order_Nil [simp]: "lot_order ident attrs xs = [] \<longleftrightarrow> xs = []"
  by (metis mset_lot_order mset_zero_iff)

lemma sorted_lot_order:
  "sorted (map (\<lambda>p. (demoLotNumberOf (attrs p), ident p)) (lot_order ident attrs xs))"
  by (simp add: lot_order_def)

lemma find_in: "List.find P xs = Some x \<Longrightarrow> x \<in> set xs \<and> P x"
  by (auto simp: find_Some_iff)

lemma find_first_sorted:
  assumes "sorted (map f xs)" and "List.find P xs = Some x" and "y \<in> set xs" and "P y"
  shows "f x \<le> f y"
  using assms by (induction xs) (auto split: if_splits)

lemma productLot_None [simp]: "productLot ident attrs statusesOf xs = None \<longleftrightarrow> xs = []"
proof
  assume "productLot ident attrs statusesOf xs = None"
  then have "lot_order ident attrs xs = []"
    by (auto simp: productLot_def Let_def split: option.splits list.splits)
  then show "xs = []" by simp
qed (simp add: productLot_def lot_order_def)

lemma productLot_in: "productLot ident attrs statusesOf xs = Some p \<Longrightarrow> p \<in> set xs"
proof -
  assume "productLot ident attrs statusesOf xs = Some p"
  then have "p \<in> set (lot_order ident attrs xs)"
    by (auto simp: productLot_def Let_def simp del: set_lot_order dest: find_in
        split: option.splits list.splits)
  then show ?thesis by simp
qed

text \<open>The contract of \<open>productLot\<close>: a live lot if there is one, else a sold one, else any; the lowest
  numbered of its kind.\<close>

definition lot_rank :: "(uuid \<Rightarrow> listing_status list) \<Rightarrow> uuid \<Rightarrow> nat" where
  "lot_rank statusesOf i = (if has_listing statusesOf LIVE_LOT_STATUSES i then 0
     else if has_listing statusesOf [L_sold] i then 1 else 2)"

lemma productLot_least:
  assumes "productLot ident attrs statusesOf xs = Some p" and "q \<in> set xs"
  shows "(lot_rank statusesOf (ident p), demoLotNumberOf (attrs p), ident p)
    \<le> (lot_rank statusesOf (ident q), demoLotNumberOf (attrs q), ident q)"
proof -
  let ?f = "\<lambda>p. (demoLotNumberOf (attrs p), ident p)"
  let ?o = "lot_order ident attrs xs"
  let ?live = "\<lambda>p. has_listing statusesOf LIVE_LOT_STATUSES (ident p)"
  let ?sold = "\<lambda>p. has_listing statusesOf [L_sold] (ident p)"
  note first = find_first_sorted [OF sorted_lot_order [of attrs ident xs]]
  have q: "q \<in> set ?o" using assms(2) by simp
  show ?thesis
  proof (cases "List.find ?live ?o")
    case (Some x)
    then have "p = x" using assms(1) by (simp add: productLot_def Let_def)
    then show ?thesis
      using first [OF Some q] find_in [OF Some] by (auto simp: lot_rank_def less_eq_prod_def)
  next
    case None
    then have nl: "\<not> ?live y" if "y \<in> set xs" for y using that by (auto simp: find_None_iff)
    show ?thesis
    proof (cases "List.find ?sold ?o")
      case (Some x)
      then have "p = x" using assms(1) None by (simp add: productLot_def Let_def)
      then show ?thesis
        using first [OF Some q] find_in [OF Some] nl assms(2)
        by (auto simp: lot_rank_def less_eq_prod_def)
    next
      case none: None
      then have ns: "\<not> ?sold y" if "y \<in> set xs" for y using that by (auto simp: find_None_iff)
      obtain r rest where o: "?o = r # rest" "p = r"
        using assms(1) None none by (auto simp: productLot_def Let_def split: list.splits)
      have "?f p \<le> ?f q" using sorted_lot_order [of attrs ident xs] q o by auto
      then show ?thesis
        using nl ns productLot_in [OF assms(1)] assms(2) by (auto simp: lot_rank_def less_eq_prod_def)
    qed
  qed
qed

subsection \<open>Properties of the plans\<close>

lemma lots_of_disjoint:
  "r \<in> set (lots_of rows p) \<Longrightarrow> r \<in> set (lots_of rows q) \<Longrightarrow> pd_key p = pd_key q"
  by (simp add: lots_of_def)


lemma first_places_empty [simp]: "first_places xs = [] \<longleftrightarrow> xs = []"
  by (simp add: first_places_def)

lemma spareProtection_empty:
  "spareProtection r = [] \<longleftrightarrow> cr_transactions r = 0 \<and> cr_events r = 0 \<and> cr_qualityReports r = 0
    \<and> cr_sensorReadings r = 0 \<and> set (cr_listingStatuses r) \<subseteq> {L_cancelled, L_expired}"
  by (auto simp: spareProtection_def Let_def RETIRABLE_LISTING_def filter_empty_conv)

text \<open>A script runs only on the deployment it names.\<close>

lemma resolveTarget_agrees:
  "resolveTarget argv env = Inr (e, url) \<longleftrightarrow>
    env ''DATABASE_URL'' = Some url \<and> url \<noteq> [] \<and> after_flag ''--env'' argv = Some e
    \<and> env ''TRACE_ENV'' = Some e \<and> e \<in> set VALID_TARGETS"
  by (auto simp: resolveTarget_def Let_def provided_def VALID_TARGETS_def)

end
