(* ===== verification/Demo_Trim.thy ===== *)
theory Demo_Trim
  imports Catalogue_Lots Marketplace_Races Object_Store
begin

text \<open>
  \<open>packages/db/scripts/demo-trim-active.ts\<close>: the script that takes surplus curated lots off sale.
  It runs as one database transaction, but does not lock the rows it reads. What it prints is left
  out; the numbers it reports are its result. The theorems say that it keeps the marketplace
  consistent and one lot of each product on sale, and what an order placed meanwhile does to it.
\<close>

subsection \<open>demo-trim-active.ts\<close>

abbreviation key_of :: "passport \<Rightarrow> string option" where
  "key_of p \<equiv> catalogueKeyOf (p_productName p) (p_customAttributes p)"

text \<open>The query: the active listings with their passports' attributes, and which have orders.\<close>

definition trim_rows :: "trace_db \<Rightarrow> trim_row list" where
  "trim_rows db = List.map_filter
     (\<lambda>l. if l_status l \<noteq> L_active then None
          else map_option (\<lambda>p. \<lparr> tr_listingId = l_id l, tr_passportId = l_passportId l,
                 tr_customAttributes = p_customAttributes p,
                 tr_hasTransaction = (l_id l \<in> t_listingId ` set (transactions db)) \<rparr>)
               (find_passport (l_passportId l) db))
     (listings db)"

definition cancel_lots :: "uuid list \<Rightarrow> trace_db \<Rightarrow> trace_db" where
  "cancel_lots cancelIds db =
     listings_update (map (\<lambda>l. if l_id l \<in> set cancelIds then l\<lparr>l_status := L_cancelled\<rparr> else l)) db"

definition release_passports :: "uuid list \<Rightarrow> time \<Rightarrow> trace_db \<Rightarrow> trace_db" where
  "release_passports ids now db =
     materialPassports_update
       (map (\<lambda>p. if p_id p \<in> set ids then p\<lparr>p_status := P_active, p_updatedAt := now\<rparr> else p)) db"

definition trim_write :: "trim_row list \<Rightarrow> trim_plan list \<Rightarrow> time \<Rightarrow> trace_db \<Rightarrow> trace_db" where
  "trim_write rows plan now db =
     (let cancelIds = concat (map tp_cancelIds plan);
          cancelRows = filter (\<lambda>r. tr_listingId r \<in> set cancelIds) rows
      in release_passports (map tr_passportId cancelRows) now (cancel_lots cancelIds db))"

text \<open>
  The result: how many lots were cancelled and how many were left because of their orders. The
  script reads and writes without locking the rows: \<open>other\<close> is what other requests commit in
  between.
\<close>

definition demo_trim_around ::
  "bool \<Rightarrow> int \<Rightarrow> time \<Rightarrow> (trace_db \<Rightarrow> trace_db) \<Rightarrow> trace_db \<Rightarrow> (nat \<times> nat \<times> trace_db) outcome" where
  "demo_trim_around dryRun targetActive now other db =
     (let rows = trim_rows db
      in case planDemoLotTrim (List.map_filter eligibleDemoLot rows) targetActive of
           Inl e \<Rightarrow> Inl e
         | Inr plan \<Rightarrow>
             let cancelled = sum_list (map (length \<circ> tp_cancelIds) plan);
                 protectedCount = sum_list (map (length \<circ> tp_protectedIds) plan)
             in if dryRun \<or> cancelled = 0 then Inr (cancelled, protectedCount, other db)
                else Inr (cancelled, protectedCount, trim_write rows plan now (other db)))"

definition demo_trim_active :: "bool \<Rightarrow> int \<Rightarrow> time \<Rightarrow> trace_db \<Rightarrow> (nat \<times> nat \<times> trace_db) outcome" where
  "demo_trim_active dryRun targetActive now db =
     demo_trim_around dryRun targetActive now (\<lambda>d. d) db"

subsection \<open>Trimming keeps the marketplace\<close>

text \<open>Closing several lots at once is closing them one after the other.\<close>

definition close_lots :: "listing list \<Rightarrow> time \<Rightarrow> trace_db \<Rightarrow> trace_db" where
  "close_lots ls now db = release_passports (map l_passportId ls) now (cancel_lots (map l_id ls) db)"

lemma close_lots_Nil [simp]: "close_lots [] now db = db"
  by (simp add: close_lots_def release_passports_def cancel_lots_def)

lemma close_lots_Cons:
  "close_lots (l # ls) now db = close_lots ls now (closed_db l L_cancelled now db)"
  by (cases db) (auto simp: close_lots_def release_passports_def cancel_lots_def closed_db_def
      set_passport_status_def update_rows_def)

lemma close_lots_ok:
  assumes "market_ok db" and "distinct (map l_id ls)"
    and "\<And>l. l \<in> set ls \<Longrightarrow> find_listing (l_id l) db = Some l \<and> live l \<and> openOrders (l_id l) db = 0"
  shows "market_ok (close_lots ls now db)"
  using assms
proof (induction ls arbitrary: db)
  case Nil
  then show ?case by simp
next
  case (Cons l ls)
  have l: "find_listing (l_id l) db = Some l" "live l" "openOrders (l_id l) db = 0"
    using Cons.prems(3) [of l] by auto
  have "market_ok (closed_db l L_cancelled now db)"
    by (rule close_lot_ok(2) [OF Cons.prems(1) l(1) _ l(2,3)]) simp
  moreover have "find_listing (l_id m) (closed_db l L_cancelled now db) = Some m \<and> live m
      \<and> openOrders (l_id m) (closed_db l L_cancelled now db) = 0" if m: "m \<in> set ls" for m
  proof -
    have "l_id l \<notin> l_id ` set ls" using Cons.prems(2) by simp
    then have "l_id m \<noteq> l_id l" using m by (metis image_eqI)
    then show ?thesis using Cons.prems(3) [of m] m by (simp add: find_row_update_other)
  qed
  ultimately show ?case
    using Cons.IH [of "closed_db l L_cancelled now db"] Cons.prems(2) by (simp add: close_lots_Cons)
qed

lemma set_map_filter_iff: "x \<in> set (List.map_filter f xs) \<longleftrightarrow> (\<exists>y \<in> set xs. f y = Some x)"
  by (induction xs) (auto simp: List.map_filter_simps split: option.splits)

lemma trim_row_iff:
  "r \<in> set (trim_rows db) \<longleftrightarrow> (\<exists>l \<in> set (listings db). \<exists>p. l_status l = L_active
     \<and> find_passport (l_passportId l) db = Some p
     \<and> r = \<lparr> tr_listingId = l_id l, tr_passportId = l_passportId l,
            tr_customAttributes = p_customAttributes p,
            tr_hasTransaction = (l_id l \<in> t_listingId ` set (transactions db)) \<rparr>)"
  by (auto simp: trim_rows_def set_map_filter_iff split: if_splits)

lemma eligible_keeps [simp]:
  assumes "eligibleDemoLot r = Some e"
  shows "tr_listingId e = tr_listingId r" "tr_passportId e = tr_passportId r"
    "tr_hasTransaction e = tr_hasTransaction r" "tr_customAttributes e = tr_customAttributes r"
  using assms
  by (auto simp: eligibleDemoLot_def trim_row.defs split: if_splits option.splits json.splits)

text \<open>The surplus lots on sale of one product, as the script sees them.\<close>

definition eligible_lots :: "trace_db \<Rightarrow> eligible_lot list" where
  "eligible_lots db = List.map_filter eligibleDemoLot (trim_rows db)"

lemma eligible_lot_iff:
  "e \<in> set (eligible_lots db) \<longleftrightarrow> (\<exists>r \<in> set (trim_rows db). eligibleDemoLot r = Some e)"
  by (simp add: eligible_lots_def set_map_filter_iff)

lemma distinct_map_filter_ids:
  assumes "distinct (map f xs)" and "\<And>x y. g x = Some y \<Longrightarrow> h y = f x"
  shows "distinct (map h (List.map_filter g xs)) \<and> h ` set (List.map_filter g xs) \<subseteq> f ` set xs"
  using assms(1)
proof (induction xs)
  case Nil
  then show ?case by (simp add: List.map_filter_simps)
next
  case (Cons x xs)
  show ?case
  proof (cases "g x")
    case None
    then show ?thesis using Cons by (auto simp: List.map_filter_simps)
  next
    case (Some y)
    have "h y = f x" by (rule assms(2) [OF Some])
    then show ?thesis using Cons Some by (auto simp: List.map_filter_simps)
  qed
qed

lemma eligible_lots_distinct:
  assumes "market_ok db"
  shows "distinct (map tr_listingId (eligible_lots db))"
proof -
  have "distinct (map tr_listingId (trim_rows db))"
    unfolding trim_rows_def
    by (rule distinct_map_filter_ids [THEN conjunct1, of l_id])
      (use assms in \<open>auto simp: market_ok_def keys_ok_def split: if_splits\<close>)
  then show ?thesis
    unfolding eligible_lots_def by (rule distinct_map_filter_ids [THEN conjunct1]) simp
qed

lemma trim_product_ids:
  assumes "distinct (map tr_listingId lots)" and "pl = trim_product n lots p"
  shows "mset (tp_keepIds pl @ tp_cancelIds pl @ tp_protectedIds pl)
      = mset (map tr_listingId (filter (\<lambda>l. tr_catalogueKey l = pd_key p) lots))"
    and "length (tp_keepIds pl) = min n (length (filter (\<lambda>l. tr_catalogueKey l = pd_key p) lots))"
proof -
  let ?mine = "filter (\<lambda>l. tr_catalogueKey l = pd_key p) lots"
  let ?a = "sort_key (\<lambda>l. (tr_demoLotNumber l, tr_listingId l)) ?mine"
  have parts: "tp_keepIds pl = map tr_listingId (take n ?a)"
    "tp_cancelIds pl = map tr_listingId (filter (\<lambda>l. \<not> tr_hasTransaction l) (drop n ?a))"
    "tp_protectedIds pl = map tr_listingId (filter tr_hasTransaction (drop n ?a))"
    by (simp_all add: assms(2) trim_product_def Let_def)
  have split: "mset (filter (\<lambda>l. \<not> tr_hasTransaction l) xs) + mset (filter tr_hasTransaction xs) = mset xs"
    for xs :: "eligible_lot list"
    by (metis add.commute mset_filter multiset_partition)
  have "mset (take n ?a) + mset (drop n ?a) = mset ?a"
    by (metis append_take_drop_id mset_append)
  then show "mset (tp_keepIds pl @ tp_cancelIds pl @ tp_protectedIds pl) = mset (map tr_listingId ?mine)"
    using split [of "drop n ?a"] by (simp add: parts flip: mset_map image_mset_union) (simp flip: image_mset_union)
  show "length (tp_keepIds pl) = min n (length ?mine)" by (simp add: parts)
qed

lemma cancel_id_lot:
  assumes "i \<in> set (tp_cancelIds (trim_product n lots p))"
  shows "\<exists>e \<in> set lots. tr_listingId e = i \<and> tr_catalogueKey e = pd_key p \<and> \<not> tr_hasTransaction e"
proof -
  obtain e where e: "e \<in> set (drop n (sort_key (\<lambda>l. (tr_demoLotNumber l, tr_listingId l))
      (filter (\<lambda>l. tr_catalogueKey l = pd_key p) lots)))" "\<not> tr_hasTransaction e" "tr_listingId e = i"
    using assms by (auto simp: trim_product_def Let_def)
  then have "e \<in> set (filter (\<lambda>l. tr_catalogueKey l = pd_key p) lots)" by (metis in_set_dropD set_sort)
  then show ?thesis using e by auto
qed

definition on_sale :: "product \<Rightarrow> trace_db \<Rightarrow> uuid list" where
  "on_sale p db = map tr_listingId (filter (\<lambda>e. tr_catalogueKey e = pd_key p) (eligible_lots db))"

definition surplus_ids :: "nat \<Rightarrow> trace_db \<Rightarrow> uuid list" where
  "surplus_ids n db = concat (map (\<lambda>p. tp_cancelIds (trim_product n (eligible_lots db) p)) CATALOG)"

lemma map_filter_map_filter:
  "(\<And>x. x \<in> set xs \<Longrightarrow> g (f x) = (if P x then g x else None)) \<Longrightarrow>
    List.map_filter g (map f xs) = List.map_filter g (filter P xs)"
  by (induction xs) (auto simp: List.map_filter_simps split: option.splits)

lemma map_filter_filter:
  "(\<And>x y. g x = Some y \<Longrightarrow> Q y = P x) \<Longrightarrow>
    List.map_filter g (filter P xs) = filter Q (List.map_filter g xs)"
  by (induction xs) (auto simp: List.map_filter_simps split: option.splits)

lemma find_passport_release:
  "find_passport i (release_passports ids now db)
    = map_option (\<lambda>p. if p_id p \<in> set ids then p\<lparr>p_status := P_active, p_updatedAt := now\<rparr> else p)
        (find_passport i db)"
proof -
  have "find_row p_id i (map (\<lambda>p. if p_id p \<in> set ids then p\<lparr>p_status := P_active, p_updatedAt := now\<rparr> else p) ps)
      = map_option (\<lambda>p. if p_id p \<in> set ids then p\<lparr>p_status := P_active, p_updatedAt := now\<rparr> else p)
          (find_row p_id i ps)" for ps
    by (induction ps) auto
  then show ?thesis by (simp add: release_passports_def)
qed

lemma trim_rows_after:
  "trim_rows (release_passports ids now (cancel_lots gone db))
    = filter (\<lambda>r. tr_listingId r \<notin> set gone) (trim_rows db)"
proof -
  let ?g = "\<lambda>l. if l_status l \<noteq> L_active then None
      else map_option (\<lambda>p. \<lparr> tr_listingId = l_id l, tr_passportId = l_passportId l,
             tr_customAttributes = p_customAttributes p,
             tr_hasTransaction = (l_id l \<in> t_listingId ` set (transactions db)) \<rparr>)
           (find_passport (l_passportId l) db)"
  let ?P = "\<lambda>l. l_id l \<notin> set gone"
  have same: "(\<lambda>l. if l_status l \<noteq> L_active then None
      else map_option (\<lambda>p. \<lparr> tr_listingId = l_id l, tr_passportId = l_passportId l,
             tr_customAttributes = p_customAttributes p,
             tr_hasTransaction = (l_id l \<in> t_listingId ` set (transactions db)) \<rparr>)
           (find_passport (l_passportId l) (release_passports ids now (cancel_lots gone db)))) = ?g"
    by (rule ext) (auto simp: find_passport_release cancel_lots_def option.map_comp intro!: map_option_cong)
  have "transactions (release_passports ids now (cancel_lots gone db)) = transactions db"
    "listings (release_passports ids now (cancel_lots gone db))
      = map (\<lambda>l. if l_id l \<in> set gone then l\<lparr>l_status := L_cancelled\<rparr> else l) (listings db)"
    by (simp_all add: release_passports_def cancel_lots_def)
  then have "trim_rows (release_passports ids now (cancel_lots gone db))
      = List.map_filter ?g (map (\<lambda>l. if l_id l \<in> set gone then l\<lparr>l_status := L_cancelled\<rparr> else l) (listings db))"
    unfolding trim_rows_def by (simp only: same)
  also have "\<dots> = List.map_filter ?g (filter ?P (listings db))"
    by (rule map_filter_map_filter) simp
  also have "\<dots> = filter (\<lambda>r. tr_listingId r \<notin> set gone) (List.map_filter ?g (listings db))"
    by (rule map_filter_filter) (auto split: if_splits)
  finally show ?thesis by (simp add: trim_rows_def)
qed

lemma on_sale_after:
  "on_sale p (release_passports ids now (cancel_lots gone db))
    = filter (\<lambda>i. i \<notin> set gone) (on_sale p db)"
proof -
  have "List.map_filter eligibleDemoLot (filter (\<lambda>r. tr_listingId r \<notin> set gone) rows)
      = filter (\<lambda>e. tr_listingId e \<notin> set gone) (List.map_filter eligibleDemoLot rows)" for rows
    by (rule map_filter_filter) simp
  then show ?thesis
    by (simp add: on_sale_def eligible_lots_def trim_rows_after filter_map o_def)
      (simp add: conj_commute)
qed

lemma surplus_lot:
  assumes "i \<in> set (surplus_ids n db)"
  shows "\<exists>l \<in> set (listings db). l_id l = i \<and> l_status l = L_active \<and> i \<notin> t_listingId ` set (transactions db)"
proof -
  obtain p where "i \<in> set (tp_cancelIds (trim_product n (eligible_lots db) p))"
    using assms by (auto simp: surplus_ids_def)
  then obtain e where e: "e \<in> set (eligible_lots db)" "tr_listingId e = i" "\<not> tr_hasTransaction e"
    using cancel_id_lot by blast
  then obtain r where r: "r \<in> set (trim_rows db)" "eligibleDemoLot r = Some e"
    by (auto simp: eligible_lot_iff)
  then show ?thesis using e by (auto simp: trim_row_iff)
qed

lemma trim_write_is_close_lots:
  assumes "market_ok db"
  shows "trim_write (trim_rows db) (map (trim_product n (eligible_lots db)) CATALOG) now db
    = close_lots (filter (\<lambda>l. l_id l \<in> set (surplus_ids n db)) (listings db)) now db"
proof -
  let ?gone = "set (surplus_ids n db)"
  have passports: "tr_passportId ` {r \<in> set (trim_rows db). tr_listingId r \<in> ?gone}
      = l_passportId ` {l \<in> set (listings db). l_id l \<in> ?gone}"
  proof (intro set_eqI iffI)
    fix i assume "i \<in> tr_passportId ` {r \<in> set (trim_rows db). tr_listingId r \<in> ?gone}"
    then show "i \<in> l_passportId ` {l \<in> set (listings db). l_id l \<in> ?gone}"
      by (auto simp: trim_row_iff)
  next
    fix i assume "i \<in> l_passportId ` {l \<in> set (listings db). l_id l \<in> ?gone}"
    then obtain l where l: "l \<in> set (listings db)" "l_id l \<in> ?gone" "i = l_passportId l" by auto
    obtain m where m: "m \<in> set (listings db)" "l_id m = l_id l" "l_status m = L_active"
      using surplus_lot [OF l(2)] by auto
    have "m = l" using assms l(1) m(1,2) by (auto simp: market_ok_def keys_ok_def distinct_map inj_on_def)
    then have lv: "live l" "l_status l = L_active" using m(3) by (simp_all add: live_def)
    then obtain p where "find_passport (l_passportId l) db = Some p"
      using assms l(1) by (fastforce simp: market_ok_def listing_ok_def passport_agrees_def)
    then have "\<lparr> tr_listingId = l_id l, tr_passportId = l_passportId l,
        tr_customAttributes = p_customAttributes p,
        tr_hasTransaction = (l_id l \<in> t_listingId ` set (transactions db)) \<rparr> \<in> set (trim_rows db)"
      using l(1) lv(2) unfolding trim_row_iff by blast
    then have "\<exists>r \<in> set (trim_rows db). tr_listingId r = l_id l \<and> tr_passportId r = l_passportId l"
      by (rule rev_bexI) simp
    then show "i \<in> tr_passportId ` {r \<in> set (trim_rows db). tr_listingId r \<in> ?gone}"
      using l by force
  qed
  have ids: "concat (map tp_cancelIds (map (trim_product n (eligible_lots db)) CATALOG)) = surplus_ids n db"
    by (simp add: surplus_ids_def o_def)
  have "cancel_lots (surplus_ids n db) db
      = cancel_lots (map l_id (filter (\<lambda>l. l_id l \<in> ?gone) (listings db))) db"
    by (cases db) (auto simp: cancel_lots_def)
  then show ?thesis
    using passports unfolding trim_write_def ids Let_def close_lots_def
    by (simp add: release_passports_def)
qed

lemma surplus_ids_of_product:
  assumes "market_ok db" and "p \<in> set CATALOG" and "i \<in> set (on_sale p db)"
  shows "i \<in> set (surplus_ids n db) \<longleftrightarrow> i \<in> set (tp_cancelIds (trim_product n (eligible_lots db) p))"
proof
  assume "i \<in> set (surplus_ids n db)"
  then obtain q where q: "q \<in> set CATALOG" "i \<in> set (tp_cancelIds (trim_product n (eligible_lots db) q))"
    by (auto simp: surplus_ids_def)
  obtain e where e: "e \<in> set (eligible_lots db)" "tr_listingId e = i" "tr_catalogueKey e = pd_key q"
    using cancel_id_lot [OF q(2)] by auto
  obtain f where f: "f \<in> set (eligible_lots db)" "tr_listingId f = i" "tr_catalogueKey f = pd_key p"
    using assms(3) by (auto simp: on_sale_def)
  have "e = f"
    using eligible_lots_distinct [OF assms(1)] e f by (auto simp: distinct_map inj_on_def)
  then have "p = q" using e f assms(2) q(1) by (auto intro: catalogue_product_unique)
  then show "i \<in> set (tp_cancelIds (trim_product n (eligible_lots db) p))" using q(2) by simp
qed (use assms(2) in \<open>auto simp: surplus_ids_def\<close>)

lemma transactions_close_lots [simp]:
  "transactions (close_lots ls now db) = transactions db" "passportEvents (close_lots ls now db) = passportEvents db"
  by (simp_all add: close_lots_def release_passports_def cancel_lots_def)

lemma trimmed_lots:
  assumes "market_ok db" and "p \<in> set CATALOG"
    and "db' = close_lots (filter (\<lambda>l. l_id l \<in> set (surplus_ids n db)) (listings db)) now db"
  shows "mset (on_sale p db') = mset (tp_keepIds (trim_product n (eligible_lots db) p))
      + mset (tp_protectedIds (trim_product n (eligible_lots db) p))"
proof -
  let ?pl = "trim_product n (eligible_lots db) p"
  let ?C = "set (tp_cancelIds ?pl)"
  have dist: "distinct (on_sale p db)"
    using eligible_lots_distinct [OF assms(1)] unfolding on_sale_def by (rule distinct_map_filter)
  have parts: "mset (on_sale p db)
      = mset (tp_keepIds ?pl) + mset (tp_cancelIds ?pl) + mset (tp_protectedIds ?pl)"
    using trim_product_ids(1) [OF eligible_lots_distinct [OF assms(1)] refl, of n p]
    by (simp add: on_sale_def ac_simps)
  then have "distinct (tp_keepIds ?pl @ tp_cancelIds ?pl @ tp_protectedIds ?pl)"
    using dist by (metis append.assoc mset_append mset_eq_imp_distinct_iff)
  then have apart: "filter (\<lambda>i. i \<notin> ?C) (tp_keepIds ?pl) = tp_keepIds ?pl"
    "filter (\<lambda>i. i \<notin> ?C) (tp_protectedIds ?pl) = tp_protectedIds ?pl"
    "filter (\<lambda>i. i \<notin> ?C) (tp_cancelIds ?pl) = []"
    by (auto simp: filter_id_conv filter_empty_conv)
  have "on_sale p db' = filter (\<lambda>i. i \<notin> l_id ` {l \<in> set (listings db). l_id l \<in> set (surplus_ids n db)}) (on_sale p db)"
    by (simp add: assms(3) close_lots_def on_sale_after)
  also have "\<dots> = filter (\<lambda>i. i \<notin> ?C) (on_sale p db)"
  proof (rule filter_cong [OF refl])
    fix i assume i: "i \<in> set (on_sale p db)"
    then have "i \<in> l_id ` set (listings db)"
      by (auto simp: on_sale_def eligible_lot_iff trim_row_iff)
    then show "(i \<notin> l_id ` {l \<in> set (listings db). l_id l \<in> set (surplus_ids n db)}) = (i \<notin> ?C)"
      using surplus_ids_of_product [OF assms(1,2) i, of n] by auto
  qed
  finally have "mset (on_sale p db') = filter_mset (\<lambda>i. i \<notin> ?C) (mset (on_sale p db))" by simp
  then show ?thesis
    unfolding parts by (simp add: apart flip: mset_filter)
qed

lemma filter_mset_subset_length:
  "mset xs = mset ys + mset zs \<Longrightarrow> (\<And>z. z \<in> set zs \<Longrightarrow> \<not> P z) \<Longrightarrow> length (filter P xs) \<le> length ys"
proof -
  assume eq: "mset xs = mset ys + mset zs" and none: "\<And>z. z \<in> set zs \<Longrightarrow> \<not> P z"
  have "mset (filter P xs) = mset (filter P ys) + mset (filter P zs)" by (simp add: eq)
  moreover have "filter P zs = []" using none by (simp add: filter_empty_conv)
  ultimately have "length (filter P xs) = length (filter P ys)" by (metis mset_eq_length add.right_neutral mset.simps(1))
  then show ?thesis by simp
qed

lemma surplus_has_no_order: "i \<in> set (surplus_ids n db) \<Longrightarrow> i \<notin> t_listingId ` set (transactions db)"
  using surplus_lot [of i n db] by blast

lemma no_order_open: "i \<notin> t_listingId ` set (transactions db) \<Longrightarrow> openOrders i db = 0"
  by (force simp: openOrders_def filter_empty_conv)

abbreviation surplus_lots :: "int \<Rightarrow> trace_db \<Rightarrow> listing list" where
  "surplus_lots n db \<equiv> filter (\<lambda>l. l_id l \<in> set (surplus_ids (nat n) db)) (listings db)"

lemma trim_effect:
  assumes ok: "market_ok db" and n: "1 \<le> n" "n \<le> 10"
  shows "\<exists>c k. demo_trim_active False n now db = Inr (c, k, close_lots (surplus_lots n db) now db)"
    and "market_ok (close_lots (surplus_lots n db) now db)"
proof -
  have "planDemoLotTrim (eligible_lots db) n = Inr (map (trim_product (nat n) (eligible_lots db)) CATALOG)"
    using n by (simp add: planDemoLotTrim_def)
  moreover have "close_lots (surplus_lots n db) now db = db"
    if "\<forall>q \<in> set CATALOG. tp_cancelIds (trim_product (nat n) (eligible_lots db) q) = []"
  proof -
    have "surplus_ids (nat n) db = []" using that by (simp add: surplus_ids_def)
    then show ?thesis by simp
  qed
  ultimately show "\<exists>c k. demo_trim_active False n now db = Inr (c, k, close_lots (surplus_lots n db) now db)"
    using trim_write_is_close_lots [OF ok, of "nat n" now]
    by (simp add: demo_trim_active_def demo_trim_around_def eligible_lots_def [symmetric] Let_def)
  show "market_ok (close_lots (surplus_lots n db) now db)"
  proof (rule close_lots_ok [OF ok])
    show "distinct (map l_id (surplus_lots n db))"
      using ok by (auto simp: market_ok_def keys_ok_def intro: distinct_map_filter)
    fix l assume l: "l \<in> set (surplus_lots n db)"
    then obtain m where m: "m \<in> set (listings db)" "l_id m = l_id l" "l_status m = L_active"
      using surplus_lot by fastforce
    have "m = l" using ok l m by (auto simp: market_ok_def keys_ok_def distinct_map inj_on_def)
    then show "find_listing (l_id l) db = Some l \<and> live l \<and> openOrders (l_id l) db = 0"
      using ok l m no_order_open [OF surplus_has_no_order [of "l_id l" "nat n" db]]
      by (auto simp: market_ok_def keys_ok_def live_def intro: find_row_distinct)
  qed
qed

lemma protected_lot_has_order:
  assumes "i \<in> set (tp_protectedIds (trim_product n (eligible_lots db) p))"
  shows "i \<in> t_listingId ` set (transactions db)"
proof -
  obtain e where e: "e \<in> set (drop n (sort_key (\<lambda>l. (tr_demoLotNumber l, tr_listingId l))
      (filter (\<lambda>l. tr_catalogueKey l = pd_key p) (eligible_lots db))))" "tr_hasTransaction e" "tr_listingId e = i"
    using assms by (auto simp: trim_product_def Let_def)
  then have "e \<in> set (filter (\<lambda>l. tr_catalogueKey l = pd_key p) (eligible_lots db))"
    by (metis in_set_dropD set_sort)
  then show ?thesis using e by (auto simp: eligible_lot_iff trim_row_iff)
qed

text \<open>
  Trimming the demo's surplus lots, run by itself, keeps the marketplace consistent and every
  order as it is. Of each product, the lots on sale afterwards are some of those before; at least
  the target number remains where there were that many; at most the target number of them have
  no order, and each lot taken off sale had none.
\<close>

theorem trimming_keeps_the_first_lots:
  assumes ok: "market_ok db" and n: "1 \<le> n" "n \<le> 10" and p: "p \<in> set CATALOG"
  shows "\<exists>c k db'. demo_trim_active False n now db = Inr (c, k, db')
    \<and> market_ok db' \<and> transactions db' = transactions db
    \<and> set (on_sale p db') \<subseteq> set (on_sale p db)
    \<and> min (nat n) (length (on_sale p db)) \<le> length (on_sale p db')
    \<and> length (filter (\<lambda>i. i \<notin> t_listingId ` set (transactions db)) (on_sale p db')) \<le> nat n
    \<and> (set (on_sale p db) - set (on_sale p db')) \<inter> t_listingId ` set (transactions db) = {}"
proof -
  let ?db = "close_lots (surplus_lots n db) now db"
  let ?pl = "trim_product (nat n) (eligible_lots db) p"
  note ids = trim_product_ids [OF eligible_lots_distinct [OF ok] refl, of "nat n" p]
  have after: "mset (on_sale p ?db) = mset (tp_keepIds ?pl) + mset (tp_protectedIds ?pl)"
    by (rule trimmed_lots [OF ok p refl])
  have before: "mset (on_sale p db) = mset (tp_keepIds ?pl) + mset (tp_cancelIds ?pl) + mset (tp_protectedIds ?pl)"
    using ids(1) by (simp add: on_sale_def ac_simps)
  have keep: "length (tp_keepIds ?pl) = min (nat n) (length (on_sale p db))"
    using ids(2) by (simp add: on_sale_def)
  have sets: "set (on_sale p ?db) = set (tp_keepIds ?pl) \<union> set (tp_protectedIds ?pl)"
    "set (on_sale p db) = set (tp_keepIds ?pl) \<union> set (tp_cancelIds ?pl) \<union> set (tp_protectedIds ?pl)"
    using arg_cong [OF after, of set_mset] arg_cong [OF before, of set_mset] by simp_all
  have gone: "i \<notin> t_listingId ` set (transactions db)" if "i \<in> set (tp_cancelIds ?pl)" for i
    by (rule surplus_has_no_order [of _ "nat n"]) (use p that in \<open>auto simp: surplus_ids_def\<close>)
  have "length (on_sale p ?db) = length (tp_keepIds ?pl) + length (tp_protectedIds ?pl)"
    using arg_cong [OF after, of size] by simp
  moreover have "length (filter (\<lambda>i. i \<notin> t_listingId ` set (transactions db)) (on_sale p ?db)) \<le> length (tp_keepIds ?pl)"
    by (rule filter_mset_subset_length [OF after]) (simp add: protected_lot_has_order)
  moreover obtain c k where "demo_trim_active False n now db = Inr (c, k, ?db)"
    using trim_effect(1) [OF ok n, of now] by blast
  moreover have "(set (on_sale p db) - set (on_sale p ?db)) \<inter> t_listingId ` set (transactions db) = {}"
    using sets gone by auto
  moreover have "min (nat n) (length (on_sale p db)) \<le> length (on_sale p ?db)"
    and "length (tp_keepIds ?pl) \<le> nat n"
    using calculation(1) keep by simp_all
  moreover have "set (on_sale p ?db) \<subseteq> set (on_sale p db)" using sets by auto
  moreover have "transactions ?db = transactions db" by simp
  ultimately show ?thesis using trim_effect(2) [OF ok n, of now] by (meson order.trans)
qed

subsection \<open>A demo to evaluate the scripts on\<close>

text \<open>Two lots of one catalogue product on sale.\<close>

definition sisal_lot :: "uuid \<Rightarrow> int \<Rightarrow> passport" where
  "sisal_lot i n = sample_passport\<lparr> p_id := i,
     p_customAttributes := JObj [(''seedSource'', JStr SEED_TAG),
       (''catalogueKey'', JStr ''sisalwool-100''), (''demoLotNumber'', JInt n)] \<rparr>"

definition demo_db :: trace_db where
  "demo_db = sample_db\<lparr> materialPassports := [sisal_lot 10 2, sisal_lot 11 1] \<rparr>"

definition one_lot_db :: trace_db where
  "one_lot_db = state_of (createListing sample_lot 20 2 1 100 demo_db) demo_db"

definition two_lots_db :: trace_db where
  "two_lots_db = state_of (createListing (sample_lot\<lparr>ci_passportId := 11\<rparr>) 21 2 1 100 one_lot_db) one_lot_db"

lemma demo_db_ok: "market_ok demo_db"
  by (simp add: market_ok_def keys_ok_def exclusive_def demo_db_def sisal_lot_def sample_db_def)

lemma one_lot_db_ok: "market_ok one_lot_db"
  using createListing_ok [OF demo_db_ok sample_lot_valid, of 20 2 1 100] demo_db_ok
  by (auto simp: one_lot_db_def state_of_def demo_db_def sample_db_def)

lemma two_lots_db_ok: "market_ok two_lots_db"
proof -
  have "CreateListingSchema 90 (sample_lot\<lparr>ci_passportId := 11\<rparr>)" by code_simp
  moreover have "find_listing 21 one_lot_db = None" by code_simp
  ultimately show ?thesis
    using createListing_ok [OF one_lot_db_ok, of 90 "sample_lot\<lparr>ci_passportId := 11\<rparr>" 21 2 1 100] one_lot_db_ok
    unfolding two_lots_db_def state_of_def by auto
qed

lemma key_is_catalogued: "''sisalwool-100'' \<in> CATALOGUE_KEYS"
  unfolding CATALOGUE_KEYS_def catalogue_keys by simp

lemma two_lots: "map (\<lambda>l. (l_id l, l_passportId l, l_status l)) (listings two_lots_db)
    = [(20, 10, L_active), (21, 11, L_active)]"
  "transactions two_lots_db = []" "find_passport 10 two_lots_db \<noteq> None"
  "map p_customAttributes (materialPassports two_lots_db) = map p_customAttributes [sisal_lot 10 2, sisal_lot 11 1]"
  by code_simp+

theorem trimming_keeps_the_first_lots_witness:
  "\<exists>c k db'. demo_trim_active False 1 250 two_lots_db = Inr (c, k, db') \<and> market_ok db'
    \<and> length (on_sale sisalwool db') = 1"
proof -
  have "on_sale sisalwool two_lots_db = [20, 21]" by code_simp
  then show ?thesis
    using trimming_keeps_the_first_lots [OF two_lots_db_ok, of 1 sisalwool 250] two_lots(2)
    by (auto simp: CATALOG_def)
qed

text \<open>
  The trim reads the lots and their orders, and writes, without locking the rows it read. An
  order placed on a surplus lot in between is left open on a cancelled listing, which the
  repository's checker reports; alone, neither the order nor the trim breaks a rule, and after
  the order the trim would have left that lot on sale.
\<close>

theorem a_trim_can_strand_an_order:
  "rules_broken two_lots_db = [] \<and> rules_broken (an_offer two_lots_db) = []
    \<and> map_sum id (\<lambda>(c, k, db'). (c, k, rules_broken db')) (demo_trim_active False 1 250 two_lots_db) = Inr (1, 0, [])
    \<and> map_sum id (\<lambda>(c, k, db'). (c, k, rules_broken db')) (demo_trim_active False 1 250 (an_offer two_lots_db))
        = Inr (0, 1, [])
    \<and> map_sum id (\<lambda>(c, k, db'). (c, k, rules_broken db'))
        (demo_trim_around False 1 250 an_offer two_lots_db) = Inr (1, 0, [Stranded_order])"
  by code_simp

end
