(* ===== verification/Demo_Spares.thy ===== *)
theory Demo_Spares
  imports Demo_Trim
begin

text \<open>
  \<open>packages/db/scripts/demo-retire-spares.ts\<close>: the script that deletes the curated passports a
  product has beyond its one lot. It runs as one transaction with the passports and their listings
  locked, so nothing lands on a spare in between. A delete cascades along the foreign keys of
  \<open>schema.ts\<close>. Sensor readings are in no modelled table: how many a passport has is an argument.
\<close>

definition curated_passports :: "trace_db \<Rightarrow> passport list" where
  "curated_passports db = filter (\<lambda>p. json_field ''seedSource'' (p_customAttributes p) = Some (JStr SEED_TAG))
     (materialPassports db)"

definition orders_of_passport :: "uuid \<Rightarrow> trace_db \<Rightarrow> order list" where
  "orders_of_passport i db = concat (map (\<lambda>t.
     map (\<lambda>l. t) (filter (\<lambda>l. l_id l = t_listingId t \<and> l_passportId l = i) (listings db))) (transactions db))"

definition statuses_of_listings :: "uuid \<Rightarrow> trace_db \<Rightarrow> listing_status list" where
  "statuses_of_listings i db = map l_status (filter (\<lambda>l. l_passportId l = i) (listings db))"

definition curated_row_of :: "(uuid \<Rightarrow> nat) \<Rightarrow> trace_db \<Rightarrow> passport \<Rightarrow> curated_row" where
  "curated_row_of readings db p = \<lparr>
     cr_passportId = p_id p, cr_productName = p_productName p,
     cr_customAttributes = p_customAttributes p,
     cr_listingStatuses = statuses_of_listings (p_id p) db,
     cr_transactions = length (orders_of_passport (p_id p) db),
     cr_events = length (filter (\<lambda>e. ev_passportId e = p_id p) (passportEvents db)),
     cr_qualityReports = length (filter (\<lambda>q. q_passportId q = p_id p) (qualityReports db)),
     cr_sensorReadings = readings (p_id p) \<rparr>"

text \<open>\<open>DELETE FROM material_passports WHERE id IN (...)\<close> with its cascades.\<close>

definition delete_passports :: "uuid list \<Rightarrow> trace_db \<Rightarrow> trace_db" where
  "delete_passports ids db =
     (let gone_listings = map l_id (filter (\<lambda>l. l_passportId l \<in> set ids) (listings db));
          gone_orders = map t_id (filter (\<lambda>t. t_listingId t \<in> set gone_listings) (transactions db))
      in db\<lparr>
        materialPassports := filter (\<lambda>p. p_id p \<notin> set ids) (materialPassports db),
        passportEvents := filter (\<lambda>e. ev_passportId e \<notin> set ids) (passportEvents db),
        qualityReports := filter (\<lambda>q. q_passportId q \<notin> set ids) (qualityReports db),
        listings := filter (\<lambda>l. l_passportId l \<notin> set ids) (listings db),
        transactions := filter (\<lambda>t. t_listingId t \<notin> set gone_listings) (transactions db),
        orderEvents := filter (\<lambda>e. e_transactionId e \<notin> set gone_orders) (orderEvents db),
        storedObjects := map (\<lambda>o'. if so_passportId o' \<in> Some ` set ids
                                 then o'\<lparr>so_passportId := None\<rparr> else o') (storedObjects db) \<rparr>)"

definition retire_plan :: "(uuid \<Rightarrow> nat) \<Rightarrow> trace_db \<Rightarrow> spare_plan list" where
  "retire_plan readings db = planSpareRetirement (map (curated_row_of readings db) (curated_passports db))"

definition demo_retire_spares ::
  "bool \<Rightarrow> (uuid \<Rightarrow> nat) \<Rightarrow> trace_db \<Rightarrow> (nat \<times> nat \<times> trace_db) outcome" where
  "demo_retire_spares dryRun readings db =
     (if curated_passports db = [] then Inr (0, 0, db)
      else let plan = retire_plan readings db;
               retired = sum_list (map (length \<circ> sp_retire) plan);
               protectedCount = sum_list (map (length \<circ> sp_protected) plan)
           in if dryRun \<or> retired = 0 then Inr (retired, protectedCount, db)
              else let retireIds = concat (map (map fst \<circ> sp_retire) plan);
                       deleted = length (filter (\<lambda>p. p_id p \<in> set retireIds) (materialPassports db))
                   in if deleted \<noteq> length retireIds then Inl PlainError
                      else Inr (retired, protectedCount, delete_passports retireIds db))"

subsection \<open>Deleting passports nothing depends on\<close>

definition independent :: "uuid set \<Rightarrow> trace_db \<Rightarrow> bool" where
  "independent D db \<longleftrightarrow>
     (\<forall>l \<in> set (listings db). l_passportId l \<in> D \<longrightarrow>
        l_id l \<notin> t_listingId ` set (transactions db) \<and> \<not> live l)
     \<and> (\<forall>e \<in> set (passportEvents db). ev_passportId e \<notin> D)
     \<and> (\<forall>q \<in> set (qualityReports db). q_passportId q \<notin> D)"

lemma delete_frame:
  assumes "independent (set ids) db"
  shows "transactions (delete_passports ids db) = transactions db"
    "orderEvents (delete_passports ids db) = orderEvents db"
    "passportEvents (delete_passports ids db) = passportEvents db"
    "qualityReports (delete_passports ids db) = qualityReports db"
    "listings (delete_passports ids db) = filter (\<lambda>l. l_passportId l \<notin> set ids) (listings db)"
    "materialPassports (delete_passports ids db) = filter (\<lambda>p. p_id p \<notin> set ids) (materialPassports db)"
proof -
  have none: "filter (\<lambda>t. t_listingId t \<in> l_id ` {l \<in> set (listings db). l_passportId l \<in> set ids})
      (transactions db) = []"
    using assms by (force simp: independent_def filter_empty_conv)
  then have all: "filter (\<lambda>t. t_listingId t \<notin> l_id ` {l \<in> set (listings db). l_passportId l \<in> set ids})
      (transactions db) = transactions db"
    by (simp add: filter_empty_conv filter_id_conv)
  show "transactions (delete_passports ids db) = transactions db"
    using all by (simp add: delete_passports_def Let_def)
  have gone: "map t_id (filter (\<lambda>t. t_listingId t \<in> set (map l_id (filter (\<lambda>l. l_passportId l \<in> set ids)
      (listings db)))) (transactions db)) = []"
    using none by simp
  show "orderEvents (delete_passports ids db) = orderEvents db"
    unfolding delete_passports_def Let_def gone by simp
  show "passportEvents (delete_passports ids db) = passportEvents db"
    "qualityReports (delete_passports ids db) = qualityReports db"
    using assms by (simp_all add: delete_passports_def Let_def independent_def filter_id_conv)
qed (simp_all add: delete_passports_def Let_def)

lemma find_row_filter_key:
  "key r = k \<Longrightarrow> P r \<Longrightarrow> find_row key k rows = Some r \<Longrightarrow> distinct (map key rows) \<Longrightarrow>
    find_row key k (filter P rows) = Some r"
  by (induction rows) (auto split: if_splits)

lemma find_row_filter_by_key:
  "find_row key k (filter (\<lambda>r. Q (key r)) rows) = (if Q k then find_row key k rows else None)"
  by (induction rows) auto

lemma delete_ok:
  assumes ok: "market_ok db" and ind: "independent (set ids) db"
  shows "market_ok (delete_passports ids db)"
proof -
  let ?db = "delete_passports ids db"
  note frame = delete_frame [OF ind]
  have counts: "taken i ?db = taken i db" "openOrders i ?db = openOrders i db" for i
    by (simp_all add: taken_def openOrders_def frame)
  have keys: "keys_ok db" using ok by (simp add: market_ok_def)
  have "keys_ok ?db" using keys by (simp add: keys_ok_def frame distinct_map_filter)
  moreover have "listing_ok ?db l" if "l \<in> set (listings ?db)" for l
  proof -
    have l: "l \<in> set (listings db)" "l_passportId l \<notin> set ids" using that by (simp_all add: frame)
    have "find_passport (l_passportId l) ?db = find_passport (l_passportId l) db"
      using l(2) by (simp add: frame find_row_filter_by_key [of p_id _ "\<lambda>k. k \<notin> set ids"])
    moreover have "listing_ok db l" using ok l(1) by (simp add: market_ok_def)
    ultimately show ?thesis
      by (simp add: listing_ok_def stock_ok_def status_ok_def passport_agrees_def counts)
  qed
  moreover have "order_ok ?db t" if "t \<in> set (transactions ?db)" for t
  proof -
    have t: "t \<in> set (transactions db)" using that by (simp add: frame)
    then obtain l where l: "find_listing (t_listingId t) db = Some l" and fits: "order_fits t"
      using ok by (auto simp: market_ok_def order_ok_def)
    have "l \<in> set (listings db)" "l_id l = t_listingId t" using find_row_SomeD [OF l] by auto
    then have "l_passportId l \<notin> set ids" using ind t by (force simp: independent_def)
    then have "find_listing (t_listingId t) ?db = Some l"
      unfolding frame
      by (intro find_row_filter_key) (use l keys find_row_SomeD [OF l] in \<open>auto simp: keys_ok_def\<close>)
    then show ?thesis using fits by (simp add: order_ok_def)
  qed
  moreover have "exclusive ?db" using ok by (simp add: market_ok_def exclusive_def frame)
  ultimately show ?thesis by (simp add: market_ok_def)
qed

subsection \<open>What the plan retires\<close>

lemma key_of_curated:
  "key_of p = Some k \<Longrightarrow> json_field ''seedSource'' (p_customAttributes p) = Some (JStr SEED_TAG)"
  by (auto simp: catalogueKeyOf_def split: if_splits)

lemma curated_ids: "market_ok db \<Longrightarrow> distinct (map p_id (curated_passports db))"
  by (simp add: curated_passports_def market_ok_def keys_ok_def distinct_map_filter)

lemma curated_row_fields [simp]:
  "cr_passportId (curated_row_of rd db p) = p_id p"
  "cr_productName (curated_row_of rd db p) = p_productName p"
  "cr_customAttributes (curated_row_of rd db p) = p_customAttributes p"
  "entry (curated_row_of rd db p) = (p_id p, p_productName p)"
  by (simp_all add: curated_row_of_def entry_def)

lemma orders_of_passport_empty:
  "orders_of_passport i db = [] \<longleftrightarrow>
    (\<forall>l \<in> set (listings db). l_passportId l = i \<longrightarrow> l_id l \<notin> t_listingId ` set (transactions db))"
  by (auto simp: orders_of_passport_def filter_empty_conv)

lemma unprotected_row:
  assumes "spareProtection (curated_row_of rd db p) = []"
  shows "independent {p_id p} db"
  using assms
  by (auto simp: spareProtection_empty curated_row_of_def orders_of_passport_empty filter_empty_conv
      statuses_of_listings_def independent_def live_def)

text \<open>The rows of one product, and the lot its plan keeps.\<close>

abbreviation plan_rows :: "(uuid \<Rightarrow> nat) \<Rightarrow> trace_db \<Rightarrow> curated_row list" where
  "plan_rows rd db \<equiv> map (curated_row_of rd db) (curated_passports db)"

abbreviation keeper_of :: "(uuid \<Rightarrow> nat) \<Rightarrow> trace_db \<Rightarrow> product \<Rightarrow> curated_row option" where
  "keeper_of rd db p \<equiv> productLot cr_passportId cr_customAttributes
     (statuses_of_rows (plan_rows rd db)) (lots_of (plan_rows rd db) p)"

lemma lots_of_iff:
  "r \<in> set (lots_of (plan_rows rd db) p) \<longleftrightarrow>
    (\<exists>q \<in> set (materialPassports db). key_of q = Some (pd_key p) \<and> r = curated_row_of rd db q)"
  using key_of_curated by (auto simp: lots_of_def curated_passports_def)

lemma retired_iff:
  "i \<in> fst ` set (sp_retire (spare_plan_of (plan_rows rd db) p)) \<longleftrightarrow>
    (\<exists>q keeper. q \<in> set (materialPassports db) \<and> key_of q = Some (pd_key p) \<and> p_id q = i
      \<and> keeper_of rd db p = Some keeper \<and> cr_passportId keeper \<noteq> i
      \<and> spareProtection (curated_row_of rd db q) = [])"
proof (cases "keeper_of rd db p")
  case None
  then show ?thesis by (simp add: spare_plan_of_def del: productLot_None)
next
  case (Some keeper)
  then show ?thesis
    by (auto simp: spare_plan_of_def Let_def lots_of_iff image_iff entry_def)
qed

lemma protected_iff:
  "i \<in> fst ` set (sp_protected (spare_plan_of (plan_rows rd db) p)) \<longleftrightarrow>
    (\<exists>q keeper. q \<in> set (materialPassports db) \<and> key_of q = Some (pd_key p) \<and> p_id q = i
      \<and> keeper_of rd db p = Some keeper \<and> cr_passportId keeper \<noteq> i
      \<and> spareProtection (curated_row_of rd db q) \<noteq> [])"
proof (cases "keeper_of rd db p")
  case None
  then show ?thesis by (simp add: spare_plan_of_def del: productLot_None)
next
  case (Some keeper)
  then show ?thesis
    by (auto simp: spare_plan_of_def Let_def lots_of_iff image_iff)
qed

definition retire_ids :: "(uuid \<Rightarrow> nat) \<Rightarrow> trace_db \<Rightarrow> uuid list" where
  "retire_ids rd db = concat (map (\<lambda>p. map fst (sp_retire (spare_plan_of (plan_rows rd db) p))) CATALOG)"

lemma retire_ids_iff:
  "i \<in> set (retire_ids rd db) \<longleftrightarrow> (\<exists>p \<in> set CATALOG. i \<in> fst ` set (sp_retire (spare_plan_of (plan_rows rd db) p)))"
  by (auto simp: retire_ids_def)

lemma retired_independent: "independent (set (retire_ids rd db)) db"
proof -
  have "independent {i} db" if "i \<in> set (retire_ids rd db)" for i
    using that by (auto simp: retire_ids_iff retired_iff dest: unprotected_row)
  then show ?thesis by (auto simp: independent_def)
qed

lemma plan_ids_distinct:
  assumes "market_ok db"
  shows "distinct (map fst (sp_retire (spare_plan_of (plan_rows rd db) p)))"
proof (cases "keeper_of rd db p")
  case None
  then show ?thesis by (simp add: spare_plan_of_def del: productLot_None)
next
  case (Some keeper)
  have "distinct (map cr_passportId (lots_of (plan_rows rd db) p))"
    using curated_ids [OF assms]
    by (auto simp: lots_of_def o_def intro: distinct_map_filter)
  then have "distinct (map cr_passportId (lot_order cr_passportId cr_customAttributes (lots_of (plan_rows rd db) p)))"
    by (metis mset_lot_order mset_map mset_eq_imp_distinct_iff)
  then show ?thesis
    using Some by (simp add: spare_plan_of_def Let_def o_def entry_def distinct_map_filter)
qed

lemma distinct_concat_by:
  assumes "distinct ps" and "\<And>p. distinct (f p)"
    and "\<And>p q. p \<in> set ps \<Longrightarrow> q \<in> set ps \<Longrightarrow> p \<noteq> q \<Longrightarrow> set (f p) \<inter> set (f q) = {}"
  shows "distinct (concat (map f ps))"
  using assms(1,3)
proof (induction ps)
  case (Cons p ps)
  have "set (f p) \<inter> set (f q) = {}" if "q \<in> set ps" for q
    using Cons.prems that by auto
  then show ?case using Cons assms(2) by auto
qed simp

lemma retire_ids_distinct:
  assumes ok: "market_ok db"
  shows "distinct (retire_ids rd db)"
proof -
  have ids: "distinct (map p_id (materialPassports db))" using ok by (simp add: market_ok_def keys_ok_def)
  have apart: "set (map fst (sp_retire (spare_plan_of (plan_rows rd db) p)))
      \<inter> set (map fst (sp_retire (spare_plan_of (plan_rows rd db) q))) = {}"
    if other: "pd_key p \<noteq> pd_key q" for p q
  proof -
    have False if i: "i \<in> fst ` set (sp_retire (spare_plan_of (plan_rows rd db) p))"
      "i \<in> fst ` set (sp_retire (spare_plan_of (plan_rows rd db) q))" for i
    proof -
      obtain r s where "r \<in> set (materialPassports db)" "key_of r = Some (pd_key p)" "p_id r = i"
        "s \<in> set (materialPassports db)" "key_of s = Some (pd_key q)" "p_id s = i"
        using i unfolding retired_iff by blast
      moreover have "r = s" using ids calculation by (simp add: distinct_map inj_on_def)
      ultimately show False using other by simp
    qed
    then show ?thesis unfolding list.set_map by blast
  qed
  show ?thesis
    unfolding retire_ids_def
  proof (rule distinct_concat_by)
    show "distinct CATALOG" using catalogue_keys_distinct by (simp add: distinct_map)
  qed (use plan_ids_distinct [OF ok] apart catalogue_product_unique in blast)+
qed

lemma distinct_length_filter_in:
  assumes "distinct (map f xs)" and "distinct ids" and "set ids \<subseteq> f ` set xs"
  shows "length (filter (\<lambda>x. f x \<in> set ids) xs) = length ids"
proof -
  have "distinct (map f (filter (\<lambda>x. f x \<in> set ids) xs))" using assms(1) by (rule distinct_map_filter)
  moreover have "set (map f (filter (\<lambda>x. f x \<in> set ids) xs)) = set ids" using assms(3) by auto
  ultimately have "length (map f (filter (\<lambda>x. f x \<in> set ids) xs)) = length ids"
    using assms(2) by (metis distinct_card)
  then show ?thesis by simp
qed

lemma retired_are_passports: "set (retire_ids rd db) \<subseteq> p_id ` set (materialPassports db)"
  by (auto simp: retire_ids_iff retired_iff)

lemma productLot_Nil [simp]: "productLot ident attrs statusesOf [] = None"
  by simp

lemma no_curated_no_rows: "curated_passports db = [] \<Longrightarrow> retire_ids rd db = []"
  by (simp add: retire_ids_def spare_plan_of_def lots_of_def)

lemma delete_nothing [simp]: "delete_passports [] db = db"
  by (simp add: delete_passports_def)

definition left_alone :: "(uuid \<Rightarrow> nat) \<Rightarrow> trace_db \<Rightarrow> nat" where
  "left_alone rd db = sum_list (map (length \<circ> sp_protected) (retire_plan rd db))"

lemma retire_effect:
  assumes ok: "market_ok db"
  shows "\<exists>r. demo_retire_spares False rd db = Inr (r, left_alone rd db, delete_passports (retire_ids rd db) db)"
proof (cases "curated_passports db = []")
  case True
  then have "left_alone rd db = 0"
    by (simp add: left_alone_def retire_plan_def planSpareRetirement_def spare_plan_of_def lots_of_def)
  then show ?thesis using True no_curated_no_rows [OF True] by (simp add: demo_retire_spares_def)
next
  case False
  have ids: "concat (map (map fst \<circ> sp_retire) (retire_plan rd db)) = retire_ids rd db"
    by (simp add: retire_plan_def planSpareRetirement_def retire_ids_def o_def)
  have none: "retire_ids rd db = []" if "sum_list (map (length \<circ> sp_retire) (retire_plan rd db)) = 0"
    using that by (auto simp: ids [symmetric])
  have "length (filter (\<lambda>p. p_id p \<in> set (retire_ids rd db)) (materialPassports db)) = length (retire_ids rd db)"
    using ok by (intro distinct_length_filter_in retire_ids_distinct retired_are_passports)
      (simp add: market_ok_def keys_ok_def)
  then show ?thesis
    using False none unfolding demo_retire_spares_def Let_def ids left_alone_def by auto
qed

lemma keeper_stays:
  assumes ok: "market_ok db" and p: "p \<in> set CATALOG" and q: "q \<in> set (materialPassports db)"
    and k: "key_of q = Some (pd_key p)"
  shows "\<exists>r \<in> set (materialPassports db). keeper_of rd db p = Some (curated_row_of rd db r)
    \<and> key_of r = Some (pd_key p) \<and> p_id r \<notin> set (retire_ids rd db)"
proof -
  have "lots_of (plan_rows rd db) p \<noteq> []"
    using lots_of_iff [of "curated_row_of rd db q" rd db p] q k by auto
  then obtain keeper where keeper: "keeper_of rd db p = Some keeper"
    using productLot_None by fastforce
  obtain r where r: "r \<in> set (materialPassports db)" "key_of r = Some (pd_key p)" "keeper = curated_row_of rd db r"
    using productLot_in [OF keeper] by (auto simp: lots_of_iff)
  have "p_id r \<notin> set (retire_ids rd db)"
  proof
    assume "p_id r \<in> set (retire_ids rd db)"
    then obtain p' q' where q': "p' \<in> set CATALOG" "q' \<in> set (materialPassports db)"
      "key_of q' = Some (pd_key p')" "p_id q' = p_id r"
      "\<And>kp. keeper_of rd db p' = Some kp \<Longrightarrow> cr_passportId kp \<noteq> p_id r"
      by (fastforce simp: retire_ids_iff retired_iff)
    have "q' = r" using ok q'(2,4) r(1) by (auto simp: market_ok_def keys_ok_def distinct_map inj_on_def)
    then have "p' = p" using q'(1,3) r(2) p by (auto intro: catalogue_product_unique)
    then show False using q'(5) keeper r(3) by simp
  qed
  then show ?thesis using r keeper by blast
qed

lemma only_keeper_remains:
  assumes ok: "market_ok db" and none: "left_alone rd db = 0"
    and q: "q \<in> set (materialPassports (delete_passports (retire_ids rd db) db))"
    and k: "key_of q = Some k"
  shows "\<exists>p keeper. p \<in> set CATALOG \<and> pd_key p = k \<and> keeper_of rd db p = Some keeper
    \<and> cr_passportId keeper = p_id q"
proof -
  obtain p where p: "p \<in> set CATALOG" "pd_key p = k" using catalogueKeyOf_product [OF k] by blast
  have q': "q \<in> set (materialPassports db)" "p_id q \<notin> set (retire_ids rd db)"
    using q by (simp_all add: delete_frame [OF retired_independent])
  have kq: "key_of q = Some (pd_key p)" using k p by simp
  obtain r where r: "keeper_of rd db p = Some (curated_row_of rd db r)"
    using keeper_stays [OF ok p(1) q'(1) kq] by blast
  have "sp_protected (spare_plan_of (plan_rows rd db) p) = []"
    using none p(1) by (simp add: left_alone_def retire_plan_def planSpareRetirement_def)
  then have free: "p_id q \<notin> fst ` set (sp_protected (spare_plan_of (plan_rows rd db) p))" by simp
  have kept: "p_id q \<notin> fst ` set (sp_retire (spare_plan_of (plan_rows rd db) p))"
    using q'(2) p(1) by (auto simp: retire_ids_iff)
  have "p_id r = p_id q"
  proof (rule ccontr)
    assume ne: "p_id r \<noteq> p_id q"
    show False
    proof (cases "spareProtection (curated_row_of rd db q) = []")
      case True
      then show False using kept ne q'(1) kq r unfolding retired_iff by auto
    next
      case False
      then show False using free ne q'(1) kq r unfolding protected_iff by auto
    qed
  qed
  then show ?thesis using p r by auto
qed

lemma one_remains:
  assumes ok: "market_ok db" and none: "left_alone rd db = 0"
    and q: "q \<in> set (materialPassports (delete_passports (retire_ids rd db) db))"
      "q' \<in> set (materialPassports (delete_passports (retire_ids rd db) db))"
    and k: "key_of q = Some k" "key_of q' = Some k"
  shows "q = q'"
proof -
  obtain p m where p: "p \<in> set CATALOG" "pd_key p = k" "keeper_of rd db p = Some m" "cr_passportId m = p_id q"
    using only_keeper_remains [OF ok none q(1) k(1)] by blast
  obtain p' m' where p': "p' \<in> set CATALOG" "pd_key p' = k" "keeper_of rd db p' = Some m'"
    "cr_passportId m' = p_id q'"
    using only_keeper_remains [OF ok none q(2) k(2)] by blast
  have "p = p'" using p(1,2) p'(1,2) by (auto intro: catalogue_product_unique)
  then have "p_id q = p_id q'" using p(3,4) p'(3,4) by simp
  then show ?thesis
    using q ok by (simp add: delete_frame [OF retired_independent] market_ok_def keys_ok_def distinct_map inj_on_def)
qed

text \<open>
  C33: Retiring the demo's spare passports keeps the marketplace consistent and loses nothing: no
  order, order step, history event or quality report is deleted, and every listing that is on
  sale, fully ordered or sold stays. Every passport deleted was a spare: another passport of its
  product, the one the plan keeps, remains. When no spare had to be left alone, the checker's
  rule of one passport per product holds afterwards.
\<close>

theorem retiring_spares_loses_nothing:
  assumes ok: "market_ok db"
  shows "\<exists>r k db'. demo_retire_spares False readings db = Inr (r, k, db') \<and> market_ok db'
    \<and> transactions db' = transactions db \<and> orderEvents db' = orderEvents db
    \<and> passportEvents db' = passportEvents db \<and> qualityReports db' = qualityReports db
    \<and> (\<forall>l \<in> set (listings db). live l \<longrightarrow> l \<in> set (listings db'))
    \<and> (\<forall>q \<in> set (materialPassports db) - set (materialPassports db').
         key_of q \<noteq> None \<and> (\<exists>q' \<in> set (materialPassports db'). key_of q' = key_of q))
    \<and> (k = 0 \<longrightarrow> (\<forall>q \<in> set (materialPassports db'). \<forall>q' \<in> set (materialPassports db').
         key_of q \<noteq> None \<and> key_of q = key_of q' \<longrightarrow> q = q'))"
proof -
  let ?ids = "retire_ids readings db"
  let ?db = "delete_passports ?ids db"
  note ind = retired_independent [of readings db]
  note frame = delete_frame [OF ind]
  have lots: "l \<in> set (listings ?db)" if "l \<in> set (listings db)" "live l" for l
    using ind that by (auto simp: frame independent_def)
  have spares: "key_of q \<noteq> None \<and> (\<exists>q' \<in> set (materialPassports ?db). key_of q' = key_of q)"
    if q: "q \<in> set (materialPassports db) - set (materialPassports ?db)" for q
  proof -
    have "q \<in> set (materialPassports db)" "p_id q \<in> set ?ids" using q by (auto simp: frame)
    then obtain p r where p: "p \<in> set CATALOG" and r: "r \<in> set (materialPassports db)"
      "key_of r = Some (pd_key p)" "p_id r = p_id q"
      by (auto simp: retire_ids_iff retired_iff)
    have "r = q"
      using ok r(1,3) \<open>q \<in> set (materialPassports db)\<close>
      by (simp add: market_ok_def keys_ok_def distinct_map inj_on_def)
    then show ?thesis using keeper_stays [OF ok p r(1,2)] r(2) by (auto simp: frame)
  qed
  have unique: "q = q'" if none: "left_alone readings db = 0"
    and q: "q \<in> set (materialPassports ?db)" "q' \<in> set (materialPassports ?db)"
      "key_of q \<noteq> None" "key_of q = key_of q'" for q q'
    using one_remains [OF ok none q(1,2)] q(3,4) by auto
  obtain r where "demo_retire_spares False readings db = Inr (r, left_alone readings db, ?db)"
    using retire_effect [OF ok] by blast
  then show ?thesis using delete_ok [OF ok ind] frame(1-4) lots spares unique by blast
qed

theorem retiring_spares_loses_nothing_witness:
  "\<exists>r k db'. demo_retire_spares False (\<lambda>_. 0) one_lot_db = Inr (r, k, db') \<and> market_ok db'
    \<and> (r, k, map p_id (materialPassports db')) = (1, 0, [10])"
proof -
  have "map_sum id (\<lambda>(r, k, db'). (r, k, map p_id (materialPassports db')))
      (demo_retire_spares False (\<lambda>_. 0) one_lot_db) = Inr (1, 0, [10])"
    by code_simp
  then show ?thesis
    using retiring_spares_loses_nothing [OF one_lot_db_ok, of "\<lambda>_. 0"] by auto
qed

end
