(* ===== verification/Demo_Top_Up.thy ===== *)
theory Demo_Top_Up
  imports Demo_Spares Platform_Runs
begin

text \<open>
  \<open>packages/db/scripts/demo-replenish.ts\<close>: the top-up that a timer runs on the demo. For each
  catalogue product it restocks the lot on sale, reopens one that sold out, lists a delisted one
  again, leaves a fully ordered one alone, and creates a passport only when the product has none.

  The script reads the curated passports and their listings once, at the start, and holds the
  listings locked; the writes for the products follow one after another in the same transaction.
  \<open>randomUUID\<close>, the default ids of the database, the image files and the clock are arguments
  (\<open>top_up_args\<close>). What it prints is left out, the numbers it reports are its result.
\<close>

record top_up_args =
  ta_env :: api_env
  ta_sellerEmail :: string
  ta_imageFile :: "string \<Rightarrow> string option"
  ta_passportId :: "string \<Rightarrow> uuid"
  ta_listingId :: "string \<Rightarrow> uuid"
  ta_now :: time

record top_up_counts =
  tc_created :: nat
  tc_restocked :: nat
  tc_relisted :: nat

record top_up_state =
  ts_files :: files
  ts_db :: trace_db
  ts_imageUrls :: "string \<rightharpoonup> string"
  ts_counts :: top_up_counts

definition displayName :: "product \<Rightarrow> int \<Rightarrow> string" where
  "displayName p n = productName p @ '' '' @ em_dash @ '' Demo Lot '' @ padded 3 n"

definition lotSerialNumber :: "product \<Rightarrow> int \<Rightarrow> string" where
  "lotSerialNumber p n = ''TRACE-DEMO-'' @ toUpperCase (pd_key p) @ ''-'' @ padded 3 n"

text \<open>The row a fresh lot is inserted as: the product's columns with the lot's own over them.\<close>

definition seed_attributes :: "time \<Rightarrow> product \<Rightarrow> json" where
  "seed_attributes now p = JObj
     [(''seedSource'', JStr SEED_TAG), (''catalogueKey'', JStr (pd_key p)),
      (''catalogueName'', JStr (productName p)), (''demoLotNumber'', JInt 1),
      (''demoBatch'', JStr (take 10 (toISOString now)))]"

definition seeded_passport ::
  "top_up_args \<Rightarrow> product \<Rightarrow> string \<Rightarrow> uuid \<Rightarrow> uuid \<Rightarrow> passport" where
  "seeded_passport a p imageUrl userId orgId =
     (buildInsertValues (ta_env a) (ta_now a) (ta_passportId a (pd_key p))
        ((pd_passport p (ta_now a))\<lparr> pi_productName := Some (displayName p 1),
           pi_serialNumber := Some (lotSerialNumber p 1),
           pi_customAttributes := Some (seed_attributes (ta_now a) p) \<rparr>) userId orgId)
     \<lparr> p_status := P_listed, p_conditionPhotos := Some [imageUrl] \<rparr>"

definition lot_listing :: "top_up_args \<Rightarrow> product \<Rightarrow> uuid \<Rightarrow> uuid \<Rightarrow> uuid \<Rightarrow> listing" where
  "lot_listing a p passportId userId orgId = \<lparr>
     l_id = ta_listingId a (pd_key p), l_passportId = passportId, l_organisationId = orgId,
     l_sellerId = userId, l_pricePence = pd_pricePence p, l_currency = ''GBP'',
     l_quantity = pd_quantity p, l_quantityAvailable = pd_quantity p,
     l_minOrderQuantity = or_keep (pd_minOrderQuantity p) 1,
     l_shippingOptions = [\<lparr> so_method = Both, so_deliveryRadiusMiles = None,
       so_deliveryCostPence = None, so_notes = Some (lotShippingNote p) \<rparr>],
     l_status = L_active, l_blockchainTxHash = None, l_expiresAt = None, l_createdAt = ta_now a \<rparr>"

text \<open>\<open>storeCatalogueImage\<close>: the key is the content's digest and the file's extension.\<close>

definition storeCatalogueImage :: "top_up_args \<Rightarrow> string \<Rightarrow> state \<Rightarrow> string outcome \<times> state" where
  "storeCatalogueImage a img s =
     (case ta_imageFile a img of
        None \<Rightarrow> (Inl PlainError, s)
      | Some buffer \<Rightarrow>
          let ext = toLowerCase (extension img)
          in storeObject (ta_env a) (ta_now a)
               (''catalogue/'' @ sha256Hex (ta_env a) buffer @ (if ext = [] then ''.jpg'' else ext))
               buffer ''image/jpeg'' Catalogue None None s)"

subsection \<open>One product\<close>

definition grow :: "int \<Rightarrow> listing \<Rightarrow> listing" where
  "grow n l = l\<lparr> l_quantity := l_quantity l + n, l_quantityAvailable := l_quantityAvailable l + n \<rparr>"

definition restock :: "listing \<Rightarrow> int \<Rightarrow> trace_db \<Rightarrow> trace_db outcome" where
  "restock l missing db = map_sum id snd (update_listing_row (l_id l) (grow missing) db)"

definition reopen_lot :: "listing \<Rightarrow> uuid \<Rightarrow> int \<Rightarrow> time \<Rightarrow> trace_db \<Rightarrow> trace_db outcome" where
  "reopen_lot l passportId lotSize now db =
     (case update_listing_row (l_id l) (\<lambda>r. grow lotSize (r\<lparr> l_status := L_active \<rparr>)) db of
        Inl e \<Rightarrow> Inl e
      | Inr (_, db1) \<Rightarrow> Inr (set_passport_status passportId P_listed now db1))"

definition list_again :: "top_up_args \<Rightarrow> product \<Rightarrow> uuid \<Rightarrow> uuid \<Rightarrow> uuid \<Rightarrow> trace_db \<Rightarrow> trace_db outcome" where
  "list_again a p passportId userId orgId db =
     (case insert_listing (lot_listing a p passportId userId orgId) db of
        Inl e \<Rightarrow> Inl e
      | Inr (_, db1) \<Rightarrow> Inr (set_passport_status passportId P_listed (ta_now a) db1))"

definition fingerprint_row :: "api_env \<Rightarrow> time \<Rightarrow> passport \<Rightarrow> passport \<Rightarrow> passport" where
  "fingerprint_row env now persisted r = r\<lparr> p_blockchainPassportHash := Some (fingerprint env persisted),
     p_blockchainAnchoredAt := Some now, p_blockchainTxHash := None \<rparr>"

definition create_lot ::
  "top_up_args \<Rightarrow> product \<Rightarrow> string \<Rightarrow> uuid \<Rightarrow> uuid \<Rightarrow> trace_db \<Rightarrow> trace_db outcome" where
  "create_lot a p imageUrl userId orgId db =
     (let row = seeded_passport a p imageUrl userId orgId
      in if find_passport (p_id row) db \<noteq> None then Inl DbError
         else case insert_passport row db of
           Inl e \<Rightarrow> Inl e
         | Inr db1 \<Rightarrow>
             (case find_passport (p_id row) db1 of
                None \<Rightarrow> Inl PlainError
              | Some persisted \<Rightarrow>
                  let db2 = update_passport (p_id row) (fingerprint_row (ta_env a) (ta_now a) persisted) db1
                  in map_sum id snd (insert_listing (lot_listing a p (p_id row) userId orgId) db2)))"

definition image_for :: "top_up_args \<Rightarrow> product \<Rightarrow> top_up_state \<Rightarrow> string outcome \<times> top_up_state" where
  "image_for a p s =
     (case ts_imageUrls s (pd_image p) of
        Some url \<Rightarrow> (Inr url, s)
      | None \<Rightarrow>
          (case storeCatalogueImage a (pd_image p) (ts_files s, ts_db s) of
             (Inl e, fs, db) \<Rightarrow> (Inl e, s\<lparr> ts_files := fs \<rparr>)
           | (Inr url, fs, db) \<Rightarrow> (Inr url, s\<lparr> ts_files := fs, ts_db := db,
                ts_imageUrls := (ts_imageUrls s)(pd_image p \<mapsto> url) \<rparr>)))"

definition count_restocked :: "top_up_state \<Rightarrow> top_up_state" where
  "count_restocked s = s\<lparr> ts_counts := (ts_counts s)\<lparr> tc_restocked := Suc (tc_restocked (ts_counts s)) \<rparr> \<rparr>"

definition count_relisted :: "top_up_state \<Rightarrow> top_up_state" where
  "count_relisted s = s\<lparr> ts_counts := (ts_counts s)\<lparr> tc_relisted := Suc (tc_relisted (ts_counts s)) \<rparr> \<rparr>"

definition count_created :: "top_up_state \<Rightarrow> top_up_state" where
  "count_created s = s\<lparr> ts_counts := (ts_counts s)\<lparr> tc_created := Suc (tc_created (ts_counts s)) \<rparr> \<rparr>"

text \<open>A write of the transaction, unless the run only previews.\<close>

definition write_db :: "bool \<Rightarrow> (trace_db \<Rightarrow> trace_db outcome) \<Rightarrow> top_up_state \<Rightarrow> top_up_state outcome" where
  "write_db dryRun f s =
     (if dryRun then Inr s else map_sum id (\<lambda>db. s\<lparr> ts_db := db \<rparr>) (f (ts_db s)))"

definition of_passport :: "listing list \<Rightarrow> uuid \<Rightarrow> listing list" where
  "of_passport ls i = filter (\<lambda>l. l_passportId l = i) ls"

definition product_lot :: "passport list \<Rightarrow> listing list \<Rightarrow> product \<Rightarrow> passport option" where
  "product_lot ps ls p = productLot p_id p_customAttributes (\<lambda>i. map l_status (of_passport ls i))
     (filter (\<lambda>q. key_of q = Some (pd_key p)) ps)"

definition newest_sold :: "listing list \<Rightarrow> listing option" where
  "newest_sold ls = (case sort_key (\<lambda>l. - l_createdAt l) (filter (\<lambda>l. l_status l = L_sold) ls) of
     [] \<Rightarrow> None | l # _ \<Rightarrow> Some l)"

definition top_up_existing ::
  "top_up_args \<Rightarrow> bool \<Rightarrow> uuid \<Rightarrow> uuid \<Rightarrow> listing list \<Rightarrow> product \<Rightarrow> uuid \<Rightarrow> top_up_state \<Rightarrow>
    top_up_state outcome" where
  "top_up_existing a dryRun userId orgId lot_listings p lotId s =
     (case List.find (\<lambda>l. l_status l \<in> set LIVE_LOT_STATUSES) lot_listings of
        Some l \<Rightarrow>
          if l_status l = L_active \<and> pd_quantity p - l_quantityAvailable l > 0
          then map_sum id count_restocked
                 (write_db dryRun (restock l (pd_quantity p - l_quantityAvailable l)) s)
          else Inr s
      | None \<Rightarrow>
          (case newest_sold lot_listings of
             Some l \<Rightarrow> map_sum id count_restocked
               (write_db dryRun (reopen_lot l lotId (pd_quantity p) (ta_now a)) s)
           | None \<Rightarrow> map_sum id count_relisted
               (write_db dryRun (list_again a p lotId userId orgId) s)))"

definition top_up_fresh ::
  "top_up_args \<Rightarrow> bool \<Rightarrow> uuid \<Rightarrow> uuid \<Rightarrow> product \<Rightarrow> top_up_state \<Rightarrow> top_up_state outcome" where
  "top_up_fresh a dryRun userId orgId p s =
     (let s1 = count_created s
      in if dryRun then Inr s1
         else case image_for a p s1 of
                (Inl e, s2) \<Rightarrow> Inl e
              | (Inr url, s2) \<Rightarrow> write_db False (create_lot a p url userId orgId) s2)"

definition top_up_product ::
  "top_up_args \<Rightarrow> bool \<Rightarrow> uuid \<Rightarrow> uuid \<Rightarrow> passport list \<Rightarrow> listing list \<Rightarrow> product \<Rightarrow> top_up_state \<Rightarrow>
    top_up_state outcome" where
  "top_up_product a dryRun userId orgId ps ls p s =
     (case product_lot ps ls p of
        Some lot \<Rightarrow> top_up_existing a dryRun userId orgId (of_passport ls (p_id lot)) p (p_id lot) s
      | None \<Rightarrow> top_up_fresh a dryRun userId orgId p s)"

fun top_up_products ::
  "top_up_args \<Rightarrow> bool \<Rightarrow> uuid \<Rightarrow> uuid \<Rightarrow> passport list \<Rightarrow> listing list \<Rightarrow> product list \<Rightarrow> top_up_state \<Rightarrow>
    top_up_state outcome" where
  "top_up_products a dryRun userId orgId ps ls [] s = Inr s"
| "top_up_products a dryRun userId orgId ps ls (p # rest) s =
     (case top_up_product a dryRun userId orgId ps ls p s of
        Inl e \<Rightarrow> Inl e
      | Inr s' \<Rightarrow> top_up_products a dryRun userId orgId ps ls rest s')"

definition demo_replenish :: "top_up_args \<Rightarrow> bool \<Rightarrow> state \<Rightarrow> top_up_state outcome" where
  "demo_replenish a dryRun st =
     (case List.find (\<lambda>u. u_email u = ta_sellerEmail a) (users (snd st)) of
        None \<Rightarrow> Inl PlainError
      | Some seller \<Rightarrow>
          (case u_organisationId seller of
             None \<Rightarrow> Inl PlainError
           | Some orgId \<Rightarrow>
               let ps = curated_passports (snd st);
                   ls = filter (\<lambda>l. l_passportId l \<in> p_id ` set ps) (listings (snd st))
               in top_up_products a dryRun (u_id seller) orgId ps ls CATALOG
                    \<lparr> ts_files = fst st, ts_db = snd st, ts_imageUrls = Map.empty,
                      ts_counts = \<lparr> tc_created = 0, tc_restocked = 0, tc_relisted = 0 \<rparr> \<rparr>))"

subsection \<open>The lot a product has\<close>

definition lot_now :: "product \<Rightarrow> trace_db \<Rightarrow> passport option" where
  "lot_now p db = product_lot (materialPassports db) (listings db) p"

abbreviation live_lot :: "listing list \<Rightarrow> listing option" where
  "live_lot ls \<equiv> List.find (\<lambda>l. l_status l \<in> set LIVE_LOT_STATUSES) ls"

text \<open>The rows of one product: its passports and their listings.\<close>

definition lots_in :: "string \<Rightarrow> trace_db \<Rightarrow> passport list" where
  "lots_in k db = filter (\<lambda>q. key_of q = Some k) (materialPassports db)"

definition listings_in :: "string \<Rightarrow> trace_db \<Rightarrow> listing list" where
  "listings_in k db = filter (\<lambda>l. l_passportId l \<in> p_id ` set (lots_in k db)) (listings db)"

definition same_lots :: "string \<Rightarrow> trace_db \<Rightarrow> trace_db \<Rightarrow> bool" where
  "same_lots k db db' \<longleftrightarrow> lots_in k db' = lots_in k db \<and> listings_in k db' = listings_in k db"

lemma same_lots_refl [simp]: "same_lots k db db"
  by (simp add: same_lots_def)

lemma same_lots_trans: "same_lots k a b \<Longrightarrow> same_lots k b c \<Longrightarrow> same_lots k a c"
  by (simp add: same_lots_def)

lemma productLot_cong:
  assumes "\<And>x. x \<in> set xs \<Longrightarrow> f (ident x) = g (ident x)"
  shows "productLot ident attrs f xs = productLot ident attrs g xs"
proof -
  have find: "List.find (\<lambda>p. has_listing f S (ident p)) (lot_order ident attrs xs)
      = List.find (\<lambda>p. has_listing g S (ident p)) (lot_order ident attrs xs)" for S
    using assms by (intro find_cong [OF refl]) (simp add: has_listing_def)
  show ?thesis
    unfolding productLot_def Let_def find [of LIVE_LOT_STATUSES] find [of "[L_sold]"] ..
qed

lemma of_passport_filter:
  "(\<And>l. l \<in> set ls \<Longrightarrow> l_passportId l = i \<Longrightarrow> P l) \<Longrightarrow> of_passport (filter P ls) i = of_passport ls i"
  by (induction ls) (auto simp: of_passport_def)

lemma product_lot_read:
  assumes "\<And>q. q \<in> set ps \<Longrightarrow> key_of q = Some (pd_key p) \<Longrightarrow> of_passport ls (p_id q) = of_passport ls' (p_id q)"
    and "filter (\<lambda>q. key_of q = Some (pd_key p)) ps = filter (\<lambda>q. key_of q = Some (pd_key p)) ps'"
  shows "product_lot ps ls p = product_lot ps' ls' p"
  unfolding product_lot_def using assms by (auto intro!: productLot_cong simp flip: assms(2))

lemma of_passport_in:
  "q \<in> set (lots_in k db) \<Longrightarrow> of_passport (listings_in k db) (p_id q) = of_passport (listings db) (p_id q)"
  unfolding listings_in_def by (rule of_passport_filter) auto

lemma lot_now_in: "lot_now p db = product_lot (lots_in (pd_key p) db) (listings_in (pd_key p) db) p"
  unfolding lot_now_def
  by (rule product_lot_read) (auto simp: lots_in_def of_passport_in [unfolded lots_in_def])

lemma same_lots_lot_now: "same_lots (pd_key p) db db' \<Longrightarrow> lot_now p db' = lot_now p db"
  by (simp add: lot_now_in same_lots_def)

lemma lot_now_Some:
  "lot_now p db = Some q \<Longrightarrow> q \<in> set (lots_in (pd_key p) db)"
  by (auto simp: lot_now_def product_lot_def lots_in_def dest!: productLot_in)

lemma lot_now_None: "lot_now p db = None \<longleftrightarrow> lots_in (pd_key p) db = []"
  by (simp add: lot_now_def product_lot_def lots_in_def)

lemma same_lots_of_passport:
  assumes "same_lots k db db'" and "q \<in> set (lots_in k db)"
  shows "of_passport (listings db') (p_id q) = of_passport (listings db) (p_id q)"
proof -
  have "q \<in> set (lots_in k db')" using assms by (simp add: same_lots_def)
  then have "of_passport (listings db') (p_id q) = of_passport (listings_in k db') (p_id q)"
    by (rule of_passport_in [symmetric])
  also have "\<dots> = of_passport (listings_in k db) (p_id q)" using assms(1) by (simp add: same_lots_def)
  also have "\<dots> = of_passport (listings db) (p_id q)" by (rule of_passport_in [OF assms(2)])
  finally show ?thesis .
qed

text \<open>A product is settled when the top-up has nothing to write for it.\<close>

definition settled :: "product \<Rightarrow> trace_db \<Rightarrow> bool" where
  "settled p db \<longleftrightarrow> (\<exists>q l. lot_now p db = Some q \<and> live_lot (of_passport (listings db) (p_id q)) = Some l
     \<and> (l_status l = L_active \<longrightarrow> pd_quantity p \<le> l_quantityAvailable l))"

lemma settled_same_lots: "same_lots (pd_key p) db db' \<Longrightarrow> settled p db \<Longrightarrow> settled p db'"
  using same_lots_lot_now same_lots_of_passport lot_now_Some unfolding settled_def by metis

text \<open>The snapshot of the script is as good as the current rows, for a product not yet written.\<close>

definition snapshot :: "trace_db \<Rightarrow> listing list" where
  "snapshot db = filter (\<lambda>l. l_passportId l \<in> p_id ` set (curated_passports db)) (listings db)"

lemma keyed_is_curated: "q \<in> set (lots_in k db) \<Longrightarrow> q \<in> set (curated_passports db)"
  by (auto simp: lots_in_def curated_passports_def dest: key_of_curated)

lemma snapshot_lot: "product_lot (curated_passports db) (snapshot db) p = lot_now p db"
  unfolding lot_now_def
proof (rule product_lot_read)
  show "filter (\<lambda>q. key_of q = Some (pd_key p)) (curated_passports db)
      = filter (\<lambda>q. key_of q = Some (pd_key p)) (materialPassports db)"
    unfolding curated_passports_def filter_filter
    by (rule filter_cong) (auto dest: key_of_curated)
qed (auto simp: snapshot_def intro!: of_passport_filter)

lemma snapshot_listings:
  "lot_now p db = Some q \<Longrightarrow> of_passport (snapshot db) (p_id q) = of_passport (listings db) (p_id q)"
  unfolding snapshot_def
  by (rule of_passport_filter) (auto dest!: lot_now_Some keyed_is_curated)

lemma top_up_rereads:
  assumes "same_lots (pd_key p) db0 db"
  shows "top_up_product a dryRun u org (curated_passports db0) (snapshot db0) p s
    = top_up_product a dryRun u org (curated_passports db) (snapshot db) p s"
proof (cases "lot_now p db0")
  case None
  then show ?thesis
    using same_lots_lot_now [OF assms] by (simp add: top_up_product_def snapshot_lot)
next
  case (Some q)
  have "lot_now p db = Some q" using Some same_lots_lot_now [OF assms] by simp
  moreover have "of_passport (listings db) (p_id q) = of_passport (listings db0) (p_id q)"
    by (rule same_lots_of_passport [OF assms lot_now_Some [OF Some]])
  ultimately show ?thesis using Some by (simp add: top_up_product_def snapshot_lot snapshot_listings)
qed

subsection \<open>The writes keep the marketplace\<close>

definition room :: "trace_db \<Rightarrow> bool" where
  "room db \<longleftrightarrow> (\<forall>l \<in> set (listings db). l_quantity l + 5000 \<le> MAX_LOT_QUANTITY)"

text \<open>Growing a live lot is the settlement \<open>settleLot\<close> makes of an edit that adds units.\<close>

definition grown :: "int \<Rightarrow> listing \<Rightarrow> listing_patch" where
  "grown n l = no_changes\<lparr> lp_quantity := Some (l_quantity l + n) \<rparr>"

lemma live_iff: "live l \<longleftrightarrow> l_status l \<in> set LIVE_LOT_STATUSES \<or> l_status l = L_sold"
  by (auto simp: live_def LIVE_LOT_STATUSES_def)

lemma grow_ready:
  assumes ok: "market_ok db" and l: "l \<in> set (listings db)" "live l"
    and n: "0 < n" "l_quantity l + n \<le> MAX_LOT_QUANTITY"
  shows "settle_ready l (l_quantityAvailable l + n) (grown n l) False db"
proof -
  have lok: "listing_ok db l" using ok l(1) by (simp add: market_ok_def)
  have found: "find_listing (l_id l) db = Some l"
    using ok l(1) by (auto simp: market_ok_def keys_ok_def intro: find_row_distinct)
  have alone: "\<not> live r" if "r \<in> set (listings db)" "l_id r \<noteq> l_id l" "l_passportId r = l_passportId l" for r
    using ok l that unfolding market_ok_def exclusive_def by blast
  show ?thesis
    using lok found alone l n
    by (simp add: settle_ready_def listing_ok_def stock_ok_def terms_ok_def grown_def no_changes_def)
qed

lemma grown_row:
  "settled_row (grown n l) (l_quantityAvailable l + n) L_active l = grow n (l\<lparr> l_status := L_active \<rparr>)"
  by (simp add: settled_row_def apply_patch_def grown_def no_changes_def grow_def)

lemma grown_status:
  assumes "market_ok db" and "l \<in> set (listings db)" and "live l" and "0 < n"
  shows "settled_status l (l_quantityAvailable l + n) False db = L_active"
  using assms by (auto simp: settled_status_def lotStatus_def market_ok_def listing_ok_def stock_ok_def)

text \<open>The two writes, and their rows as \<open>settleLot\<close> writes them.\<close>

definition restocked_db :: "listing \<Rightarrow> int \<Rightarrow> trace_db \<Rightarrow> trace_db" where
  "restocked_db l n db = listings_update (update_rows l_id (l_id l) (grow n)) db"

definition reopened_db :: "listing \<Rightarrow> int \<Rightarrow> time \<Rightarrow> trace_db \<Rightarrow> trace_db" where
  "reopened_db l n now db = set_passport_status (l_passportId l) P_listed now
     (listings_update (update_rows l_id (l_id l) (\<lambda>r. grow n (r\<lparr> l_status := L_active \<rparr>))) db)"

lemma update_rows_cong_row:
  assumes "distinct (map key rows)" and "r \<in> set rows" and "f r = g r"
  shows "update_rows key (key r) f rows = update_rows key (key r) g rows"
  unfolding update_rows_def
proof (rule map_cong [OF refl])
  fix x assume "x \<in> set rows"
  then have "x = r" if "key x = key r" using assms that by (simp add: distinct_map inj_on_def)
  then show "(if key x = key r then f x else x) = (if key x = key r then g x else x)"
    using assms(3) by auto
qed

lemma grown_db:
  assumes ok: "market_ok db" and l: "l \<in> set (listings db)" "live l"
    and n: "0 < n" "l_quantity l + n \<le> MAX_LOT_QUANTITY"
  shows "find_listing (l_id l) db = Some l" and "listing_row_ok (grow n (l\<lparr> l_status := L_active \<rparr>))"
    and "l_status l = L_active \<Longrightarrow>
      settled_db l (l_quantityAvailable l + n) (grown n l) False now db = restocked_db l n db"
    and "l_status l = L_sold \<Longrightarrow>
      settled_db l (l_quantityAvailable l + n) (grown n l) False now db = reopened_db l n now db"
    and "market_ok (settled_db l (l_quantityAvailable l + n) (grown n l) False now db)"
proof -
  note ready = grow_ready [OF ok l n]
  have st: "settled_status l (l_quantityAvailable l + n) False db = L_active"
    by (rule grown_status [OF ok l n(1)])
  have keys: "distinct (map l_id (listings db))" using ok by (simp add: market_ok_def keys_ok_def)
  show "find_listing (l_id l) db = Some l" using keys l(1) by (rule find_row_distinct)
  show "listing_row_ok (grow n (l\<lparr> l_status := L_active \<rparr>))"
    using settle_ready_row [OF ready market_but_weaken [OF ok], of L_active] by (simp add: grown_row)
  note rows = update_rows_cong_row [OF keys l(1)]
  have sold: "update_rows l_id (l_id l) (settled_row (grown n l) (l_quantityAvailable l + n) L_active) (listings db)
      = update_rows l_id (l_id l) (\<lambda>r. grow n (r\<lparr> l_status := L_active \<rparr>)) (listings db)"
    by (rule rows) (simp add: grown_row)
  show "settled_db l (l_quantityAvailable l + n) (grown n l) False now db = reopened_db l n now db"
    if "l_status l = L_sold"
    using sold st that l(2) by (cases db) (simp add: settled_db_def reopened_db_def Let_def)
  show "settled_db l (l_quantityAvailable l + n) (grown n l) False now db = restocked_db l n db"
    if active: "l_status l = L_active"
  proof -
    have same: "l\<lparr> l_status := L_active \<rparr> = l" using active by simp
    have "update_rows l_id (l_id l) (settled_row (grown n l) (l_quantityAvailable l + n) L_active) (listings db)
        = update_rows l_id (l_id l) (grow n) (listings db)"
      by (rule rows) (simp only: grown_row same)
    then show ?thesis using st active by (cases db) (simp add: settled_db_def restocked_db_def Let_def)
  qed
  show "market_ok (settled_db l (l_quantityAvailable l + n) (grown n l) False now db)"
    by (rule settleLot_restores(2) [OF market_but_weaken [OF ok] ready])
qed

lemma restock_ok:
  assumes ok: "market_ok db" and l: "l \<in> set (listings db)" "l_status l = L_active"
    and n: "0 < n" "l_quantity l + n \<le> MAX_LOT_QUANTITY"
  shows "restock l n db = Inr (restocked_db l n db)" and "market_ok (restocked_db l n db)"
proof -
  have lv: "live l" and same: "l\<lparr> l_status := L_active \<rparr> = l" using l(2) by (simp_all add: live_def)
  note grown = grown_db [OF ok l(1) lv n]
  show "restock l n db = Inr (restocked_db l n db)"
    using grown(1,2) same by (simp add: restock_def update_listing_row_def restocked_db_def)
  show "market_ok (restocked_db l n db)" using grown(3,5) [of 0] l(2) by simp
qed

lemma reopen_ok:
  assumes ok: "market_ok db" and l: "l \<in> set (listings db)" "l_status l = L_sold"
    and n: "0 < n" "l_quantity l + n \<le> MAX_LOT_QUANTITY"
  shows "reopen_lot l (l_passportId l) n now db = Inr (reopened_db l n now db)"
    and "market_ok (reopened_db l n now db)"
proof -
  have lv: "live l" using l(2) by (simp add: live_def)
  note grown = grown_db [OF ok l(1) lv n]
  show "reopen_lot l (l_passportId l) n now db = Inr (reopened_db l n now db)"
    using grown(1,2) by (simp add: reopen_lot_def update_listing_row_def reopened_db_def)
  show "market_ok (reopened_db l n now db)" using grown(4,5) [of now] l(2) by simp
qed

lemma lot_listing_simps [simp]:
  "l_id (lot_listing a p i u org) = ta_listingId a (pd_key p)"
  "l_passportId (lot_listing a p i u org) = i" "l_status (lot_listing a p i u org) = L_active"
  "l_quantity (lot_listing a p i u org) = pd_quantity p"
  "l_quantityAvailable (lot_listing a p i u org) = pd_quantity p"
  by (simp_all add: lot_listing_def)

lemma lot_listing_terms: "p \<in> set CATALOG \<Longrightarrow> terms_ok (lot_listing a p i u org)"
  using catalogue_terms [of p] by (auto simp: terms_ok_def lot_listing_def MAX_LOT_QUANTITY_def)

lemma lot_listing_row: "p \<in> set CATALOG \<Longrightarrow> listing_row_ok (lot_listing a p i u org)"
  by (rule listing_row_ok_of [OF lot_listing_terms]) (use catalogue_terms [of p] in auto)

lemma list_again_ok:
  assumes ok: "market_ok db" and p: "p \<in> set CATALOG" and q: "find_passport i db \<noteq> None"
    and fresh: "find_listing (ta_listingId a (pd_key p)) db = None"
    and alone: "\<And>r. r \<in> set (listings db) \<Longrightarrow> live r \<Longrightarrow> l_passportId r \<noteq> i"
  shows "list_again a p i u org db = Inr (put_on_sale (lot_listing a p i u org) (ta_now a) db)"
    and "market_ok (put_on_sale (lot_listing a p i u org) (ta_now a) db)"
proof -
  show "list_again a p i u org db = Inr (put_on_sale (lot_listing a p i u org) (ta_now a) db)"
    using lot_listing_row [OF p] fresh by (simp add: list_again_def insert_listing_def put_on_sale_def)
  show "market_ok (put_on_sale (lot_listing a p i u org) (ta_now a) db)"
    by (rule put_on_sale_ok [OF ok lot_listing_terms [OF p]]) (use q fresh alone in auto)
qed

subsection \<open>Creating the first lot of a product\<close>

lemma seeded_passport_simps [simp]:
  "p_id (seeded_passport a p url u org) = ta_passportId a (pd_key p)"
  "p_status (seeded_passport a p url u org) = P_listed"
  by (simp_all add: seeded_passport_def buildInsertValues_def)

lemma catalogue_columns: "p \<in> set CATALOG \<Longrightarrow>
    pi_originalAge (pd_passport p now) = None \<and> within int4 (pi_remainingLifeEstimate (pd_passport p now))
    \<and> within int4 (pi_circularityScore (pd_passport p now))"
proof -
  have "list_all (\<lambda>p. pi_originalAge (pd_passport p now) = None
      \<and> within int4 (pi_remainingLifeEstimate (pd_passport p now))
      \<and> within int4 (pi_circularityScore (pd_passport p now))) CATALOG"
    by (simp add: catalogue_defs reclaimed_fields_def no_fields_def within_def int4_def INT4_MAX_def)
  then show "p \<in> set CATALOG \<Longrightarrow> ?thesis" by (simp add: list_all_iff)
qed

lemma seeded_passport_row: "p \<in> set CATALOG \<Longrightarrow> passport_row_ok (seeded_passport a p url u org)"
  using catalogue_columns [of p "ta_now a"]
  by (simp add: passport_row_ok_def seeded_passport_def buildInsertValues_def within_def)

definition created_db ::
  "top_up_args \<Rightarrow> product \<Rightarrow> string \<Rightarrow> uuid \<Rightarrow> uuid \<Rightarrow> trace_db \<Rightarrow> trace_db" where
  "created_db a p url u org db =
     (let row = seeded_passport a p url u org
      in db\<lparr> materialPassports := materialPassports db @ [fingerprint_row (ta_env a) (ta_now a) row row],
             listings := listings db @ [lot_listing a p (p_id row) u org] \<rparr>)"

lemma update_last_row:
  "find_row key (key r) rows = None \<Longrightarrow> update_rows key (key r) f (rows @ [r]) = rows @ [f r]"
  by (induction rows) (auto split: if_splits)

lemma create_lot_result:
  assumes p: "p \<in> set CATALOG" and pid: "find_passport (ta_passportId a (pd_key p)) db = None"
    and lid: "find_listing (ta_listingId a (pd_key p)) db = None"
  shows "create_lot a p url u org db = Inr (created_db a p url u org db)"
proof -
  let ?row = "seeded_passport a p url u org"
  have fresh: "find_row p_id (p_id ?row) (materialPassports db) = None" using pid by simp
  have "find_row p_id (p_id ?row) (materialPassports db @ [?row]) = Some ?row"
    using fresh by (simp only: find_row_append) simp
  then show ?thesis
    using seeded_passport_row [OF p] pid lid lot_listing_row [OF p] update_last_row [OF fresh]
    by (cases db) (simp add: create_lot_def insert_passport_def insert_row_def update_passport_def
        insert_listing_def created_db_def Let_def)
qed

lemma created_ok:
  assumes ok: "market_ok db" and p: "p \<in> set CATALOG"
    and pid: "find_passport (ta_passportId a (pd_key p)) db = None"
    and lid: "find_listing (ta_listingId a (pd_key p)) db = None"
  shows "market_ok (created_db a p url u org db)"
proof -
  let ?row = "fingerprint_row (ta_env a) (ta_now a) (seeded_passport a p url u org) (seeded_passport a p url u org)"
  let ?db1 = "db\<lparr> materialPassports := materialPassports db @ [?row] \<rparr>"
  let ?l = "lot_listing a p (ta_passportId a (pd_key p)) u org"
  have row: "p_id ?row = ta_passportId a (pd_key p)" "p_status ?row = P_listed"
    by (simp_all add: fingerprint_row_def)
  have new: "find_passport (ta_passportId a (pd_key p)) ?db1 = Some ?row"
    using pid row by (simp add: find_row_append)
  have distinct: "distinct (map p_id (materialPassports ?db1))"
    using ok pid row by (auto simp: market_ok_def keys_ok_def find_row_None_iff)
  have ok1: "market_ok ?db1"
    by (rule market_ok_passports [OF ok _ distinct]) (auto simp: others_same_def statuses_kept_def find_row_append)
  have "market_ok (put_on_sale ?l (ta_now a) ?db1)"
  proof (rule put_on_sale_ok [OF ok1 lot_listing_terms [OF p]])
    fix r assume r: "r \<in> set (listings ?db1)" "live r"
    then have "passport_agrees db r" using ok by (simp add: market_ok_def listing_ok_def)
    then show "l_passportId r \<noteq> l_passportId ?l"
      using r(2) pid by (auto simp: passport_agrees_def live_def)
  qed (use new lid in auto)
  then show ?thesis
  proof (rule market_ok_passports)
    show "others_same (put_on_sale ?l (ta_now a) ?db1) (created_db a p url u org db)"
      by (simp add: others_same_def put_on_sale_def created_db_def Let_def insert_row_def set_passport_status_def)
    show "distinct (map p_id (materialPassports (created_db a p url u org db)))"
      using distinct by (simp add: created_db_def Let_def)
    have same: "find_passport i (created_db a p url u org db) = find_passport i ?db1" for i
      by (simp add: created_db_def Let_def)
    show "statuses_kept (put_on_sale ?l (ta_now a) ?db1) (created_db a p url u org db)"
      unfolding statuses_kept_def same
    proof (intro allI impI)
      fix i q assume "find_passport i (put_on_sale ?l (ta_now a) ?db1) = Some q"
      then have "map_option p_status (find_passport i ?db1) = Some (p_status q)"
        using put_on_sale_passport [of i ?l "ta_now a" ?db1] new row
        by (cases "i = ta_passportId a (pd_key p)") auto
      then show "\<exists>p'. find_passport i ?db1 = Some p' \<and> p_status p' = p_status q"
        by auto
    qed
  qed
qed

subsection \<open>A write for one product leaves the others alone\<close>

lemma filter_update_rows:
  assumes "\<And>r. r \<in> set rows \<Longrightarrow> key r = k \<Longrightarrow> P (f r) = P r" and "\<And>r. r \<in> set rows \<Longrightarrow> key r = k \<Longrightarrow> P r \<Longrightarrow> f r = r"
  shows "filter P (update_rows key k f rows) = filter P rows"
  using assms by (induction rows) auto

lemma same_lots_by:
  assumes "lots_in k db' = lots_in k db" and "i \<notin> p_id ` set (lots_in k db)"
    and "filter (\<lambda>l. l_passportId l \<noteq> i) (listings db') = filter (\<lambda>l. l_passportId l \<noteq> i) (listings db)"
  shows "same_lots k db db'"
proof -
  have eq: "listings_in k d = filter (\<lambda>l. l_passportId l \<in> p_id ` set (lots_in k d))
      (filter (\<lambda>l. l_passportId l \<noteq> i) (listings d))" if "i \<notin> p_id ` set (lots_in k d)" for d
    using that unfolding listings_in_def filter_filter by (intro filter_cong) auto
  have "i \<notin> p_id ` set (lots_in k db')" using assms(1,2) by simp
  from eq [OF this] have "listings_in k db' = listings_in k db"
    using eq [OF assms(2)] assms(1,3) by (simp only:)
  then show ?thesis using assms(1) by (simp add: same_lots_def)
qed

lemma lots_in_status: "lots_in k (set_passport_status i st now db)
    = map (\<lambda>q. if p_id q = i then q\<lparr> p_status := st, p_updatedAt := now \<rparr> else q) (lots_in k db)"
proof -
  have "filter (\<lambda>q. key_of q = Some k) (update_rows p_id i (\<lambda>q. q\<lparr> p_status := st, p_updatedAt := now \<rparr>) ps)
      = map (\<lambda>q. if p_id q = i then q\<lparr> p_status := st, p_updatedAt := now \<rparr> else q)
          (filter (\<lambda>q. key_of q = Some k) ps)" for ps
    by (induction ps) auto
  then show ?thesis by (simp add: lots_in_def set_passport_status_def)
qed

lemma lots_in_status_other:
  assumes "i \<notin> p_id ` set (lots_in k db)"
  shows "lots_in k (set_passport_status i st now db) = lots_in k db"
  unfolding lots_in_status using assms by (intro map_idI) auto

lemma lots_apart:
  assumes "market_ok db" and "q \<in> set (lots_in k db)" and "k' \<noteq> k"
  shows "p_id q \<notin> p_id ` set (lots_in k' db)"
  using assms by (auto simp: lots_in_def market_ok_def keys_ok_def distinct_map inj_on_def)

text \<open>The effect of a top-up of product \<open>p\<close>.\<close>

definition topped_up :: "product \<Rightarrow> trace_db \<Rightarrow> trace_db \<Rightarrow> bool" where
  "topped_up p db db' \<longleftrightarrow> market_ok db' \<and> transactions db' = transactions db \<and> users db' = users db
     \<and> settled p db' \<and> length (lots_in (pd_key p) db') = max 1 (length (lots_in (pd_key p) db))
     \<and> (\<forall>k. k \<noteq> pd_key p \<longrightarrow> same_lots k db db')"

lemma listings_status [simp]: "listings (set_passport_status i st now db) = listings db"
  by (simp add: set_passport_status_def)

lemma lots_in_listings [simp]: "lots_in k (listings_update f db) = lots_in k db"
  by (simp add: lots_in_def)

lemma lot_exists: "lot_now p db = Some q \<Longrightarrow>
    max (Suc 0) (length (lots_in (pd_key p) db)) = length (lots_in (pd_key p) db)"
  using lot_now_Some [of p db q] by (cases "lots_in (pd_key p) db") auto

lemma lots_lengths [simp]:
  "length (lots_in k (restocked_db l n db)) = length (lots_in k db)"
  "length (lots_in k (reopened_db l n now db)) = length (lots_in k db)"
  "length (lots_in k (put_on_sale l now db)) = length (lots_in k db)"
  by (simp_all add: restocked_db_def reopened_db_def put_on_sale_def lots_in_status)

lemma settled_by:
  assumes ok: "market_ok db" and q: "q \<in> set (lots_in (pd_key p) db)"
    and l: "l \<in> set (listings db)" "l_passportId l = p_id q" "l_status l \<in> set LIVE_LOT_STATUSES"
    and full: "l_status l = L_active \<Longrightarrow> pd_quantity p \<le> l_quantityAvailable l"
    and only: "\<And>q' l'. q' \<in> set (lots_in (pd_key p) db) \<Longrightarrow> l' \<in> set (listings db) \<Longrightarrow>
      l_passportId l' = p_id q' \<Longrightarrow> l_status l' \<in> set LIVE_LOT_STATUSES \<Longrightarrow> p_id q' = p_id q"
  shows "settled p db"
proof -
  let ?st = "\<lambda>i. map l_status (of_passport (listings db) i)"
  obtain q' where q': "lot_now p db = Some q'" using q lot_now_None [of p db] by fastforce
  have "lot_rank ?st (p_id q) = 0"
    using l by (auto simp: lot_rank_def has_listing_def list_ex_iff of_passport_def)
  moreover have "lot_rank ?st (p_id q') \<le> lot_rank ?st (p_id q)"
    using productLot_least [OF q' [unfolded lot_now_def product_lot_def], of q] q
    by (auto simp: lots_in_def less_eq_prod_def)
  ultimately have "has_listing ?st LIVE_LOT_STATUSES (p_id q')"
    by (auto simp: lot_rank_def split: if_splits)
  then obtain l' where l': "l' \<in> set (listings db)" "l_passportId l' = p_id q'" "l_status l' \<in> set LIVE_LOT_STATUSES"
    by (auto simp: has_listing_def list_ex_iff of_passport_def)
  have same: "p_id q' = p_id q" by (rule only [OF lot_now_Some [OF q'] l'])
  have "live_lot (of_passport (listings db) (p_id q')) \<noteq> None"
    unfolding find_None_iff of_passport_def using l same by auto
  then obtain m where m: "live_lot (of_passport (listings db) (p_id q')) = Some m" by blast
  have "m \<in> set (listings db)" "l_passportId m = l_passportId l" "l_status m \<in> set LIVE_LOT_STATUSES"
    using find_in [OF m] same l(2) by (auto simp: of_passport_def)
  moreover have "exclusive db" and keys: "distinct (map l_id (listings db))"
    using ok by (simp_all add: market_ok_def keys_ok_def)
  ultimately have "l_id m = l_id l" using l unfolding exclusive_def live_iff by blast
  then have "m = l"
    using keys l(1) \<open>m \<in> set (listings db)\<close> by (simp add: distinct_map inj_on_def)
  then show ?thesis using q' m full by (auto simp: settled_def)
qed

lemma live_lot_in:
  assumes "live_lot (of_passport (listings db) i) = Some l"
  shows "l \<in> set (listings db)" "l_passportId l = i" "l_status l \<in> {L_active, L_reserved}"
  using find_in [OF assms] by (auto simp: of_passport_def LIVE_LOT_STATUSES_def)

lemma other_listings_kept:
  assumes ok: "market_ok db" and l: "l \<in> set (listings db)" "l_passportId l = i"
    and f: "\<And>r. l_passportId (f r) = l_passportId r"
  shows "filter (\<lambda>l. l_passportId l \<noteq> i) (update_rows l_id (l_id l) f (listings db))
    = filter (\<lambda>l. l_passportId l \<noteq> i) (listings db)"
proof (rule filter_update_rows)
  fix r assume r: "r \<in> set (listings db)" "l_id r = l_id l"
  then have "r = l" using ok l(1) by (auto simp: market_ok_def keys_ok_def distinct_map inj_on_def)
  then show "l_passportId r \<noteq> i \<Longrightarrow> f r = r" using l(2) by simp
qed (simp add: f)

lemma restock_tops_up:
  assumes ok: "market_ok db" and q: "lot_now p db = Some q"
    and l: "live_lot (of_passport (listings db) (p_id q)) = Some l" "l_status l = L_active"
    and short: "0 < pd_quantity p - l_quantityAvailable l" and room: "l_quantity l + pd_quantity p \<le> MAX_LOT_QUANTITY"
  shows "restock l (pd_quantity p - l_quantityAvailable l) db
      = Inr (restocked_db l (pd_quantity p - l_quantityAvailable l) db)"
    and "topped_up p db (restocked_db l (pd_quantity p - l_quantityAvailable l) db)"
proof -
  let ?n = "pd_quantity p - l_quantityAvailable l"
  let ?db = "restocked_db l ?n db"
  note lin = live_lot_in [OF l(1)]
  have "stock_ok db l" using ok lin(1) by (simp add: market_ok_def listing_ok_def)
  then have "0 \<le> l_quantityAvailable l" unfolding stock_ok_def by blast
  then have "l_quantity l + ?n \<le> MAX_LOT_QUANTITY" using room by simp
  note restock = restock_ok [OF ok lin(1) l(2) short this]
  show "restock l ?n db = Inr ?db" by (rule restock(1))
  have rows: "of_passport (listings ?db) i = update_rows l_id (l_id l) (grow ?n) (of_passport (listings db) i)" for i
  proof -
    have "of_passport (update_rows l_id (l_id l) (grow ?n) ls) i
        = update_rows l_id (l_id l) (grow ?n) (of_passport ls i)" for ls
      by (induction ls) (auto simp: of_passport_def grow_def)
    then show ?thesis by (simp add: restocked_db_def)
  qed
  have statuses: "map l_status (of_passport (listings ?db) i) = map l_status (of_passport (listings db) i)" for i
    unfolding rows by (rule map_update_rows) (simp add: grow_def)
  have passports: "materialPassports ?db = materialPassports db" by (simp add: restocked_db_def)
  have lot: "lot_now p ?db = Some q"
    using q unfolding lot_now_def product_lot_def passports by (simp add: statuses)
  have "live_lot (update_rows l_id (l_id l) (grow ?n) ls)
      = map_option (\<lambda>r. if l_id r = l_id l then grow ?n r else r) (live_lot ls)" for ls
    by (induction ls) (auto simp: grow_def)
  then have "live_lot (of_passport (listings ?db) (p_id q)) = Some (grow ?n l)"
    using l(1) unfolding rows by simp
  then have "settled p ?db" using lot by (auto simp: settled_def grow_def)
  moreover have "same_lots k db ?db" if "k \<noteq> pd_key p" for k
  proof (rule same_lots_by)
    show "lots_in k ?db = lots_in k db" by (simp add: lots_in_def passports)
    show "p_id q \<notin> p_id ` set (lots_in k db)" by (rule lots_apart [OF ok lot_now_Some [OF q] that])
    show "filter (\<lambda>l. l_passportId l \<noteq> p_id q) (listings ?db)
        = filter (\<lambda>l. l_passportId l \<noteq> p_id q) (listings db)"
      using other_listings_kept [OF ok lin(1,2), of "grow ?n"] by (simp add: restocked_db_def grow_def)
  qed
  ultimately show "topped_up p db ?db" using restock(2)
    by (simp add: topped_up_def lot_exists [OF q]) (simp add: restocked_db_def)
qed

lemma none_live:
  assumes "lot_now p db = Some q" and "live_lot (of_passport (listings db) (p_id q)) = None"
    and "q' \<in> set (lots_in (pd_key p) db)" and "l \<in> set (listings db)" and "l_passportId l = p_id q'"
  shows "l_status l \<notin> set LIVE_LOT_STATUSES"
proof
  let ?st = "\<lambda>i. map l_status (of_passport (listings db) i)"
  assume "l_status l \<in> set LIVE_LOT_STATUSES"
  then have "lot_rank ?st (p_id q') = 0"
    using assms(4,5) by (auto simp: lot_rank_def has_listing_def list_ex_iff of_passport_def)
  moreover have "lot_rank ?st (p_id q) \<le> lot_rank ?st (p_id q')"
    using productLot_least [OF assms(1) [unfolded lot_now_def product_lot_def], of q'] assms(3)
    by (auto simp: lots_in_def less_eq_prod_def)
  ultimately have "has_listing ?st LIVE_LOT_STATUSES (p_id q)"
    by (auto simp: lot_rank_def split: if_splits)
  then obtain m where "m \<in> set (of_passport (listings db) (p_id q))" "l_status m \<in> set LIVE_LOT_STATUSES"
    by (auto simp: has_listing_def list_ex_iff)
  then show False using assms(2) unfolding find_None_iff by blast
qed

lemma goes_on_sale:
  assumes ok: "market_ok db'" and q: "q \<in> set (lots_in (pd_key p) db)"
    and before: "\<And>q' l. q' \<in> set (lots_in (pd_key p) db) \<Longrightarrow> l \<in> set (listings db) \<Longrightarrow>
      l_passportId l = p_id q' \<Longrightarrow> l_status l \<notin> set LIVE_LOT_STATUSES"
    and ids: "map p_id (lots_in (pd_key p) db') = map p_id (lots_in (pd_key p) db)"
    and l: "l \<in> set (listings db')" "l_passportId l = p_id q" "l_status l = L_active"
      "pd_quantity p \<le> l_quantityAvailable l"
    and others: "filter (\<lambda>l. l_passportId l \<noteq> p_id q) (listings db') = filter (\<lambda>l. l_passportId l \<noteq> p_id q) (listings db)"
  shows "settled p db'"
proof -
  have set_ids: "p_id ` set (lots_in (pd_key p) db') = p_id ` set (lots_in (pd_key p) db)"
    using arg_cong [OF ids, of set] by simp
  obtain q1 where q1: "q1 \<in> set (lots_in (pd_key p) db')" "p_id q1 = p_id q"
    using set_ids imageI [OF q, of p_id] by (auto simp flip: set_ids)
  show ?thesis
  proof (rule settled_by [OF ok q1(1) l(1)])
    fix q' l' assume a: "q' \<in> set (lots_in (pd_key p) db')" "l' \<in> set (listings db')"
      "l_passportId l' = p_id q'" "l_status l' \<in> set LIVE_LOT_STATUSES"
    obtain q0 where q0: "q0 \<in> set (lots_in (pd_key p) db)" "p_id q0 = p_id q'"
      using set_ids imageI [OF a(1), of p_id] by auto
    show "p_id q' = p_id q1"
    proof (rule ccontr)
      assume ne: "p_id q' \<noteq> p_id q1"
      then have "l' \<in> set (filter (\<lambda>l. l_passportId l \<noteq> p_id q) (listings db'))" using a(2,3) q1(2) by simp
      then have "l' \<in> set (listings db)" unfolding others by simp
      then show False using before [OF q0(1)] a(3,4) q0(2) by simp
    qed
  qed (use l q1(2) in \<open>simp_all add: LIVE_LOT_STATUSES_def\<close>)
qed

lemma status_write_ids [simp]:
  "map p_id (lots_in k (set_passport_status i st now db)) = map p_id (lots_in k db)"
  by (simp add: lots_in_status)

lemma newest_sold_in: "newest_sold ls = Some l \<Longrightarrow> l \<in> set ls \<and> l_status l = L_sold"
proof -
  assume "newest_sold ls = Some l"
  then have "l \<in> set (sort_key (\<lambda>l. - l_createdAt l) (filter (\<lambda>l. l_status l = L_sold) ls))"
    by (cases "sort_key (\<lambda>l. - l_createdAt l) (filter (\<lambda>l. l_status l = L_sold) ls)")
      (simp_all add: newest_sold_def)
  then show ?thesis by simp
qed

lemma newest_sold_None: "newest_sold ls = None \<Longrightarrow> l \<in> set ls \<Longrightarrow> l_status l \<noteq> L_sold"
proof -
  assume "newest_sold ls = None" and l: "l \<in> set ls"
  then have "sort_key (\<lambda>l. - l_createdAt l) (filter (\<lambda>l. l_status l = L_sold) ls) = []"
    by (auto simp: newest_sold_def split: list.splits)
  then have "mset (filter (\<lambda>l. l_status l = L_sold) ls) = {#}" by (metis mset.simps(1) mset_sort)
  then show ?thesis using l by (auto simp: filter_empty_conv)
qed

lemma reopen_tops_up:
  assumes ok: "market_ok db" and p: "p \<in> set CATALOG" and q: "lot_now p db = Some q"
    and no: "live_lot (of_passport (listings db) (p_id q)) = None"
    and l: "newest_sold (of_passport (listings db) (p_id q)) = Some l"
    and room: "l_quantity l + pd_quantity p \<le> MAX_LOT_QUANTITY"
  shows "reopen_lot l (p_id q) (pd_quantity p) now db = Inr (reopened_db l (pd_quantity p) now db)"
    and "topped_up p db (reopened_db l (pd_quantity p) now db)"
proof -
  let ?db = "reopened_db l (pd_quantity p) now db"
  let ?f = "\<lambda>r. grow (pd_quantity p) (r\<lparr> l_status := L_active \<rparr>)"
  have lin: "l \<in> set (listings db)" "l_passportId l = p_id q" "l_status l = L_sold"
    using newest_sold_in [OF l] by (auto simp: of_passport_def)
  have n: "0 < pd_quantity p" using catalogue_terms [OF p] by simp
  note reopened = reopen_ok [OF ok lin(1,3) n room, of now]
  show "reopen_lot l (p_id q) (pd_quantity p) now db = Inr ?db" using reopened(1) lin(2) by simp
  have "stock_ok db l" using ok lin(1) by (simp add: market_ok_def listing_ok_def)
  then have avail: "0 \<le> l_quantityAvailable l" unfolding stock_ok_def by blast
  have rows: "listings ?db = update_rows l_id (l_id l) ?f (listings db)" by (simp add: reopened_db_def)
  have others: "filter (\<lambda>l. l_passportId l \<noteq> p_id q) (listings ?db) = filter (\<lambda>l. l_passportId l \<noteq> p_id q) (listings db)"
    unfolding rows by (rule other_listings_kept [OF ok lin(1,2)]) (simp add: grow_def)
  have "settled p ?db"
  proof (rule goes_on_sale [OF reopened(2) lot_now_Some [OF q] none_live [OF q no] _ _ _ _ _ others])
    show "map p_id (lots_in (pd_key p) ?db) = map p_id (lots_in (pd_key p) db)"
      by (simp add: reopened_db_def)
    show "?f l \<in> set (listings ?db)" using lin(1) by (force simp: rows set_update_rows)
  qed (use lin(2) avail in \<open>simp_all add: grow_def\<close>)
  moreover have "same_lots k db ?db" if "k \<noteq> pd_key p" for k
  proof (rule same_lots_by [OF _ lots_apart [OF ok lot_now_Some [OF q] that] others])
    show "lots_in k ?db = lots_in k db"
      using lots_apart [OF ok lot_now_Some [OF q] that] lin(2)
      by (simp add: reopened_db_def lots_in_status_other)
  qed
  ultimately show "topped_up p db ?db"
    using reopened(2) by (simp add: topped_up_def lot_exists [OF q]) (simp add: reopened_db_def set_passport_status_def)
qed

text \<open>Listing a delisted product again.\<close>

lemma list_again_tops_up:
  assumes ok: "market_ok db" and p: "p \<in> set CATALOG" and q: "lot_now p db = Some q"
    and no: "live_lot (of_passport (listings db) (p_id q)) = None"
    and unsold: "newest_sold (of_passport (listings db) (p_id q)) = None"
    and fresh: "find_listing (ta_listingId a (pd_key p)) db = None"
  shows "list_again a p (p_id q) u org db = Inr (put_on_sale (lot_listing a p (p_id q) u org) (ta_now a) db)"
    and "topped_up p db (put_on_sale (lot_listing a p (p_id q) u org) (ta_now a) db)"
proof -
  let ?l = "lot_listing a p (p_id q) u org"
  let ?db = "put_on_sale ?l (ta_now a) db"
  note lot = lot_now_Some [OF q]
  have "q \<in> set (materialPassports db)" using lot by (simp add: lots_in_def)
  then have found: "find_passport (p_id q) db \<noteq> None" by (auto simp: find_row_None_iff)
  have alone: "l_passportId r \<noteq> p_id q" if r: "r \<in> set (listings db)" "live r" for r
  proof
    assume of_q: "l_passportId r = p_id q"
    then have "r \<in> set (of_passport (listings db) (p_id q))" using r(1) by (simp add: of_passport_def)
    then have "l_status r \<noteq> L_sold" by (rule newest_sold_None [OF unsold])
    then show False using none_live [OF q no lot r(1) of_q] r(2) by (simp add: live_iff)
  qed
  note again = list_again_ok [OF ok p found fresh alone, of u org]
  show "list_again a p (p_id q) u org db = Inr ?db" using again(1) by simp
  have others: "filter (\<lambda>l. l_passportId l \<noteq> p_id q) (listings ?db) = filter (\<lambda>l. l_passportId l \<noteq> p_id q) (listings db)"
    by (simp add: insert_row_def)
  have "settled p ?db"
  proof (rule goes_on_sale [OF again(2) lot none_live [OF q no] _ _ _ _ _ others])
    show "?l \<in> set (listings ?db)" by (simp add: insert_row_def)
  qed (simp_all add: put_on_sale_def)
  moreover have "same_lots k db ?db" if "k \<noteq> pd_key p" for k
    by (rule same_lots_by [OF _ lots_apart [OF ok lot that] others])
      (use lots_apart [OF ok lot that] in \<open>simp add: put_on_sale_def lots_in_status_other\<close>)
  ultimately show "topped_up p db ?db"
    using again(2) by (simp add: topped_up_def lot_exists [OF q]) (simp add: put_on_sale_def set_passport_status_def)
qed

text \<open>
  Creating the first lot. The \<open>jsonb\<close> column may reorder the fields of an object, but a text in a
  field of its own is read back.
\<close>

definition jsonb_keeps :: "api_env \<Rightarrow> bool" where
  "jsonb_keeps env \<longleftrightarrow> (\<forall>fields k t. distinct (map fst fields) \<longrightarrow> map_of fields k = Some (JStr t) \<longrightarrow>
     json_field k (jsonbValue env (JObj fields)) = Some (JStr t))"

lemma seeded_key:
  assumes "jsonb_keeps (ta_env a)" and "p \<in> set CATALOG"
  shows "key_of (seeded_passport a p url u org) = Some (pd_key p)"
proof (rule catalogueKeyOf_by_key)
  let ?j = "p_customAttributes (seeded_passport a p url u org)"
  let ?fields = "[(''seedSource'', JStr SEED_TAG), (''catalogueKey'', JStr (pd_key p)),
      (''catalogueName'', JStr (productName p)), (''demoLotNumber'', JInt 1),
      (''demoBatch'', JStr (take 10 (toISOString (ta_now a))))]"
  have j: "?j = jsonbValue (ta_env a) (JObj ?fields)"
    by (simp add: seeded_passport_def buildInsertValues_def seed_attributes_def)
  have "json_field k (jsonbValue (ta_env a) (JObj ?fields)) = Some (JStr t)"
    if "map_of ?fields k = Some (JStr t)" for k t
    using assms(1) that unfolding jsonb_keeps_def by (elim allE [of _ ?fields]) simp
  then show "json_field ''seedSource'' ?j = Some (JStr SEED_TAG)"
    "json_field ''catalogueKey'' ?j = Some (JStr (pd_key p))" by (simp_all add: j)
  show "pd_key p \<in> CATALOGUE_KEYS" using assms(2) by (auto simp: CATALOGUE_KEYS_def)
qed

lemma created_tops_up:
  assumes ok: "market_ok db" and p: "p \<in> set CATALOG" and j: "jsonb_keeps (ta_env a)"
    and none: "lot_now p db = None" and pid: "find_passport (ta_passportId a (pd_key p)) db = None"
    and lid: "find_listing (ta_listingId a (pd_key p)) db = None"
  shows "topped_up p db (created_db a p url u org db)"
proof -
  let ?row = "fingerprint_row (ta_env a) (ta_now a) (seeded_passport a p url u org) (seeded_passport a p url u org)"
  let ?l = "lot_listing a p (ta_passportId a (pd_key p)) u org"
  let ?db = "created_db a p url u org db"
  have db: "materialPassports ?db = materialPassports db @ [?row]" "listings ?db = listings db @ [?l]"
    by (simp_all add: created_db_def Let_def)
  have row: "p_id ?row = ta_passportId a (pd_key p)" "key_of ?row = Some (pd_key p)"
    using seeded_key [OF j p] by (simp_all add: fingerprint_row_def)
  have lots: "lots_in k ?db = lots_in k db @ (if k = pd_key p then [?row] else [])" for k
    using row(2) by (auto simp: lots_in_def db)
  have only: "lots_in (pd_key p) ?db = [?row]" using none lots by (simp add: lot_now_None)
  note ok' = created_ok [OF ok p pid lid, of url u org]
  have "settled p ?db"
  proof (rule settled_by [OF ok', where q = ?row and l = ?l])
    show "?row \<in> set (lots_in (pd_key p) ?db)" "?l \<in> set (listings ?db)" by (simp_all add: only db)
    show "p_id q' = p_id ?row" if "q' \<in> set (lots_in (pd_key p) ?db)" for q' using that by (simp add: only)
  qed (simp_all add: row LIVE_LOT_STATUSES_def)
  moreover have "same_lots k db ?db" if k: "k \<noteq> pd_key p" for k
  proof (rule same_lots_by [where i = "ta_passportId a (pd_key p)"])
    show "lots_in k ?db = lots_in k db" using k by (simp add: lots)
    show "ta_passportId a (pd_key p) \<notin> p_id ` set (lots_in k db)"
      using pid by (auto simp: lots_in_def find_row_None_iff)
  qed (simp add: db)
  ultimately show ?thesis
    using ok' none only by (simp add: topped_up_def lot_now_None) (simp add: created_db_def Let_def)
qed

subsection \<open>The run over the catalogue\<close>

text \<open>A top-up of \<open>p\<close> uses no id but the two drawn for \<open>p\<close>.\<close>

definition adds_only :: "top_up_args \<Rightarrow> product \<Rightarrow> trace_db \<Rightarrow> trace_db \<Rightarrow> bool" where
  "adds_only a p db db' \<longleftrightarrow>
     p_id ` set (materialPassports db') \<subseteq> insert (ta_passportId a (pd_key p)) (p_id ` set (materialPassports db))
     \<and> l_id ` set (listings db') \<subseteq> insert (ta_listingId a (pd_key p)) (l_id ` set (listings db))"

lemma ids_of_update_rows [simp]: "(\<And>r. key (f r) = key r) \<Longrightarrow> key ` set (update_rows key k f rows) = key ` set rows"
  unfolding set_map [symmetric] by (simp only: map_update_rows)

lemma top_ups_add:
  "adds_only a p db db" "adds_only a p db (restocked_db l n db)" "adds_only a p db (reopened_db l n now db)"
  "adds_only a p db (put_on_sale (lot_listing a p i u org) now db)"
  "adds_only a p db (created_db a p url u org db)"
  by (auto simp: adds_only_def restocked_db_def reopened_db_def grow_def put_on_sale_def insert_row_def
      set_passport_status_def created_db_def Let_def fingerprint_row_def)

text \<open>The image of a product cannot be stored, whatever is in the store.\<close>

definition image_fails :: "top_up_args \<Rightarrow> product \<Rightarrow> bool" where
  "image_fails a p \<longleftrightarrow> (\<exists>s e s'. storeCatalogueImage a (pd_image p) s = (Inl e, s'))"

lemma image_for_cases:
  assumes "image_for a p s = (r, s')"
  shows "(\<exists>e. r = Inl e) \<and> image_fails a p
    \<or> (\<exists>url. r = Inr url \<and> (ts_db s' = ts_db s \<or> (\<exists>row. ts_db s' = record_stored row (ts_db s))))"
proof (cases "ts_imageUrls s (pd_image p)")
  case None
  obtain q fs db where st: "storeCatalogueImage a (pd_image p) (ts_files s, ts_db s) = (q, fs, db)"
    by (cases "storeCatalogueImage a (pd_image p) (ts_files s, ts_db s)") auto
  show ?thesis
  proof (cases q)
    case (Inl e)
    then have "image_fails a p" using st unfolding image_fails_def by blast
    then show ?thesis using assms None st Inl by (auto simp: image_for_def)
  next
    case (Inr url)
    then obtain b where "ta_imageFile a (pd_image p) = Some b"
      using st by (auto simp: storeCatalogueImage_def split: option.splits)
    then have "\<exists>row. db = record_stored row (ts_db s)"
      using st Inr unfolding storeCatalogueImage_def
      by (auto simp: Let_def dest!: storeObject_cases)
    then show ?thesis using assms None st Inr by (auto simp: image_for_def)
  qed
qed (use assms in \<open>auto simp: image_for_def\<close>)

lemma record_stored_frame [simp]:
  "materialPassports (record_stored r db) = materialPassports db" "listings (record_stored r db) = listings db"
  "transactions (record_stored r db) = transactions db" "orderEvents (record_stored r db) = orderEvents db"
  "users (record_stored r db) = users db"
  by (simp_all add: record_stored_def)

definition ready :: "top_up_args \<Rightarrow> product \<Rightarrow> trace_db \<Rightarrow> bool" where
  "ready a p db \<longleftrightarrow> find_passport (ta_passportId a (pd_key p)) db = None
     \<and> find_listing (ta_listingId a (pd_key p)) db = None
     \<and> (\<forall>l \<in> set (listings_in (pd_key p) db). l_quantity l + pd_quantity p \<le> MAX_LOT_QUANTITY)"

lemma ready_listing:
  assumes "ready a p db" and "lot_now p db = Some q" and "l \<in> set (of_passport (listings db) (p_id q))"
  shows "l_quantity l + pd_quantity p \<le> MAX_LOT_QUANTITY"
  using assms lot_now_Some [OF assms(2)]
  by (auto simp: ready_def listings_in_def of_passport_def)

lemma write_db_result: "f (ts_db s) = Inr db' \<Longrightarrow> write_db False f s = Inr (s\<lparr> ts_db := db' \<rparr>)"
  by (simp add: write_db_def)

lemma counts_keep_db [simp]:
  "ts_db (count_restocked s) = ts_db s" "ts_db (count_relisted s) = ts_db s" "ts_db (count_created s) = ts_db s"
  by (simp_all add: count_restocked_def count_relisted_def count_created_def)

lemma top_up_existing_step:
  assumes ok: "market_ok (ts_db s)" and p: "p \<in> set CATALOG" and r: "ready a p (ts_db s)"
    and q: "lot_now p (ts_db s) = Some q"
  shows "\<exists>s'. top_up_existing a False u org (of_passport (listings (ts_db s)) (p_id q)) p (p_id q) s = Inr s'
    \<and> topped_up p (ts_db s) (ts_db s') \<and> adds_only a p (ts_db s) (ts_db s')"
proof (cases "live_lot (of_passport (listings (ts_db s)) (p_id q))")
  case (Some l)
  show ?thesis
  proof (cases "l_status l = L_active \<and> pd_quantity p - l_quantityAvailable l > 0")
    case True
    have "l \<in> set (of_passport (listings (ts_db s)) (p_id q))" using find_in [OF Some] by simp
    note tops = restock_tops_up [OF ok q Some conjunct1 [OF True] conjunct2 [OF True] ready_listing [OF r q this]]
    show ?thesis using True tops Some top_ups_add(2)
      by (auto simp: top_up_existing_def write_db_result)
  next
    case False
    have "settled p (ts_db s)" using q Some False by (auto simp: settled_def)
    then show ?thesis
      using False Some ok top_ups_add(1) lot_exists [OF q] by (auto simp: top_up_existing_def topped_up_def)
  qed
next
  case none: None
  show ?thesis
  proof (cases "newest_sold (of_passport (listings (ts_db s)) (p_id q))")
    case (Some l)
    note tops = reopen_tops_up [OF ok p q none Some ready_listing [OF r q], of "ta_now a"]
    have "l \<in> set (of_passport (listings (ts_db s)) (p_id q))" using newest_sold_in [OF Some] by simp
    then show ?thesis using tops none Some top_ups_add(3)
      by (auto simp: top_up_existing_def write_db_result)
  next
    case None
    have "find_listing (ta_listingId a (pd_key p)) (ts_db s) = None" using r by (simp add: ready_def)
    note tops = list_again_tops_up [OF ok p q none None this, of u org]
    show ?thesis using tops none None top_ups_add(4)
      by (auto simp: top_up_existing_def write_db_result)
  qed
qed

lemma top_up_fresh_step:
  assumes ok: "market_ok (ts_db s)" and p: "p \<in> set CATALOG" and r: "ready a p (ts_db s)"
    and j: "jsonb_keeps (ta_env a)" and none: "lot_now p (ts_db s) = None"
  shows "(\<exists>e. top_up_fresh a False u org p s = Inl e \<and> image_fails a p)
    \<or> (\<exists>s'. top_up_fresh a False u org p s = Inr s' \<and> topped_up p (ts_db s) (ts_db s')
        \<and> adds_only a p (ts_db s) (ts_db s'))"
proof -
  obtain res s2 where img: "image_for a p (count_created s) = (res, s2)" by (cases "image_for a p (count_created s)")
  show ?thesis
  proof (cases res)
    case (Inl e)
    then show ?thesis using image_for_cases [OF img] img by (auto simp: top_up_fresh_def)
  next
    case (Inr url)
    let ?db = "ts_db s" and ?db2 = "ts_db s2"
    have same: "materialPassports ?db2 = materialPassports ?db" "listings ?db2 = listings ?db"
      "transactions ?db2 = transactions ?db" "orderEvents ?db2 = orderEvents ?db" "users ?db2 = users ?db"
      using image_for_cases [OF img] Inr by auto
    then have lots: "lots_in k ?db2 = lots_in k ?db" "same_lots k ?db ?db2" for k
      by (simp_all add: lots_in_def same_lots_def listings_in_def)
    have ok2: "market_ok ?db2" by (rule market_ok_same [OF _ ok]) (simp add: same_market_def same)
    have fresh: "find_passport (ta_passportId a (pd_key p)) ?db2 = None"
      "find_listing (ta_listingId a (pd_key p)) ?db2 = None" using r same by (simp_all add: ready_def)
    have none2: "lot_now p ?db2 = None" using none lots by (simp add: lot_now_None)
    note made = created_tops_up [OF ok2 p j none2 fresh, of url u org]
    have "same_lots k ?db (created_db a p url u org ?db2)" if "k \<noteq> pd_key p" for k
      using made that same_lots_trans [OF lots(2)] by (simp add: topped_up_def)
    then have "topped_up p ?db (created_db a p url u org ?db2)"
      using made lots(1) same unfolding topped_up_def by simp
    moreover have "adds_only a p ?db (created_db a p url u org ?db2)"
      using top_ups_add(5) [of a p ?db2 url u org] same by (simp add: adds_only_def)
    ultimately show ?thesis
      using img Inr create_lot_result [OF p fresh, of url u org] by (auto simp: top_up_fresh_def write_db_result)
  qed
qed

lemma top_up_step:
  assumes ok: "market_ok (ts_db s)" and p: "p \<in> set CATALOG" and r: "ready a p (ts_db s)"
    and j: "jsonb_keeps (ta_env a)" and same: "same_lots (pd_key p) db0 (ts_db s)"
  shows "(\<exists>e. top_up_product a False u org (curated_passports db0) (snapshot db0) p s = Inl e
        \<and> lot_now p db0 = None \<and> image_fails a p)
    \<or> (\<exists>s'. top_up_product a False u org (curated_passports db0) (snapshot db0) p s = Inr s'
        \<and> topped_up p (ts_db s) (ts_db s') \<and> adds_only a p (ts_db s) (ts_db s'))"
proof (cases "lot_now p (ts_db s)")
  case None
  then show ?thesis
    using top_up_fresh_step [OF ok p r j None, of u org] same_lots_lot_now [OF same]
    unfolding top_up_rereads [OF same] unfolding top_up_product_def snapshot_lot by auto
next
  case (Some q)
  then show ?thesis
    using top_up_existing_step [OF ok p r Some, of u org]
    unfolding top_up_rereads [OF same] unfolding top_up_product_def snapshot_lot by (simp add: snapshot_listings)
qed

definition drawn_ids :: "top_up_args \<Rightarrow> bool" where
  "drawn_ids a \<longleftrightarrow> distinct (map (\<lambda>p. ta_passportId a (pd_key p)) CATALOG)
     \<and> distinct (map (\<lambda>p. ta_listingId a (pd_key p)) CATALOG)"

lemma ready_later:
  assumes "drawn_ids a" and "p \<in> set CATALOG" and "q \<in> set CATALOG" and "pd_key q \<noteq> pd_key p"
    and "ready a q db" and "topped_up p db db'" and "adds_only a p db db'"
  shows "ready a q db'"
proof -
  have "p \<noteq> q" using assms(4) by auto
  then have "ta_passportId a (pd_key q) \<noteq> ta_passportId a (pd_key p)"
    "ta_listingId a (pd_key q) \<noteq> ta_listingId a (pd_key p)"
    using assms(1-3) unfolding drawn_ids_def distinct_map inj_on_def by blast+
  moreover have "listings_in (pd_key q) db' = listings_in (pd_key q) db"
    using assms(4,6) by (simp add: topped_up_def same_lots_def)
  ultimately show ?thesis using assms(5,7) unfolding ready_def adds_only_def find_row_None_iff by auto
qed

definition run_ok :: "product list \<Rightarrow> trace_db \<Rightarrow> trace_db \<Rightarrow> bool" where
  "run_ok ps db db' \<longleftrightarrow> market_ok db' \<and> transactions db' = transactions db \<and> users db' = users db
     \<and> (\<forall>p \<in> set ps. settled p db' \<and> length (lots_in (pd_key p) db') = max 1 (length (lots_in (pd_key p) db)))
     \<and> (\<forall>k. k \<notin> pd_key ` set ps \<longrightarrow> same_lots k db db')"

lemma run_ok_Cons:
  assumes first: "topped_up p db db1" and rest: "run_ok ps db1 db2" and p: "pd_key p \<notin> pd_key ` set ps"
  shows "run_ok (p # ps) db db2"
proof -
  have "same_lots (pd_key p) db1 db2" using rest p by (simp add: run_ok_def)
  then have "settled p db2" "lots_in (pd_key p) db2 = lots_in (pd_key p) db1"
    using first settled_same_lots by (auto simp: topped_up_def same_lots_def)
  moreover have "lots_in (pd_key q) db1 = lots_in (pd_key q) db" if "q \<in> set ps" for q
    using first p that unfolding topped_up_def same_lots_def by (metis imageI)
  ultimately show ?thesis
    using first rest same_lots_trans unfolding run_ok_def topped_up_def by auto
qed

lemma run_settles:
  assumes "distinct (map pd_key ps)" and "set ps \<subseteq> set CATALOG" and "drawn_ids a" and "jsonb_keeps (ta_env a)"
    and "market_ok (ts_db s)"
    and "\<And>p. p \<in> set ps \<Longrightarrow> ready a p (ts_db s) \<and> same_lots (pd_key p) db0 (ts_db s)"
  shows "case top_up_products a False u org (curated_passports db0) (snapshot db0) ps s of
      Inl e \<Rightarrow> \<exists>p \<in> set ps. lot_now p db0 = None \<and> image_fails a p
    | Inr s' \<Rightarrow> run_ok ps (ts_db s) (ts_db s')"
  using assms
proof (induction ps arbitrary: s)
  case Nil
  then show ?case by (simp add: run_ok_def)
next
  case (Cons p ps)
  have p: "p \<in> set CATALOG" "pd_key p \<notin> pd_key ` set ps" using Cons.prems(1,2) by auto
  have now: "ready a p (ts_db s)" "same_lots (pd_key p) db0 (ts_db s)" using Cons.prems(6) [of p] by auto
  consider e where "top_up_product a False u org (curated_passports db0) (snapshot db0) p s = Inl e"
      "lot_now p db0 = None" "image_fails a p"
    | s' where "top_up_product a False u org (curated_passports db0) (snapshot db0) p s = Inr s'"
      "topped_up p (ts_db s) (ts_db s')" "adds_only a p (ts_db s) (ts_db s')"
    using top_up_step [OF Cons.prems(5) p(1) now(1) Cons.prems(4) now(2), of u org] by blast
  then show ?case
  proof cases
    case 1
    then show ?thesis by simp
  next
    case (2 s')
    have "ready a q (ts_db s') \<and> same_lots (pd_key q) db0 (ts_db s')" if q: "q \<in> set ps" for q
    proof
      have ne: "pd_key q \<noteq> pd_key p" using p(2) imageI [OF q, of pd_key] by metis
      show "ready a q (ts_db s')"
        using ready_later [OF Cons.prems(3) p(1) _ ne _ 2(2,3)] Cons.prems(2) Cons.prems(6) [of q] q by auto
      show "same_lots (pd_key q) db0 (ts_db s')"
        using 2(2) ne Cons.prems(6) [of q] q same_lots_trans by (auto simp: topped_up_def)
    qed
    moreover have "market_ok (ts_db s')" using 2(2) by (simp add: topped_up_def)
    ultimately have "case top_up_products a False u org (curated_passports db0) (snapshot db0) ps s' of
        Inl e \<Rightarrow> \<exists>p \<in> set ps. lot_now p db0 = None \<and> image_fails a p
      | Inr s2 \<Rightarrow> run_ok ps (ts_db s') (ts_db s2)"
      using Cons.prems by (intro Cons.IH) auto
    then show ?thesis using 2(1) run_ok_Cons [OF 2(2) _ p(2)] by (auto split: sum.splits)
  qed
qed

text \<open>A run over settled products writes nothing.\<close>

lemma settled_run:
  "\<forall>p \<in> set ps. settled p db \<Longrightarrow>
    top_up_products a dryRun u org (curated_passports db) (snapshot db) ps s = Inr s"
proof (induction ps)
  case (Cons p ps)
  then obtain q l where q: "lot_now p db = Some q" "live_lot (of_passport (listings db) (p_id q)) = Some l"
    "l_status l = L_active \<longrightarrow> pd_quantity p \<le> l_quantityAvailable l" by (auto simp: settled_def)
  then have "top_up_product a dryRun u org (curated_passports db) (snapshot db) p s = Inr s"
    by (auto simp: top_up_product_def top_up_existing_def snapshot_lot snapshot_listings)
  then show ?case using Cons by simp
qed simp

subsection \<open>Property\<close>

text \<open>
  C32: A top-up leaves every catalogue product on sale in its lot size, or fully ordered, with one
  passport if it had none and never another one; the orders stay as they are, the marketplace stays
  consistent, and a second run (another clock, other ids, a preview or not) writes nothing. It
  fails only for an image that cannot be stored, of a product that has no passport yet.
\<close>

theorem a_top_up_settles_every_product:
  assumes ok: "market_ok db"
    and seller: "List.find (\<lambda>u. u_email u = ta_sellerEmail a) (users db) = Some u" "u_organisationId u = Some org"
    and ids: "drawn_ids a" and j: "jsonb_keeps (ta_env a)" and ready: "\<forall>p \<in> set CATALOG. ready a p db"
  shows "case demo_replenish a False (fs, db) of
      Inl e \<Rightarrow> \<exists>p \<in> set CATALOG. lot_now p db = None \<and> image_fails a p
    | Inr s' \<Rightarrow> market_ok (ts_db s') \<and> transactions (ts_db s') = transactions db
        \<and> (\<forall>p \<in> set CATALOG. settled p (ts_db s')
            \<and> length (lots_in (pd_key p) (ts_db s')) = max 1 (length (lots_in (pd_key p) db)))
        \<and> (\<forall>b dryRun. ta_sellerEmail b = ta_sellerEmail a \<longrightarrow>
            demo_replenish b dryRun (ts_files s', ts_db s') = Inr \<lparr> ts_files = ts_files s', ts_db = ts_db s',
              ts_imageUrls = Map.empty, ts_counts = \<lparr> tc_created = 0, tc_restocked = 0, tc_relisted = 0 \<rparr> \<rparr>)"
proof -
  let ?s0 = "\<lambda>fs db. \<lparr> ts_files = fs, ts_db = db, ts_imageUrls = Map.empty,
      ts_counts = \<lparr> tc_created = 0, tc_restocked = 0, tc_relisted = 0 \<rparr> \<rparr>"
  have run: "demo_replenish b dryRun (fs', db') = top_up_products b dryRun (u_id u) org
      (curated_passports db') (snapshot db') CATALOG (?s0 fs' db')"
    if "ta_sellerEmail b = ta_sellerEmail a" "users db' = users db" for b dryRun fs' db'
    using that seller by (simp add: demo_replenish_def snapshot_def Let_def)
  have "case demo_replenish a False (fs, db) of
      Inl e \<Rightarrow> \<exists>p \<in> set CATALOG. lot_now p db = None \<and> image_fails a p
    | Inr s' \<Rightarrow> run_ok CATALOG db (ts_db s')"
    using run_settles [OF catalogue_keys_distinct order_refl ids j, of "?s0 fs db" db "u_id u" org] ok ready
    unfolding run [OF refl refl] by (simp cong: sum.case_cong)
  moreover have "demo_replenish b dryRun (ts_files s', ts_db s') = Inr (?s0 (ts_files s') (ts_db s'))"
    if "run_ok CATALOG db (ts_db s')" "ta_sellerEmail b = ta_sellerEmail a" for b dryRun and s' :: top_up_state
    using that settled_run [of CATALOG "ts_db s'"] unfolding run_ok_def by (simp add: run)
  ultimately show ?thesis by (auto simp: run_ok_def split: sum.splits)
qed

text \<open>A demo whose seven products are all delisted.\<close>

definition delisted_lot :: "nat \<times> string \<Rightarrow> passport" where
  "delisted_lot n_key = (case n_key of (n, key) \<Rightarrow> sample_passport\<lparr> p_id := 10 + n,
     p_customAttributes := JObj [(''seedSource'', JStr SEED_TAG), (''catalogueKey'', JStr key)] \<rparr>)"

definition delisted_demo :: trace_db where
  "delisted_demo = sample_db\<lparr> materialPassports := map delisted_lot (enumerate 0 (map pd_key CATALOG)) \<rparr>"

definition place :: "string \<Rightarrow> nat" where
  "place k = length (takeWhile (\<lambda>k'. k' \<noteq> k) (map pd_key CATALOG))"

definition demo_args :: top_up_args where
  "demo_args = \<lparr> ta_env = sample_env, ta_sellerEmail = ''ann@example.org'', ta_imageFile = (\<lambda>_. None),
     ta_passportId = (\<lambda>k. 100 + place k), ta_listingId = (\<lambda>k. 200 + place k), ta_now = 9 \<rparr>"

lemma delisted_rows: "materialPassports delisted_demo = map delisted_lot (enumerate 0 (map pd_key CATALOG))"
  "listings delisted_demo = []" "transactions delisted_demo = []" "users delisted_demo = users sample_db"
  by (simp_all add: delisted_demo_def sample_db_def)

lemma delisted_ids: "map p_id (materialPassports delisted_demo) = [10, 11, 12, 13, 14, 15, 16]"
  unfolding delisted_rows catalogue_keys by (simp add: delisted_lot_def)

lemma delisted_demo_ok: "market_ok delisted_demo"
  unfolding market_ok_def keys_ok_def exclusive_def delisted_ids by (simp add: delisted_rows)

lemma delisted_ready: "ready demo_args p delisted_demo"
  unfolding ready_def find_row_None_iff set_map [symmetric] delisted_ids
  by (simp add: delisted_rows listings_in_def demo_args_def)

lemma enumerated: "x \<in> set xs \<Longrightarrow> \<exists>n. (n, x) \<in> set (enumerate 0 xs)"
  by (metis in_set_conv_nth in_set_enumerate_eq add_0 diff_zero fst_conv snd_conv le0 nth_enumerate_eq nth_mem length_enumerate)

lemma delisted_lots:
  assumes "p \<in> set CATALOG"
  shows "lot_now p delisted_demo \<noteq> None"
proof -
  have k: "pd_key p \<in> set (map pd_key CATALOG)" using assms by simp
  obtain n where "(n, pd_key p) \<in> set (enumerate 0 (map pd_key CATALOG))" using enumerated [OF k] by blast
  then have row: "delisted_lot (n, pd_key p) \<in> set (materialPassports delisted_demo)"
    unfolding delisted_rows list.set_map by (rule imageI)
  have "json_field ''seedSource'' (p_customAttributes (delisted_lot (n, pd_key p))) = Some (JStr SEED_TAG)"
    "json_field ''catalogueKey'' (p_customAttributes (delisted_lot (n, pd_key p))) = Some (JStr (pd_key p))"
    by (simp_all add: delisted_lot_def)
  moreover have "pd_key p \<in> CATALOGUE_KEYS" using k by (simp only: CATALOGUE_KEYS_def)
  ultimately have "key_of (delisted_lot (n, pd_key p)) = Some (pd_key p)" by (rule catalogueKeyOf_by_key)
  with row have "delisted_lot (n, pd_key p) \<in> set (lots_in (pd_key p) delisted_demo)"
    by (simp only: lots_in_def set_filter mem_Collect_eq)
  then show ?thesis unfolding lot_now_None by (cases "lots_in (pd_key p) delisted_demo") simp_all
qed

lemma demo_args_drawn: "drawn_ids demo_args"
proof -
  have "map (\<lambda>p. place (pd_key p)) CATALOG = map place (map pd_key CATALOG)" by simp
  also have "\<dots> = [0, 1, 2, 3, 4, 5, 6]" unfolding place_def catalogue_keys by simp
  finally have d: "distinct (map (\<lambda>p. place (pd_key p)) CATALOG)" by simp
  have "distinct (map (\<lambda>p. n + place (pd_key p)) CATALOG)" for n
    using d by (simp add: distinct_map inj_on_def)
  then show ?thesis by (simp add: drawn_ids_def demo_args_def)
qed

lemma sample_jsonb: "jsonb_keeps sample_env"
  by (simp add: jsonb_keeps_def sample_env_def)

theorem a_top_up_settles_every_product_witness:
  "\<exists>s'. demo_replenish demo_args False (no_files, delisted_demo) = Inr s' \<and> market_ok (ts_db s')
    \<and> settled kbriq (ts_db s')
    \<and> demo_replenish demo_args True (ts_files s', ts_db s') = Inr \<lparr> ts_files = ts_files s', ts_db = ts_db s',
        ts_imageUrls = Map.empty, ts_counts = \<lparr> tc_created = 0, tc_restocked = 0, tc_relisted = 0 \<rparr> \<rparr>"
proof -
  have seller: "List.find (\<lambda>u. u_email u = ta_sellerEmail demo_args) (users delisted_demo)
      = Some (sample_user 2 Supplier (Some 1))" "u_organisationId (sample_user 2 Supplier (Some 1)) = Some 1"
    by (simp_all add: delisted_rows sample_defs demo_args_def)
  have "jsonb_keeps (ta_env demo_args)" using sample_jsonb by (simp add: demo_args_def)
  moreover have "kbriq \<in> set CATALOG" by (simp add: CATALOG_def)
  ultimately show ?thesis
    using a_top_up_settles_every_product [OF delisted_demo_ok seller demo_args_drawn, of no_files]
      delisted_lots delisted_ready
    by (cases "demo_replenish demo_args False (no_files, delisted_demo)") fastforce+
qed

end
