(* ===== verification/Catalogue_Corrections.thy ===== *)
theory Catalogue_Corrections
  imports Catalogue_Lots "HOL-Library.AList"
begin

text \<open>
  \<open>packages/db/scripts/lib/catalogue-corrections.ts\<close>: which fields of a curated passport, and which
  terms of its lots, a correction brings up to the catalogue. \<open>Demo_Correct\<close> applies them to the
  tables. A correction is a record of optional new values; the new value of a nullable column is
  itself optional, so \<open>None\<close> leaves the column alone and \<open>Some None\<close> clears it.
\<close>

record catalogue_corrections =
  cc_productName :: "string option"
  cc_categoryL1 :: "string option"
  cc_categoryL2 :: "string option option"
  cc_reclaimedBy :: "string option option"
  cc_unitOfMeasure :: "string option option"
  cc_origin :: "passport_origin option option"
  cc_deconstructionMethod :: "string option option"
  cc_deconstructionDate :: bool
  cc_conditionNotes :: "string option"
  cc_customAttributes :: "json option"

definition no_corrections :: catalogue_corrections where
  "no_corrections = \<lparr> cc_productName = None, cc_categoryL1 = None, cc_categoryL2 = None,
     cc_reclaimedBy = None, cc_unitOfMeasure = None, cc_origin = None, cc_deconstructionMethod = None,
     cc_deconstructionDate = False, cc_conditionNotes = None, cc_customAttributes = None \<rparr>"

definition SUPERSEDED_CONDITION_NOTES :: "(string \<times> string list) list" where
  "SUPERSEDED_CONDITION_NOTES =
     [(''reclaimed-aerated-concrete-blocks'',
       [''Reclaimed aircrete blocks in good reusable condition. B grade.'']),
      (''reclaimed-facing-bricks'',
       [''Reclaimed perforated facing bricks, cleaned and palletised. B grade.''])]"

definition isCatalogueLot :: "passport \<Rightarrow> product \<Rightarrow> bool" where
  "isCatalogueLot r p \<longleftrightarrow>
     json_field ''catalogueKey'' (p_customAttributes r) = Some (JStr (pd_key p))
     \<or> json_field ''seedSource'' (p_customAttributes r) = Some (JStr SEED_TAG)
        \<and> isCatalogueName (p_productName r) p"

definition lot_suffix :: string where
  "lot_suffix = '' '' @ em_dash @ '' Demo Lot ''"

fun renamed_from :: "string list \<Rightarrow> product \<Rightarrow> string \<Rightarrow> string option" where
  "renamed_from [] p nm = None"
| "renamed_from (old # rest) p nm =
     (if nm = old then Some (productName p)
      else if startsWith nm (old @ lot_suffix) then Some (productName p @ drop (length old) nm)
      else renamed_from rest p nm)"

definition renamed :: "string \<Rightarrow> product \<Rightarrow> string option" where
  "renamed nm p = renamed_from (or_keep (map_of SUPERSEDED_PRODUCT_NAMES (pd_key p)) []) p nm"

text \<open>
  A field of \<open>CORRECTABLE_FIELDS\<close>: nothing if the product does not name it, else the product's
  value where the row differs. None of these fields depends on the clock, so they are read at 0.
\<close>

definition wanted :: "product \<Rightarrow> string \<Rightarrow> 'a option \<Rightarrow> 'a option option" where
  "wanted p field v =
     (if v \<noteq> None then Some v else if field \<in> set (pd_nulls p) then Some None else None)"

definition correction :: "'a option option \<Rightarrow> 'a option \<Rightarrow> 'a option option" where
  "correction want have =
     (case want of None \<Rightarrow> None | Some w \<Rightarrow> if have = w then None else Some w)"

text \<open>\<open>{ ...metadata, key: value }\<close>, with \<open>metadata ?? {}\<close>.\<close>

definition with_field :: "string \<Rightarrow> json \<Rightarrow> json \<Rightarrow> json" where
  "with_field k v j = (case j of JObj kvs \<Rightarrow> JObj (AList.update k v kvs) | _ \<Rightarrow> JObj [(k, v)])"

definition catalogueCorrections :: "passport \<Rightarrow> product \<Rightarrow> catalogue_corrections" where
  "catalogueCorrections r p =
     (let want = pd_passport p 0;
          current = pi_conditionNotes want
      in \<lparr> cc_productName = renamed (p_productName r) p,
           cc_categoryL1 = (case pi_categoryL1 want of
              None \<Rightarrow> None | Some w \<Rightarrow> if p_categoryL1 r = w then None else Some w),
           cc_categoryL2 = correction (wanted p ''categoryL2'' (pi_categoryL2 want)) (p_categoryL2 r),
           cc_reclaimedBy = correction (wanted p ''reclaimedBy'' (pi_reclaimedBy want)) (p_reclaimedBy r),
           cc_unitOfMeasure =
             correction (wanted p ''unitOfMeasure'' (pi_unitOfMeasure want)) (p_unitOfMeasure r),
           cc_origin = correction (wanted p ''origin'' (pi_origin want)) (p_origin r),
           cc_deconstructionMethod =
             correction (wanted p ''deconstructionMethod'' (pi_deconstructionMethod want))
               (p_deconstructionMethod r),
           cc_deconstructionDate =
             (wanted p ''deconstructionDate'' (pi_deconstructionDate want) = Some None
              \<and> p_deconstructionDate r \<noteq> None),
           cc_conditionNotes =
             (case p_conditionNotes r of
                None \<Rightarrow> None
              | Some notes \<Rightarrow>
                  if current \<noteq> None \<and> Some notes \<noteq> current
                     \<and> notes \<in> set (or_keep (map_of SUPERSEDED_CONDITION_NOTES (pd_key p)) [])
                  then current else None),
           cc_customAttributes =
             (if json_field ''catalogueKey'' (p_customAttributes r) = Some (JStr (pd_key p)) then None
              else Some (with_field ''catalogueKey'' (JStr (pd_key p)) (p_customAttributes r))) \<rparr>)"

text \<open>\<open>{ ...passport, ...corrections }\<close>.\<close>

definition corrected_row :: "catalogue_corrections \<Rightarrow> passport \<Rightarrow> passport" where
  "corrected_row c r = r\<lparr>
     p_productName := or_keep (cc_productName c) (p_productName r),
     p_categoryL1 := or_keep (cc_categoryL1 c) (p_categoryL1 r),
     p_categoryL2 := or_keep (cc_categoryL2 c) (p_categoryL2 r),
     p_reclaimedBy := or_keep (cc_reclaimedBy c) (p_reclaimedBy r),
     p_unitOfMeasure := or_keep (cc_unitOfMeasure c) (p_unitOfMeasure r),
     p_origin := or_keep (cc_origin c) (p_origin r),
     p_deconstructionMethod := or_keep (cc_deconstructionMethod c) (p_deconstructionMethod r),
     p_deconstructionDate := (if cc_deconstructionDate c then None else p_deconstructionDate r),
     p_conditionNotes := (case cc_conditionNotes c of None \<Rightarrow> p_conditionNotes r | Some n \<Rightarrow> Some n),
     p_customAttributes := or_keep (cc_customAttributes c) (p_customAttributes r) \<rparr>"

definition fingerprintChanges :: "api_env \<Rightarrow> passport \<Rightarrow> catalogue_corrections \<Rightarrow> bool" where
  "fingerprintChanges env r c \<longleftrightarrow> fingerprint env (corrected_row c r) \<noteq> fingerprint env r"

subsection \<open>The terms of a lot\<close>

definition pound_sign :: string where "pound_sign = [CHR 0xC2, CHR 0xA3]"

definition SUPERSEDED_LOT_NOTES :: "(string \<times> string list) list" where
  "SUPERSEDED_LOT_NOTES =
     [(''kbriq-medero-dark-grey'',
       [''From '' @ pound_sign @ ''3.60 each '' @ em_dash @ '' order quantity by arrangement.'']),
      (''sisalwool-100'',
       [''From '' @ pound_sign @ ''82 per pack '' @ em_dash @ '' order quantity by arrangement.''])]"

definition CORRECTABLE_LOT_STATUSES :: "listing_status list" where
  "CORRECTABLE_LOT_STATUSES = [L_active, L_reserved]"

record lot_corrections =
  lc_minOrderQuantity :: "int option"
  lc_shippingOptions :: "shipping_option list option"

definition superseded_note :: "product \<Rightarrow> shipping_option \<Rightarrow> bool" where
  "superseded_note p so \<longleftrightarrow> (case so_notes so of None \<Rightarrow> False
     | Some n \<Rightarrow> n \<in> set (or_keep (map_of SUPERSEDED_LOT_NOTES (pd_key p)) []))"

definition lotCorrections :: "listing \<Rightarrow> product \<Rightarrow> lot_corrections" where
  "lotCorrections l p =
     (if l_status l \<notin> set CORRECTABLE_LOT_STATUSES
      then \<lparr> lc_minOrderQuantity = None, lc_shippingOptions = None \<rparr>
      else
        let minimum = or_keep (pd_minOrderQuantity p) 1
        in \<lparr> lc_minOrderQuantity =
               (if l_minOrderQuantity l = 1 \<and> minimum > 1 \<and> minimum \<le> l_quantity l then Some minimum
                else None),
             lc_shippingOptions =
               (if list_ex (superseded_note p) (l_shippingOptions l)
                then Some (map (\<lambda>so. if superseded_note p so
                                     then so\<lparr> so_notes := Some (lotShippingNote p) \<rparr> else so)
                             (l_shippingOptions l))
                else None) \<rparr>)"

definition corrected_lot :: "lot_corrections \<Rightarrow> listing \<Rightarrow> listing" where
  "corrected_lot c l = l\<lparr> l_minOrderQuantity := or_keep (lc_minOrderQuantity c) (l_minOrderQuantity l),
     l_shippingOptions := or_keep (lc_shippingOptions c) (l_shippingOptions l) \<rparr>"

definition no_lot_corrections :: lot_corrections where
  "no_lot_corrections = \<lparr> lc_minOrderQuantity = None, lc_shippingOptions = None \<rparr>"

subsection \<open>A correction is complete at once\<close>

lemma correction_again [simp]: "correction w (or_keep (correction w h) h) = None"
  by (auto simp: correction_def split: option.splits)

text \<open>The catalogue's own texts are none of the superseded ones.\<close>

lemma superseded_names: "map_of SUPERSEDED_PRODUCT_NAMES k = Some olds \<Longrightarrow>
    olds = [''Reclaimed Aluminium Stud Walling'']"
  by (auto simp: SUPERSEDED_PRODUCT_NAMES_def split: if_splits)

lemma renamed_settles:
  assumes "p \<in> set CATALOG"
  shows "renamed (or_keep (renamed nm p) nm) p = None"
proof (cases "renamed nm p")
  case (Some new)
  then have stud: "pd_key p = ''reclaimed-aluminium-stud-walling''"
    by (auto simp: renamed_def SUPERSEDED_PRODUCT_NAMES_def split: if_splits)
  then have "p = stud_walling"
    by (intro catalogue_product_unique [OF assms]) (simp_all add: CATALOG_def stud_walling_def)
  then have "productName p = ''Surplus Aluminium Stud Walling''" by (simp add: productName_def stud_walling_def)
  moreover have "\<exists>rest. new = productName p @ rest"
    using Some stud by (auto simp: renamed_def SUPERSEDED_PRODUCT_NAMES_def split: if_splits)
  ultimately show ?thesis
    using Some stud by (auto simp: renamed_def SUPERSEDED_PRODUCT_NAMES_def startsWith_def)
qed simp

lemma notes_settle:
  assumes "cc_conditionNotes (catalogueCorrections r p) = Some n"
  shows "pi_conditionNotes (pd_passport p 0) = Some n"
  using assms by (auto simp: catalogueCorrections_def Let_def split: option.splits if_splits)

lemma corrections_settle:
  assumes p: "p \<in> set CATALOG"
    and key: "json_field ''catalogueKey'' attrs = Some (JStr (pd_key p))"
  shows "catalogueCorrections ((corrected_row (catalogueCorrections r p) r)\<lparr> p_customAttributes := attrs \<rparr>) p
    = no_corrections"
  using key renamed_settles [OF p, of "p_productName r"]
  by (simp add: catalogueCorrections_def corrected_row_def no_corrections_def Let_def
      split: option.splits)

lemma current_notes: "p \<in> set CATALOG \<Longrightarrow> so_notes so = Some (lotShippingNote p) \<Longrightarrow> \<not> superseded_note p so"
  by (auto simp: CATALOG_def superseded_note_def SUPERSEDED_LOT_NOTES_def)
    (simp_all add: catalogue_defs lotShippingNote_def pound_sign_def em_dash_def)

lemma lots_settle:
  assumes "p \<in> set CATALOG"
  shows "lotCorrections (corrected_lot (lotCorrections l p) l) p = no_lot_corrections"
  using current_notes [OF assms]
  by (auto simp: lotCorrections_def corrected_lot_def no_lot_corrections_def Let_def list_ex_iff)

end
