(* ===== verification/Demo_Correct.thy ===== *)
theory Demo_Correct
  imports Demo_Top_Up Catalogue_Corrections
begin

text \<open>
  \<open>packages/db/scripts/demo-correct-catalogue.ts\<close>: bringing the existing curated passports and
  their lots up to the catalogue. The script reads the curated passports once, the lots of each as
  it goes, and writes in one transaction; a passport whose fingerprint changes is marked pending if
  it was anchored and gets its new fingerprint otherwise. The printed text is left out.
\<close>

record correct_counts =
  co_corrected :: nat
  co_reanchor :: nat
  co_correctedLots :: nat

definition zero_counts :: correct_counts where
  "zero_counts = \<lparr> co_corrected = 0, co_reanchor = 0, co_correctedLots = 0 \<rparr>"

type_synonym correct_state = "correct_counts \<times> trace_db"

definition correct_lot :: "bool \<Rightarrow> product \<Rightarrow> listing \<Rightarrow> correct_state \<Rightarrow> correct_state" where
  "correct_lot dryRun p l s =
     (let fixes = lotCorrections l p
      in if fixes = no_lot_corrections then s
         else ((fst s)\<lparr> co_correctedLots := Suc (co_correctedLots (fst s)) \<rparr>,
               if dryRun then snd s
               else listings_update (update_rows l_id (l_id l) (corrected_lot fixes)) (snd s)))"

definition correct_lots :: "bool \<Rightarrow> product \<Rightarrow> uuid \<Rightarrow> correct_state \<Rightarrow> correct_state" where
  "correct_lots dryRun p passportId s =
     fold (correct_lot dryRun p) (of_passport (listings (snd s)) passportId) s"

text \<open>The values as the columns store them.\<close>

definition stored_corrections :: "api_env \<Rightarrow> catalogue_corrections \<Rightarrow> catalogue_corrections" where
  "stored_corrections env c =
     c\<lparr> cc_customAttributes := map_option (jsonbValue env) (cc_customAttributes c) \<rparr>"

definition unanchored :: "passport \<Rightarrow> passport" where
  "unanchored r = r\<lparr> p_blockchainPassportHash := None, p_blockchainTxHash := None,
     p_blockchainAnchoredAt := None \<rparr>"

definition correct_passport ::
  "api_env \<Rightarrow> time \<Rightarrow> bool \<Rightarrow> product \<Rightarrow> passport \<Rightarrow> correct_state \<Rightarrow> correct_state outcome" where
  "correct_passport env now dryRun p r s =
     (let c = catalogueCorrections r p
      in if c = no_corrections then Inr s
         else
           let anchored = given (p_blockchainTxHash r);
               changes = fingerprintChanges env r c;
               n = fst s;
               n1 = n\<lparr> co_corrected := Suc (co_corrected n),
                       co_reanchor := (if anchored \<and> changes then Suc (co_reanchor n) else co_reanchor n) \<rparr>
           in if dryRun then Inr (n1, snd s)
              else
                let db1 = update_passport (p_id r)
                            (\<lambda>x. (corrected_row (stored_corrections env c) x)\<lparr> p_updatedAt := now \<rparr>) (snd s)
                in if \<not> changes then Inr (n1, db1)
                   else if anchored then Inr (n1, update_passport (p_id r) unanchored db1)
                   else case find_passport (p_id r) db1 of
                     None \<Rightarrow> Inl PlainError
                   | Some persisted \<Rightarrow> Inr (n1, update_passport (p_id r)
                       (\<lambda>x. x\<lparr> p_blockchainPassportHash := Some (fingerprint env persisted),
                              p_blockchainAnchoredAt := Some (or_keep (p_blockchainAnchoredAt r) now) \<rparr>) db1))"

fun correct_all ::
  "api_env \<Rightarrow> time \<Rightarrow> bool \<Rightarrow> (product \<times> passport) list \<Rightarrow> correct_state \<Rightarrow> correct_state outcome" where
  "correct_all env now dryRun [] s = Inr s"
| "correct_all env now dryRun ((p, r) # rest) s =
     (case correct_passport env now dryRun p r (correct_lots dryRun p (p_id r) s) of
        Inl e \<Rightarrow> Inl e
      | Inr s' \<Rightarrow> correct_all env now dryRun rest s')"

definition correction_pairs :: "trace_db \<Rightarrow> (product \<times> passport) list" where
  "correction_pairs db =
     concat (map (\<lambda>p. map (Pair p) (filter (\<lambda>r. isCatalogueLot r p) (curated_passports db))) CATALOG)"

definition demo_correct_catalogue :: "api_env \<Rightarrow> time \<Rightarrow> bool \<Rightarrow> trace_db \<Rightarrow> correct_state outcome" where
  "demo_correct_catalogue env now dryRun db =
     correct_all env now dryRun (correction_pairs db) (zero_counts, db)"

subsection \<open>The lots of one passport\<close>

lemma no_lot_fix [simp]: "corrected_lot no_lot_corrections l = l"
  by (simp add: corrected_lot_def no_lot_corrections_def)

lemma no_passport_fix [simp]: "corrected_row no_corrections r = r"
  by (simp add: corrected_row_def no_corrections_def)

definition lot_fixed :: "product \<Rightarrow> listing \<Rightarrow> listing" where
  "lot_fixed p l = corrected_lot (lotCorrections l p) l"

lemma lot_fixed_same [simp]:
  "l_id (lot_fixed p l) = l_id l" "l_passportId (lot_fixed p l) = l_passportId l"
  "l_status (lot_fixed p l) = l_status l" "l_quantity (lot_fixed p l) = l_quantity l"
  "l_quantityAvailable (lot_fixed p l) = l_quantityAvailable l"
  "l_pricePence (lot_fixed p l) = l_pricePence l" "l_expiresAt (lot_fixed p l) = l_expiresAt l"
  by (simp_all add: lot_fixed_def corrected_lot_def)

lemma listings_update_same: "f (listings db) = listings db \<Longrightarrow> listings_update f db = db"
  by (cases db) simp

lemma correct_lot_db:
  "snd (correct_lot False p l s) = listings_update (update_rows l_id (l_id l) (corrected_lot (lotCorrections l p))) (snd s)"
proof (cases "lotCorrections l p = no_lot_corrections")
  case True
  have "listings_update (update_rows l_id (l_id l) (corrected_lot no_lot_corrections)) (snd s) = snd s"
    by (rule listings_update_same) (auto simp: update_rows_def intro!: map_idI)
  then show ?thesis using True by (simp add: correct_lot_def)
qed (simp add: correct_lot_def)

lemma fold_lots:
  assumes "distinct (map l_id (listings db))" and "\<And>l. l \<in> set ls \<Longrightarrow> l \<in> set (listings db)" and "distinct ls"
    and "s = (n, listings_update (map (\<lambda>l. if l \<in> set dn then lot_fixed p l else l)) db)"
    and "set dn \<inter> set ls = {}" and "set dn \<subseteq> set (listings db)"
  shows "snd (fold (correct_lot False p) ls s)
    = listings_update (map (\<lambda>l. if l \<in> set ls \<union> set dn then lot_fixed p l else l)) db"
  using assms
proof (induction ls arbitrary: dn n s)
  case (Cons l ls)
  let ?f = "\<lambda>dn l. if l \<in> set dn then lot_fixed p l else l"
  have l: "l \<in> set (listings db)" "l \<notin> set dn" using Cons.prems by auto
  have row: "(if l_id (?f dn x) = l_id l then corrected_lot (lotCorrections l p) (?f dn x) else ?f dn x) = ?f (l # dn) x"
    if "x \<in> set (listings db)" for x
  proof -
    have "l_id x = l_id l \<longleftrightarrow> x = l" using Cons.prems(1) l(1) that by (auto simp: distinct_map inj_on_def)
    then show ?thesis using l(2) by (auto simp: lot_fixed_def [symmetric])
  qed
  have "update_rows l_id (l_id l) (corrected_lot (lotCorrections l p)) (map (?f dn) (listings db))
      = map (?f (l # dn)) (listings db)"
    unfolding update_rows_def using row by (simp del: set_simps)
  then have "snd (correct_lot False p l s) = listings_update (map (?f (l # dn))) db"
    unfolding correct_lot_db Cons.prems(4) by (cases db) simp
  then have "correct_lot False p l s = (fst (correct_lot False p l s), listings_update (map (?f (l # dn))) db)"
    by (metis prod.collapse)
  from Cons.IH [OF Cons.prems(1) _ _ this] show ?case using Cons.prems by simp
qed simp

lemma correct_lots_db:
  assumes "distinct (map l_id (listings (snd s)))"
  shows "snd (correct_lots False p i s)
    = listings_update (map (\<lambda>l. if l_passportId l = i then lot_fixed p l else l)) (snd s)"
proof -
  have "snd (fold (correct_lot False p) (of_passport (listings (snd s)) i) s)
    = listings_update (map (\<lambda>l. if l \<in> set (of_passport (listings (snd s)) i) \<union> set [] then lot_fixed p l else l)) (snd s)"
  proof (rule fold_lots [OF assms])
    show "s = (fst s, listings_update (map (\<lambda>l. if l \<in> set [] then lot_fixed p l else l)) (snd s))"
      by (simp add: listings_update_same)
  qed (use assms in \<open>auto simp: of_passport_def distinct_map\<close>)
  also have "\<dots> = listings_update (map (\<lambda>l. if l_passportId l = i then lot_fixed p l else l)) (snd s)"
    by (cases "snd s") (simp add: of_passport_def)
  finally show ?thesis by (simp add: correct_lots_def)
qed

subsection \<open>One passport\<close>

text \<open>The row a passport is left with.\<close>

definition corrected_passport :: "api_env \<Rightarrow> time \<Rightarrow> product \<Rightarrow> passport \<Rightarrow> passport" where
  "corrected_passport env now p r =
     (let c = catalogueCorrections r p;
          x = (corrected_row (stored_corrections env c) r)\<lparr> p_updatedAt := now \<rparr>
      in if c = no_corrections then r
         else if \<not> fingerprintChanges env r c then x
         else if given (p_blockchainTxHash r) then unanchored x
         else x\<lparr> p_blockchainPassportHash := Some (fingerprint env x),
                 p_blockchainAnchoredAt := Some (or_keep (p_blockchainAnchoredAt r) now) \<rparr>)"

lemma corrected_row_same [simp]:
  "p_id (corrected_row c r) = p_id r" "p_status (corrected_row c r) = p_status r"
  "p_organisationId (corrected_row c r) = p_organisationId r"
  "p_conditionGrade (corrected_row c r) = p_conditionGrade r"
  "p_conditionPhotos (corrected_row c r) = p_conditionPhotos r"
  "p_serialNumber (corrected_row c r) = p_serialNumber r"
  "p_blockchainPassportHash (corrected_row c r) = p_blockchainPassportHash r"
  "p_blockchainTxHash (corrected_row c r) = p_blockchainTxHash r"
  by (simp_all add: corrected_row_def)

lemma unanchored_same [simp]:
  "p_id (unanchored r) = p_id r" "p_status (unanchored r) = p_status r"
  "p_organisationId (unanchored r) = p_organisationId r"
  "p_conditionGrade (unanchored r) = p_conditionGrade r"
  "p_conditionPhotos (unanchored r) = p_conditionPhotos r"
  "p_serialNumber (unanchored r) = p_serialNumber r" "p_customAttributes (unanchored r) = p_customAttributes r"
  "p_productName (unanchored r) = p_productName r" "p_blockchainPassportHash (unanchored r) = None"
  "p_blockchainTxHash (unanchored r) = None"
  by (simp_all add: unanchored_def)

lemma corrected_passport_same [simp]:
  "p_id (corrected_passport env now p r) = p_id r" "p_status (corrected_passport env now p r) = p_status r"
  "p_organisationId (corrected_passport env now p r) = p_organisationId r"
  "p_conditionGrade (corrected_passport env now p r) = p_conditionGrade r"
  "p_conditionPhotos (corrected_passport env now p r) = p_conditionPhotos r"
  "p_serialNumber (corrected_passport env now p r) = p_serialNumber r"
  by (simp_all add: corrected_passport_def Let_def)

lemma fingerprint_attributes [simp]:
  "computePassportHash h t (r\<lparr> p_customAttributes := a \<rparr>) = computePassportHash h t r"
  by (simp add: computePassportHash_def buildCanonicalJsonLd_def canonical_fields_def)

lemma fingerprint_stored [simp]:
  "fingerprint env (corrected_row (stored_corrections env c) r) = fingerprint env (corrected_row c r)"
proof -
  have "corrected_row (stored_corrections env c) r = (corrected_row c r)\<lparr> p_customAttributes :=
      or_keep (cc_customAttributes (stored_corrections env c)) (p_customAttributes r) \<rparr>"
    by (simp add: corrected_row_def stored_corrections_def)
  then show ?thesis by simp
qed

text \<open>A correction leaves no stale fingerprint.\<close>

lemma corrected_passport_fits:
  assumes "fits env r"
  shows "fits env (corrected_passport env now p r)"
  using assms by (auto simp: corrected_passport_def fits_def fingerprintChanges_def Let_def)

lemma update_rows_twice:
  "(\<And>r. key (f r) = key r) \<Longrightarrow>
    update_rows key k g (update_rows key k f rows) = update_rows key k (\<lambda>r. g (f r)) rows"
  by (induction rows) auto

lemma update_passport_twice:
  "(\<And>r. p_id (f r) = p_id r) \<Longrightarrow>
    update_passport i g (update_passport i f db) = update_passport i (\<lambda>r. g (f r)) db"
  by (cases db) (simp add: update_passport_def update_rows_twice)

lemma update_passport_row:
  assumes "distinct (map p_id (materialPassports db))" and "find_passport (p_id r) db = Some r" and "f r = g r"
  shows "update_passport (p_id r) f db = update_passport (p_id r) g db"
proof -
  have "r \<in> set (materialPassports db)" using find_row_SomeD [OF assms(2)] by simp
  from update_rows_cong_row [OF assms(1) this, of f g] assms(3)
  show ?thesis by (cases db) (simp add: update_passport_def)
qed

lemma update_passport_none:
  assumes "distinct (map p_id (materialPassports db))" and "find_passport (p_id r) db = Some r"
  shows "update_passport (p_id r) (\<lambda>_. r) db = db"
proof -
  have "update_passport (p_id r) (\<lambda>x. x) db = db"
    by (cases db) (simp add: update_passport_def update_rows_def)
  then show ?thesis using update_passport_row [OF assms, of "\<lambda>_. r" "\<lambda>x. x"] by simp
qed

lemma correct_passport_result:
  assumes ids: "distinct (map p_id (materialPassports (snd s)))" and r: "find_passport (p_id r) (snd s) = Some r"
  shows "\<exists>n. correct_passport env now False p r s
    = Inr (n, update_passport (p_id r) (\<lambda>_. corrected_passport env now p r) (snd s))"
proof -
  let ?c = "catalogueCorrections r p"
  let ?f = "\<lambda>x. (corrected_row (stored_corrections env ?c) x)\<lparr> p_updatedAt := now \<rparr>"
  note row = update_passport_row [OF ids r, where g = "\<lambda>_. corrected_passport env now p r"]
  consider "?c = no_corrections" | "?c \<noteq> no_corrections" "\<not> fingerprintChanges env r ?c"
    | "?c \<noteq> no_corrections" "fingerprintChanges env r ?c" "given (p_blockchainTxHash r)"
    | "?c \<noteq> no_corrections" "fingerprintChanges env r ?c" "\<not> given (p_blockchainTxHash r)" by blast
  then show ?thesis
  proof cases
    case 1
    then have same: "corrected_passport env now p r = r" by (simp add: corrected_passport_def)
    show ?thesis unfolding same update_passport_none [OF ids r] using 1
      by (cases s) (simp add: correct_passport_def)
  next
    case 2
    have "update_passport (p_id r) ?f (snd s) = update_passport (p_id r) (\<lambda>_. corrected_passport env now p r) (snd s)"
      by (rule row) (use 2 in \<open>simp add: corrected_passport_def\<close>)
    then show ?thesis using 2 by (simp add: correct_passport_def Let_def)
  next
    case 3
    have "update_passport (p_id r) unanchored (update_passport (p_id r) ?f (snd s))
        = update_passport (p_id r) (\<lambda>_. corrected_passport env now p r) (snd s)"
      unfolding update_passport_twice [where f = ?f, simplified]
      by (rule row) (use 3 in \<open>simp add: corrected_passport_def\<close>)
    then show ?thesis using 3 by (simp add: correct_passport_def Let_def)
  next
    case 4
    let ?g = "\<lambda>x. x\<lparr> p_blockchainPassportHash := Some (fingerprint env (?f r)),
        p_blockchainAnchoredAt := Some (or_keep (p_blockchainAnchoredAt r) now) \<rparr>"
    have "update_passport (p_id r) ?g (update_passport (p_id r) ?f (snd s))
        = update_passport (p_id r) (\<lambda>_. corrected_passport env now p r) (snd s)"
      unfolding update_passport_twice [where f = ?f, simplified]
      by (rule row) (use 4 in \<open>simp add: corrected_passport_def Let_def\<close>)
    then show ?thesis using 4 r by (simp add: correct_passport_def Let_def)
  qed
qed

subsection \<open>The whole run\<close>

definition product_for :: "(product \<times> passport) list \<Rightarrow> uuid \<Rightarrow> product option" where
  "product_for pairs i = map_of (map (\<lambda>(p, r). (p_id r, p)) pairs) i"

definition final_passport :: "api_env \<Rightarrow> time \<Rightarrow> (product \<times> passport) list \<Rightarrow> passport \<Rightarrow> passport" where
  "final_passport env now pairs r = (case product_for pairs (p_id r) of
     None \<Rightarrow> r | Some p \<Rightarrow> corrected_passport env now p r)"

definition final_lot :: "(product \<times> passport) list \<Rightarrow> listing \<Rightarrow> listing" where
  "final_lot pairs l = (case product_for pairs (l_passportId l) of None \<Rightarrow> l | Some p \<Rightarrow> lot_fixed p l)"

definition final_db :: "api_env \<Rightarrow> time \<Rightarrow> (product \<times> passport) list \<Rightarrow> trace_db \<Rightarrow> trace_db" where
  "final_db env now pairs db =
     materialPassports_update (map (final_passport env now pairs)) (listings_update (map (final_lot pairs)) db)"

lemma final_same [simp]:
  "p_id (final_passport env now pairs r) = p_id r" "l_id (final_lot pairs l) = l_id l"
  "l_passportId (final_lot pairs l) = l_passportId l"
  by (simp_all add: final_passport_def final_lot_def split: option.splits)

lemma find_row_map: "(\<And>r. key (f r) = key r) \<Longrightarrow> find_row key k (map f rows) = map_option f (find_row key k rows)"
  by (induction rows) auto

definition once_done :: "api_env \<Rightarrow> time \<Rightarrow> product \<Rightarrow> passport \<Rightarrow> trace_db \<Rightarrow> trace_db" where
  "once_done env now p r db = update_passport (p_id r) (\<lambda>_. corrected_passport env now p r)
     (listings_update (map (\<lambda>l. if l_passportId l = p_id r then lot_fixed p l else l)) db)"

lemma correct_once:
  assumes "distinct (map l_id (listings db))" and "distinct (map p_id (materialPassports db))"
    and "find_passport (p_id r) db = Some r"
  shows "\<exists>n'. correct_passport env now False p r (correct_lots False p (p_id r) (n, db)) = Inr (n', once_done env now p r db)"
  using correct_passport_result [of "correct_lots False p (p_id r) (n, db)" r env now p]
    correct_lots_db [of "(n, db)" p "p_id r"] assms
  by (simp add: once_done_def)

lemma two_updates:
  "materialPassports_update f (listings_update g (materialPassports_update f' (listings_update g' db)))
    = materialPassports_update (\<lambda>x. f (f' x)) (listings_update (\<lambda>x. g (g' x)) db)"
  by (cases db) simp

lemma two_updates_cong:
  "f (materialPassports db) = f' (materialPassports db) \<Longrightarrow> g (listings db) = g' (listings db) \<Longrightarrow>
    materialPassports_update f (listings_update g db) = materialPassports_update f' (listings_update g' db)"
  by (cases db) simp

lemma product_for_absent: "i \<notin> (\<lambda>(p, r). p_id r) ` set pairs \<Longrightarrow> product_for pairs i = None"
  by (force simp: product_for_def map_of_eq_None_iff image_iff)

lemma final_once:
  assumes ids: "distinct (map p_id (materialPassports db))" and r: "find_passport (p_id r) db = Some r"
    and new: "p_id r \<notin> (\<lambda>(p, r). p_id r) ` set pairs"
  shows "final_db env now pairs (once_done env now p r db) = final_db env now ((p, r) # pairs) db"
proof -
  have first: "product_for ((p, r) # pairs) i = (if i = p_id r then Some p else product_for pairs i)" for i
    by (simp add: product_for_def)
  have none: "product_for pairs (p_id r) = None" by (rule product_for_absent [OF new])
  have lots: "final_lot pairs (if l_passportId l = p_id r then lot_fixed p l else l) = final_lot ((p, r) # pairs) l" for l
    by (simp add: final_lot_def first none)
  have passports: "final_passport env now pairs (if p_id x = p_id r then corrected_passport env now p r else x)
      = final_passport env now ((p, r) # pairs) x" if x: "x \<in> set (materialPassports db)" for x
  proof (cases "p_id x = p_id r")
    case True
    then have "x = r" using find_row_distinct [OF ids x] r by (metis option.inject)
    then show ?thesis by (simp add: final_passport_def first none)
  qed (simp add: final_passport_def first)
  have "map (final_passport env now pairs) (update_rows p_id (p_id r) (\<lambda>_. corrected_passport env now p r)
      (materialPassports db)) = map (final_passport env now ((p, r) # pairs)) (materialPassports db)"
    unfolding update_rows_def map_map o_def by (rule map_cong [OF refl passports])
  moreover have "map (final_lot pairs) (map (\<lambda>l. if l_passportId l = p_id r then lot_fixed p l else l) (listings db))
      = map (final_lot ((p, r) # pairs)) (listings db)"
    unfolding map_map o_def lots ..
  ultimately show ?thesis
    unfolding final_db_def once_done_def update_passport_def two_updates by (rule two_updates_cong)
qed

lemma find_update_value:
  "key v = k \<Longrightarrow> j \<noteq> k \<Longrightarrow> find_row key j (update_rows key k (\<lambda>_. v) rows) = find_row key j rows"
  by (induction rows) auto

lemma correct_all_result:
  assumes "distinct (map (\<lambda>(p, r). p_id r) pairs)"
    and "\<And>p r. (p, r) \<in> set pairs \<Longrightarrow> find_passport (p_id r) db = Some r"
    and "distinct (map l_id (listings db))" and "distinct (map p_id (materialPassports db))"
  shows "\<exists>n'. correct_all env now False pairs (n, db) = Inr (n', final_db env now pairs db)"
  using assms
proof (induction pairs arbitrary: n db)
  case Nil
  have "final_db env now [] db = db"
    by (cases db) (simp add: final_db_def final_passport_def [abs_def] final_lot_def [abs_def] product_for_def)
  then show ?case by simp
next
  case (Cons pr pairs)
  obtain p r where pr: "pr = (p, r)" by (cases pr)
  note r = Cons.prems(2) [of p r, simplified pr, simplified]
  obtain n1 where step: "correct_passport env now False p r (correct_lots False p (p_id r) (n, db))
      = Inr (n1, once_done env now p r db)"
    using correct_once [OF Cons.prems(3,4) r] by blast
  have new: "p_id r \<notin> (\<lambda>(p, r). p_id r) ` set pairs" using Cons.prems(1) by (simp add: pr)
  have kept: "map l_id (listings (once_done env now p r db)) = map l_id (listings db)"
    "map p_id (materialPassports (once_done env now p r db)) = map p_id (materialPassports db)"
    by (simp_all add: once_done_def update_passport_def update_rows_def)
  have "\<exists>n2. correct_all env now False pairs (n1, once_done env now p r db)
      = Inr (n2, final_db env now pairs (once_done env now p r db))"
  proof (rule Cons.IH)
    fix q y assume y: "(q, y) \<in> set pairs"
    then have "p_id y \<noteq> p_id r" using new by force
    then have "find_passport (p_id y) (once_done env now p r db) = find_passport (p_id y) db"
      by (simp add: once_done_def update_passport_def find_update_value)
    then show "find_passport (p_id y) (once_done env now p r db) = Some y"
      using Cons.prems(2) [of q y] y by simp
  qed (use Cons.prems(1,3,4) kept in simp_all)
  then show ?case using step final_once [OF Cons.prems(4) r new] by (auto simp: pr)
qed

text \<open>Nothing to correct: nothing written, nothing counted.\<close>

lemma correct_nothing:
  assumes "\<And>p r. (p, r) \<in> set pairs \<Longrightarrow> catalogueCorrections r p = no_corrections"
    and "\<And>p r l. (p, r) \<in> set pairs \<Longrightarrow> l \<in> set (listings (snd s)) \<Longrightarrow> l_passportId l = p_id r \<Longrightarrow>
      lotCorrections l p = no_lot_corrections"
  shows "correct_all env now dryRun pairs s = Inr s"
  using assms
proof (induction pairs)
  case (Cons pr pairs)
  obtain p r where pr: "pr = (p, r)" by (cases pr)
  have "fold (correct_lot dryRun p) ls s = s" if "\<forall>l \<in> set ls. lotCorrections l p = no_lot_corrections" for ls
    using that by (induction ls) (simp_all add: correct_lot_def)
  moreover have "\<forall>l \<in> set (of_passport (listings (snd s)) (p_id r)). lotCorrections l p = no_lot_corrections"
    using Cons.prems(2) [of p r] by (auto simp: of_passport_def pr)
  ultimately have "correct_lots dryRun p (p_id r) s = s" by (simp add: correct_lots_def)
  moreover have "catalogueCorrections r p = no_corrections" using Cons.prems(1) by (simp add: pr)
  moreover have "correct_all env now dryRun pairs s = Inr s"
  proof (rule Cons.IH)
    show "lotCorrections l q = no_lot_corrections"
      if "(q, x) \<in> set pairs" "l \<in> set (listings (snd s))" "l_passportId l = p_id x" for q x l
      using Cons.prems(2) [of q x l] that by simp
  qed (use Cons.prems(1) in auto)
  ultimately show ?case by (simp add: pr correct_passport_def)
qed simp

subsection \<open>What a run keeps\<close>

text \<open>No curated passport is taken for a lot of two products.\<close>

definition unambiguous :: "trace_db \<Rightarrow> bool" where
  "unambiguous db \<longleftrightarrow> (\<forall>r \<in> set (curated_passports db). \<forall>p \<in> set CATALOG. \<forall>q \<in> set CATALOG.
     isCatalogueLot r p \<and> isCatalogueLot r q \<longrightarrow> p = q)"

lemma in_correction_pairs:
  "(p, r) \<in> set (correction_pairs db) \<longleftrightarrow>
    p \<in> set CATALOG \<and> r \<in> set (curated_passports db) \<and> isCatalogueLot r p"
  by (auto simp: correction_pairs_def)

lemma distinct_groups:
  assumes "distinct ps" and "\<And>p. p \<in> set ps \<Longrightarrow> distinct (map f (g p))"
    and "\<And>p q x. p \<in> set ps \<Longrightarrow> q \<in> set ps \<Longrightarrow> x \<in> f ` set (g p) \<Longrightarrow> x \<in> f ` set (g q) \<Longrightarrow> p = q"
  shows "distinct (concat (map (\<lambda>p. map f (g p)) ps))"
  using assms
proof (induction ps)
  case (Cons p ps)
  have "distinct (concat (map (\<lambda>p. map f (g p)) ps))" by (rule Cons.IH) (use Cons.prems in auto)
  moreover have False if "q \<in> set ps" "x \<in> f ` set (g p)" "x \<in> f ` set (g q)" for q x
    using Cons.prems(3) [of p q x] Cons.prems(1) that by auto
  ultimately show ?case using Cons.prems(2) [of p] by auto
qed simp

lemma pairs_distinct:
  assumes ids: "distinct (map p_id (materialPassports db))" and un: "unambiguous db"
  shows "distinct (map (\<lambda>(p, r). p_id r) (correction_pairs db))"
proof -
  let ?rows = "\<lambda>p. filter (\<lambda>r. isCatalogueLot r p) (curated_passports db)"
  have cur: "distinct (map p_id (curated_passports db))"
    using ids by (simp add: curated_passports_def distinct_map_filter)
  have "map (\<lambda>(p, r). p_id r) (correction_pairs db) = concat (map (\<lambda>p. map p_id (?rows p)) CATALOG)"
    by (simp add: correction_pairs_def map_concat o_def)
  also have "distinct \<dots>"
  proof (rule distinct_groups)
    show "distinct CATALOG" using catalogue_keys_distinct by (simp only: distinct_map)
    show "distinct (map p_id (?rows p))" for p using cur by (rule distinct_map_filter)
    fix p q x assume p: "p \<in> set CATALOG" "q \<in> set CATALOG"
      and "x \<in> p_id ` set (?rows p)" "x \<in> p_id ` set (?rows q)"
    then obtain r r' where r: "r \<in> set (?rows p)" "r' \<in> set (?rows q)" "p_id r = p_id r'" by auto
    then have "r = r'" using cur by (simp add: distinct_map inj_on_def)
    then show "p = q" using r p un unfolding unambiguous_def by auto
  qed
  finally show ?thesis .
qed

lemma curated_in: "r \<in> set (curated_passports db) \<Longrightarrow> r \<in> set (materialPassports db)"
  by (simp add: curated_passports_def)

lemma product_for_pairs:
  assumes ids: "distinct (map p_id (materialPassports db))" and r: "r \<in> set (materialPassports db)"
  shows "product_for (correction_pairs db) (p_id r) = Some p \<Longrightarrow> (p, r) \<in> set (correction_pairs db)"
    and "product_for (correction_pairs db) (p_id r) = None \<Longrightarrow> (p, r) \<notin> set (correction_pairs db)"
proof -
  assume "product_for (correction_pairs db) (p_id r) = Some p"
  then have "(p_id r, p) \<in> set (map (\<lambda>(p, r). (p_id r, p)) (correction_pairs db))"
    unfolding product_for_def by (rule map_of_SomeD)
  then obtain r' where r': "(p, r') \<in> set (correction_pairs db)" "p_id r' = p_id r" by auto
  then have "r' \<in> set (materialPassports db)" by (simp add: in_correction_pairs curated_in)
  then show "(p, r) \<in> set (correction_pairs db)"
    using r' ids r by (metis distinct_map inj_onD)
next
  assume "product_for (correction_pairs db) (p_id r) = None"
  then show "(p, r) \<notin> set (correction_pairs db)" by (force simp: product_for_def map_of_eq_None_iff)
qed

lemma market_ok_lots:
  assumes ok: "market_ok db"
    and f: "\<And>l. l_id (f l) = l_id l \<and> l_passportId (f l) = l_passportId l \<and> l_status (f l) = l_status l
      \<and> l_quantity (f l) = l_quantity l \<and> l_quantityAvailable (f l) = l_quantityAvailable l"
    and terms: "\<And>l. l \<in> set (listings db) \<Longrightarrow> terms_ok (f l)"
  shows "market_ok (listings_update (map f) db)"
proof -
  let ?db = "listings_update (map f) db"
  have lv: "live (f l) = live l" for l using f by (simp add: live_def)
  have counts: "openOrders i ?db = openOrders i db" "taken i ?db = taken i db" for i
    by (simp_all add: openOrders_def taken_def)
  have "listing_ok ?db (f l)" if "listing_ok db l" "terms_ok (f l)" for l
    using that f [of l] lv [of l]
    by (simp add: listing_ok_def stock_ok_def status_ok_def passport_agrees_def counts)
  moreover have "order_ok ?db t" if "order_ok db t" for t
    using that f by (simp add: order_ok_def find_row_map)
  moreover have "keys_ok ?db" using ok f by (simp add: market_ok_def keys_ok_def o_def)
  moreover have "exclusive ?db"
  proof -
    have ex: "exclusive db" using ok by (simp add: market_ok_def)
    show ?thesis
      unfolding exclusive_def
    proof (intro ballI impI, elim conjE)
      fix a b assume "a \<in> set (listings ?db)" "b \<in> set (listings ?db)"
        and ab: "live a" "live b" "l_passportId a = l_passportId b"
      then obtain x y where xy: "x \<in> set (listings db)" "a = f x" "y \<in> set (listings db)" "b = f y" by auto
      then have "l_id x = l_id y"
        using ex [unfolded exclusive_def, rule_format, of x y] ab f by (simp add: lv)
      then show "l_id a = l_id b" using xy f by simp
    qed
  qed
  ultimately show ?thesis using ok terms unfolding market_ok_def by simp
qed

lemma lot_fixed_terms:
  assumes "terms_ok l"
  shows "terms_ok (lot_fixed p l)"
  using assms by (auto simp: terms_ok_def lot_fixed_def corrected_lot_def lotCorrections_def Let_def)

lemma final_market:
  assumes ok: "market_ok db"
  shows "market_ok (final_db env now pairs db)"
proof -
  have "market_ok (listings_update (map (final_lot pairs)) db)"
  proof (rule market_ok_lots [OF ok])
    fix l assume "l \<in> set (listings db)"
    then have "terms_ok l" using ok by (simp add: market_ok_def listing_ok_def)
    then show "terms_ok (final_lot pairs l)"
      by (simp add: final_lot_def lot_fixed_terms split: option.split)
  qed (simp add: final_lot_def split: option.split)
  then show ?thesis
    unfolding final_db_def
  proof (rule market_ok_passports)
    show "distinct (map p_id (materialPassports (materialPassports_update (map (final_passport env now pairs))
        (listings_update (map (final_lot pairs)) db))))"
      using ok by (simp add: market_ok_def keys_ok_def o_def)
  qed (auto simp: others_same_def statuses_kept_def find_row_map final_passport_def split: option.split)
qed

subsection \<open>Nothing is left to correct\<close>

text \<open>An object read from a \<open>jsonb\<close> column has each field once.\<close>

definition attributes_ok :: "trace_db \<Rightarrow> bool" where
  "attributes_ok db \<longleftrightarrow> (\<forall>r \<in> set (materialPassports db). \<forall>kvs.
     p_customAttributes r = JObj kvs \<longrightarrow> distinct (map fst kvs))"

lemma with_field_key:
  assumes "jsonb_keeps env" and "\<And>kvs. j = JObj kvs \<Longrightarrow> distinct (map fst kvs)"
  shows "json_field k (jsonbValue env (with_field k (JStr t) j)) = Some (JStr t)"
proof (cases j)
  case (JObj kvs)
  have "distinct (map fst (AList.update k (JStr t) kvs))" using assms(2) [OF JObj] by (rule AList.distinct_update)
  moreover have "map_of (AList.update k (JStr t) kvs) k = Some (JStr t)" by (simp add: AList.update_conv)
  ultimately show ?thesis
    using assms(1) unfolding jsonb_keeps_def JObj with_field_def by simp
qed (use assms(1) in \<open>simp_all add: with_field_def jsonb_keeps_def\<close>)

lemma corrected_key:
  assumes "jsonb_keeps env" and "\<And>kvs. p_customAttributes r = JObj kvs \<Longrightarrow> distinct (map fst kvs)"
  shows "json_field ''catalogueKey'' (p_customAttributes (corrected_row (stored_corrections env (catalogueCorrections r p)) r))
    = Some (JStr (pd_key p))"
  using with_field_key [OF assms]
  by (simp add: corrected_row_def stored_corrections_def catalogueCorrections_def Let_def)

lemma corrections_ignore [simp]:
  "catalogueCorrections (r\<lparr> p_updatedAt := a \<rparr>) p = catalogueCorrections r p"
  "catalogueCorrections (r\<lparr> p_blockchainPassportHash := b \<rparr>) p = catalogueCorrections r p"
  "catalogueCorrections (r\<lparr> p_blockchainTxHash := c \<rparr>) p = catalogueCorrections r p"
  "catalogueCorrections (r\<lparr> p_blockchainAnchoredAt := d \<rparr>) p = catalogueCorrections r p"
  by (simp_all add: catalogueCorrections_def Let_def cong: option.case_cong)

text \<open>The corrected row, up to the columns no correction reads.\<close>

lemma corrected_passport_content:
  "catalogueCorrections (corrected_passport env now p r) q
    = catalogueCorrections (corrected_row (stored_corrections env (catalogueCorrections r p)) r) q"
  "p_productName (corrected_passport env now p r) = or_keep (renamed (p_productName r) p) (p_productName r)"
  "p_customAttributes (corrected_passport env now p r)
    = p_customAttributes (corrected_row (stored_corrections env (catalogueCorrections r p)) r)"
proof -
  let ?c = "catalogueCorrections r p"
  have none: "corrected_row (stored_corrections env no_corrections) r = r"
    by (simp add: stored_corrections_def corrected_row_def no_corrections_def)
  have nm: "p_productName (corrected_row (stored_corrections env ?c) r) = or_keep (renamed (p_productName r) p) (p_productName r)"
    by (simp add: corrected_row_def stored_corrections_def catalogueCorrections_def Let_def)
  show "catalogueCorrections (corrected_passport env now p r) q
    = catalogueCorrections (corrected_row (stored_corrections env ?c) r) q"
    by (simp add: corrected_passport_def Let_def none unanchored_def)
  show "p_customAttributes (corrected_passport env now p r)
    = p_customAttributes (corrected_row (stored_corrections env ?c) r)"
    by (simp add: corrected_passport_def Let_def none)
  show "p_productName (corrected_passport env now p r) = or_keep (renamed (p_productName r) p) (p_productName r)"
  proof (cases "?c = no_corrections")
    case True
    then show ?thesis using nm by (simp add: corrected_passport_def none)
  next
    case False
    then show ?thesis using nm by (simp add: corrected_passport_def Let_def)
  qed
qed

lemma corrected_is_settled:
  assumes "p \<in> set CATALOG" and "jsonb_keeps env"
    and "\<And>kvs. p_customAttributes r = JObj kvs \<Longrightarrow> distinct (map fst kvs)"
  shows "catalogueCorrections (corrected_passport env now p r) p = no_corrections"
proof -
  let ?c = "catalogueCorrections r p"
  let ?x = "corrected_row (stored_corrections env ?c) r"
  have "?x = (corrected_row ?c r)\<lparr> p_customAttributes := p_customAttributes ?x \<rparr>"
    by (simp add: corrected_row_def stored_corrections_def)
  then show ?thesis
    unfolding corrected_passport_content using corrections_settle [OF assms(1) corrected_key [OF assms(2,3)]] by metis
qed

text \<open>A renamed passport carries the name of no other product.\<close>

lemma renamed_name:
  assumes "p \<in> set CATALOG" and "q \<in> set CATALOG" and "renamed nm p = Some new" and "isCatalogueName new q"
  shows "q = p"
proof -
  have stud: "pd_key p = ''reclaimed-aluminium-stud-walling''"
    using assms(3) by (auto simp: renamed_def SUPERSEDED_PRODUCT_NAMES_def split: if_splits)
  then have p: "p = stud_walling"
    by (intro catalogue_product_unique [OF assms(1)]) (simp_all add: CATALOG_def stud_walling_def)
  then have "\<exists>rest. new = ''Surplus Aluminium Stud Walling'' @ rest"
    using assms(3) stud
    by (auto simp: renamed_def SUPERSEDED_PRODUCT_NAMES_def productName_def stud_walling_def split: if_splits)
  then obtain rest where new: "new = CHR ''S'' # CHR ''u'' # rest" by auto
  have "\<not> isCatalogueName new kbriq" "\<not> isCatalogueName new sisalwool" "\<not> isCatalogueName new aircrete_blocks"
    "\<not> isCatalogueName new concrete_lintels" "\<not> isCatalogueName new facing_bricks" "\<not> isCatalogueName new staircase"
    unfolding new
    by (simp_all add: isCatalogueName_def productName_def SUPERSEDED_PRODUCT_NAMES_def catalogue_defs)
  then show ?thesis using assms(2,4) p unfolding CATALOG_def by auto
qed

lemma final_pairs:
  assumes ids: "distinct (map p_id (materialPassports db))" and un: "unambiguous db"
    and j: "jsonb_keeps env" and attrs: "attributes_ok db"
    and y: "(q, y) \<in> set (correction_pairs (final_db env now (correction_pairs db) db))"
  shows "catalogueCorrections y q = no_corrections \<and> product_for (correction_pairs db) (p_id y) = Some q"
proof -
  let ?P = "correction_pairs db"
  have q: "q \<in> set CATALOG" "isCatalogueLot y q" "json_field ''seedSource'' (p_customAttributes y) = Some (JStr SEED_TAG)"
    and "y \<in> set (materialPassports (final_db env now ?P db))"
    using y by (auto simp: in_correction_pairs curated_passports_def)
  then obtain r where r: "r \<in> set (materialPassports db)" "y = final_passport env now ?P r"
    by (auto simp: final_db_def)
  note for_r = product_for_pairs [OF ids r(1)]
  show ?thesis
  proof (cases "product_for ?P (p_id r)")
    case None
    then have "y = r" using r(2) by (simp add: final_passport_def)
    then have "(q, r) \<in> set ?P" using q r(1) by (simp add: in_correction_pairs curated_passports_def)
    then show ?thesis using for_r(2) [OF None] by simp
  next
    case (Some p)
    have p: "p \<in> set CATALOG" "r \<in> set (curated_passports db)" "isCatalogueLot r p"
      using for_r(1) [OF Some] by (simp_all add: in_correction_pairs)
    have y': "y = corrected_passport env now p r" using r(2) Some by (simp add: final_passport_def)
    have attrs_r: "distinct (map fst kvs)" if "p_customAttributes r = JObj kvs" for kvs
      using attrs r(1) that by (auto simp: attributes_ok_def)
    have key: "json_field ''catalogueKey'' (p_customAttributes y) = Some (JStr (pd_key p))"
      unfolding y' corrected_passport_content(3) by (rule corrected_key [OF j attrs_r])
    have "q = p"
    proof (cases "json_field ''catalogueKey'' (p_customAttributes y) = Some (JStr (pd_key q))")
      case True
      then show ?thesis using key catalogue_product_unique [OF q(1) p(1)] by simp
    next
      case False
      then have nm: "isCatalogueName (p_productName y) q" using q(2) by (simp add: isCatalogueLot_def)
      show ?thesis
      proof (cases "renamed (p_productName r) p")
        case None
        then have "isCatalogueLot r q"
          using nm p(2) unfolding y' corrected_passport_content(2)
          by (simp add: isCatalogueLot_def curated_passports_def)
        then show ?thesis using un p q(1) unfolding unambiguous_def by blast
      next
        case (Some new)
        then have "isCatalogueName new q" using nm unfolding y' corrected_passport_content(2) by simp
        then show ?thesis by (rule renamed_name [OF p(1) q(1) Some])
      qed
    qed
    then show ?thesis using corrected_is_settled [OF p(1) j attrs_r] Some by (simp add: y')
  qed
qed


text \<open>Two lots of one product under a name the catalogue does not know.\<close>

lemma demo_rows: "materialPassports demo_db = [sisal_lot 10 2, sisal_lot 11 1]"
  by (simp add: demo_db_def)

lemma demo_unambiguous: "unambiguous demo_db"
proof -
  have "\<not> isCatalogueName ''Oak beam'' p" if "p \<in> set CATALOG" for p
    using that unfolding CATALOG_def
    by (auto simp: isCatalogueName_def productName_def SUPERSEDED_PRODUCT_NAMES_def catalogue_defs)
  then have "pd_key p = ''sisalwool-100''" if "r \<in> set (curated_passports demo_db)" "p \<in> set CATALOG" "isCatalogueLot r p" for r p
    using that by (auto simp: curated_passports_def demo_rows isCatalogueLot_def sisal_lot_def sample_passport_def)
  then show ?thesis unfolding unambiguous_def using catalogue_product_unique by metis
qed


text \<open>
  A lot renamed to another product's name is taken for that product's too, although its catalogue
  key, which the choice of a product's lot goes by, says otherwise: the correction would give it the
  other product's key.
\<close>

theorem a_renamed_lot_changes_product:
  "\<exists>r. key_of r = Some (pd_key sisalwool) \<and> isCatalogueLot r sisalwool \<and> isCatalogueLot r staircase
    \<and> cc_categoryL1 (catalogueCorrections r staircase) = Some ''structural-timber''
    \<and> json_field ''catalogueKey'' (the (cc_customAttributes (catalogueCorrections r staircase)))
        = Some (JStr (pd_key staircase))"
proof -
  let ?r = "(sisal_lot 10 1)\<lparr> p_productName := productName staircase, p_categoryL1 := ''insulation'' \<rparr>"
  have attrs: "p_customAttributes ?r = JObj [(''seedSource'', JStr SEED_TAG),
       (''catalogueKey'', JStr ''sisalwool-100''), (''demoLotNumber'', JInt 1)]" by (simp add: sisal_lot_def)
  have keys: "pd_key sisalwool = ''sisalwool-100''" "pd_key staircase = ''reclaimed-prefabricated-staircase''"
    by (simp_all add: catalogue_defs)
  have "key_of ?r = Some (pd_key sisalwool)"
    by (rule catalogueKeyOf_by_key) (simp_all add: attrs keys key_is_catalogued)
  moreover have "isCatalogueLot ?r sisalwool" by (simp add: isCatalogueLot_def attrs keys)
  moreover have "isCatalogueLot ?r staircase" by (simp add: isCatalogueLot_def attrs isCatalogueName_def)
  moreover have "cc_categoryL1 (catalogueCorrections ?r staircase) = Some ''structural-timber''"
    by (simp add: catalogueCorrections_def Let_def) (simp add: catalogue_defs reclaimed_fields_def)
  moreover have "json_field ''catalogueKey'' (the (cc_customAttributes (catalogueCorrections ?r staircase)))
      = Some (JStr (pd_key staircase))"
    by (simp add: catalogueCorrections_def Let_def attrs keys with_field_def)
  ultimately show ?thesis by blast
qed

end
