(* ===== verification/Database_Repairs.thy ===== *)
theory Database_Repairs
  imports Demo_Correct
begin

text \<open>
  Two maintenance commands of \<open>packages/db/scripts\<close>: \<open>rehash-passports.ts\<close> recomputes stored
  fingerprints after a change of the canonical document, row by row; \<open>reset-marketplace.ts\<close> empties
  the marketplace, with the cascades of the tables. What they print is left out; sensor readings,
  which the reset also deletes, are not a table of the model.
\<close>

subsection \<open>rehash-passports.ts\<close>

record rehash_counts =
  rh_unchanged :: nat
  rh_updated :: nat
  rh_skippedAnchored :: nat

definition rehash_one ::
  "api_env \<Rightarrow> time \<Rightarrow> bool \<Rightarrow> bool \<Rightarrow> passport \<Rightarrow> rehash_counts \<times> trace_db \<Rightarrow> rehash_counts \<times> trace_db" where
  "rehash_one env now dryRun includeAnchored p s =
     (let n = fst s; recomputed = fingerprint env p
      in if Some recomputed = p_blockchainPassportHash p
         then (n\<lparr> rh_unchanged := Suc (rh_unchanged n) \<rparr>, snd s)
         else if given (p_blockchainTxHash p) \<and> \<not> includeAnchored
         then (n\<lparr> rh_skippedAnchored := Suc (rh_skippedAnchored n) \<rparr>, snd s)
         else (n\<lparr> rh_updated := Suc (rh_updated n) \<rparr>,
               if dryRun then snd s
               else update_passport (p_id p)
                 (\<lambda>r. r\<lparr> p_blockchainPassportHash := Some recomputed, p_updatedAt := now \<rparr>) (snd s)))"

definition rehash_passports ::
  "api_env \<Rightarrow> time \<Rightarrow> bool \<Rightarrow> bool \<Rightarrow> trace_db \<Rightarrow> rehash_counts \<times> trace_db" where
  "rehash_passports env now dryRun includeAnchored db =
     fold (rehash_one env now dryRun includeAnchored)
       (filter (\<lambda>p. p_blockchainPassportHash p \<noteq> None) (materialPassports db))
       (\<lparr> rh_unchanged = 0, rh_updated = 0, rh_skippedAnchored = 0 \<rparr>, db)"

definition rehash_exit :: "rehash_counts \<Rightarrow> nat" where
  "rehash_exit n = (if rh_skippedAnchored n > 0 then 2 else 0)"

subsection \<open>reset-marketplace.ts\<close>

definition reset_marketplace :: "bool \<Rightarrow> trace_db \<Rightarrow> trace_db" where
  "reset_marketplace dryRun db =
     (if dryRun then db
      else db\<lparr> transactions := [], orderEvents := [], qualityReports := [], passportEvents := [],
               listings := [], materialPassports := [],
               storedObjects := map (\<lambda>so. so\<lparr> so_passportId := None \<rparr>) (storedObjects db) \<rparr>)"

lemma reset_is_consistent:
  "market_ok (reset_marketplace False db)" "records_ok env (reset_marketplace False db)"
  "users (reset_marketplace False db) = users db"
  "organisations (reset_marketplace False db) = organisations db"
  "betaAccessRequests (reset_marketplace False db) = betaAccessRequests db"
  by (simp_all add: reset_marketplace_def market_ok_def keys_ok_def exclusive_def records_ok_def)

subsection \<open>What a rehash does\<close>

definition stale_row :: "api_env \<Rightarrow> passport \<Rightarrow> bool" where
  "stale_row env p \<longleftrightarrow> p_blockchainPassportHash p \<noteq> None \<and> p_blockchainPassportHash p \<noteq> Some (fingerprint env p)"

definition rehashed :: "api_env \<Rightarrow> time \<Rightarrow> bool \<Rightarrow> passport \<Rightarrow> passport" where
  "rehashed env now includeAnchored p =
     (if stale_row env p \<and> (includeAnchored \<or> \<not> given (p_blockchainTxHash p))
      then p\<lparr> p_blockchainPassportHash := Some (fingerprint env p), p_updatedAt := now \<rparr> else p)"

lemma rehashed_id [simp]: "p_id (rehashed env now incl p) = p_id p"
  by (simp add: rehashed_def)

lemma rehash_one_step:
  assumes "distinct (map p_id (materialPassports (snd s)))" and "find_passport (p_id p) (snd s) = Some p"
    and "p_blockchainPassportHash p \<noteq> None"
  shows "snd (rehash_one env now False incl p s) = update_passport (p_id p) (\<lambda>_. rehashed env now incl p) (snd s)"
    and "rh_skippedAnchored (fst (rehash_one env now False incl p s)) = rh_skippedAnchored (fst s)
      + (if stale_row env (rehashed env now incl p) then 1 else 0)"
proof -
  have written: "update_passport (p_id p)
      (\<lambda>r. r\<lparr> p_blockchainPassportHash := Some (fingerprint env p), p_updatedAt := now \<rparr>) (snd s)
      = update_passport (p_id p) (\<lambda>_. p\<lparr> p_blockchainPassportHash := Some (fingerprint env p), p_updatedAt := now \<rparr>) (snd s)"
    by (rule update_passport_row [OF assms(1,2)]) simp
  note keep = update_passport_none [OF assms(1,2)]
  show "snd (rehash_one env now False incl p s) = update_passport (p_id p) (\<lambda>_. rehashed env now incl p) (snd s)"
    using assms(3) by (auto simp: rehash_one_def Let_def rehashed_def stale_row_def keep written)
  show "rh_skippedAnchored (fst (rehash_one env now False incl p s)) = rh_skippedAnchored (fst s)
      + (if stale_row env (rehashed env now incl p) then 1 else 0)"
    using assms(3) by (auto simp: rehash_one_def Let_def rehashed_def stale_row_def)
qed

text \<open>A fold of writes to distinct rows of a table.\<close>

lemma fold_rehash:
  assumes "distinct (map p_id ps)" and "distinct (map p_id (materialPassports db))"
    and "\<And>p. p \<in> set ps \<Longrightarrow> find_passport (p_id p) db = Some p \<and> p_blockchainPassportHash p \<noteq> None"
  shows "snd (fold (rehash_one env now False incl) ps (n, db))
      = materialPassports_update (map (\<lambda>r. if p_id r \<in> p_id ` set ps then rehashed env now incl r else r)) db
    \<and> rh_skippedAnchored (fst (fold (rehash_one env now False incl) ps (n, db)))
      = rh_skippedAnchored n + length (filter (\<lambda>p. stale_row env (rehashed env now incl p)) ps)"
  using assms
proof (induction ps arbitrary: n db)
  case Nil
  show ?case by (cases db) simp
next
  case (Cons p ps)
  let ?s = "rehash_one env now False incl p (n, db)"
  let ?db = "update_passport (p_id p) (\<lambda>_. rehashed env now incl p) db"
  have p: "find_passport (p_id p) db = Some p" "p_blockchainPassportHash p \<noteq> None" using Cons.prems(3) by auto
  note step = rehash_one_step [of "(n, db)" p env now incl, unfolded fst_conv snd_conv, OF Cons.prems(2) p]
  have s: "?s = (fst ?s, ?db)" using step(1) by (metis prod.collapse)
  have "map p_id (materialPassports ?db) = map p_id (materialPassports db)"
    by (simp add: update_passport_def update_rows_def)
  moreover have "find_passport (p_id q) ?db = Some q \<and> p_blockchainPassportHash q \<noteq> None" if q: "q \<in> set ps" for q
  proof -
    have "p_id q \<noteq> p_id p" using Cons.prems(1) q by (metis distinct.simps(2) image_eqI list.set_map list.simps(9))
    then have "find_passport (p_id q) ?db = find_passport (p_id q) db"
      by (simp add: update_passport_def find_update_value)
    then show ?thesis using Cons.prems(3) [of q] q by simp
  qed
  ultimately have IH: "snd (fold (rehash_one env now False incl) ps (fst ?s, ?db))
      = materialPassports_update (map (\<lambda>r. if p_id r \<in> p_id ` set ps then rehashed env now incl r else r)) ?db
    \<and> rh_skippedAnchored (fst (fold (rehash_one env now False incl) ps (fst ?s, ?db)))
      = rh_skippedAnchored (fst ?s) + length (filter (\<lambda>p. stale_row env (rehashed env now incl p)) ps)"
    using Cons.prems(1,2) by (intro Cons.IH) auto
  have row: "(if p_id (if p_id r = p_id p then rehashed env now incl p else r) \<in> p_id ` set ps
        then rehashed env now incl (if p_id r = p_id p then rehashed env now incl p else r)
        else (if p_id r = p_id p then rehashed env now incl p else r))
      = (if p_id r \<in> p_id ` set (p # ps) then rehashed env now incl r else r)"
    if r: "r \<in> set (materialPassports db)" for r
  proof (cases "p_id r = p_id p")
    case True
    then have "r = p" using find_row_distinct [OF Cons.prems(2) r] p(1) by (metis option.inject)
    then show ?thesis using Cons.prems(1) by simp
  qed simp
  have "materialPassports_update (map (\<lambda>r. if p_id r \<in> p_id ` set ps then rehashed env now incl r else r)) ?db
    = materialPassports_update (map (\<lambda>r. if p_id r \<in> p_id ` set (p # ps) then rehashed env now incl r else r)) db"
  proof -
    have "map (\<lambda>r. if p_id r \<in> p_id ` set ps then rehashed env now incl r else r)
        (update_rows p_id (p_id p) (\<lambda>_. rehashed env now incl p) (materialPassports db))
      = map (\<lambda>r. if p_id r \<in> p_id ` set (p # ps) then rehashed env now incl r else r) (materialPassports db)"
      unfolding update_rows_def map_map o_def by (rule map_cong [OF refl row])
    then show ?thesis by (cases db) (simp add: update_passport_def)
  qed
  then show ?case using IH s step(2) by simp
qed

text \<open>
  C35: A rehash repairs exactly the stale fingerprints. A passport whose stored fingerprint is not
  its own gets its own, unless it is anchored on chain and anchored ones are not included; every
  other passport is untouched. The command ends with exit code 0 exactly when no stale fingerprint
  is left anywhere.
\<close>

theorem rehashing_repairs_the_stale_fingerprints:
  assumes ids: "distinct (map p_id (materialPassports db))"
    and run: "rehash_passports env now False includeAnchored db = (n, db')"
  shows "materialPassports db' = map (rehashed env now includeAnchored) (materialPassports db)
    \<and> others_same db db' \<and> (rehash_exit n = 0 \<longleftrightarrow> records_ok env db')
    \<and> (includeAnchored \<longrightarrow> rehash_exit n = 0)"
proof -
  let ?ps = "filter (\<lambda>p. p_blockchainPassportHash p \<noteq> None) (materialPassports db)"
  let ?h = "rehashed env now includeAnchored"
  have "distinct (map p_id ?ps)" using ids by (rule distinct_map_filter)
  from fold_rehash [OF this ids, of env now includeAnchored "\<lparr> rh_unchanged = 0, rh_updated = 0, rh_skippedAnchored = 0 \<rparr>"]
  have eff: "db' = materialPassports_update (map (\<lambda>r. if p_id r \<in> p_id ` set ?ps then ?h r else r)) db"
    "rh_skippedAnchored n = length (filter (\<lambda>p. stale_row env (?h p)) ?ps)"
    using run ids by (simp_all add: rehash_passports_def find_row_distinct)
  have "(if p_id r \<in> p_id ` set ?ps then ?h r else r) = ?h r" if "r \<in> set (materialPassports db)" for r
    using that by (auto simp: rehashed_def stale_row_def)
  then have rows: "materialPassports db' = map ?h (materialPassports db)" by (simp add: eff(1))
  have stale: "stale_row env (?h p) \<Longrightarrow> p_blockchainPassportHash p \<noteq> None" for p
    by (auto simp: rehashed_def stale_row_def split: if_splits)
  have "rehash_exit n = 0 \<longleftrightarrow> (\<forall>p \<in> set ?ps. \<not> stale_row env (?h p))"
    unfolding rehash_exit_def eff(2) length_greater_0_conv filter_empty_conv by auto
  also have "\<dots> \<longleftrightarrow> (\<forall>p \<in> set (materialPassports db). \<not> stale_row env (?h p))"
    using stale unfolding set_filter by blast
  also have "\<dots> \<longleftrightarrow> records_ok env db'"
    using ids by (auto simp: records_ok_def rows o_def fits_def stale_row_def)
  finally have exit: "rehash_exit n = 0 \<longleftrightarrow> records_ok env db'" .
  have "\<not> stale_row env (rehashed env now True p)" for p
    by (simp add: rehashed_def stale_row_def)
  then have "includeAnchored \<longrightarrow> records_ok env db'"
    using ids by (auto simp: records_ok_def rows o_def fits_def stale_row_def)
  moreover have "others_same db db'" by (simp add: eff(1) others_same_def)
  ultimately show ?thesis using rows exit by blast
qed

definition stale_db :: trace_db where
  "stale_db = sample_db\<lparr> materialPassports := [sample_passport\<lparr> p_blockchainPassportHash := Some ''old'' \<rparr>] \<rparr>"

theorem rehashing_repairs_the_stale_fingerprints_witness:
  "\<exists>n db'. rehash_passports sample_env 9 False True stale_db = (n, db') \<and> rehash_exit n = 0
    \<and> records_ok sample_env db'"
proof -
  obtain n db' where run: "rehash_passports sample_env 9 False True stale_db = (n, db')" by fastforce
  have "distinct (map p_id (materialPassports stale_db))" by (simp add: stale_db_def)
  from rehashing_repairs_the_stale_fingerprints [OF this run]
  have "rehash_exit n = 0 \<and> records_ok sample_env db'" by metis
  with run show ?thesis by blast
qed

end
