(* ===== verification/Material_Registry.thy ===== *)
theory Material_Registry
  imports Trace_Prelude "HOL-Library.Word"
begin

text \<open>
  \<open>packages/contracts/contracts/MaterialRegistry.sol\<close>: the contract that keeps the
  fingerprints. Words of 256, 160 and 64 bits are bytes32, address and uint64; a mapping is a
  total function whose unset entries hold zero. What the OpenZeppelin parents answer for a
  call, its roles and whether the contract is paused, comes with the call (\<open>msg\<close>). A revert
  is an error value, and the storage is then as before.
\<close>

subsection \<open>Storage\<close>

type_synonym bytes32 = "256 word"
type_synonym address = "160 word"

datatype onchain_status = S_Active | S_Listed | S_Reserved | S_Sold | S_Installed | S_Decommissioned

record passport_record =
  pr_dataHash :: bytes32
  pr_owner :: address
  pr_status :: onchain_status
  pr_registeredAt :: "64 word"
  pr_updatedAt :: "64 word"
  pr_metadataUri :: string

definition empty_record :: passport_record where
  "empty_record = \<lparr>pr_dataHash = 0, pr_owner = 0, pr_status = S_Active, pr_registeredAt = 0,
     pr_updatedAt = 0, pr_metadataUri = ''''\<rparr>"

record registry =
  rg_passports :: "bytes32 \<Rightarrow> passport_record"
  rg_hashToId :: "bytes32 \<Rightarrow> bytes32"
  rg_totalPassports :: "256 word"

datatype revert =
  Missing_role
| Enforced_pause
| PassportNotFound bytes32
| PassportAlreadyExists bytes32
| HashAlreadyRegistered bytes32
| NotPassportOwner bytes32 address
| InvalidPassportId
| InvalidDataHash
| InvalidAddress
| ArrayLengthMismatch
| BatchTooLarge nat
| Arithmetic_panic

text \<open>The message and the block it is mined in: the sender, \<open>block.timestamp\<close>, and what
  \<open>AccessControl\<close> and \<open>Pausable\<close> say of it.\<close>

record msg =
  ms_sender :: address
  ms_timestamp :: "256 word"
  ms_hub :: bool
  ms_admin :: bool
  ms_paused :: bool

definition MAX_BATCH_SIZE :: nat where "MAX_BATCH_SIZE = 100"

definition deployed :: "address \<Rightarrow> revert + registry" where
  "deployed admin = (if admin = 0 then Inl InvalidAddress
     else Inr \<lparr>rg_passports = \<lambda>_. empty_record, rg_hashToId = \<lambda>_. 0, rg_totalPassports = 0\<rparr>)"

subsection \<open>Operations\<close>

definition block_time :: "msg \<Rightarrow> 64 word" where
  "block_time m = ucast (ms_timestamp m)"

text \<open>The body of a registration, shared by the single call and each turn of the batch's loop.\<close>

definition register_one ::
  "msg \<Rightarrow> bytes32 \<Rightarrow> bytes32 \<Rightarrow> string \<Rightarrow> registry \<Rightarrow> revert + registry" where
  "register_one m passportId dataHash metadataUri s =
     (if passportId = 0 then Inl InvalidPassportId
      else if dataHash = 0 then Inl InvalidDataHash
      else if pr_registeredAt (rg_passports s passportId) \<noteq> 0 then Inl (PassportAlreadyExists passportId)
      else if rg_hashToId s dataHash \<noteq> 0 then Inl (HashAlreadyRegistered dataHash)
      else if rg_totalPassports s = - 1 then Inl Arithmetic_panic
      else Inr (s\<lparr>
        rg_passports := (rg_passports s)(passportId := \<lparr>pr_dataHash = dataHash,
          pr_owner = ms_sender m, pr_status = S_Active, pr_registeredAt = block_time m,
          pr_updatedAt = block_time m, pr_metadataUri = metadataUri\<rparr>),
        rg_hashToId := (rg_hashToId s)(dataHash := passportId),
        rg_totalPassports := rg_totalPassports s + 1\<rparr>))"

definition registerPassport ::
  "msg \<Rightarrow> bytes32 \<Rightarrow> bytes32 \<Rightarrow> string \<Rightarrow> registry \<Rightarrow> revert + registry" where
  "registerPassport m passportId dataHash metadataUri s =
     (if \<not> ms_hub m then Inl Missing_role
      else if ms_paused m then Inl Enforced_pause
      else register_one m passportId dataHash metadataUri s)"

fun register_each ::
  "msg \<Rightarrow> (bytes32 \<times> bytes32 \<times> string) list \<Rightarrow> registry \<Rightarrow> revert + registry" where
  "register_each m [] s = Inr s"
| "register_each m ((pid, h, uri) # rest) s =
     (case register_one m pid h uri s of Inl e \<Rightarrow> Inl e | Inr s' \<Rightarrow> register_each m rest s')"

definition registerPassportBatch ::
  "msg \<Rightarrow> bytes32 list \<Rightarrow> bytes32 list \<Rightarrow> string list \<Rightarrow> registry \<Rightarrow> revert + registry" where
  "registerPassportBatch m passportIds dataHashes metadataUris s =
     (if \<not> ms_hub m then Inl Missing_role
      else if ms_paused m then Inl Enforced_pause
      else if length passportIds \<noteq> length dataHashes \<or> length passportIds \<noteq> length metadataUris
      then Inl ArrayLengthMismatch
      else if length passportIds > MAX_BATCH_SIZE then Inl (BatchTooLarge (length passportIds))
      else register_each m (zip passportIds (zip dataHashes metadataUris)) s)"

definition get_record :: "bytes32 \<Rightarrow> registry \<Rightarrow> revert + passport_record" where
  "get_record passportId s =
     (if pr_registeredAt (rg_passports s passportId) = 0 then Inl (PassportNotFound passportId)
      else Inr (rg_passports s passportId))"

definition may_change :: "msg \<Rightarrow> passport_record \<Rightarrow> bool" where
  "may_change m r \<longleftrightarrow> pr_owner r = ms_sender m \<or> ms_admin m"

definition updatePassportHash :: "msg \<Rightarrow> bytes32 \<Rightarrow> bytes32 \<Rightarrow> registry \<Rightarrow> revert + registry" where
  "updatePassportHash m passportId newDataHash s =
     (if ms_paused m then Inl Enforced_pause
      else case get_record passportId s of Inl e \<Rightarrow> Inl e
      | Inr r \<Rightarrow>
        if \<not> may_change m r then Inl (NotPassportOwner passportId (ms_sender m))
        else if newDataHash = 0 then Inl InvalidDataHash
        else if rg_hashToId s newDataHash \<noteq> 0 then Inl (HashAlreadyRegistered newDataHash)
        else Inr (s\<lparr>
          rg_passports := (rg_passports s)(passportId :=
            r\<lparr>pr_dataHash := newDataHash, pr_updatedAt := block_time m\<rparr>),
          rg_hashToId := (rg_hashToId s)(pr_dataHash r := 0, newDataHash := passportId)\<rparr>))"

definition updateStatus :: "msg \<Rightarrow> bytes32 \<Rightarrow> onchain_status \<Rightarrow> registry \<Rightarrow> revert + registry" where
  "updateStatus m passportId newStatus s =
     (if ms_paused m then Inl Enforced_pause
      else case get_record passportId s of Inl e \<Rightarrow> Inl e
      | Inr r \<Rightarrow>
        if \<not> may_change m r then Inl (NotPassportOwner passportId (ms_sender m))
        else Inr (s\<lparr>rg_passports := (rg_passports s)(passportId :=
               r\<lparr>pr_status := newStatus, pr_updatedAt := block_time m\<rparr>)\<rparr>))"

definition transferPassport :: "msg \<Rightarrow> bytes32 \<Rightarrow> address \<Rightarrow> registry \<Rightarrow> revert + registry" where
  "transferPassport m passportId newOwner s =
     (if ms_paused m then Inl Enforced_pause
      else if newOwner = 0 then Inl InvalidAddress
      else case get_record passportId s of Inl e \<Rightarrow> Inl e
      | Inr r \<Rightarrow>
        if \<not> may_change m r then Inl (NotPassportOwner passportId (ms_sender m))
        else Inr (s\<lparr>rg_passports := (rg_passports s)(passportId :=
               r\<lparr>pr_owner := newOwner, pr_updatedAt := block_time m\<rparr>)\<rparr>))"

subsection \<open>Views\<close>

definition verifyPassport :: "bytes32 \<Rightarrow> bytes32 \<Rightarrow> registry \<Rightarrow> bool \<times> passport_record" where
  "verifyPassport passportId dataHash s =
     (let r = rg_passports s passportId in (pr_registeredAt r \<noteq> 0 \<and> pr_dataHash r = dataHash, r))"

definition getPassport :: "bytes32 \<Rightarrow> registry \<Rightarrow> revert + passport_record" where
  "getPassport passportId s =
     (if pr_registeredAt (rg_passports s passportId) = 0 then Inl (PassportNotFound passportId)
      else Inr (rg_passports s passportId))"

definition getPassportByHash :: "bytes32 \<Rightarrow> registry \<Rightarrow> bytes32" where
  "getPassportByHash dataHash s = rg_hashToId s dataHash"

definition isRegistered :: "bytes32 \<Rightarrow> registry \<Rightarrow> bool" where
  "isRegistered passportId s \<longleftrightarrow> pr_registeredAt (rg_passports s passportId) \<noteq> 0"

definition totalPassports :: "registry \<Rightarrow> 256 word" where
  "totalPassports s = rg_totalPassports s"

subsection \<open>The storage invariant\<close>

text \<open>The two mappings are inverse to each other on what is registered, neither holds a zero,
  and the counter counts the registered passports.\<close>

definition registry_ok :: "registry \<Rightarrow> bool" where
  "registry_ok s \<longleftrightarrow>
     (\<forall>i. isRegistered i s \<longrightarrow> i \<noteq> 0 \<and> pr_dataHash (rg_passports s i) \<noteq> 0
        \<and> rg_hashToId s (pr_dataHash (rg_passports s i)) = i)
     \<and> (\<forall>h. rg_hashToId s h \<noteq> 0 \<longrightarrow> isRegistered (rg_hashToId s h) s
        \<and> pr_dataHash (rg_passports s (rg_hashToId s h)) = h)
     \<and> unat (rg_totalPassports s) = card {i. isRegistered i s}"

text \<open>A block's time is a number of seconds since 1970 that is not zero as a uint64.\<close>

definition timed :: "msg \<Rightarrow> bool" where
  "timed m \<longleftrightarrow> block_time m \<noteq> 0"

lemma registry_ok_mapping:
  assumes "registry_ok s" and "isRegistered i s"
  shows "i \<noteq> 0" and "pr_dataHash (rg_passports s i) \<noteq> 0"
    and "rg_hashToId s (pr_dataHash (rg_passports s i)) = i"
  using assms by (auto simp: registry_ok_def)

lemma registry_ok_back:
  "registry_ok s \<Longrightarrow> rg_hashToId s h \<noteq> 0 \<Longrightarrow> isRegistered (rg_hashToId s h) s
     \<and> pr_dataHash (rg_passports s (rg_hashToId s h)) = h"
  by (simp add: registry_ok_def)

lemma empty_storage_ok:
  "deployed admin = Inr s \<Longrightarrow> registry_ok s"
  by (auto simp: deployed_def registry_ok_def isRegistered_def empty_record_def split: if_splits)

text \<open>Zero is never an id, so the counter cannot overflow.\<close>

lemma registered_lt: "registry_ok s \<Longrightarrow> card {i. isRegistered i s} < 2 ^ 256"
proof -
  assume "registry_ok s"
  then have "{i. isRegistered i s} \<subseteq> - {0}" by (auto simp: registry_ok_def)
  then have "card {i. isRegistered i s} \<le> card (- {0 :: bytes32})" by (rule card_mono [rotated]) simp
  also have "\<dots> < card (UNIV :: bytes32 set)" by (rule psubset_card_mono) auto
  finally show ?thesis by (simp add: card_word)
qed

lemma total_lt:
  "registry_ok s \<Longrightarrow> isRegistered i s \<or> i = 0 \<or> Suc (card {i. isRegistered i s}) < 2 ^ 256"
proof (rule ccontr)
  assume ok: "registry_ok s"
    and n: "\<not> (isRegistered i s \<or> i = 0 \<or> Suc (card {i. isRegistered i s}) < 2 ^ 256)"
  then have "{i. isRegistered i s} \<subseteq> - {0, i}" by (auto simp: registry_ok_def)
  then have "card {i. isRegistered i s} \<le> card (- {0, i})" by (rule card_mono [rotated]) simp
  also have "card (- {0, i}) = 2 ^ 256 - 2"
    using n by (simp add: Compl_eq_Diff_UNIV card_Diff_subset card_word)
  finally show False using n by simp
qed

lemma no_overflow:
  assumes "registry_ok s" and "\<not> isRegistered i s" and "i \<noteq> 0"
  shows "rg_totalPassports s \<noteq> - 1"
    and "unat (rg_totalPassports s + 1) = Suc (card {i. isRegistered i s})"
proof -
  have u: "unat (rg_totalPassports s) = card {i. isRegistered i s}"
    using assms(1) by (simp add: registry_ok_def)
  have lt: "Suc (unat (rg_totalPassports s)) < 2 ^ 256"
    using total_lt [OF assms(1), of i] assms(2,3) u by simp
  have "unat (- 1 :: 256 word) = 2 ^ 256 - 1" by (simp add: unsigned_minus_1_eq_mask mask_eq_exp_minus_1)
  then show "rg_totalPassports s \<noteq> - 1" using lt by auto
  have "unat (rg_totalPassports s + 1) = Suc (unat (rg_totalPassports s))"
    using lt by (simp add: unat_word_ariths(1))
  then show "unat (rg_totalPassports s + 1) = Suc (card {i. isRegistered i s})" by (simp add: u)
qed

subsection \<open>Every operation keeps it\<close>

lemma register_one_iff:
  assumes "registry_ok s"
  shows "(\<exists>s'. register_one m i h uri s = Inr s')
     \<longleftrightarrow> i \<noteq> 0 \<and> h \<noteq> 0 \<and> \<not> isRegistered i s \<and> rg_hashToId s h = 0"
  using no_overflow(1) [OF assms, of i] by (auto simp: register_one_def isRegistered_def)

lemma register_one_ok:
  assumes ok: "registry_ok s" and t: "timed m" and r: "register_one m i h uri s = Inr s'"
  shows "registry_ok s'" and "rg_passports s' = (rg_passports s)(i := \<lparr>pr_dataHash = h,
      pr_owner = ms_sender m, pr_status = S_Active, pr_registeredAt = block_time m,
      pr_updatedAt = block_time m, pr_metadataUri = uri\<rparr>)"
proof -
  let ?new = "\<lparr>pr_dataHash = h, pr_owner = ms_sender m, pr_status = S_Active,
      pr_registeredAt = block_time m, pr_updatedAt = block_time m, pr_metadataUri = uri\<rparr>"
  have i: "i \<noteq> 0" "h \<noteq> 0" "\<not> isRegistered i s" "rg_hashToId s h = 0"
    using register_one_iff [OF ok, of m i h uri] r by auto
  have s': "s' = s\<lparr>rg_passports := (rg_passports s)(i := ?new),
      rg_hashToId := (rg_hashToId s)(h := i), rg_totalPassports := rg_totalPassports s + 1\<rparr>"
    using r by (auto simp: register_one_def split: if_splits)
  show "rg_passports s' = (rg_passports s)(i := ?new)" by (simp add: s')
  have reg: "isRegistered j s' \<longleftrightarrow> j = i \<or> isRegistered j s" for j
    using t by (simp add: s' isRegistered_def timed_def)
  then have set: "{j. isRegistered j s'} = insert i {j. isRegistered j s}" by auto
  have other: "pr_dataHash (rg_passports s j) \<noteq> h" if "isRegistered j s" for j
    using registry_ok_mapping [OF ok that] i(4) by auto
  have "unat (rg_totalPassports s') = card {j. isRegistered j s'}"
    unfolding set using no_overflow(2) [OF ok i(3,1)] i(3) by (simp add: s')
  moreover have "isRegistered j s' \<longrightarrow> j \<noteq> 0 \<and> pr_dataHash (rg_passports s' j) \<noteq> 0
      \<and> rg_hashToId s' (pr_dataHash (rg_passports s' j)) = j" for j
    using registry_ok_mapping [OF ok, of j] other [of j] i reg [of j] by (auto simp: s')
  moreover have "rg_hashToId s' k \<noteq> 0 \<longrightarrow> isRegistered (rg_hashToId s' k) s'
      \<and> pr_dataHash (rg_passports s' (rg_hashToId s' k)) = k" for k
    using registry_ok_back [OF ok, of k] i reg [of "rg_hashToId s' k"] by (auto simp: s')
  ultimately show "registry_ok s'" by (simp add: registry_ok_def)
qed

text \<open>A write that keeps hash and registration time of every record keeps the invariant.\<close>

lemma same_keys_ok:
  assumes "registry_ok s" and "isRegistered i s"
    and "pr_dataHash r = pr_dataHash (rg_passports s i)"
    and "pr_registeredAt r = pr_registeredAt (rg_passports s i)"
  shows "registry_ok (s\<lparr>rg_passports := (rg_passports s)(i := r)\<rparr>)"
proof -
  let ?s = "s\<lparr>rg_passports := (rg_passports s)(i := r)\<rparr>"
  have reg: "isRegistered j ?s = isRegistered j s" for j
    using assms by (simp add: isRegistered_def)
  moreover have "pr_dataHash (rg_passports ?s j) = pr_dataHash (rg_passports s j)" for j
    using assms by simp
  ultimately show ?thesis using assms(1) unfolding registry_ok_def by simp
qed

lemma updatePassportHash_ok:
  assumes ok: "registry_ok s" and u: "updatePassportHash m i h s = Inr s'"
  shows "registry_ok s'" and "isRegistered i s" and "may_change m (rg_passports s i)"
    and "rg_passports s' = (rg_passports s)(i := (rg_passports s i)\<lparr>pr_dataHash := h,
      pr_updatedAt := block_time m\<rparr>)"
proof -
  let ?r = "rg_passports s i"
  have c: "isRegistered i s" "may_change m ?r" "h \<noteq> 0" "rg_hashToId s h = 0"
    and s': "s' = s\<lparr>rg_passports := (rg_passports s)(i := ?r\<lparr>pr_dataHash := h, pr_updatedAt := block_time m\<rparr>),
      rg_hashToId := (rg_hashToId s)(pr_dataHash ?r := 0, h := i)\<rparr>"
    using u by (auto simp: updatePassportHash_def get_record_def isRegistered_def split: if_splits)
  show "isRegistered i s" "may_change m ?r" by (fact c)+
  show "rg_passports s' = (rg_passports s)(i := ?r\<lparr>pr_dataHash := h, pr_updatedAt := block_time m\<rparr>)"
    by (simp add: s')
  have reg: "isRegistered j s' = isRegistered j s" for j
    by (simp add: s' isRegistered_def)
  note map_i = registry_ok_mapping [OF ok c(1)]
  have other: "pr_dataHash (rg_passports s j) \<noteq> h \<and> (j \<noteq> i \<longrightarrow> pr_dataHash (rg_passports s j) \<noteq> pr_dataHash ?r)"
    if "isRegistered j s" for j
    using registry_ok_mapping [OF ok that] c(4) map_i by auto
  have "isRegistered j s' \<longrightarrow> j \<noteq> 0 \<and> pr_dataHash (rg_passports s' j) \<noteq> 0
      \<and> rg_hashToId s' (pr_dataHash (rg_passports s' j)) = j" for j
    using registry_ok_mapping [OF ok, of j] other [of j] c map_i reg [of j] by (auto simp: s')
  moreover have "rg_hashToId s' k \<noteq> 0 \<longrightarrow> isRegistered (rg_hashToId s' k) s'
      \<and> pr_dataHash (rg_passports s' (rg_hashToId s' k)) = k" for k
    using registry_ok_back [OF ok, of k] c map_i reg by (auto simp: s')
  moreover have "unat (rg_totalPassports s') = card {j. isRegistered j s'}"
    using ok reg by (simp add: registry_ok_def s')
  ultimately show "registry_ok s'" unfolding registry_ok_def by blast
qed

lemma updateStatus_ok:
  assumes "registry_ok s" and "updateStatus m i st s = Inr s'"
  shows "registry_ok s'"
  using assms same_keys_ok [OF assms(1), of i "(rg_passports s i)\<lparr>pr_status := st, pr_updatedAt := block_time m\<rparr>"]
  by (auto simp: updateStatus_def get_record_def isRegistered_def split: if_splits)

lemma transferPassport_ok:
  assumes "registry_ok s" and "transferPassport m i a s = Inr s'"
  shows "registry_ok s'"
  using assms same_keys_ok [OF assms(1), of i "(rg_passports s i)\<lparr>pr_owner := a, pr_updatedAt := block_time m\<rparr>"]
  by (auto simp: transferPassport_def get_record_def isRegistered_def split: if_splits)

lemma register_each_ok:
  "registry_ok s \<Longrightarrow> timed m \<Longrightarrow> register_each m rows s = Inr s' \<Longrightarrow> registry_ok s'"
  by (induction m rows s rule: register_each.induct) (auto simp: register_one_ok(1) split: sum.splits)

subsection \<open>Runs\<close>

datatype registry_call =
  Call_register msg bytes32 bytes32 string
| Call_batch msg "bytes32 list" "bytes32 list" "string list"
| Call_update msg bytes32 bytes32
| Call_status msg bytes32 onchain_status
| Call_transfer msg bytes32 address

fun call_msg :: "registry_call \<Rightarrow> msg" where
  "call_msg (Call_register m i h uri) = m"
| "call_msg (Call_batch m is hs uris) = m"
| "call_msg (Call_update m i h) = m"
| "call_msg (Call_status m i st) = m"
| "call_msg (Call_transfer m i a) = m"

fun execute :: "registry_call \<Rightarrow> registry \<Rightarrow> revert + registry" where
  "execute (Call_register m i h uri) s = registerPassport m i h uri s"
| "execute (Call_batch m is hs uris) s = registerPassportBatch m is hs uris s"
| "execute (Call_update m i h) s = updatePassportHash m i h s"
| "execute (Call_status m i st) s = updateStatus m i st s"
| "execute (Call_transfer m i a) s = transferPassport m i a s"

definition registry_step :: "registry \<Rightarrow> registry_call \<Rightarrow> registry" where
  "registry_step s c = (case execute c s of Inl _ \<Rightarrow> s | Inr s' \<Rightarrow> s')"

lemma registerPassport_ok:
  assumes "registry_ok s" and "timed m" and "registerPassport m i h uri s = Inr s'"
  shows "registry_ok s'"
  using assms(3) register_one_ok(1) [OF assms(1,2), of i h uri s']
  by (simp add: registerPassport_def split: if_splits)

lemma registerPassportBatch_ok:
  assumes "registry_ok s" and "timed m" and "registerPassportBatch m ids hs uris s = Inr s'"
  shows "registry_ok s'"
  using assms(3) register_each_ok [OF assms(1,2), of "zip ids (zip hs uris)" s']
  by (simp add: registerPassportBatch_def split: if_splits)

lemma execute_ok:
  assumes "registry_ok s" and "timed (call_msg c)" and "execute c s = Inr s'"
  shows "registry_ok s'"
proof (cases c)
  case (Call_register m i h uri)
  then show ?thesis using assms registerPassport_ok [of s m i h uri s'] by simp
next
  case (Call_batch m ids hs uris)
  then show ?thesis using assms registerPassportBatch_ok [of s m ids hs uris s'] by simp
next
  case (Call_update m i h)
  then show ?thesis using assms updatePassportHash_ok(1) [of s m i h s'] by simp
next
  case (Call_status m i st)
  then show ?thesis using assms updateStatus_ok [of s m i st s'] by simp
next
  case (Call_transfer m i a)
  then show ?thesis using assms transferPassport_ok [of s m i a s'] by simp
qed

interpretation contract: guarded_system registry_step "\<lambda>(s::registry) c. timed (call_msg c)" registry_ok
  by unfold_locales (auto simp: registry_step_def execute_ok split: sum.splits)

lemma register_one_no_panic: "registry_ok s \<Longrightarrow> register_one m i h uri s \<noteq> Inl Arithmetic_panic"
  using no_overflow(1) [of s i] by (auto simp: register_one_def isRegistered_def)

lemma register_each_no_panic:
  "registry_ok s \<Longrightarrow> timed m \<Longrightarrow> register_each m rows s \<noteq> Inl Arithmetic_panic"
proof (induction m rows s rule: register_each.induct)
  case (1 m s)
  then show ?case by simp
next
  case (2 m pid h uri rest s)
  then show ?case using register_one_no_panic [of s m pid h uri] register_one_ok(1) [of s m pid h uri]
    by (auto split: sum.splits)
qed

lemma execute_no_panic:
  assumes "registry_ok s" and "timed (call_msg c)"
  shows "execute c s \<noteq> Inl Arithmetic_panic"
proof (cases c)
  case (Call_register m i h uri)
  then show ?thesis using register_one_no_panic [OF assms(1), of m i h uri]
    by (simp add: registerPassport_def)
next
  case (Call_batch m ids hs uris)
  then show ?thesis using assms register_each_no_panic [OF assms(1), of m "zip ids (zip hs uris)"]
    by (simp add: registerPassportBatch_def)
qed (auto simp: updatePassportHash_def updateStatus_def transferPassport_def get_record_def)

text \<open>C19: after any calls to a deployed registry, in blocks with a time, its two indexes agree:
  \<open>verifyPassport\<close> confirms a fingerprint for a passport exactly when \<open>getPassportByHash\<close> finds
  that passport under the fingerprint, so no two passports share one; \<open>totalPassports\<close> is the
  number of registered passports; zero is neither an id nor a fingerprint; and no further call
  fails on the counter.\<close>

theorem registry_indexes_agree:
  assumes "deployed admin = Inr s0" and "\<forall>c \<in> set calls. timed (call_msg c)"
    and "s = run_calls registry_step s0 calls"
  shows "(fst (verifyPassport i h s) \<longleftrightarrow> i \<noteq> 0 \<and> getPassportByHash h s = i)
    \<and> unat (totalPassports s) = card {j. isRegistered j s}
    \<and> \<not> isRegistered 0 s \<and> getPassportByHash 0 s = 0
    \<and> (timed (call_msg c) \<longrightarrow> execute c s \<noteq> Inl Arithmetic_panic)"
proof -
  have "contract.admissible s0 calls" by (rule contract.admissible_all) (use assms(2) in blast)
  then have ok: "registry_ok s"
    unfolding assms(3) by (rule contract.run_keeps) (rule empty_storage_ok [OF assms(1)])
  have "fst (verifyPassport i h s) \<longleftrightarrow> i \<noteq> 0 \<and> getPassportByHash h s = i"
    using registry_ok_mapping [OF ok, of i] registry_ok_back [OF ok, of h]
    by (auto simp: verifyPassport_def getPassportByHash_def isRegistered_def Let_def)
  moreover have "getPassportByHash 0 s = 0"
    using registry_ok_back [OF ok, of 0] registry_ok_mapping(2) [OF ok] by (auto simp: getPassportByHash_def)
  moreover have "\<not> isRegistered 0 s" using registry_ok_mapping(1) [OF ok] by blast
  ultimately show ?thesis
    using ok execute_no_panic [OF ok, of c] by (simp add: totalPassports_def registry_ok_def)
qed

definition sample_msg :: msg where
  "sample_msg = \<lparr>ms_sender = 7, ms_timestamp = 1790000000, ms_hub = True, ms_admin = False, ms_paused = False\<rparr>"

definition sample_registry :: registry where
  "sample_registry = \<lparr>rg_passports = \<lambda>_. empty_record, rg_hashToId = \<lambda>_. 0, rg_totalPassports = 0\<rparr>"

lemma sample_msg_timed: "timed sample_msg"
  by (simp add: timed_def block_time_def sample_msg_def)

theorem registry_indexes_agree_witness:
  "getPassportByHash 22 (run_calls registry_step sample_registry
      [Call_register sample_msg 1 11 ''u'', Call_register sample_msg 2 11 ''u'', Call_update sample_msg 1 22]) = 1
   \<and> fst (verifyPassport 1 22 (run_calls registry_step sample_registry
      [Call_register sample_msg 1 11 ''u'', Call_register sample_msg 2 11 ''u'', Call_update sample_msg 1 22]))"
proof -
  let ?calls = "[Call_register sample_msg 1 11 ''u'', Call_register sample_msg 2 11 ''u'', Call_update sample_msg 1 22]"
  have d: "deployed 7 = Inr sample_registry" by (simp add: deployed_def sample_registry_def)
  have t: "\<forall>c \<in> set ?calls. timed (call_msg c)" by (simp add: sample_msg_timed)
  have "getPassportByHash 22 (run_calls registry_step sample_registry ?calls) = 1"
    by code_simp
  then show ?thesis using registry_indexes_agree [OF d t refl, of 1 22] by simp
qed

end
