(* ===== verification/Chain_Adapter.thy ===== *)
theory Chain_Adapter
  imports Anchoring Material_Registry
begin

text \<open>
  \<open>packages/api/src/lib/chain\<close>: ids, the submission of a transaction with its gas payer, the
  VeChain adapter's calls and its wait for a receipt; and the transaction explorer of
  \<open>modules/blockchain\<close> and the health answers of \<open>modules/health\<close>, which read the chain
  through it.

  The node and the key library are parameters (\<open>thor\<close>): the address of a key, the node's gas
  estimate, whether it takes a transaction, what it answers to a read. A call that throws is
  \<open>None\<close>. ABI encoding (\<open>abi\<close>) and the hexadecimal text of words (\<open>codec\<close>) are parameters with
  their documented round trips as hypotheses.
\<close>

subsection \<open>Passport ids on chain\<close>

definition hyphenless :: "string \<Rightarrow> string" where
  "hyphenless uuid = filter (\<lambda>c. c \<noteq> hyphen) uuid"

definition uuidToBytes32 :: "string \<Rightarrow> string" where
  "uuidToBytes32 uuid = ''0x'' @ replicate (64 - length (hyphenless uuid)) CHR ''0'' @ hyphenless uuid"

definition without_0x :: "string \<Rightarrow> string" where
  "without_0x t = (if startsWith t ''0x'' then drop 2 t else t)"

definition bytes32ToUuid :: "string \<Rightarrow> string" where
  "bytes32ToUuid t =
     (let hex = drop (length (without_0x t) - 32) (without_0x t)
      in take 8 hex @ hyphen # take 4 (drop 8 hex) @ hyphen # take 4 (drop 12 hex)
         @ hyphen # take 4 (drop 16 hex) @ hyphen # drop 20 hex)"

subsection \<open>Who pays the gas\<close>

record chain_config =
  FEE_DELEGATOR_URL :: "string option"
  FEE_DELEGATOR_PRIVATE_KEY :: "string option"
  DEPLOYER_PRIVATE_KEY :: "string option"
  FEE_DELEGATION_REQUIRED :: bool
  in_production :: bool

record gas_estimate =
  ge_totalGas :: nat
  ge_reverted :: bool

record clause =
  cl_to :: "string option"
  cl_data :: string

datatype payer_options = Payer_url string | Payer_key string

datatype payer_source = From_url | From_private_key | From_dev_deployer | From_none

record gas_payer =
  gp_options :: payer_options
  gp_address :: "string option"
  gp_source :: payer_source

text \<open>What is handed to the node.\<close>

record sent_tx =
  sx_clauses :: "clause list"
  sx_origin :: string
  sx_key :: string
  sx_gas :: nat
  sx_payer :: "payer_options option"
  sx_delegationUrl :: "string option"

record plain_record =
  pl_dataHash :: "string option"
  pl_owner :: "string option"
  pl_registeredAt :: "nat option"

record verify_answer =
  va_success :: bool
  va_valid :: "bool option"
  va_record :: "plain_record option"

record thor =
  th_address :: "string \<Rightarrow> string"
  th_estimate :: "clause list \<Rightarrow> string \<Rightarrow> string option \<Rightarrow> gas_estimate option"
  th_signer :: "string \<Rightarrow> bool"
  th_accept :: "sent_tx \<Rightarrow> string option"
  th_verify :: "string \<Rightarrow> string \<Rightarrow> string \<Rightarrow> verify_answer option"
  th_hasRole :: "string \<Rightarrow> string \<Rightarrow> bool option option"

definition getGasPayerConfig :: "chain_config \<Rightarrow> thor \<Rightarrow> gas_payer option" where
  "getGasPayerConfig cfg th =
     (if given (FEE_DELEGATOR_URL cfg) then
        Some \<lparr>gp_options = Payer_url (the (FEE_DELEGATOR_URL cfg)), gp_address = None, gp_source = From_url\<rparr>
      else if given (FEE_DELEGATOR_PRIVATE_KEY cfg) then
        let key = the (FEE_DELEGATOR_PRIVATE_KEY cfg)
        in Some \<lparr>gp_options = Payer_key key, gp_address = Some (th_address th key), gp_source = From_private_key\<rparr>
      else if \<not> in_production cfg \<and> given (DEPLOYER_PRIVATE_KEY cfg) then
        let key = the (DEPLOYER_PRIVATE_KEY cfg)
        in Some \<lparr>gp_options = Payer_key key, gp_address = Some (th_address th key), gp_source = From_dev_deployer\<rparr>
      else None)"

subsection \<open>Submitting\<close>

datatype chain_error =
  Delegation_not_configured
| Simulation_reverted
| Node_unreachable
| No_signer
| Not_sent
| Call_failed
| No_genesis

record submission =
  sb_privateKey :: string
  sb_address :: "string option"
  sb_clauses :: "clause list"
  sb_fallbackGas :: nat

record submitted =
  su_txId :: string
  su_originAddress :: string
  su_gasPayerAddress :: "string option"
  su_gasPayerSource :: payer_source
  su_delegated :: bool
  su_gasLimit :: nat
  su_gasEstimate :: "nat option"

definition estimate_payer :: "gas_payer option \<Rightarrow> string option" where
  "estimate_payer gasPayer =
     (case gasPayer of None \<Rightarrow> None | Some g \<Rightarrow> if given (gp_address g) then gp_address g else None)"

text \<open>The \<open>try\<close> around the estimate: the gas limit and the estimate, or the error it throws.\<close>

definition choose_gas ::
  "chain_config \<Rightarrow> thor \<Rightarrow> submission \<Rightarrow> string \<Rightarrow> gas_payer option \<Rightarrow> chain_error + (nat \<times> nat option)" where
  "choose_gas cfg th input originAddress gasPayer =
     (let failed = (\<lambda>e. if FEE_DELEGATION_REQUIRED cfg then Inl e else Inr (sb_fallbackGas input, None))
      in case th_estimate th (sb_clauses input) originAddress (estimate_payer gasPayer) of
           None \<Rightarrow> failed Node_unreachable
         | Some e \<Rightarrow> if ge_reverted e then failed Simulation_reverted
                     else Inr (max (ge_totalGas e) (sb_fallbackGas input), Some (ge_totalGas e)))"

text \<open>The list is what has been handed to the node, in order.\<close>

definition submitVeChainTransaction ::
  "chain_config \<Rightarrow> thor \<Rightarrow> submission \<Rightarrow> sent_tx list \<Rightarrow> (chain_error + submitted) \<times> sent_tx list" where
  "submitVeChainTransaction cfg th input sent =
     (let originAddress = (case sb_address input of None \<Rightarrow> th_address th (sb_privateKey input) | Some a \<Rightarrow> a);
          gasPayer = getGasPayerConfig cfg th
      in if FEE_DELEGATION_REQUIRED cfg \<and> gasPayer = None then (Inl Delegation_not_configured, sent)
      else case choose_gas cfg th input originAddress gasPayer of
        Inl e \<Rightarrow> (Inl e, sent)
      | Inr (gasLimit, gasEstimate) \<Rightarrow>
          if \<not> th_signer th originAddress then (Inl No_signer, sent)
          else
            let tx = \<lparr>sx_clauses = sb_clauses input, sx_origin = originAddress, sx_key = sb_privateKey input,
                  sx_gas = gasLimit, sx_payer = map_option gp_options gasPayer,
                  sx_delegationUrl = (if given (FEE_DELEGATOR_URL cfg) then FEE_DELEGATOR_URL cfg else None)\<rparr>
            in case th_accept th tx of
                 None \<Rightarrow> (Inl Not_sent, sent @ [tx])
               | Some txId \<Rightarrow>
                   (Inr \<lparr>su_txId = txId, su_originAddress = originAddress,
                      su_gasPayerAddress = Option.bind gasPayer gp_address,
                      su_gasPayerSource = (case gasPayer of None \<Rightarrow> From_none | Some g \<Rightarrow> gp_source g),
                      su_delegated = (gasPayer \<noteq> None), su_gasLimit = gasLimit, su_gasEstimate = gasEstimate\<rparr>,
                    sent @ [tx]))"

subsection \<open>The adapter's transactions\<close>

record chain_signer =
  cs_address :: string
  cs_privateKey :: string

text \<open>ethers' \<open>Interface\<close>: the call data of a function and its arguments, and the parser, which
  knows the functions it was given.\<close>

record abi =
  ab_encode :: "string \<Rightarrow> string list \<Rightarrow> string"
  ab_deploy :: "string \<Rightarrow> string"
  ab_parse :: "string list \<Rightarrow> string \<Rightarrow> (string \<times> string list) option"

definition REGISTER_FALLBACK_GAS :: nat where "REGISTER_FALLBACK_GAS = 500000"
definition UPDATE_FALLBACK_GAS :: nat where "UPDATE_FALLBACK_GAS = 300000"
definition GRANT_ROLE_FALLBACK_GAS :: nat where "GRANT_ROLE_FALLBACK_GAS = 200000"
definition DEPLOY_FALLBACK_GAS :: nat where "DEPLOY_FALLBACK_GAS = 4000000"

definition adapter_submit ::
  "chain_config \<Rightarrow> thor \<Rightarrow> chain_signer \<Rightarrow> string option \<Rightarrow> string \<Rightarrow> nat \<Rightarrow> sent_tx list
    \<Rightarrow> (chain_error + submitted) \<times> sent_tx list" where
  "adapter_submit cfg th signer to data fallbackGas =
     submitVeChainTransaction cfg th \<lparr>sb_privateKey = cs_privateKey signer,
       sb_address = Some (cs_address signer), sb_clauses = [\<lparr>cl_to = to, cl_data = data\<rparr>],
       sb_fallbackGas = fallbackGas\<rparr>"

definition register_data :: "abi \<Rightarrow> string \<Rightarrow> string \<Rightarrow> string \<Rightarrow> string" where
  "register_data ab passportId dataHash metadataUri =
     ab_encode ab ''registerPassport'' [uuidToBytes32 passportId, dataHash, metadataUri]"

definition update_data :: "abi \<Rightarrow> string \<Rightarrow> string \<Rightarrow> string" where
  "update_data ab passportId dataHash =
     ab_encode ab ''updatePassportHash'' [uuidToBytes32 passportId, dataHash]"

definition adapter_deploy where
  "adapter_deploy cfg th ab bytecode admin =
     adapter_submit cfg th admin None (bytecode @ drop 2 (ab_deploy ab (cs_address admin))) DEPLOY_FALLBACK_GAS"

definition adapter_register where
  "adapter_register cfg th ab signer registry_at passportId dataHash metadataUri =
     adapter_submit cfg th signer (Some registry_at)
       (register_data ab passportId dataHash metadataUri) REGISTER_FALLBACK_GAS"

definition adapter_update where
  "adapter_update cfg th ab signer registry_at passportId dataHash =
     adapter_submit cfg th signer (Some registry_at) (update_data ab passportId dataHash) UPDATE_FALLBACK_GAS"

definition adapter_transfer where
  "adapter_transfer cfg th ab signer registry_at passportId newOwner =
     adapter_submit cfg th signer (Some registry_at)
       (ab_encode ab ''transferPassport'' [uuidToBytes32 passportId, newOwner]) UPDATE_FALLBACK_GAS"

definition adapter_grant where
  "adapter_grant cfg th ab admin registry_at hubAddress =
     adapter_submit cfg th admin (Some registry_at) (ab_encode ab ''grantHubRole'' [hubAddress])
       GRANT_ROLE_FALLBACK_GAS"

subsection \<open>The adapter's reads\<close>

definition hasHubRole :: "thor \<Rightarrow> string \<Rightarrow> string \<Rightarrow> chain_error + bool" where
  "hasHubRole th registry_at address =
     (case th_hasRole th registry_at address of None \<Rightarrow> Inl Node_unreachable
      | Some answer \<Rightarrow> Inr (answer = Some True))"

text \<open>The genesis block's id, remembered once the node has given it; the node throws (\<open>None\<close>) or
  answers, perhaps with no block.\<close>

definition chainId ::
  "string option option \<Rightarrow> string option \<Rightarrow> (chain_error + string) \<times> string option" where
  "chainId genesis promise =
     (case promise of Some c \<Rightarrow> (Inr c, promise)
      | None \<Rightarrow> (case genesis of None \<Rightarrow> (Inl Node_unreachable, None)
          | Some None \<Rightarrow> (Inl No_genesis, None)
          | Some (Some g) \<Rightarrow> (Inr (''vechain:'' @ g), Some (''vechain:'' @ g))))"

text \<open>The race of the node's answer, with the time it takes, against the timer.\<close>

definition ping :: "nat \<Rightarrow> (nat \<times> bool) option \<Rightarrow> bool" where
  "ping timeoutMs answer =
     (case answer of None \<Rightarrow> False | Some (took, best) \<Rightarrow> took < timeoutMs \<and> best)"

definition ZERO_HASH :: string where "ZERO_HASH = ''0x'' @ replicate 64 CHR ''0''"

definition getPassportAnchor :: "thor \<Rightarrow> string \<Rightarrow> string \<Rightarrow> chain_error + onchain_anchor" where
  "getPassportAnchor th registry_at passportId =
     (case th_verify th registry_at (uuidToBytes32 passportId) ZERO_HASH of
        None \<Rightarrow> Inl Node_unreachable
      | Some result \<Rightarrow>
          if \<not> va_success result then Inl Call_failed
          else if (case Option.bind (va_record result) pl_registeredAt of None \<Rightarrow> 0 | Some t \<Rightarrow> t) = 0 then
            Inr \<lparr>oa_registered = False, oa_dataHash = None, oa_owner = None\<rparr>
          else Inr \<lparr>oa_registered = True,
            oa_dataHash = Some (toLowerCase (case Option.bind (va_record result) pl_dataHash of
              None \<Rightarrow> ''undefined'' | Some h \<Rightarrow> h)),
            oa_owner = (let owner = Option.bind (va_record result) pl_owner in if given owner then owner else None)\<rparr>)"

definition adapter_verify :: "thor \<Rightarrow> string \<Rightarrow> string \<Rightarrow> string \<Rightarrow> bool option" where
  "adapter_verify th registry_at passportId dataHash =
     (case th_verify th registry_at (uuidToBytes32 passportId) dataHash of None \<Rightarrow> None
      | Some result \<Rightarrow> Some (va_valid result = Some True))"

subsection \<open>Waiting for a receipt\<close>

record thor_receipt =
  tr_reverted :: bool
  tr_gasUsed :: nat
  tr_gasPayer :: "string option"
  tr_paid :: "string option"
  tr_blockNumber :: nat
  tr_blockId :: string
  tr_outputs :: "string option list"

record chain_receipt =
  cr_reverted :: bool
  cr_gasUsed :: nat
  cr_gasPayer :: "string option"
  cr_paid :: "string option"
  cr_blockNumber :: nat
  cr_blockId :: string
  cr_contractAddress :: "string option"

definition to_receipt :: "thor_receipt \<Rightarrow> chain_receipt" where
  "to_receipt r = \<lparr>cr_reverted = tr_reverted r, cr_gasUsed = tr_gasUsed r, cr_gasPayer = tr_gasPayer r,
     cr_paid = tr_paid r, cr_blockNumber = tr_blockNumber r, cr_blockId = tr_blockId r,
     cr_contractAddress = (case tr_outputs r of [] \<Rightarrow> None | c # _ \<Rightarrow> c)\<rparr>"

text \<open>A poll begun at some time ends at another, with a receipt or without (also when it fails).
  The answer comes with the time it is given. Nothing but the clock ends the loop.\<close>

partial_function (option) receipt_loop ::
  "(time \<Rightarrow> thor_receipt option \<times> time) \<Rightarrow> time \<Rightarrow> time \<Rightarrow> (chain_receipt option \<times> time) option" where
  "receipt_loop poll deadline now =
     (case poll now of
        (Some receipt, ended) \<Rightarrow> Some (Some (to_receipt receipt), ended)
      | (None, ended) \<Rightarrow>
          if ended \<ge> deadline then Some (None, ended) else receipt_loop poll deadline (ended + 1000))"

definition waitForReceipt ::
  "(time \<Rightarrow> thor_receipt option \<times> time) \<Rightarrow> int option \<Rightarrow> time \<Rightarrow> (chain_receipt option \<times> time) option" where
  "waitForReceipt poll timeoutMs now =
     receipt_loop poll (now + (case timeoutMs of None \<Rightarrow> 60000 | Some t \<Rightarrow> t)) now"

text \<open>How the worker's transaction fares: what it was told when it submitted, then the receipt.\<close>

definition delivery_of :: "chain_error + submitted \<Rightarrow> chain_receipt option \<Rightarrow> delivery" where
  "delivery_of submission receipt =
     (case submission of Inl _ \<Rightarrow> Not_submitted
      | Inr su \<Rightarrow> (case receipt of None \<Rightarrow> Unconfirmed (su_txId su)
          | Some r \<Rightarrow> if cr_reverted r then Reverted (su_txId su) else Confirmed (su_txId su)))"

subsection \<open>The transaction explorer\<close>

record chain_view =
  cv_transaction :: "clause list option"
  cv_receipt :: "thor_receipt option"
  cv_reverted :: "bool option"
  cv_firstCallData :: "string option"

definition getTransaction :: "clause list option \<Rightarrow> thor_receipt option \<Rightarrow> chain_view" where
  "getTransaction transaction receipt = \<lparr>cv_transaction = transaction, cv_receipt = receipt,
     cv_reverted = map_option tr_reverted receipt,
     cv_firstCallData = (case transaction of Some (c # _) \<Rightarrow> Some (cl_data c) | _ \<Rightarrow> None)\<rparr>"

datatype decoded_call =
  Decoded_register string string string string
| Decoded_update string string string
| Decoded_grant string
| Decoded_other string

definition explorer_functions :: "string list" where
  "explorer_functions = [''registerPassport'', ''updatePassportHash'', ''grantHubRole'']"

text \<open>The parser gives as many arguments as the function has, or nothing.\<close>

definition decodeClause :: "abi \<Rightarrow> string \<Rightarrow> decoded_call option" where
  "decodeClause ab data =
     (case ab_parse ab explorer_functions data of None \<Rightarrow> None
      | Some (name, args) \<Rightarrow>
          if name = ''registerPassport'' then
            (case args of [i, h, uri] \<Rightarrow> Some (Decoded_register (bytes32ToUuid i) i h uri) | _ \<Rightarrow> None)
          else if name = ''updatePassportHash'' then
            (case args of [i, h] \<Rightarrow> Some (Decoded_update (bytes32ToUuid i) i h) | _ \<Rightarrow> None)
          else if name = ''grantHubRole'' then
            (case args of [hub] \<Rightarrow> Some (Decoded_grant hub) | _ \<Rightarrow> None)
          else Some (Decoded_other name))"

datatype explorer_status = Explorer_pending | Explorer_failed | Explorer_confirmed

record explorer_answer =
  ex_status :: explorer_status
  ex_decoded :: "decoded_call option"
  ex_localLog :: "tx_row option"

datatype explorer_error = Transaction_not_found string

definition explore ::
  "abi \<Rightarrow> string \<Rightarrow> chain_view \<Rightarrow> tx_row list \<Rightarrow> explorer_error + explorer_answer" where
  "explore ab txHash chainTx txs =
     (let localLog = List.find (\<lambda>r. tx_txHash r = Some txHash) txs
      in if cv_transaction chainTx = None \<and> cv_receipt chainTx = None \<and> localLog = None
         then Inl (Transaction_not_found txHash)
         else Inr \<lparr>ex_status = (case cv_reverted chainTx of None \<Rightarrow> Explorer_pending
                    | Some True \<Rightarrow> Explorer_failed | Some False \<Rightarrow> Explorer_confirmed),
                ex_decoded = (if given (cv_firstCallData chainTx)
                    then decodeClause ab (the (cv_firstCallData chainTx)) else None),
                ex_localLog = localLog\<rparr>)"

subsection \<open>Health\<close>

record health_checks =
  hc_database :: bool
  hc_redis :: bool
  hc_storage_writable :: bool
  hc_storage_hasRoom :: bool
  hc_thor :: bool

definition ready :: "health_checks \<Rightarrow> bool" where
  "ready c \<longleftrightarrow> hc_database c \<and> hc_redis c \<and> hc_storage_writable c"

definition ready_status :: "health_checks \<Rightarrow> nat" where
  "ready_status c = (if ready c then 200 else 503)"

definition currentChainId :: "bool \<Rightarrow> chain_error + string \<Rightarrow> string option" where
  "currentChainId simulate answer =
     (if simulate then None else case answer of Inl _ \<Rightarrow> None | Inr c \<Rightarrow> Some c)"

subsection \<open>Ids: there and back\<close>

definition is_hex :: "char \<Rightarrow> bool" where
  "is_hex c \<longleftrightarrow> (let n = char_code c in 48 \<le> n \<and> n \<le> 57 \<or> 65 \<le> n \<and> n \<le> 70 \<or> 97 \<le> n \<and> n \<le> 102)"

text \<open>A UUID's text: hexadecimal groups of 8, 4, 4, 4 and 12 digits.\<close>

definition uuid_text :: "string \<Rightarrow> bool" where
  "uuid_text u \<longleftrightarrow> (\<exists>a b c d e. u = a @ hyphen # b @ hyphen # c @ hyphen # d @ hyphen # e
     \<and> map length [a, b, c, d, e] = [8, 4, 4, 4, 12] \<and> list_all is_hex (a @ b @ c @ d @ e))"

lemma hex_not_hyphen: "is_hex c \<Longrightarrow> c \<noteq> hyphen"
  by (auto simp: is_hex_def hyphen_def char_code_def)

lemma hyphenless_hex: "list_all is_hex s \<Longrightarrow> hyphenless s = s"
  unfolding hyphenless_def by (induction s) (auto dest: hex_not_hyphen)

lemma hyphenless_simps:
  "hyphenless (s @ t) = hyphenless s @ hyphenless t"
  "hyphenless (hyphen # s) = hyphenless s"
  by (simp_all add: hyphenless_def)

lemma uuid_there_and_back:
  assumes "uuid_text u"
  shows "bytes32ToUuid (uuidToBytes32 u) = u" and "length (uuidToBytes32 u) = 66"
    and "list_all is_hex (drop 2 (uuidToBytes32 u))"
proof -
  obtain a b c d e where u: "u = a @ hyphen # b @ hyphen # c @ hyphen # d @ hyphen # e"
    and l: "map length [a, b, c, d, e] = [8, 4, 4, 4, 12]"
    and h: "list_all is_hex (a @ b @ c @ d @ e)"
    using assms unfolding uuid_text_def by (elim exE conjE)
  have "list_all is_hex a" "list_all is_hex b" "list_all is_hex c" "list_all is_hex d" "list_all is_hex e"
    using h unfolding list_all_append by blast+
  note parts = this [THEN hyphenless_hex]
  have less: "hyphenless u = a @ b @ c @ d @ e"
    by (simp only: u hyphenless_simps parts)
  then have t: "uuidToBytes32 u = ''0x'' @ replicate 32 CHR ''0'' @ a @ b @ c @ d @ e"
    using l by (simp add: uuidToBytes32_def)
  have "without_0x (uuidToBytes32 u) = replicate 32 CHR ''0'' @ a @ b @ c @ d @ e"
    by (simp add: t without_0x_def startsWith_def)
  then show "bytes32ToUuid (uuidToBytes32 u) = u"
    using l by (simp add: bytes32ToUuid_def u)
  show "length (uuidToBytes32 u) = 66" using l by (simp add: t)
  have "is_hex CHR ''0''" by (simp add: is_hex_def char_code_def)
  then show "list_all is_hex (drop 2 (uuidToBytes32 u))"
    using h by (simp add: t list_all_iff)
qed

subsection \<open>What a submission does\<close>

lemma submit_cases:
  assumes "submitVeChainTransaction cfg th input sent = (r, sent')"
  obtains (unpaid) "r = Inl Delegation_not_configured" "sent' = sent" "FEE_DELEGATION_REQUIRED cfg"
      "getGasPayerConfig cfg th = None"
  | (no_gas) e origin where "r = Inl e" "sent' = sent"
      "choose_gas cfg th input origin (getGasPayerConfig cfg th) = Inl e"
  | (no_signer) "r = Inl No_signer" "sent' = sent"
  | (handed) tx origin limit est where "sent' = sent @ [tx]" "sx_clauses tx = sb_clauses input"
      "sx_gas tx = limit" "sx_payer tx = map_option gp_options (getGasPayerConfig cfg th)"
      "origin = (case sb_address input of None \<Rightarrow> th_address th (sb_privateKey input) | Some a \<Rightarrow> a)"
      "choose_gas cfg th input origin (getGasPayerConfig cfg th) = Inr (limit, est)"
      "FEE_DELEGATION_REQUIRED cfg \<longrightarrow> getGasPayerConfig cfg th \<noteq> None"
      "(r = Inl Not_sent \<and> th_accept th tx = None) \<or> (\<exists>su. r = Inr su \<and> th_accept th tx = Some (su_txId su)
         \<and> su_gasLimit su = limit \<and> su_gasEstimate su = est \<and> su_originAddress su = origin
         \<and> (su_delegated su \<longleftrightarrow> getGasPayerConfig cfg th \<noteq> None))"
  using assms
  by (auto simp: submitVeChainTransaction_def Let_def split: if_splits sum.splits option.splits prod.splits)

lemma choose_gas_cases:
  "choose_gas cfg th input origin payer = Inl e \<Longrightarrow>
     FEE_DELEGATION_REQUIRED cfg \<and> e \<in> {Node_unreachable, Simulation_reverted}"
  "choose_gas cfg th input origin payer = Inr (limit, est) \<Longrightarrow>
     limit = (case est of None \<Rightarrow> sb_fallbackGas input | Some n \<Rightarrow> max n (sb_fallbackGas input))
     \<and> (FEE_DELEGATION_REQUIRED cfg \<longrightarrow> est \<noteq> None)"
  by (auto simp: choose_gas_def Let_def split: if_splits option.splits)


definition sample_thor :: thor where
  "sample_thor = \<lparr>th_address = (\<lambda>k. ''address of '' @ k), th_estimate = (\<lambda>c a p. Some \<lparr>ge_totalGas = 210000, ge_reverted = False\<rparr>),
     th_signer = (\<lambda>a. True), th_accept = (\<lambda>tx. Some ''0xabc''), th_verify = (\<lambda>a i h. None), th_hasRole = (\<lambda>a b. None)\<rparr>"

definition sample_config :: chain_config where
  "sample_config = \<lparr>FEE_DELEGATOR_URL = None, FEE_DELEGATOR_PRIVATE_KEY = None, DEPLOYER_PRIVATE_KEY = Some ''0x1'',
     FEE_DELEGATION_REQUIRED = True, in_production = False\<rparr>"

definition sample_submission :: submission where
  "sample_submission = \<lparr>sb_privateKey = ''0x2'', sb_address = None,
     sb_clauses = [\<lparr>cl_to = Some ''0xr'', cl_data = ''0xd''\<rparr>], sb_fallbackGas = 500000\<rparr>"


text \<open>Without the requirement the error of a simulation that reverts is caught by the handler
  meant for a failing estimate, and the transaction is sent all the same.\<close>

theorem a_reverting_transaction_is_sent:
  assumes "\<not> FEE_DELEGATION_REQUIRED cfg" and "sb_address input = Some origin" and "th_signer th origin"
    and "\<forall>payer. th_estimate th (sb_clauses input) origin payer = Some \<lparr>ge_totalGas = n, ge_reverted = True\<rparr>"
    and "\<forall>tx. th_accept th tx = Some t"
  shows "\<exists>su tx. submitVeChainTransaction cfg th input sent = (Inr su, sent @ [tx])
    \<and> sx_clauses tx = sb_clauses input \<and> su_gasLimit su = sb_fallbackGas input \<and> su_gasEstimate su = None"
  using assms by (simp add: submitVeChainTransaction_def choose_gas_def Let_def)

subsection \<open>The wait ends\<close>

text \<open>What a wait may answer: a receipt that a poll found, or nothing after the deadline. The
  last poll began before the deadline was a second old, unless it was the first.\<close>

definition wait_outcome ::
  "(time \<Rightarrow> thor_receipt option \<times> time) \<Rightarrow> time \<Rightarrow> time \<Rightarrow> chain_receipt option \<times> time \<Rightarrow> bool" where
  "wait_outcome poll deadline now answer \<longleftrightarrow> (\<exists>t. now \<le> t \<and> (t = now \<or> t < deadline + 1000)
     \<and> snd answer = snd (poll t) \<and> fst answer = map_option to_receipt (fst (poll t))
     \<and> (fst answer = None \<longrightarrow> deadline \<le> snd answer))"

lemma receipt_loop_ends:
  assumes "\<forall>t. t \<le> snd (poll t)"
  shows "\<exists>answer. receipt_loop poll deadline now = Some answer \<and> wait_outcome poll deadline now answer"
proof (induction "nat (deadline - now)" arbitrary: now rule: less_induct)
  case less
  obtain found ended where p: "poll now = (found, ended)" by fastforce
  have later: "now \<le> ended" using assms p by (metis snd_conv)
  consider (receipt) x where "found = Some x" | (late) "found = None" "deadline \<le> ended"
    | (again) "found = None" "ended < deadline" by (cases found) fastforce+
  then show ?case
  proof cases
    case receipt
    then show ?thesis using p
      by (auto simp: receipt_loop.simps [of poll deadline now] wait_outcome_def intro!: exI [of _ now])
  next
    case late
    then show ?thesis using p
      by (auto simp: receipt_loop.simps [of poll deadline now] wait_outcome_def intro!: exI [of _ now])
  next
    case again
    have "nat (deadline - (ended + 1000)) < nat (deadline - now)" using again later by simp
    from less [OF this] obtain answer where a: "receipt_loop poll deadline (ended + 1000) = Some answer"
        "wait_outcome poll deadline (ended + 1000) answer" by blast
    obtain t where t: "ended + 1000 \<le> t" "t = ended + 1000 \<or> t < deadline + 1000"
        "snd answer = snd (poll t)" "fst answer = map_option to_receipt (fst (poll t))"
        "fst answer = None \<longrightarrow> deadline \<le> snd answer"
      using a(2) unfolding wait_outcome_def by (elim exE conjE)
    then have "wait_outcome poll deadline now answer"
      unfolding wait_outcome_def using again later by (intro exI [of _ t]) auto
    moreover have "receipt_loop poll deadline now = Some answer"
      using a(1) again p by (simp add: receipt_loop.simps [of poll deadline now])
    ultimately show ?thesis by blast
  qed
qed

text \<open>C20: When the node answers every poll within some latency, the wait for a receipt ends, at
  most a second and one poll after its timeout; it never gives up before the timeout; a receipt
  it returns is one the node gave; and a transaction whose receipt the node has a latency before
  the timeout is never reported as unconfirmed.\<close>

theorem the_wait_for_a_receipt_ends:
  assumes "\<forall>t. t \<le> snd (poll t) \<and> snd (poll t) \<le> t + latency" and "0 \<le> timeout"
  shows "\<exists>receipt ended. waitForReceipt poll (Some timeout) now = Some (receipt, ended)
    \<and> now \<le> ended \<and> ended < now + timeout + 1000 + latency
    \<and> (receipt = None \<longrightarrow> now + timeout \<le> ended)
    \<and> (\<forall>c. receipt = Some c \<longrightarrow> (\<exists>t x. now \<le> t \<and> fst (poll t) = Some x \<and> c = to_receipt x))
    \<and> ((\<forall>t \<ge> packed. fst (poll t) \<noteq> None) \<and> packed + latency \<le> now + timeout \<longrightarrow> receipt \<noteq> None)"
proof -
  obtain answer where a: "receipt_loop poll (now + timeout) now = Some answer"
      "wait_outcome poll (now + timeout) now answer"
    using receipt_loop_ends [of poll "now + timeout" now] assms(1) by blast
  obtain t where t: "now \<le> t" "t = now \<or> t < now + timeout + 1000" "snd answer = snd (poll t)"
      "fst answer = map_option to_receipt (fst (poll t))" "fst answer = None \<longrightarrow> now + timeout \<le> snd answer"
    using a(2) unfolding wait_outcome_def by (elim exE conjE)
  have p: "t \<le> snd answer" "snd answer \<le> t + latency" using assms(1) t(3) by auto
  have early: "t < now + timeout + 1000" using t(2) assms(2) by auto
  have found: "fst answer \<noteq> None"
    if "\<forall>t \<ge> packed. fst (poll t) \<noteq> None" and "packed + latency \<le> now + timeout"
  proof
    assume "fst answer = None"
    then have "t < packed" and "now + timeout \<le> snd answer" using that(1) t(4,5) by (auto simp: not_le [symmetric])
    then show False using p that(2) by linarith
  qed
  obtain receipt ended where answer: "answer = (receipt, ended)" by (cases answer)
  have "waitForReceipt poll (Some timeout) now = Some (receipt, ended)"
    using a(1) by (simp add: waitForReceipt_def answer)
  moreover have "now \<le> ended" "ended < now + timeout + 1000 + latency"
    using t(1) p early by (simp_all add: answer)
  moreover have "receipt = None \<longrightarrow> now + timeout \<le> ended" using t(5) by (simp add: answer)
  moreover have "\<exists>t x. now \<le> t \<and> fst (poll t) = Some x \<and> c = to_receipt x" if got: "receipt = Some c" for c
  proof -
    obtain x where "fst (poll t) = Some x" "c = to_receipt x"
      using t(4) got by (cases "fst (poll t)") (auto simp: answer)
    then show ?thesis using t(1) by blast
  qed
  moreover have "receipt \<noteq> None"
    if "(\<forall>t \<ge> packed. fst (poll t) \<noteq> None) \<and> packed + latency \<le> now + timeout"
    using found that by (simp add: answer)
  ultimately show ?thesis by blast
qed

definition sample_receipt :: thor_receipt where
  "sample_receipt = \<lparr>tr_reverted = False, tr_gasUsed = 200000, tr_gasPayer = None, tr_paid = None,
     tr_blockNumber = 12, tr_blockId = ''0xb'', tr_outputs = []\<rparr>"

theorem the_wait_for_a_receipt_ends_witness:
  "\<exists>c ended. waitForReceipt (\<lambda>t. (if t \<ge> 5000 then Some sample_receipt else None, t + 200)) (Some 60000) 0
     = Some (Some c, ended) \<and> ended < 61200"
proof -
  let ?poll = "\<lambda>t::int. (if t \<ge> 5000 then Some sample_receipt else None, t + 200)"
  have "\<forall>t. t \<le> snd (?poll t) \<and> snd (?poll t) \<le> t + 200" by simp
  from the_wait_for_a_receipt_ends [OF this, of 60000 0 5000] obtain r ended where
    w: "waitForReceipt ?poll (Some 60000) 0 = Some (r, ended)" "ended < 61200"
      "(\<forall>t \<ge> 5000. fst (?poll t) \<noteq> None) \<longrightarrow> r \<noteq> None"
    by auto
  then have "r \<noteq> None" by simp
  then show ?thesis using w(1,2) by blast
qed

subsection \<open>What the explorer shows\<close>

text \<open>ethers parses back what it encoded, bytes32 in lower case; a function outside the parser's
  interface gives nothing.\<close>

definition abi_ok :: "abi \<Rightarrow> bool" where
  "abi_ok ab \<longleftrightarrow>
     (\<forall>f args. ab_encode ab f args \<noteq> '''')
     \<and> (\<forall>i h uri. ab_parse ab explorer_functions (ab_encode ab ''registerPassport'' [i, h, uri])
          = Some (''registerPassport'', [toLowerCase i, toLowerCase h, uri]))
     \<and> (\<forall>i h. ab_parse ab explorer_functions (ab_encode ab ''updatePassportHash'' [i, h])
          = Some (''updatePassportHash'', [toLowerCase i, toLowerCase h]))
     \<and> (\<forall>f args. f \<notin> set explorer_functions \<longrightarrow> ab_parse ab explorer_functions (ab_encode ab f args) = None)"

lemma adapter_submit_clauses:
  assumes "adapter_submit cfg th signer to data gas sent = (Inr su, sent')"
  shows "\<exists>tx. sent' = sent @ [tx] \<and> sx_clauses tx = [\<lparr>cl_to = to, cl_data = data\<rparr>]"
proof -
  have "submitVeChainTransaction cfg th \<lparr>sb_privateKey = cs_privateKey signer,
       sb_address = Some (cs_address signer), sb_clauses = [\<lparr>cl_to = to, cl_data = data\<rparr>],
       sb_fallbackGas = gas\<rparr> sent = (Inr su, sent')"
    using assms by (simp add: adapter_submit_def)
  then show ?thesis by (cases rule: submit_cases) auto
qed

lemma lower_bytes32:
  assumes "toLowerCase u = u"
  shows "toLowerCase (uuidToBytes32 u) = uuidToBytes32 u"
proof -
  have h: "toLowerCase (hyphenless u) = hyphenless u"
    using assms unfolding toLowerCase_def hyphenless_def by (induction u) auto
  have z: "lower_char CHR ''0'' = CHR ''0''" "lower_char CHR ''x'' = CHR ''x''" by code_simp+
  show ?thesis
    unfolding uuidToBytes32_def toLowerCase_append h by (simp add: toLowerCase_def z)
qed

definition status_of_receipt :: "thor_receipt option \<Rightarrow> explorer_status" where
  "status_of_receipt receipt = (case receipt of None \<Rightarrow> Explorer_pending
     | Some r \<Rightarrow> if tr_reverted r then Explorer_failed else Explorer_confirmed)"

lemma explore_found:
  assumes "data \<noteq> ''''"
  shows "explore ab t (getTransaction (Some [\<lparr>cl_to = a, cl_data = data\<rparr>]) receipt) txs
    = Inr \<lparr>ex_status = status_of_receipt receipt, ex_decoded = decodeClause ab data,
        ex_localLog = List.find (\<lambda>r. tx_txHash r = Some t) txs\<rparr>"
  using assms by (simp add: explore_def getTransaction_def given_def Let_def status_of_receipt_def split: option.splits)

text \<open>C22: The explorer shows of a transaction that the adapter sent for a passport exactly what
  was anchored: the passport's own id, read back from the padded id on chain, the fingerprint
  and the address of the data; its status is that of the receipt, and it is pending until there
  is one. The transfer of a passport it does not decode.\<close>

theorem the_explorer_names_the_passport:
  assumes "abi_ok ab" and "uuid_text u" and "toLowerCase u = u"
    and "adapter_register cfg th ab signer a u h uri sent = (Inr su, sent')"
    and "adapter_update cfg th ab signer a u h sent' = (Inr su2, sent2)"
    and "adapter_transfer cfg th ab signer a u owner sent2 = (Inr su3, sent3)"
  shows "explore ab (su_txId su) (getTransaction (Some (sx_clauses (last sent'))) receipt) txs
      = Inr \<lparr>ex_status = status_of_receipt receipt,
          ex_decoded = Some (Decoded_register u (uuidToBytes32 u) (toLowerCase h) uri),
          ex_localLog = List.find (\<lambda>r. tx_txHash r = Some (su_txId su)) txs\<rparr>
    \<and> explore ab (su_txId su2) (getTransaction (Some (sx_clauses (last sent2))) receipt) txs
      = Inr \<lparr>ex_status = status_of_receipt receipt,
          ex_decoded = Some (Decoded_update u (uuidToBytes32 u) (toLowerCase h)),
          ex_localLog = List.find (\<lambda>r. tx_txHash r = Some (su_txId su2)) txs\<rparr>
    \<and> explore ab (su_txId su3) (getTransaction (Some (sx_clauses (last sent3))) receipt) txs
      = Inr \<lparr>ex_status = status_of_receipt receipt, ex_decoded = None,
          ex_localLog = List.find (\<lambda>r. tx_txHash r = Some (su_txId su3)) txs\<rparr>"
proof -
  note clauses = assms(4-6) [unfolded adapter_register_def adapter_update_def adapter_transfer_def,
      THEN adapter_submit_clauses]
  have last: "\<exists>tx. xs' = xs @ [tx] \<and> sx_clauses tx = cs \<Longrightarrow> sx_clauses (last xs') = cs"
    for xs xs' :: "sent_tx list" and cs by auto
  note sent = clauses [THEN last]
  have some: "register_data ab u h uri \<noteq> ''''" "update_data ab u h \<noteq> ''''"
      "ab_encode ab ''transferPassport'' [uuidToBytes32 u, owner] \<noteq> ''''"
    using assms(1) by (simp_all add: abi_ok_def register_data_def update_data_def)
  have "decodeClause ab (register_data ab u h uri) = Some (Decoded_register u (uuidToBytes32 u) (toLowerCase h) uri)"
    using assms(1) lower_bytes32 [OF assms(3)] uuid_there_and_back(1) [OF assms(2)]
    by (simp add: abi_ok_def decodeClause_def register_data_def)
  moreover have "decodeClause ab (update_data ab u h) = Some (Decoded_update u (uuidToBytes32 u) (toLowerCase h))"
    using assms(1) lower_bytes32 [OF assms(3)] uuid_there_and_back(1) [OF assms(2)]
    by (simp add: abi_ok_def decodeClause_def update_data_def)
  moreover have "decodeClause ab (ab_encode ab ''transferPassport'' [uuidToBytes32 u, owner]) = None"
    using assms(1) by (simp add: abi_ok_def decodeClause_def explorer_functions_def)
  ultimately show ?thesis by (simp add: sent explore_found some)
qed

text \<open>An encoding that has the round trip: every argument after its length in unary.\<close>

definition unary_arg :: "string \<Rightarrow> string" where
  "unary_arg a = replicate (length a) CHR ''1'' @ CHR ''0'' # a"

definition read_arg :: "string \<Rightarrow> string \<times> string" where
  "read_arg s = (let n = length (takeWhile (\<lambda>c. c = CHR ''1'') s); r = drop (Suc n) s in (take n r, drop n r))"

lemma read_unary [simp]: "read_arg (unary_arg a @ rest) = (a, rest)"
proof -
  have "takeWhile (\<lambda>c. c = CHR ''1'') (replicate (length a) CHR ''1'' @ CHR ''0'' # (a @ rest))
      = replicate (length a) CHR ''1''"
    by (subst takeWhile_append2) auto
  then show ?thesis by (simp add: read_arg_def unary_arg_def)
qed

definition unary_encode :: "string \<Rightarrow> string list \<Rightarrow> string" where
  "unary_encode f args = unary_arg f @ concat (map unary_arg args)"

definition unary_parse :: "string list \<Rightarrow> string \<Rightarrow> (string \<times> string list) option" where
  "unary_parse names data =
     (case read_arg data of (f, r0) \<Rightarrow> case read_arg r0 of (x, r1) \<Rightarrow> case read_arg r1 of (y, r2) \<Rightarrow>
      case read_arg r2 of (z, r3) \<Rightarrow>
        if f \<notin> set names then None
        else if f = ''registerPassport'' then Some (f, [toLowerCase x, toLowerCase y, z])
        else if f = ''updatePassportHash'' then Some (f, [toLowerCase x, toLowerCase y])
        else Some (f, [x]))"

definition unary_abi :: abi where
  "unary_abi = \<lparr>ab_encode = unary_encode, ab_deploy = (\<lambda>a. ''0x'' @ a), ab_parse = unary_parse\<rparr>"

lemma read_unary_end [simp]: "read_arg (unary_arg a) = (a, '''')"
  using read_unary [of a "''''"] by simp

lemma unary_abi_ok: "abi_ok unary_abi"
proof -
  have "unary_parse explorer_functions (unary_encode ''registerPassport'' [i, h, uri])
      = Some (''registerPassport'', [toLowerCase i, toLowerCase h, uri])" for i h uri
    by (simp add: unary_parse_def unary_encode_def explorer_functions_def split: prod.splits)
  moreover have "unary_parse explorer_functions (unary_encode ''updatePassportHash'' [i, h])
      = Some (''updatePassportHash'', [toLowerCase i, toLowerCase h])" for i h
    by (simp add: unary_parse_def unary_encode_def explorer_functions_def split: prod.splits)
  moreover have "f \<notin> set explorer_functions \<Longrightarrow> unary_parse explorer_functions (unary_encode f args) = None" for f args
    by (simp add: unary_parse_def unary_encode_def split: prod.splits)
  ultimately show ?thesis by (simp add: abi_ok_def unary_abi_def unary_encode_def unary_arg_def)
qed

definition sample_uuid :: string where
  "sample_uuid = ''0190aaaa-bbbb-7ccc-8ddd-eeeeffff0001''"

lemma sample_uuid_text: "uuid_text sample_uuid" "toLowerCase sample_uuid = sample_uuid"
proof -
  have "list_all is_hex (''0190aaaa'' @ ''bbbb'' @ ''7ccc'' @ ''8ddd'' @ ''eeeeffff0001'')" by code_simp
  then show "uuid_text sample_uuid"
    unfolding uuid_text_def sample_uuid_def hyphen_def
    by (intro exI [of _ "''0190aaaa''"] exI [of _ "''bbbb''"] exI [of _ "''7ccc''"] exI [of _ "''8ddd''"]
        exI [of _ "''eeeeffff0001''"]) simp
  show "toLowerCase sample_uuid = sample_uuid" by code_simp
qed

definition sample_signer :: chain_signer where
  "sample_signer = \<lparr>cs_address = ''0x7'', cs_privateKey = ''0x2''\<rparr>"

lemma sample_accepts:
  "\<exists>su sent'. adapter_submit sample_config sample_thor signer to data gas sent = (Inr su, sent')"
  by (simp add: adapter_submit_def submitVeChainTransaction_def getGasPayerConfig_def choose_gas_def
      given_def Let_def sample_thor_def sample_config_def)

theorem the_explorer_names_the_passport_witness:
  "\<exists>su sent'. adapter_register sample_config sample_thor unary_abi sample_signer ''0xr'' sample_uuid ''0xAB'' ''uri'' []
       = (Inr su, sent')
     \<and> explore unary_abi (su_txId su) (getTransaction (Some (sx_clauses (last sent'))) None) []
       = Inr \<lparr>ex_status = Explorer_pending,
           ex_decoded = Some (Decoded_register sample_uuid (uuidToBytes32 sample_uuid) (toLowerCase ''0xAB'') ''uri''),
           ex_localLog = None\<rparr>"
proof -
  obtain su s1 where 1: "adapter_register sample_config sample_thor unary_abi sample_signer ''0xr'' sample_uuid ''0xAB'' ''uri'' []
      = (Inr su, s1)"
    using sample_accepts unfolding adapter_register_def by blast
  obtain su2 s2 where 2: "adapter_update sample_config sample_thor unary_abi sample_signer ''0xr'' sample_uuid ''0xAB'' s1
      = (Inr su2, s2)"
    using sample_accepts unfolding adapter_update_def by blast
  obtain su3 s3 where 3: "adapter_transfer sample_config sample_thor unary_abi sample_signer ''0xr'' sample_uuid ''0x9'' s2
      = (Inr su3, s3)"
    using sample_accepts unfolding adapter_transfer_def by blast
  show ?thesis
    using 1 the_explorer_names_the_passport [OF unary_abi_ok sample_uuid_text 1 2 3, of None "[]"]
    by (auto simp: status_of_receipt_def)
qed

end
