(* ===== verification/Chain_Registry.thy ===== *)
theory Chain_Registry
  imports Chain_Adapter
begin

text \<open>
  The worker, the adapter and the contract together: the adapter reads the registry
  (\<open>Material_Registry\<close>) through a node, \<open>decideAnchorAction\<close> picks the call from what it reads,
  and the contract executes the call.

  A node that is up answers a read with the contract's own result (\<open>reads\<close>), its words in
  hexadecimal text; \<open>codec\<close> is the documented behaviour of that text.
\<close>

subsection \<open>A node that is up\<close>

record word_text =
  wt_bytes32 :: "string \<Rightarrow> bytes32"
  wt_hash :: "bytes32 \<Rightarrow> string"
  wt_address :: "string \<Rightarrow> address"
  wt_owner :: "address \<Rightarrow> string"

text \<open>Reading text back gives the word, letter case does not matter, and text of the right length
  comes back as it was but for letter case.\<close>

definition codec :: "nat \<Rightarrow> (string \<Rightarrow> 'w) \<Rightarrow> ('w \<Rightarrow> string) \<Rightarrow> bool" where
  "codec n enc dec \<longleftrightarrow> (\<forall>w. enc (dec w) = w) \<and> (\<forall>w. dec w \<noteq> '''')
     \<and> (\<forall>t. enc (toLowerCase t) = enc t)
     \<and> (\<forall>t. take 2 t = ''0x'' \<and> length t = n + 2 \<and> list_all is_hex (drop 2 t)
          \<longrightarrow> toLowerCase (dec (enc t)) = toLowerCase t)"

definition codecs :: "word_text \<Rightarrow> bool" where
  "codecs wt \<longleftrightarrow> codec 64 (wt_bytes32 wt) (wt_hash wt) \<and> codec 40 (wt_address wt) (wt_owner wt)"

definition hex_text :: "nat \<Rightarrow> string \<Rightarrow> bool" where
  "hex_text n t \<longleftrightarrow> take 2 t = ''0x'' \<and> length t = n + 2 \<and> list_all is_hex (drop 2 t)"

lemma codecD:
  assumes "codec n enc dec"
  shows "enc (dec w) = w" and "dec w \<noteq> ''''" and "enc (toLowerCase t) = enc t"
    and "hex_text n t \<Longrightarrow> toLowerCase (dec (enc t)) = toLowerCase t"
  using assms by (auto simp: codec_def hex_text_def)

text \<open>Text and word are equal together.\<close>

lemma codec_eq_iff:
  assumes "codec n enc dec" and "hex_text n t"
  shows "toLowerCase (dec w) = toLowerCase t \<longleftrightarrow> w = enc t"
  using codecD(1) [OF assms(1), of w] codecD(3) [OF assms(1), of "dec w"] codecD(3) [OF assms(1), of t]
    codecD(4) [OF assms(1,2)] by metis

definition answer_of :: "word_text \<Rightarrow> bool \<times> passport_record \<Rightarrow> verify_answer" where
  "answer_of wt vr = \<lparr>va_success = True, va_valid = Some (fst vr),
     va_record = Some \<lparr>pl_dataHash = Some (wt_hash wt (pr_dataHash (snd vr))),
       pl_owner = Some (wt_owner wt (pr_owner (snd vr))),
       pl_registeredAt = Some (unat (pr_registeredAt (snd vr)))\<rparr>\<rparr>"

definition reads :: "thor \<Rightarrow> word_text \<Rightarrow> string \<Rightarrow> registry \<Rightarrow> bool" where
  "reads th wt registry_at s \<longleftrightarrow> (\<forall>i h. th_verify th registry_at i h
     = Some (answer_of wt (verifyPassport (wt_bytes32 wt i) (wt_bytes32 wt h) s)))"

definition on_chain_id :: "word_text \<Rightarrow> string \<Rightarrow> bytes32" where
  "on_chain_id wt passportId = wt_bytes32 wt (uuidToBytes32 passportId)"

lemma anchor_read:
  assumes "reads th wt registry_at s" and "codecs wt"
  shows "getPassportAnchor th registry_at u = Inr (if isRegistered (on_chain_id wt u) s
      then \<lparr>oa_registered = True, oa_dataHash = Some (toLowerCase (wt_hash wt (pr_dataHash (rg_passports s (on_chain_id wt u))))),
        oa_owner = Some (wt_owner wt (pr_owner (rg_passports s (on_chain_id wt u))))\<rparr>
      else \<lparr>oa_registered = False, oa_dataHash = None, oa_owner = None\<rparr>)"
  using assms codecD(2) [of 40 "wt_address wt" "wt_owner wt"]
  by (simp add: getPassportAnchor_def reads_def answer_of_def verifyPassport_def isRegistered_def
      on_chain_id_def given_def Let_def codecs_def unat_eq_zero)

lemma verify_read:
  assumes "reads th wt registry_at s"
  shows "adapter_verify th registry_at u h
    = Some (isRegistered (on_chain_id wt u) s \<and> pr_dataHash (rg_passports s (on_chain_id wt u)) = wt_bytes32 wt h)"
  using assms by (simp add: adapter_verify_def reads_def answer_of_def verifyPassport_def isRegistered_def
      on_chain_id_def Let_def)

subsection \<open>The calls of one anchor job\<close>

text \<open>The organisation's wallet sends the registration or the new fingerprint; when another
  address owns the passport on chain the deployer first transfers it.\<close>

definition anchor_calls ::
  "word_text \<Rightarrow> msg \<Rightarrow> msg \<Rightarrow> string \<Rightarrow> onchain_anchor \<Rightarrow> anchor_action \<Rightarrow> string \<Rightarrow> string \<Rightarrow> string
    \<Rightarrow> registry \<Rightarrow> revert + registry" where
  "anchor_calls wt hub deployer wallet onchain action passportId dataHash metadataUri s =
     (case action of
        Skip_passport \<Rightarrow> Inr s
      | Register_passport \<Rightarrow>
          registerPassport hub (on_chain_id wt passportId) (wt_bytes32 wt dataHash) metadataUri s
      | Update_hash \<Rightarrow>
          (case (if given (oa_owner onchain) \<and> toLowerCase (the (oa_owner onchain)) \<noteq> toLowerCase wallet
                 then transferPassport deployer (on_chain_id wt passportId) (wt_address wt wallet) s
                 else Inr s) of
             Inl e \<Rightarrow> Inl e
           | Inr s' \<Rightarrow> updatePassportHash hub (on_chain_id wt passportId) (wt_bytes32 wt dataHash) s'))"

text \<open>What the worker decides, in terms of the contract's storage.\<close>

lemma decision_read:
  assumes "reads th wt registry_at s" and "codecs wt" and "hex_text 64 h"
    and "getPassportAnchor th registry_at u = Inr onchain"
  shows "decideAnchorAction onchain h =
      (if \<not> isRegistered (on_chain_id wt u) s then Register_passport
       else if pr_dataHash (rg_passports s (on_chain_id wt u)) = wt_bytes32 wt h then Skip_passport
       else Update_hash)"
    and "isRegistered (on_chain_id wt u) s \<Longrightarrow>
      oa_owner onchain = Some (wt_owner wt (pr_owner (rg_passports s (on_chain_id wt u))))"
  using anchor_read [OF assms(1,2), of u] assms(4)
    codec_eq_iff [of 64 "wt_bytes32 wt" "wt_hash wt" h "pr_dataHash (rg_passports s (on_chain_id wt u))"]
    assms(2,3)
  by (auto simp: decideAnchorAction_def codecs_def split: if_splits)

definition settled ::
  "word_text \<Rightarrow> string \<Rightarrow> string \<Rightarrow> string \<Rightarrow> registry \<Rightarrow> registry \<Rightarrow> bool" where
  "settled wt registry_at u h s s' \<longleftrightarrow> registry_ok s' \<and>
     (\<forall>th th'. reads th wt registry_at s \<and> reads th' wt registry_at s' \<longrightarrow>
        adapter_verify th' registry_at u h = Some True
        \<and> (\<exists>onchain. getPassportAnchor th' registry_at u = Inr onchain
             \<and> decideAnchorAction onchain h = Skip_passport)
        \<and> (\<forall>u'. on_chain_id wt u' \<noteq> on_chain_id wt u \<longrightarrow>
             getPassportAnchor th' registry_at u' = getPassportAnchor th registry_at u'))"

lemma settledI:
  assumes "codecs wt" and "hex_text 64 h" and "registry_ok s'" and "isRegistered (on_chain_id wt u) s'"
    and "pr_dataHash (rg_passports s' (on_chain_id wt u)) = wt_bytes32 wt h"
    and "\<And>j. j \<noteq> on_chain_id wt u \<Longrightarrow> rg_passports s' j = rg_passports s j"
  shows "settled wt registry_at u h s s'"
  unfolding settled_def
proof (intro conjI allI impI)
  show "registry_ok s'" by (fact assms(3))
next
  fix th th' assume r: "reads th wt registry_at s \<and> reads th' wt registry_at s'"
  note r' = conjunct2 [OF r]
  show "adapter_verify th' registry_at u h = Some True"
    using verify_read [OF r', of u h] assms(4,5) by simp
  obtain onchain where o: "getPassportAnchor th' registry_at u = Inr onchain"
    using anchor_read [OF r' assms(1), of u] by simp
  have "decideAnchorAction onchain h = Skip_passport"
    using decision_read(1) [OF r' assms(1,2) o] assms(4,5) by simp
  then show "\<exists>onchain. getPassportAnchor th' registry_at u = Inr onchain
      \<and> decideAnchorAction onchain h = Skip_passport"
    using o by blast
  fix u' assume n: "on_chain_id wt u' \<noteq> on_chain_id wt u"
  show "getPassportAnchor th' registry_at u' = getPassportAnchor th registry_at u'"
    using anchor_read [OF r' assms(1), of u'] anchor_read [OF conjunct1 [OF r] assms(1), of u']
      assms(6) [OF n] by (simp add: isRegistered_def)
qed

text \<open>A registration, and a new fingerprint sent by the owner: when the contract takes them and
  what they leave.\<close>

lemma registration_taken:
  assumes "registry_ok s" and "ms_hub m" and "\<not> ms_paused m" and "i \<noteq> 0" and "h \<noteq> 0"
    and "\<not> isRegistered i s"
  shows "(\<exists>s'. registerPassport m i h uri s = Inr s') \<longleftrightarrow> getPassportByHash h s \<in> {0, i}"
  using register_one_iff [OF assms(1), of m i h uri] registry_ok_back [OF assms(1), of h] assms(2-)
  by (auto simp: registerPassport_def getPassportByHash_def)

lemma update_taken:
  assumes "registry_ok s" and "\<not> ms_paused m" and "h \<noteq> 0" and "isRegistered i s"
    and "pr_owner (rg_passports s i) = ms_sender m" and "pr_dataHash (rg_passports s i) \<noteq> h"
  shows "(\<exists>s'. updatePassportHash m i h s = Inr s') \<longleftrightarrow> getPassportByHash h s \<in> {0, i}"
  using registry_ok_back [OF assms(1), of h] assms(2-)
  by (auto simp: updatePassportHash_def get_record_def may_change_def isRegistered_def getPassportByHash_def)

lemma repair_taken:
  assumes "ms_admin m" and "\<not> ms_paused m" and "a \<noteq> 0" and "isRegistered i s"
  shows "transferPassport m i a s = Inr (s\<lparr>rg_passports := (rg_passports s)(i :=
    (rg_passports s i)\<lparr>pr_owner := a, pr_updatedAt := block_time m\<rparr>)\<rparr>)"
  using assms by (auto simp: transferPassport_def get_record_def may_change_def isRegistered_def)

text \<open>The state the update is sent in: the wallet owns the passport, nothing else changed.\<close>

lemma owned_state:
  assumes ok: "registry_ok s" and reg: "isRegistered i s" and owner: "oa_owner onchain = Some (wt_owner wt (pr_owner (rg_passports s i)))"
    and c: "codecs wt" and w: "hex_text 40 wallet" and a: "wt_address wt wallet \<noteq> 0"
    and d: "ms_admin deployer" "\<not> ms_paused deployer"
  shows "\<exists>s1. (if given (oa_owner onchain) \<and> toLowerCase (the (oa_owner onchain)) \<noteq> toLowerCase wallet
      then transferPassport deployer i (wt_address wt wallet) s else Inr s) = Inr s1
    \<and> registry_ok s1 \<and> isRegistered i s1 \<and> pr_owner (rg_passports s1 i) = wt_address wt wallet
    \<and> pr_dataHash (rg_passports s1 i) = pr_dataHash (rg_passports s i) \<and> rg_hashToId s1 = rg_hashToId s
    \<and> (\<forall>j. j \<noteq> i \<longrightarrow> rg_passports s1 j = rg_passports s j)"
proof -
  have cod: "codec 40 (wt_address wt) (wt_owner wt)" using c by (simp add: codecs_def)
  show ?thesis
  proof (cases "pr_owner (rg_passports s i) = wt_address wt wallet")
  case True
  have "toLowerCase (wt_owner wt (pr_owner (rg_passports s i))) = toLowerCase wallet"
    using codec_eq_iff [OF cod w] True by simp
  then show ?thesis using ok reg True owner by simp
next
  case False
  have "toLowerCase (wt_owner wt (pr_owner (rg_passports s i))) \<noteq> toLowerCase wallet"
    using codec_eq_iff [OF cod w] False by simp
  moreover have "given (oa_owner onchain)" using codecD(2) [OF cod] by (simp add: owner given_def)
  moreover note t = repair_taken [OF d a reg]
  ultimately show ?thesis
    using transferPassport_ok [OF ok t] reg by (simp add: owner isRegistered_def)
  qed
qed

text \<open>The call succeeds exactly when no other passport holds the fingerprint, and then it is there.\<close>

lemma register_settles:
  assumes "registry_ok s" and "codecs wt" and "hex_text 64 h" and "wt_bytes32 wt h \<noteq> 0"
    and "on_chain_id wt u \<noteq> 0" and "ms_hub m" and "\<not> ms_paused m" and "timed m"
    and "\<not> isRegistered (on_chain_id wt u) s"
  shows "(\<exists>s'. registerPassport m (on_chain_id wt u) (wt_bytes32 wt h) uri s = Inr s')
      \<longleftrightarrow> getPassportByHash (wt_bytes32 wt h) s \<in> {0, on_chain_id wt u}"
    and "registerPassport m (on_chain_id wt u) (wt_bytes32 wt h) uri s = Inr s' \<Longrightarrow>
      settled wt registry_at u h s s' \<and> pr_owner (rg_passports s' (on_chain_id wt u)) = ms_sender m"
proof -
  show "(\<exists>s'. registerPassport m (on_chain_id wt u) (wt_bytes32 wt h) uri s = Inr s')
      \<longleftrightarrow> getPassportByHash (wt_bytes32 wt h) s \<in> {0, on_chain_id wt u}"
    by (rule registration_taken) (use assms in auto)
  assume r: "registerPassport m (on_chain_id wt u) (wt_bytes32 wt h) uri s = Inr s'"
  then have one: "register_one m (on_chain_id wt u) (wt_bytes32 wt h) uri s = Inr s'"
    using assms(6,7) by (simp add: registerPassport_def)
  note p = register_one_ok(2) [OF assms(1,8) one]
  have "isRegistered (on_chain_id wt u) s'"
    using assms(8) by (simp add: isRegistered_def p timed_def)
  then show "settled wt registry_at u h s s' \<and> pr_owner (rg_passports s' (on_chain_id wt u)) = ms_sender m"
    using settledI [OF assms(2,3) register_one_ok(1) [OF assms(1,8) one], of u s registry_at] p by simp
qed

lemma update_settles:
  assumes s1: "registry_ok s1" "isRegistered (on_chain_id wt u) s1"
      "pr_owner (rg_passports s1 (on_chain_id wt u)) = ms_sender m"
      "\<forall>j. j \<noteq> on_chain_id wt u \<longrightarrow> rg_passports s1 j = rg_passports s j"
    and "codecs wt" and "hex_text 64 h"
    and r: "updatePassportHash m (on_chain_id wt u) (wt_bytes32 wt h) s1 = Inr s'"
  shows "settled wt registry_at u h s s' \<and> pr_owner (rg_passports s' (on_chain_id wt u)) = ms_sender m"
proof -
  note u = updatePassportHash_ok [OF s1(1) r]
  have "isRegistered (on_chain_id wt u) s'" using s1(2) by (simp add: isRegistered_def u(4))
  then show ?thesis
    using settledI [OF assms(5,6) u(1), of u s registry_at] s1(3,4) by (simp add: u(4))
qed

text \<open>C18: From what it reads of the registry the worker always picks the call that the contract
  takes. With the hub role granted, a wallet and a deployer that is an admin, and the contract
  not paused, its transactions go through exactly when no other passport holds the fingerprint:
  never because the passport is registered already, or not yet, or owned by another address.
  Afterwards the chain confirms the fingerprint, the next job has nothing to do, the wallet owns
  the passport if anything was sent, and no other passport reads differently.\<close>

theorem the_registry_takes_the_chosen_call:
  assumes "registry_ok s" and "reads th wt registry_at s" and "codecs wt"
    and "hex_text 64 h" and "hex_text 40 wallet"
    and "on_chain_id wt u \<noteq> 0" and "wt_bytes32 wt h \<noteq> 0"
    and "ms_sender hub = wt_address wt wallet" and "wt_address wt wallet \<noteq> 0"
    and "ms_hub hub" and "\<not> ms_paused hub" and "timed hub"
    and "ms_admin deployer" and "\<not> ms_paused deployer"
    and "getPassportAnchor th registry_at u = Inr onchain"
    and "action = decideAnchorAction onchain h"
  shows "((\<exists>s'. anchor_calls wt hub deployer wallet onchain action u h uri s = Inr s')
      \<longleftrightarrow> getPassportByHash (wt_bytes32 wt h) s \<in> {0, on_chain_id wt u})
    \<and> (\<forall>s'. anchor_calls wt hub deployer wallet onchain action u h uri s = Inr s' \<longrightarrow>
        settled wt registry_at u h s s'
        \<and> (action \<noteq> Skip_passport \<longrightarrow> pr_owner (rg_passports s' (on_chain_id wt u)) = wt_address wt wallet))"
proof -
  let ?i = "on_chain_id wt u"
  note d = decision_read [OF assms(2,3,4,15), folded assms(16)]
  consider (new) "\<not> isRegistered ?i s" "action = Register_passport"
    | (same) "isRegistered ?i s" "pr_dataHash (rg_passports s ?i) = wt_bytes32 wt h" "action = Skip_passport"
    | (other) "isRegistered ?i s" "pr_dataHash (rg_passports s ?i) \<noteq> wt_bytes32 wt h" "action = Update_hash"
    using d(1) by (auto split: if_splits)
  then show ?thesis
  proof cases
    case new
    note r = register_settles [OF assms(1,3,4,7,6,10,11,12) new(1)]
    show ?thesis using r(1) [of uri] r(2) [of uri] assms(8) new(2) by (auto simp: anchor_calls_def)
  next
    case same
    have "getPassportByHash (wt_bytes32 wt h) s = ?i"
      using registry_ok_mapping(3) [OF assms(1) same(1)] same(2) by (simp add: getPassportByHash_def)
    moreover have "settled wt registry_at u h s s"
      using settledI [OF assms(3,4,1) same(1,2)] by blast
    ultimately show ?thesis using same(3) by (simp add: anchor_calls_def)
  next
    case other
    obtain s1 where s1: "(if given (oa_owner onchain) \<and> toLowerCase (the (oa_owner onchain)) \<noteq> toLowerCase wallet
        then transferPassport deployer ?i (wt_address wt wallet) s else Inr s) = Inr s1"
      "registry_ok s1" "isRegistered ?i s1" "pr_owner (rg_passports s1 ?i) = wt_address wt wallet"
      "pr_dataHash (rg_passports s1 ?i) = pr_dataHash (rg_passports s ?i)" "rg_hashToId s1 = rg_hashToId s"
      "\<forall>j. j \<noteq> ?i \<longrightarrow> rg_passports s1 j = rg_passports s j"
      using owned_state [OF assms(1) other(1) d(2) [OF other(1)] assms(3,5,9,13,14)] by (elim exE conjE)
    have c: "anchor_calls wt hub deployer wallet onchain action u h uri s
        = updatePassportHash hub ?i (wt_bytes32 wt h) s1"
      using s1(1) other(3) by (simp add: anchor_calls_def)
    have o1: "pr_owner (rg_passports s1 ?i) = ms_sender hub" using s1(4) assms(8) by simp
    have "(\<exists>s'. updatePassportHash hub ?i (wt_bytes32 wt h) s1 = Inr s')
        \<longleftrightarrow> getPassportByHash (wt_bytes32 wt h) s \<in> {0, ?i}"
      using update_taken [OF s1(2) assms(11,7) s1(3) o1] other(2) s1(5,6) by (simp add: getPassportByHash_def)
    then show ?thesis
      using update_settles [OF s1(2,3) o1 s1(7) assms(3,4)] assms(8) by (simp add: c)
  qed
qed

subsection \<open>Hexadecimal text has the round trips\<close>

definition hex_value :: "char \<Rightarrow> nat" where
  "hex_value c = (let n = char_code (lower_char c) in if n < 58 then n - 48 else n - 87)"

definition hex_number :: "string \<Rightarrow> nat" where
  "hex_number s = foldl (\<lambda>v c. v * 16 + hex_value c) 0 s"

fun hex_digits :: "nat \<Rightarrow> nat \<Rightarrow> string" where
  "hex_digits 0 v = ''''"
| "hex_digits (Suc n) v = hex_digits n (v div 16) @ [hex_digit (v mod 16)]"

lemma hex_digit_code: "d < 16 \<Longrightarrow> char_code (hex_digit d) = (if d < 10 then 48 + d else 87 + d)"
  by (simp add: hex_digit_def char_code_def of_char_of)

lemma hex_digit_value: "d < 16 \<Longrightarrow> hex_value (hex_digit d) = d"
  by (simp add: hex_value_def lower_char_code hex_digit_code Let_def)

lemma hex_value_digit:
  assumes "is_hex c"
  shows "hex_digit (hex_value c) = lower_char c \<and> hex_value c < 16"
proof -
  have lt: "hex_value c < 16"
    using assms by (auto simp: is_hex_def hex_value_def lower_char_code Let_def)
  have "char_code (hex_digit (hex_value c)) = char_code (lower_char c)"
    unfolding hex_digit_code [OF lt]
    using assms by (auto simp: is_hex_def hex_value_def lower_char_code Let_def)
  then show ?thesis using lt by (simp add: code_eq_iff)
qed

lemma hex_number_snoc [simp]: "hex_number (s @ [c]) = hex_number s * 16 + hex_value c"
  by (simp add: hex_number_def)

lemma hex_number_digits: "hex_number (hex_digits n v) = v mod 16 ^ n"
  by (induction n arbitrary: v)
    (simp_all add: hex_number_def hex_digit_value mod_mult2_eq mult.commute)

lemma hex_digits_number:
  "list_all is_hex s \<Longrightarrow> hex_digits (length s) (hex_number s) = map lower_char s \<and> hex_number s < 16 ^ length s"
proof (induction s rule: rev_induct)
  case Nil
  then show ?case by (simp add: hex_number_def)
next
  case (snoc c s)
  have c: "hex_digit (hex_value c) = lower_char c" "hex_value c < 16"
    using snoc.prems hex_value_digit [of c] by simp_all
  have "(hex_number s * 16 + hex_value c) div 16 = hex_number s"
    and "(hex_number s * 16 + hex_value c) mod 16 = hex_value c" using c(2) by simp_all
  then show ?case using snoc c by simp
qed

lemma hex_number_lower: "hex_number (toLowerCase s) = hex_number s"
  by (induction s rule: rev_induct) (simp_all add: hex_number_def toLowerCase_def hex_value_def)

definition hex_word :: "string \<Rightarrow> 'a::len word" where
  "hex_word t = of_nat (hex_number (drop 2 t))"

definition word_hex :: "nat \<Rightarrow> 'a::len word \<Rightarrow> string" where
  "word_hex n w = ''0x'' @ hex_digits n (unat w)"

lemma hex_codec:
  assumes "(16 :: nat) ^ n = 2 ^ LENGTH('a::len)"
  shows "codec n (hex_word :: string \<Rightarrow> 'a word) (word_hex n)"
  unfolding codec_def
proof (intro conjI allI impI)
  fix w :: "'a word"
  have "unat w mod 16 ^ n = unat w" unfolding assms by (rule mod_less) (rule unsigned_less)
  then show "hex_word (word_hex n w) = w" by (simp add: hex_word_def word_hex_def hex_number_digits)
  show "word_hex n w \<noteq> ''''" by (simp add: word_hex_def)
next
  fix t
  show "(hex_word (toLowerCase t) :: 'a word) = hex_word t"
    using hex_number_lower [of "drop 2 t"] by (simp add: hex_word_def toLowerCase_def drop_map)
  assume t: "take 2 t = ''0x'' \<and> length t = n + 2 \<and> list_all is_hex (drop 2 t)"
  have d: "hex_digits n (hex_number (drop 2 t)) = toLowerCase (drop 2 t)" "hex_number (drop 2 t) < 16 ^ n"
    using hex_digits_number [of "drop 2 t"] t by (simp_all add: toLowerCase_def)
  have "unat (hex_word t :: 'a word) = hex_number (drop 2 t)"
    using d(2) unfolding assms hex_word_def by (simp add: unat_of_nat)
  then have "word_hex n (hex_word t :: 'a word) = take 2 t @ toLowerCase (drop 2 t)"
    using d(1) t by (simp add: word_hex_def)
  then show "toLowerCase (word_hex n (hex_word t :: 'a word)) = toLowerCase t"
    using toLowerCase_append [of "take 2 t" "drop 2 t"] by (simp add: toLowerCase_append)
qed

definition hex_texts :: word_text where
  "hex_texts = \<lparr>wt_bytes32 = hex_word, wt_hash = word_hex 64, wt_address = hex_word, wt_owner = word_hex 40\<rparr>"

lemma hex_texts_ok: "codecs hex_texts"
  by (simp add: codecs_def hex_texts_def hex_codec)

text \<open>A node on a registry where the sample passport has no record, and a job for it.\<close>

definition reading_thor :: "registry \<Rightarrow> thor" where
  "reading_thor s = sample_thor\<lparr>th_verify := \<lambda>a i h. Some (answer_of hex_texts
     (verifyPassport (wt_bytes32 hex_texts i) (wt_bytes32 hex_texts h) s))\<rparr>"

lemma reading_thor_reads: "reads (reading_thor s) hex_texts a s"
  by (simp add: reads_def reading_thor_def)

definition sample_hash :: string where "sample_hash = ''0x'' @ replicate 63 CHR ''0'' @ ''B''"
definition sample_wallet :: string where "sample_wallet = ''0x'' @ replicate 39 CHR ''0'' @ ''7''"

lemma hex_zeros: "hex_number (replicate n CHR ''0'' @ s) = hex_number s"
proof -
  have "foldl (\<lambda>v c. v * 16 + hex_value c) 0 (replicate n CHR ''0'') = 0"
    by (induction n) (simp_all add: hex_value_def lower_char_def char_code_def)
  then show ?thesis by (simp add: hex_number_def)
qed

lemma sample_texts: "hex_text 64 sample_hash" "hex_text 40 sample_wallet"
  by (simp_all add: hex_text_def sample_hash_def sample_wallet_def list_all_iff is_hex_def char_code_def)

lemma sample_numbers:
  "hex_number ''B'' = 11" "hex_number ''7'' = 7"
  by (simp_all add: hex_number_def hex_value_def lower_char_def char_code_def)

lemma sample_words:
  "on_chain_id hex_texts sample_uuid \<noteq> 0" "wt_bytes32 hex_texts sample_hash \<noteq> 0"
  "ms_sender sample_msg = wt_address hex_texts sample_wallet" "wt_address hex_texts sample_wallet \<noteq> 0"
proof -
  have "hyphenless sample_uuid = ''0190aaaabbbb7ccc8dddeeeeffff0001''"
    by (simp add: hyphenless_def sample_uuid_def hyphen_def)
  then have "drop 2 (uuidToBytes32 sample_uuid) = replicate 32 CHR ''0'' @ ''0190aaaabbbb7ccc8dddeeeeffff0001''"
    by (simp add: uuidToBytes32_def)
  then have "hex_number (drop 2 (uuidToBytes32 sample_uuid)) = hex_number ''0190aaaabbbb7ccc8dddeeeeffff0001''"
    by (simp only: hex_zeros)
  also have "\<dots> = 0x0190aaaabbbb7ccc8dddeeeeffff0001"
    by (simp add: hex_number_def hex_value_def lower_char_def char_code_def)
  finally show "on_chain_id hex_texts sample_uuid \<noteq> 0"
    by (simp add: on_chain_id_def hex_texts_def hex_word_def)
  show "wt_bytes32 hex_texts sample_hash \<noteq> 0"
    by (simp del: hex_number_snoc add: hex_texts_def hex_word_def sample_hash_def hex_zeros sample_numbers)
  show "ms_sender sample_msg = wt_address hex_texts sample_wallet" "wt_address hex_texts sample_wallet \<noteq> 0"
    by (simp_all del: hex_number_snoc add: hex_texts_def hex_word_def sample_wallet_def hex_zeros sample_numbers sample_msg_def)
qed

theorem the_registry_takes_the_chosen_call_witness:
  "\<exists>s'. registerPassport sample_msg (on_chain_id hex_texts sample_uuid) (hex_word sample_hash) ''uri'' sample_registry = Inr s'
     \<and> settled hex_texts ''0xr'' sample_uuid sample_hash sample_registry s'"
proof -
  have ok: "registry_ok sample_registry"
    by (rule empty_storage_ok [of 7]) (simp add: deployed_def sample_registry_def)
  note i = sample_words(1) and h = sample_words(2) and w = sample_words(3,4) and hx = sample_texts(1)
    and wx = sample_texts(2)
  have m: "ms_hub sample_msg" "\<not> ms_paused sample_msg"
    and d: "ms_admin (sample_msg\<lparr>ms_admin := True\<rparr>)" "\<not> ms_paused (sample_msg\<lparr>ms_admin := True\<rparr>)"
    by (simp_all add: sample_msg_def)
  have n: "\<not> isRegistered j sample_registry" for j
    by (simp add: isRegistered_def sample_registry_def empty_record_def)
  have a: "getPassportAnchor (reading_thor sample_registry) ''0xr'' sample_uuid
      = Inr \<lparr>oa_registered = False, oa_dataHash = None, oa_owner = None\<rparr>"
    using anchor_read [OF reading_thor_reads hex_texts_ok] n by simp
  have free: "getPassportByHash (wt_bytes32 hex_texts sample_hash) sample_registry = 0"
    by (simp add: getPassportByHash_def sample_registry_def)
  show ?thesis
    using the_registry_takes_the_chosen_call [OF ok reading_thor_reads hex_texts_ok hx wx i h w m sample_msg_timed d a refl,
        of "''uri''"] free
    by (auto simp: decideAnchorAction_def anchor_calls_def hex_texts_def)
qed

subsection \<open>A read that fails\<close>

text \<open>The check of a fingerprint does not look at the call's success, as the read of the anchor
  does: where the node answers that the call failed (another contract at the address, say), the
  one says that the fingerprint does not match and the other that it cannot be read.\<close>

theorem a_failed_call_reads_as_a_mismatch:
  assumes "\<forall>i h. th_verify th registry_at i h = Some \<lparr>va_success = False, va_valid = None, va_record = None\<rparr>"
  shows "adapter_verify th registry_at u h = Some False"
    and "getPassportAnchor th registry_at u = Inl Call_failed"
  using assms by (simp_all add: adapter_verify_def getPassportAnchor_def)

end
