(* ===== verification/Web_Trading.thy ===== *)
theory Web_Trading
  imports Marketplace_Properties Passport_Hash
begin

text \<open>
  What the web client works out itself before it asks the API: how much of a lot an order may
  take (\<open>lib/order-quantity.ts\<close>), a listing's status (\<open>lib/orders.ts\<close>), and the form that edits
  a lot (\<open>components/marketplace/ListingTermsFields.tsx\<close> and the page around it). The lemmas
  compare it with the API's own rules.

  The form holds what the seller types, as text. The text of an amount in pence
  (\<open>Math.round(parseFloat(x) * 100)\<close>) and the calendar of the UK are parameters (\<open>form_env\<close>).
\<close>

subsection \<open>How much one order may take\<close>

record lot_availability =
  la_quantityAvailable :: int
  la_minOrderQuantity :: int
  la_orderableQuantity :: "int option"

definition orderableOf :: "lot_availability \<Rightarrow> int" where
  "orderableOf lot = min (or_keep (la_orderableQuantity lot) (la_quantityAvailable lot)) (la_quantityAvailable lot)"

definition keepsLastUnit :: "lot_availability \<Rightarrow> bool" where
  "keepsLastUnit lot \<longleftrightarrow> orderableOf lot < la_quantityAvailable lot"

definition defaultOrderQuantity :: "lot_availability \<Rightarrow> int" where
  "defaultOrderQuantity lot = max 1 (min (la_minOrderQuantity lot) (orderableOf lot))"

datatype quantity_problem =
  Enter_a_whole_number
| Order_up_to int
| Only_this_many_left int
| Minimum_order_is int

text \<open>A number that is not an integer is \<open>None\<close>.\<close>

definition orderQuantityProblem :: "int option \<Rightarrow> lot_availability \<Rightarrow> quantity_problem option" where
  "orderQuantityProblem quantity lot =
     (case quantity of None \<Rightarrow> Some Enter_a_whole_number
      | Some q \<Rightarrow>
          let orderable = orderableOf lot in
          if q < 1 then Some Enter_a_whole_number
          else if q > orderable then
            Some (if keepsLastUnit lot then Order_up_to orderable
                  else Only_this_many_left (la_quantityAvailable lot))
          else if q < la_minOrderQuantity lot \<and> q < orderable then
            Some (Minimum_order_is (la_minOrderQuantity lot))
          else None)"

text \<open>The lot as the API describes it.\<close>

definition availability_of :: "listing \<Rightarrow> int \<Rightarrow> lot_availability" where
  "availability_of l orderable = \<lparr>la_quantityAvailable = l_quantityAvailable l,
     la_minOrderQuantity = l_minOrderQuantity l, la_orderableQuantity = Some orderable\<rparr>"

fun problem_of_error :: "trace_error \<Rightarrow> quantity_problem option" where
  "problem_of_error (ConflictError Last_unit_kept) = Some (Order_up_to 0)"
| "problem_of_error (ConflictError (Last_unit_order_up_to n)) = Some (Order_up_to n)"
| "problem_of_error (ConflictError (Only_left n)) = Some (Only_this_many_left n)"
| "problem_of_error (ValidationError (Below_minimum n)) = Some (Minimum_order_is n)"
| "problem_of_error _ = None"

text \<open>C37: the order form says what the API would. For a quantity of at least one of a lot with
  stock that is not negative, it finds a problem exactly when \<open>makeOffer\<close> refuses the quantity,
  and names the same reason and number; the only refusal it does not foresee is a total above
  the largest amount. What the field starts at is never a problem while anything may be ordered.\<close>

theorem the_order_form_mirrors_the_offer:
  assumes "1 \<le> q" and "0 \<le> orderable" and "orderable \<le> l_quantityAvailable l"
    and "mo_quantity input = Some q"
  shows "(case offer_quantity input l orderable of
      Inl (ValidationError Total_too_large) \<Rightarrow> orderQuantityProblem (Some q) (availability_of l orderable) = None
        \<and> MAX_AMOUNT_PENCE < l_pricePence l * q
    | Inl e \<Rightarrow> problem_of_error e \<noteq> None
        \<and> orderQuantityProblem (Some q) (availability_of l orderable) = problem_of_error e
    | Inr n \<Rightarrow> n = q \<and> orderQuantityProblem (Some q) (availability_of l orderable) = None)
    \<and> (1 \<le> orderable \<longrightarrow> orderQuantityProblem (Some (defaultOrderQuantity (availability_of l orderable)))
        (availability_of l orderable) = None)"
proof -
  let ?a = "l_quantityAvailable l" and ?m = "l_minOrderQuantity l" and ?lot = "availability_of l orderable"
  have able: "orderableOf ?lot = orderable" using assms(3) by (simp add: availability_of_def orderableOf_def)
  have form: "orderQuantityProblem (Some n) ?lot =
      (if orderable < n then Some (if orderable < ?a then Order_up_to orderable else Only_this_many_left ?a)
       else if n < ?m \<and> n < orderable then Some (Minimum_order_is ?m) else None)" if "1 \<le> n" for n
    using that able by (simp add: orderQuantityProblem_def Let_def keepsLastUnit_def) (simp add: availability_of_def)
  have api: "offer_quantity input l orderable =
      (if orderable < ?a \<and> orderable < 1 then Inl (ConflictError Last_unit_kept)
       else if orderable < ?a \<and> orderable < q then Inl (ConflictError (Last_unit_order_up_to orderable))
       else if ?a < q then Inl (ConflictError (Only_left ?a))
       else if q < ?m \<and> q < orderable then Inl (ValidationError (Below_minimum ?m))
       else if MAX_AMOUNT_PENCE < l_pricePence l * q then Inl (ValidationError Total_too_large) else Inr q)"
    by (simp add: offer_quantity_def assms(4) Let_def)
  have start: "defaultOrderQuantity ?lot = max 1 (min ?m orderable)"
    by (simp add: defaultOrderQuantity_def able) (simp add: availability_of_def)
  have "1 \<le> orderable \<longrightarrow> orderQuantityProblem (Some (defaultOrderQuantity ?lot)) ?lot = None"
    unfolding start by (subst form) auto
  then show ?thesis unfolding api form [OF assms(1)] using assms(1-3) by (simp split: if_split)
qed

definition lot_of_five :: listing where
  "lot_of_five = \<lparr>l_id = 20, l_passportId = 10, l_organisationId = 1, l_sellerId = 2, l_pricePence = 250,
     l_currency = ''GBP'', l_quantity = 5, l_quantityAvailable = 5, l_minOrderQuantity = 3,
     l_shippingOptions = [\<lparr>so_method = Collection, so_deliveryRadiusMiles = None, so_deliveryCostPence = None, so_notes = None\<rparr>],
     l_status = L_active, l_blockchainTxHash = None, l_expiresAt = None, l_createdAt = 100\<rparr>"

theorem the_order_form_mirrors_the_offer_witness:
  "orderQuantityProblem (Some 2) (availability_of lot_of_five 4) = Some (Minimum_order_is 3)
   \<and> orderQuantityProblem (Some (defaultOrderQuantity (availability_of lot_of_five 4))) (availability_of lot_of_five 4) = None"
proof -
  let ?i = "\<lparr>mo_listingId = 20, mo_quantity = Some 2, mo_notes = None\<rparr>"
  have "offer_quantity ?i lot_of_five 4 = Inl (ValidationError (Below_minimum 3))"
    by (simp add: offer_quantity_def Let_def lot_of_five_def)
  then show ?thesis using the_order_form_mirrors_the_offer [of 2 4 lot_of_five ?i] by (simp add: lot_of_five_def)
qed

subsection \<open>Numbers as text\<close>

text \<open>\<open>parseInt(s, 10)\<close>: white space, a sign, then the digits there are; \<open>None\<close> is \<open>NaN\<close>.\<close>

definition digits_value :: "string \<Rightarrow> nat" where
  "digits_value s = foldl (\<lambda>v c. v * 10 + (char_code c - 48)) 0 s"

definition parseInt :: "string \<Rightarrow> int option" where
  "parseInt s =
     (let t = dropWhile is_space s;
          body = (if startsWith t ''-'' \<or> startsWith t ''+'' then drop 1 t else t);
          digits = takeWhile is_digit body
      in if digits = '''' then None
         else Some (if startsWith t ''-'' then - int (digits_value digits) else int (digits_value digits)))"

text \<open>\<open>parseInt(s, 10) || 1\<close>\<close>

definition parseInt_or_1 :: "string \<Rightarrow> int" where
  "parseInt_or_1 s = (case parseInt s of None \<Rightarrow> 1 | Some n \<Rightarrow> if n = 0 then 1 else n)"

text \<open>\<open>(pence / 100).toFixed(2)\<close> for an amount that is not negative.\<close>

definition pounds_text :: "nat \<Rightarrow> string" where
  "pounds_text p = decimal (p div 100) @ ''.'' @ [digit_char (p mod 100 div 10), digit_char (p mod 10)]"

definition pounds :: "int option \<Rightarrow> string" where
  "pounds pence = (case pence of None \<Rightarrow> '''' | Some p \<Rightarrow> pounds_text (nat p))"

lemma digits_value_decimal: "digits_value (decimal n) = n"
proof (induction n rule: decimal.induct)
  case (1 n)
  show ?case
  proof (cases "n < 10")
    case True
    then show ?thesis by (subst decimal.simps) (simp add: digits_value_def code_digit)
  next
    case False
    then have "digits_value (decimal (n div 10)) = n div 10" by (rule 1)
    then show ?thesis using False by (subst decimal.simps) (simp add: digits_value_def code_digit)
  qed
qed

lemma decimal_head: "decimal n = c # s \<Longrightarrow> is_digit c"
  using decimal_digits [of c n] by simp

lemma digit_no_sign: "is_digit c \<Longrightarrow> \<not> is_space c \<and> c \<noteq> CHR ''-'' \<and> c \<noteq> CHR ''+''"
  by (auto simp: is_digit_def is_space_def char_code_def)

lemma parseInt_decimal: "parseInt (decimal n) = Some (int n)"
proof -
  obtain c s where d: "decimal n = c # s" using decimal_nonempty by (cases "decimal n") blast+
  have c: "\<not> is_space c" "c \<noteq> CHR ''-''" "c \<noteq> CHR ''+''"
    using digit_no_sign [OF decimal_head [OF d]] by auto
  have "takeWhile is_digit (decimal n) = decimal n" using decimal_digits by (simp add: takeWhile_eq_all_conv)
  then show ?thesis
    using c digits_value_decimal [of n] by (simp add: parseInt_def d startsWith_def)
qed

lemma parseInt_int_text: "1 \<le> n \<Longrightarrow> parseInt_or_1 (int_text n) = n"
  using parseInt_decimal [of "nat n"] by (simp add: parseInt_or_1_def int_text_def)

subsection \<open>The form that edits a lot\<close>

record listing_terms =
  lt_pricePounds :: string
  lt_quantity :: string
  lt_minOrderQuantity :: string
  lt_shippingMethod :: shipping_method
  lt_deliveryCostPounds :: string
  lt_deliveryRadiusMiles :: string
  lt_shippingNotes :: string
  lt_expiresAt :: string

text \<open>\<open>fe_pence\<close> is \<open>Math.round(parseFloat(x) * 100)\<close> on what a number field can hold,
  \<open>fe_isPrice\<close> whether \<open>parseFloat(x)\<close> is a number above zero, \<open>fe_ukDay\<close> the day of a moment in the
  UK as YYYY-MM-DD, and \<open>fe_endOfDay\<close> the last moment of such a day.\<close>

record form_env =
  fe_pence :: "string \<Rightarrow> int"
  fe_isPrice :: "string \<Rightarrow> bool"
  fe_ukDay :: "time \<Rightarrow> string"
  fe_endOfDay :: "string \<Rightarrow> time"

definition termsFromListing :: "form_env \<Rightarrow> listing \<Rightarrow> listing_terms" where
  "termsFromListing fe l =
     (let shipping = (case l_shippingOptions l of [] \<Rightarrow> None | s # _ \<Rightarrow> Some s)
      in \<lparr>lt_pricePounds = pounds (Some (l_pricePence l)),
          lt_quantity = int_text (l_quantity l),
          lt_minOrderQuantity = int_text (l_minOrderQuantity l),
          lt_shippingMethod = (case shipping of None \<Rightarrow> Collection | Some s \<Rightarrow> so_method s),
          lt_deliveryCostPounds = pounds (Option.bind shipping so_deliveryCostPence),
          lt_deliveryRadiusMiles = (case Option.bind shipping so_deliveryRadiusMiles of None \<Rightarrow> '''' | Some r \<Rightarrow> int_text r),
          lt_shippingNotes = (case Option.bind shipping so_notes of None \<Rightarrow> '''' | Some n \<Rightarrow> n),
          lt_expiresAt = (case l_expiresAt l of None \<Rightarrow> '''' | Some t \<Rightarrow> fe_ukDay fe t)\<rparr>)"

definition shippingOptionOf :: "form_env \<Rightarrow> listing_terms \<Rightarrow> shipping_option" where
  "shippingOptionOf fe terms =
     (let delivers = (lt_shippingMethod terms = Delivery \<or> lt_shippingMethod terms = Both)
      in \<lparr>so_method = lt_shippingMethod terms,
          so_deliveryRadiusMiles = (if delivers \<and> lt_deliveryRadiusMiles terms \<noteq> ''''
             then parseInt (lt_deliveryRadiusMiles terms) else None),
          so_deliveryCostPence = (if delivers \<and> lt_deliveryCostPounds terms \<noteq> ''''
             then Some (fe_pence fe (lt_deliveryCostPounds terms)) else None),
          so_notes = (if lt_shippingNotes terms \<noteq> '''' then Some (lt_shippingNotes terms) else None)\<rparr>)"

definition expiryOf :: "form_env \<Rightarrow> listing_terms \<Rightarrow> time option" where
  "expiryOf fe terms = (if lt_expiresAt terms \<noteq> '''' then Some (fe_endOfDay fe (lt_expiresAt terms)) else None)"

definition same_shipping :: "listing_terms \<Rightarrow> listing_terms \<Rightarrow> bool" where
  "same_shipping a b \<longleftrightarrow> lt_shippingMethod a = lt_shippingMethod b
     \<and> lt_deliveryCostPounds a = lt_deliveryCostPounds b
     \<and> lt_deliveryRadiusMiles a = lt_deliveryRadiusMiles b \<and> lt_shippingNotes a = lt_shippingNotes b"

definition changedTerms :: "form_env \<Rightarrow> listing_terms \<Rightarrow> listing_terms \<Rightarrow> update_listing_input" where
  "changedTerms fe before after = \<lparr>
     ui_pricePence = (if lt_pricePounds before \<noteq> lt_pricePounds after
        then Some (fe_pence fe (lt_pricePounds after)) else None),
     ui_quantity = (if lt_quantity before \<noteq> lt_quantity after
        then Some (parseInt_or_1 (lt_quantity after)) else None),
     ui_minOrderQuantity = (if lt_minOrderQuantity before \<noteq> lt_minOrderQuantity after
        then Some (parseInt_or_1 (lt_minOrderQuantity after)) else None),
     ui_shippingOptions = (if \<not> same_shipping before after then Some [shippingOptionOf fe after] else None),
     ui_expiresAt = (if lt_expiresAt before \<noteq> lt_expiresAt after then Some (expiryOf fe after) else None)\<rparr>"

text \<open>\<open>listingStatus\<close> of \<open>lib/orders.ts\<close>, and the page's own checks before it sends.\<close>

definition web_listingStatus :: "listing \<Rightarrow> time \<Rightarrow> listing_status" where
  "web_listingStatus l now =
     (if l_status l = L_active \<and> (case l_expiresAt l of None \<Rightarrow> False | Some t \<Rightarrow> t \<le> now) then L_expired
      else l_status l)"

definition stillExpired :: "form_env \<Rightarrow> time \<Rightarrow> listing_terms \<Rightarrow> bool" where
  "stillExpired fe now terms \<longleftrightarrow> lt_expiresAt terms \<noteq> '''' \<and> \<not> codes_le (fe_ukDay fe now) (lt_expiresAt terms)"

datatype edit_problem =
  Enter_a_valid_price
| Orders_hold_units int
| Minimum_above_lot
| Choose_a_new_date
| Nothing_has_changed

definition committedOf :: "listing \<Rightarrow> int" where
  "committedOf l = l_quantity l - l_quantityAvailable l"

definition empty_update :: update_listing_input where
  "empty_update = \<lparr>ui_pricePence = None, ui_quantity = None, ui_minOrderQuantity = None,
     ui_shippingOptions = None, ui_expiresAt = None\<rparr>"

definition submit_edit ::
  "form_env \<Rightarrow> time \<Rightarrow> listing \<Rightarrow> listing_terms \<Rightarrow> listing_terms \<Rightarrow> edit_problem + update_listing_input" where
  "submit_edit fe now l initial terms =
     (let quantity = parseInt_or_1 (lt_quantity terms);
          minimum = parseInt_or_1 (lt_minOrderQuantity terms);
          body = changedTerms fe initial terms
      in if lt_pricePounds terms = '''' \<or> \<not> fe_isPrice fe (lt_pricePounds terms) then Inl Enter_a_valid_price
         else if quantity < committedOf l then Inl (Orders_hold_units (committedOf l))
         else if minimum > quantity then Inl Minimum_above_lot
         else if web_listingStatus l now = L_expired
           \<and> (lt_expiresAt terms = lt_expiresAt initial \<or> stillExpired fe now terms) then Inl Choose_a_new_date
         else if body = empty_update then Inl Nothing_has_changed
         else Inr body)"

subsection \<open>What the form lets through\<close>

lemma submit_editD:
  assumes "submit_edit fe now l initial terms = Inr body"
  shows "body = changedTerms fe initial terms" and "body \<noteq> empty_update"
    and "committedOf l \<le> parseInt_or_1 (lt_quantity terms)"
    and "parseInt_or_1 (lt_minOrderQuantity terms) \<le> parseInt_or_1 (lt_quantity terms)"
    and "web_listingStatus l now = L_expired \<Longrightarrow> lt_expiresAt terms \<noteq> lt_expiresAt initial \<and> \<not> stillExpired fe now terms"
  using assms by (auto simp: submit_edit_def Let_def split: if_splits)

lemma web_status_agrees: "web_listingStatus l now = listingStatusAt (l_status l) (l_expiresAt l) now"
  by (simp add: web_listingStatus_def listingStatusAt_def past_def)

text \<open>The quantity and the minimum the lot will have, whether the form names them or not.\<close>

lemma form_quantities:
  assumes "1 \<le> l_quantity l" and "1 \<le> l_minOrderQuantity l"
  shows "or_keep (ui_quantity (changedTerms fe (termsFromListing fe l) terms)) (l_quantity l)
      = parseInt_or_1 (lt_quantity terms)"
    and "or_keep (ui_minOrderQuantity (changedTerms fe (termsFromListing fe l) terms)) (l_minOrderQuantity l)
      = parseInt_or_1 (lt_minOrderQuantity terms)"
  using parseInt_int_text [OF assms(1)] parseInt_int_text [OF assms(2)]
  by (auto simp: changedTerms_def termsFromListing_def Let_def)

lemma form_date:
  assumes "\<forall>d. codes_le (fe_ukDay fe now) d \<longrightarrow> now < fe_endOfDay fe d"
    and "lt_expiresAt terms \<noteq> lt_expiresAt initial" and "\<not> stillExpired fe now terms"
  shows "\<not> past (or_keep (ui_expiresAt (changedTerms fe initial terms)) d) now"
  using assms by (auto simp: changedTerms_def expiryOf_def past_def stillExpired_def not_le [symmetric])


subsection \<open>An order that is refused\<close>

datatype offer_message = Listing_has_expired_now | Rest_is_ordered | Lot_changed int | Could_not_place

text \<open>What the page says after the API refused an order, from the lot as it is now.\<close>

definition explainRefusedOffer :: "nat \<Rightarrow> (listing \<times> int) option \<Rightarrow> time \<Rightarrow> offer_message" where
  "explainRefusedOffer status fresh now =
     (case (if status = 409 \<or> status = 400 then fresh else None) of
        None \<Rightarrow> Could_not_place
      | Some (l, orderable) \<Rightarrow>
          if web_listingStatus l now = L_expired then Listing_has_expired_now
          else if web_listingStatus l now \<noteq> L_active \<or> orderableOf (availability_of l orderable) < 1
          then Rest_is_ordered
          else Lot_changed (l_quantityAvailable l))"

text \<open>An order whose total is too large passes the form and is refused by the API, and the page
  then says that the lot changed, though it did not.\<close>

theorem a_total_too_large_reads_as_a_changed_lot:
  assumes "offer_quantity input l orderable = Inl (ValidationError Total_too_large)"
    and "mo_quantity input = Some q" and "1 \<le> q" and "orderable \<le> l_quantityAvailable l"
    and "web_listingStatus l now = L_active"
  shows "orderQuantityProblem (Some q) (availability_of l orderable) = None
    \<and> explainRefusedOffer 400 (Some (l, orderable)) now = Lot_changed (l_quantityAvailable l)"
  using assms
  by (auto simp: offer_quantity_def orderQuantityProblem_def availability_of_def orderableOf_def
      keepsLastUnit_def explainRefusedOffer_def Let_def split: if_splits)

definition sample_form :: form_env where
  "sample_form = \<lparr>fe_pence = (\<lambda>s. 300), fe_isPrice = (\<lambda>s. s \<noteq> ''''), fe_ukDay = (\<lambda>t. ''2026-01-01''),
     fe_endOfDay = (\<lambda>d. 1000)\<rparr>"


end
