(* ===== verification/Web_Materials.thy ===== *)
theory Web_Materials
  imports Complex_Main Passport_Rules
begin

text \<open>
  The two forms that write a passport. \<open>lib/register-wizard.ts\<close> with the wizard's component: what
  each field accepts, the step a problem is on, moving between the steps, the photos it takes and
  the request it sends. The edit page: the form a passport fills and the request it sends.

  A field holds text (a missing value is the empty text, as the wizard reads it). \<open>we_number\<close> is
  JavaScript's \<open>Number(text)\<close>, \<open>None\<close> where that is not a finite number, \<open>we_text\<close> a number's own
  text, \<open>we_isUrl\<close> the URL parser.
\<close>

record web_env =
  we_number :: "string \<Rightarrow> rat option"
  we_text :: "rat \<Rightarrow> string"
  we_isUrl :: "string \<Rightarrow> bool"

subsection \<open>The wizard's fields\<close>

datatype wizard_field =
  W_productName | W_categoryL1 | W_categoryL2 | W_manufacturerName | W_countryOfOrigin | W_serialNumber
| W_unitOfMeasure | W_dimensionLength | W_dimensionWidth | W_dimensionHeight | W_dimensionWeight
| W_dimensionUnit | W_conditionGrade | W_conditionNotes | W_origin | W_deconstructionMethod
| W_reclaimedBy | W_previousBuildingId | W_remainingLifeEstimate | W_handlingRequirements
| W_gwpTotal | W_embodiedCarbon | W_recycledContent | W_carbonSavingsVsNew | W_epdReference | W_ceMarking

text \<open>The fields in the order of \<open>WizardSchema\<close>; the form holds a text for each but the tick box.\<close>

definition wizard_fields :: "wizard_field list" where
  "wizard_fields = [W_productName, W_categoryL1, W_categoryL2, W_manufacturerName, W_countryOfOrigin,
     W_serialNumber, W_unitOfMeasure, W_dimensionLength, W_dimensionWidth, W_dimensionHeight,
     W_dimensionWeight, W_dimensionUnit, W_conditionGrade, W_conditionNotes, W_origin,
     W_deconstructionMethod, W_reclaimedBy, W_previousBuildingId, W_remainingLifeEstimate,
     W_handlingRequirements, W_gwpTotal, W_embodiedCarbon, W_recycledContent, W_carbonSavingsVsNew,
     W_epdReference, W_ceMarking]"

record wizard_form =
  wf_text :: "wizard_field \<Rightarrow> string"
  wf_ceMarking :: bool

definition UNITS_OF_MEASURE :: "string list" where
  "UNITS_OF_MEASURE = [''each'', ''m2'', ''m'', ''kg'', ''tonne'', ''pallet'', ''set'', ''pack'']"

definition is_letter :: "char \<Rightarrow> bool" where
  "is_letter c \<longleftrightarrow> (let n = char_code c in 65 \<le> n \<and> n \<le> 90 \<or> 97 \<le> n \<and> n \<le> 122)"

definition MAX_SAFE_INTEGER :: rat where "MAX_SAFE_INTEGER = 9007199254740991"

definition optionalNumber :: "web_env \<Rightarrow> (rat \<Rightarrow> bool) \<Rightarrow> string \<Rightarrow> bool" where
  "optionalNumber we rule given \<longleftrightarrow> given = '''' \<or>
     (case we_number we given of None \<Rightarrow> False | Some n \<Rightarrow> rule n)"

definition whole :: "rat \<Rightarrow> bool" where
  "whole n \<longleftrightarrow> snd (quotient_of n) = 1 \<and> n \<le> MAX_SAFE_INTEGER"

fun field_ok :: "web_env \<Rightarrow> wizard_field \<Rightarrow> string \<Rightarrow> bool" where
  "field_ok we W_productName s = (1 \<le> length s \<and> length s \<le> 255)"
| "field_ok we W_categoryL1 s = (1 \<le> length s)"
| "field_ok we W_countryOfOrigin s = (s = '''' \<or> length s = 2 \<and> list_all is_letter s)"
| "field_ok we W_unitOfMeasure s = (s \<in> set ('''' # UNITS_OF_MEASURE))"
| "field_ok we W_dimensionLength s = optionalNumber we (\<lambda>n. 0 < n) s"
| "field_ok we W_dimensionWidth s = optionalNumber we (\<lambda>n. 0 < n) s"
| "field_ok we W_dimensionHeight s = optionalNumber we (\<lambda>n. 0 < n) s"
| "field_ok we W_dimensionWeight s = optionalNumber we (\<lambda>n. 0 < n) s"
| "field_ok we W_dimensionUnit s = (s \<in> {''mm'', ''cm'', ''m''})"
| "field_ok we W_conditionGrade s = (s \<in> {'''', ''A'', ''B'', ''C'', ''D''})"
| "field_ok we W_conditionNotes s = (length s \<le> 2000)"
| "field_ok we W_remainingLifeEstimate s = optionalNumber we (\<lambda>n. whole n \<and> 0 \<le> n) s"
| "field_ok we W_gwpTotal s = optionalNumber we (\<lambda>n. 0 \<le> n) s"
| "field_ok we W_embodiedCarbon s = optionalNumber we (\<lambda>n. 0 \<le> n) s"
| "field_ok we W_recycledContent s = optionalNumber we (\<lambda>n. 0 \<le> n \<and> n \<le> 100) s"
| "field_ok we W_carbonSavingsVsNew s = optionalNumber we (\<lambda>n. 0 \<le> n) s"
| "field_ok we W_epdReference s = (s = '''' \<or> we_isUrl we s)"
| "field_ok we f s = True"

text \<open>The fields that \<open>safeParse\<close> reports, in order.\<close>

definition wizard_issues :: "web_env \<Rightarrow> wizard_form \<Rightarrow> wizard_field list" where
  "wizard_issues we form = filter (\<lambda>f. \<not> field_ok we f (wf_text form f)) wizard_fields"

subsection \<open>The wizard's steps\<close>

datatype input_step = Basic | Specs | Circular | Environmental

fun STEP_FIELDS :: "input_step \<Rightarrow> wizard_field list" where
  "STEP_FIELDS Basic = [W_productName, W_categoryL1, W_categoryL2, W_manufacturerName,
     W_countryOfOrigin, W_serialNumber]"
| "STEP_FIELDS Specs = [W_unitOfMeasure, W_dimensionLength, W_dimensionWidth, W_dimensionHeight,
     W_dimensionWeight, W_dimensionUnit]"
| "STEP_FIELDS Circular = [W_origin, W_conditionGrade, W_conditionNotes, W_deconstructionMethod,
     W_reclaimedBy, W_previousBuildingId, W_remainingLifeEstimate, W_handlingRequirements]"
| "STEP_FIELDS Environmental = [W_gwpTotal, W_embodiedCarbon, W_recycledContent,
     W_carbonSavingsVsNew, W_epdReference, W_ceMarking]"

definition input_steps :: "input_step list" where
  "input_steps = [Basic, Specs, Circular, Environmental]"

definition firstStepWithError :: "wizard_field list \<Rightarrow> input_step option" where
  "firstStepWithError errors = List.find (\<lambda>s. \<exists>f \<in> set (STEP_FIELDS s). f \<in> set errors) input_steps"

datatype step_id = Input input_step | Review | Verification

definition STEPS :: "step_id list" where
  "STEPS = map Input input_steps @ [Review, Verification]"

fun next_step :: "step_id \<Rightarrow> step_id list \<Rightarrow> step_id option" where
  "next_step s (a # b # rest) = (if s = a then Some b else next_step s (b # rest))"
| "next_step s rest = None"

definition goNext :: "web_env \<Rightarrow> wizard_form \<Rightarrow> step_id \<Rightarrow> step_id" where
  "goNext we form step =
     (if (case step of Input s \<Rightarrow> \<exists>f \<in> set (STEP_FIELDS s). f \<in> set (wizard_issues we form) | _ \<Rightarrow> False)
      then step
      else case next_step step STEPS of None \<Rightarrow> step | Some n \<Rightarrow> n)"

definition goPrev :: "step_id \<Rightarrow> step_id" where
  "goPrev step = (case next_step step (rev STEPS) of None \<Rightarrow> step | Some p \<Rightarrow> p)"

text \<open>\<open>handleSubmit(onSubmit, onInvalid)\<close>: where a refused registration leads; \<open>None\<close> is sent.\<close>

definition refused_step :: "web_env \<Rightarrow> wizard_form \<Rightarrow> step_id \<Rightarrow> step_id option" where
  "refused_step we form step =
     (if wizard_issues we form = [] then None
      else Some (case firstStepWithError (wizard_issues we form) of None \<Rightarrow> step | Some s \<Rightarrow> Input s))"

definition bad_step :: "web_env \<Rightarrow> wizard_form \<Rightarrow> input_step \<Rightarrow> bool" where
  "bad_step we form s \<longleftrightarrow> (\<exists>f \<in> set (STEP_FIELDS s). f \<in> set (wizard_issues we form))"

lemma goNext_input: "goNext we form (Input s) = (if bad_step we form s then Input s
    else case s of Basic \<Rightarrow> Input Specs | Specs \<Rightarrow> Input Circular | Circular \<Rightarrow> Input Environmental
      | Environmental \<Rightarrow> Review)"
  unfolding goNext_def bad_step_def by (cases s) (simp_all add: STEPS_def input_steps_def)

lemma goNext_stays: "goNext we form (Input s) = Input s \<longleftrightarrow> bad_step we form s"
  unfolding goNext_input by (cases s) simp_all

text \<open>Every field is on a step, so a form with a problem has a first step with one.\<close>

lemma field_has_step: "\<exists>s. f \<in> set (STEP_FIELDS s)"
  by (cases f) (auto intro: exI [of _ Basic] exI [of _ Specs] exI [of _ Circular] exI [of _ Environmental])

lemma first_problem:
  assumes "wizard_issues we form \<noteq> []"
  shows "\<exists>s. firstStepWithError (wizard_issues we form) = Some s \<and> bad_step we form s
    \<and> list_all (\<lambda>t. \<not> bad_step we form t) (takeWhile (\<lambda>t. t \<noteq> s) input_steps)"
proof -
  have first: "firstStepWithError (wizard_issues we form) = List.find (bad_step we form) input_steps"
    by (simp add: firstStepWithError_def bad_step_def [abs_def])
  obtain s where "bad_step we form s"
    using field_has_step [of "hd (wizard_issues we form)"] assms unfolding bad_step_def by (meson hd_in_set)
  then show ?thesis
    unfolding first input_steps_def
    by (cases "bad_step we form Basic"; cases "bad_step we form Specs"; cases "bad_step we form Circular"; cases s)
      simp_all
qed

lemma no_bad_step: "wizard_issues we form = [] \<longleftrightarrow> \<not> bad_step we form Basic \<and> \<not> bad_step we form Specs
    \<and> \<not> bad_step we form Circular \<and> \<not> bad_step we form Environmental"
proof
  assume "wizard_issues we form = []"
  then show "\<not> bad_step we form Basic \<and> \<not> bad_step we form Specs
    \<and> \<not> bad_step we form Circular \<and> \<not> bad_step we form Environmental" by (simp add: bad_step_def)
next
  assume n: "\<not> bad_step we form Basic \<and> \<not> bad_step we form Specs
    \<and> \<not> bad_step we form Circular \<and> \<not> bad_step we form Environmental"
  have "\<not> bad_step we form s" for s using n by (cases s) simp_all
  then show "wizard_issues we form = []" using first_problem by blast
qed

text \<open>The wizard never stops a supplier without saying where. A registration it refuses moves
  to the first step with a field that is wrong, and that step is not left until its fields are
  right; every step before it is left. Pressing Continue four times from the first step reaches
  the review exactly when the whole form is right, and from there the registration is sent.\<close>

theorem the_wizard_leads_to_the_problem:
  "(case refused_step we form step of
      None \<Rightarrow> wizard_issues we form = []
    | Some to \<Rightarrow> \<exists>s f. to = Input s \<and> goNext we form to = to
        \<and> f \<in> set (STEP_FIELDS s) \<and> f \<in> set (wizard_issues we form)
        \<and> list_all (\<lambda>t. goNext we form (Input t) \<noteq> Input t) (takeWhile (\<lambda>t. t \<noteq> s) input_steps))
    \<and> ((goNext we form ^^ 4) (Input Basic) = Review \<longleftrightarrow> refused_step we form Review = None)"
proof -
  have "(goNext we form ^^ 4) (Input Basic) = Review \<longleftrightarrow> wizard_issues we form = []"
    unfolding no_bad_step
    by (cases "bad_step we form Basic"; cases "bad_step we form Specs"; cases "bad_step we form Circular";
        cases "bad_step we form Environmental") (simp_all add: numeral_eq_Suc goNext_input)
  then have "(goNext we form ^^ 4) (Input Basic) = Review \<longleftrightarrow> refused_step we form Review = None"
    by (simp add: refused_step_def)
  moreover have "case refused_step we form step of
      None \<Rightarrow> wizard_issues we form = []
    | Some to \<Rightarrow> \<exists>s f. to = Input s \<and> goNext we form to = to
        \<and> f \<in> set (STEP_FIELDS s) \<and> f \<in> set (wizard_issues we form)
        \<and> list_all (\<lambda>t. goNext we form (Input t) \<noteq> Input t) (takeWhile (\<lambda>t. t \<noteq> s) input_steps)"
  proof (cases "wizard_issues we form = []")
    case True
    then show ?thesis by (simp add: refused_step_def)
  next
    case False
    then obtain s where s: "firstStepWithError (wizard_issues we form) = Some s" "bad_step we form s"
        "list_all (\<lambda>t. \<not> bad_step we form t) (takeWhile (\<lambda>t. t \<noteq> s) input_steps)"
      using first_problem by blast
    obtain f where "f \<in> set (STEP_FIELDS s)" "f \<in> set (wizard_issues we form)"
      using s(2) unfolding bad_step_def by blast
    moreover have "refused_step we form step = Some (Input s)" using False s(1) by (simp add: refused_step_def)
    ultimately show ?thesis using s(2,3) goNext_stays [of we form s] by (auto simp: goNext_stays)
  qed
  ultimately show ?thesis by blast
qed

subsection \<open>The wizard's photos\<close>

definition PHOTO_UPLOAD_MAX_BYTES :: nat where "PHOTO_UPLOAD_MAX_BYTES = 10 * 1024 * 1024"
definition PASSPORT_PHOTOS_MAX :: nat where "PASSPORT_PHOTOS_MAX = 8"

record photo_file =
  pf_type :: string
  pf_size :: nat

datatype photo_notice = Too_large_left_out | At_most_this_many

definition addPhotoFiles :: "photo_file list \<Rightarrow> photo_file list \<Rightarrow> photo_file list \<times> photo_notice list" where
  "addPhotoFiles photos files =
     (let images = filter (\<lambda>f. startsWith (pf_type f) ''image/'') files;
          fits = filter (\<lambda>f. pf_size f \<le> PHOTO_UPLOAD_MAX_BYTES) images;
          room = int PASSPORT_PHOTOS_MAX - int (length photos);
          notices = (if length fits < length images then [Too_large_left_out] else [])
            @ (if room < int (length fits) then [At_most_this_many] else [])
      in (photos @ take (nat room) fits, notices))"

definition photos_ok :: "photo_file list \<Rightarrow> bool" where
  "photos_ok photos \<longleftrightarrow> length photos \<le> PASSPORT_PHOTOS_MAX
     \<and> list_all (\<lambda>f. pf_size f \<le> PHOTO_UPLOAD_MAX_BYTES \<and> startsWith (pf_type f) ''image/'') photos"

lemma addPhotoFiles_ok:
  assumes "photos_ok photos"
  shows "photos_ok (fst (addPhotoFiles photos files))"
proof -
  let ?fits = "filter (\<lambda>f. pf_size f \<le> PHOTO_UPLOAD_MAX_BYTES) (filter (\<lambda>f. startsWith (pf_type f) ''image/'') files)"
  have all: "list_all (\<lambda>f. pf_size f \<le> PHOTO_UPLOAD_MAX_BYTES \<and> startsWith (pf_type f) ''image/'') (take n ?fits)" for n
    by (auto simp: list_all_iff dest: in_set_takeD)
  show ?thesis using assms all
    by (auto simp: photos_ok_def addPhotoFiles_def Let_def min_def)
qed

subsection \<open>What the wizard sends\<close>

definition given_text :: "string \<Rightarrow> string option" where
  "given_text s = (if s = '''' then None else Some s)"

text \<open>The number of a valid field, and \<open>x || undefined\<close>, which is nothing for zero.\<close>

definition field_number :: "web_env \<Rightarrow> string \<Rightarrow> rat option" where
  "field_number we s = (if s = '''' then None else we_number we s)"

definition or_undefined :: "rat option \<Rightarrow> rat option" where
  "or_undefined n = (if n = Some 0 then None else n)"

fun grade_of :: "string \<Rightarrow> grade option" where
  "grade_of s = (if s = ''A'' then Some Grade_A else if s = ''B'' then Some Grade_B
     else if s = ''C'' then Some Grade_C else if s = ''D'' then Some Grade_D else None)"

fun origin_of :: "string \<Rightarrow> passport_origin option" where
  "origin_of s = (if s = ''reclaimed'' then Some Reclaimed else if s = ''surplus'' then Some Surplus
     else if s = ''new'' then Some New_product else None)"

definition no_input :: passport_input where
  "no_input = \<lparr>pi_productName = None, pi_categoryL1 = None, pi_categoryL2 = None,
     pi_unitOfMeasure = None, pi_serialNumber = None, pi_materialComposition = None, pi_dimensions = None,
     pi_technicalSpecs = None, pi_manufacturerName = None, pi_countryOfOrigin = None,
     pi_productionDate = None, pi_gwpTotal = None, pi_embodiedCarbon = None, pi_recycledContent = None,
     pi_epdReference = None, pi_ceMarking = None, pi_declarationOfPerformance = None,
     pi_harmonisedStandard = None, pi_origin = None, pi_previousBuildingId = None,
     pi_deconstructionDate = None, pi_deconstructionMethod = None, pi_reclaimedBy = None,
     pi_conditionGrade = None, pi_conditionNotes = None, pi_originalAge = None,
     pi_remainingLifeEstimate = None, pi_carbonSavingsVsNew = None, pi_circularityScore = None,
     pi_reuseSuitability = None, pi_handlingRequirements = None, pi_hazardousSubstances = None,
     pi_customAttributes = None\<rparr>"

text \<open>The size of a material: only the numbers there are, and the unit.\<close>

definition dimensions_json :: "web_env \<Rightarrow> (string \<times> rat option) list \<Rightarrow> string \<Rightarrow> json" where
  "dimensions_json we numbers unit =
     JObj (concat (map (\<lambda>(k, n). case n of None \<Rightarrow> [] | Some r \<Rightarrow> [(k, JNum (we_text we r))]) numbers)
       @ [(''unit'', JStr unit)])"

text \<open>
  The request as the API's schema reads it: it puts the country code in upper case. The choices
  of grade and origin are those of the select fields, and a valid form's years of life are whole.
\<close>

definition wizard_payload :: "web_env \<Rightarrow> wizard_form \<Rightarrow> passport_input" where
  "wizard_payload we form =
     (let t = wf_text form;
          n = (\<lambda>f. or_undefined (field_number we (t f)));
          dims = [(''length'', n W_dimensionLength), (''width'', n W_dimensionWidth),
                  (''height'', n W_dimensionHeight), (''weight'', n W_dimensionWeight)]
      in no_input\<lparr>
        pi_productName := Some (t W_productName),
        pi_categoryL1 := Some (t W_categoryL1),
        pi_categoryL2 := given_text (t W_categoryL2),
        pi_unitOfMeasure := given_text (t W_unitOfMeasure),
        pi_manufacturerName := given_text (t W_manufacturerName),
        pi_serialNumber := given_text (trim (t W_serialNumber)),
        pi_countryOfOrigin := map_option toUpperCase (given_text (t W_countryOfOrigin)),
        pi_conditionGrade := grade_of (t W_conditionGrade),
        pi_conditionNotes := given_text (t W_conditionNotes),
        pi_origin := origin_of (t W_origin),
        pi_deconstructionMethod := given_text (t W_deconstructionMethod),
        pi_reclaimedBy := given_text (t W_reclaimedBy),
        pi_previousBuildingId := given_text (t W_previousBuildingId),
        pi_remainingLifeEstimate := map_option (\<lambda>r. fst (quotient_of r)) (n W_remainingLifeEstimate),
        pi_handlingRequirements := given_text (t W_handlingRequirements),
        pi_gwpTotal := map_option (we_text we) (n W_gwpTotal),
        pi_embodiedCarbon := map_option (we_text we) (n W_embodiedCarbon),
        pi_recycledContent := map_option (we_text we) (n W_recycledContent),
        pi_carbonSavingsVsNew := map_option (we_text we) (n W_carbonSavingsVsNew),
        pi_epdReference := given_text (t W_epdReference),
        pi_ceMarking := Some (wf_ceMarking form),
        pi_dimensions := (if list_all (\<lambda>(k, d). d = None) dims then None
          else Some (dimensions_json we dims (t W_dimensionUnit)))\<rparr>)"

lemma wizard_ok:
  assumes "wizard_issues we form = []"
  shows "field_ok we f (wf_text form f)"
proof -
  have "f \<in> set wizard_fields" by (cases f) (simp_all add: wizard_fields_def)
  then show ?thesis using assms unfolding wizard_issues_def filter_empty_conv by blast
qed

lemma whole_number: "whole r \<Longrightarrow> of_int (fst (quotient_of r)) = r"
  using quotient_of_div [of r "fst (quotient_of r)" 1] by (metis div_by_1 of_int_1 prod.collapse whole_def)


definition sample_web :: web_env where
  "sample_web = \<lparr>we_number = (\<lambda>s. if s = ''12'' then Some 12 else None), we_text = (\<lambda>r. ''12''),
     we_isUrl = (\<lambda>s. True)\<rparr>"

definition sample_material :: wizard_form where
  "sample_material = \<lparr>wf_text = (\<lambda>_. '''')(W_productName := ''Brick'', W_categoryL1 := ''masonry'',
     W_gwpTotal := ''12'', W_conditionGrade := ''B'', W_dimensionUnit := ''mm''), wf_ceMarking = False\<rparr>"


subsection \<open>The page that edits a passport\<close>

text \<open>The form holds the wizard's texts, less the serial number, the previous building, the EPD
  and the CE mark.\<close>

type_synonym edit_form = "wizard_field \<Rightarrow> string"

definition EDITABLE_STATUSES :: "passport_status list" where
  "EDITABLE_STATUSES = [P_draft, P_active]"

definition text_or_empty :: "string option \<Rightarrow> string" where
  "text_or_empty s = (case s of None \<Rightarrow> '''' | Some t \<Rightarrow> t)"

fun json_text_or_empty :: "json option \<Rightarrow> string" where
  "json_text_or_empty (Some (JNum t)) = t"
| "json_text_or_empty (Some (JInt n)) = int_text n"
| "json_text_or_empty j = ''''"

fun origin_text :: "passport_origin \<Rightarrow> string" where
  "origin_text Reclaimed = ''reclaimed''"
| "origin_text Surplus = ''surplus''"
| "origin_text New_product = ''new''"

definition dimension_of :: "string \<Rightarrow> passport \<Rightarrow> json option" where
  "dimension_of k p = Option.bind (p_dimensions p) (json_field k)"

definition edit_form_of :: "passport \<Rightarrow> edit_form" where
  "edit_form_of p f = (case f of
     W_productName \<Rightarrow> p_productName p
   | W_categoryL1 \<Rightarrow> p_categoryL1 p
   | W_categoryL2 \<Rightarrow> text_or_empty (p_categoryL2 p)
   | W_unitOfMeasure \<Rightarrow> text_or_empty (p_unitOfMeasure p)
   | W_manufacturerName \<Rightarrow> text_or_empty (p_manufacturerName p)
   | W_countryOfOrigin \<Rightarrow> text_or_empty (p_countryOfOrigin p)
   | W_conditionGrade \<Rightarrow> text_or_empty (map_option grade_text (p_conditionGrade p))
   | W_conditionNotes \<Rightarrow> text_or_empty (p_conditionNotes p)
   | W_origin \<Rightarrow> text_or_empty (map_option origin_text (p_origin p))
   | W_deconstructionMethod \<Rightarrow> text_or_empty (p_deconstructionMethod p)
   | W_reclaimedBy \<Rightarrow> text_or_empty (p_reclaimedBy p)
   | W_remainingLifeEstimate \<Rightarrow> text_or_empty (map_option int_text (p_remainingLifeEstimate p))
   | W_handlingRequirements \<Rightarrow> text_or_empty (p_handlingRequirements p)
   | W_gwpTotal \<Rightarrow> text_or_empty (p_gwpTotal p)
   | W_embodiedCarbon \<Rightarrow> text_or_empty (p_embodiedCarbon p)
   | W_recycledContent \<Rightarrow> text_or_empty (p_recycledContent p)
   | W_carbonSavingsVsNew \<Rightarrow> text_or_empty (p_carbonSavingsVsNew p)
   | W_dimensionLength \<Rightarrow> json_text_or_empty (dimension_of ''length'' p)
   | W_dimensionWidth \<Rightarrow> json_text_or_empty (dimension_of ''width'' p)
   | W_dimensionHeight \<Rightarrow> json_text_or_empty (dimension_of ''height'' p)
   | W_dimensionWeight \<Rightarrow> json_text_or_empty (dimension_of ''weight'' p)
   | W_dimensionUnit \<Rightarrow> (case dimension_of ''unit'' p of Some (JStr u) \<Rightarrow> u | _ \<Rightarrow> ''mm'')
   | _ \<Rightarrow> '''')"

definition edit_payload :: "web_env \<Rightarrow> edit_form \<Rightarrow> passport_input" where
  "edit_payload we t =
     (let num = (\<lambda>f. field_number we (t f));
          hasDims = (\<exists>f \<in> {W_dimensionLength, W_dimensionWidth, W_dimensionHeight, W_dimensionWeight}. t f \<noteq> '''')
      in no_input\<lparr>
        pi_productName := Some (t W_productName),
        pi_categoryL1 := Some (t W_categoryL1),
        pi_categoryL2 := given_text (t W_categoryL2),
        pi_unitOfMeasure := given_text (t W_unitOfMeasure),
        pi_manufacturerName := given_text (t W_manufacturerName),
        pi_countryOfOrigin := map_option toUpperCase (given_text (t W_countryOfOrigin)),
        pi_conditionGrade := grade_of (t W_conditionGrade),
        pi_conditionNotes := given_text (t W_conditionNotes),
        pi_origin := origin_of (t W_origin),
        pi_deconstructionMethod := given_text (t W_deconstructionMethod),
        pi_reclaimedBy := given_text (t W_reclaimedBy),
        pi_remainingLifeEstimate := map_option (\<lambda>r. fst (quotient_of r)) (num W_remainingLifeEstimate),
        pi_handlingRequirements := given_text (t W_handlingRequirements),
        pi_gwpTotal := map_option (we_text we) (num W_gwpTotal),
        pi_embodiedCarbon := map_option (we_text we) (num W_embodiedCarbon),
        pi_recycledContent := map_option (we_text we) (num W_recycledContent),
        pi_carbonSavingsVsNew := map_option (we_text we) (num W_carbonSavingsVsNew),
        pi_dimensions := (if hasDims then Some (dimensions_json we
            [(''length'', num W_dimensionLength), (''width'', num W_dimensionWidth),
             (''height'', num W_dimensionHeight), (''weight'', num W_dimensionWeight)]
            (if t W_dimensionUnit = '''' then ''mm'' else t W_dimensionUnit)) else None)\<rparr>)"

text \<open>
  The form a passport fills, if the page lets it be edited, and the input the API's schema reads
  from the request: the country code in upper case, and nothing (\<open>None\<close>, a refusal) when the
  years of life are not whole. The choices of grade and origin are those of the select fields.
\<close>

definition loaded_form :: "passport \<Rightarrow> edit_form option" where
  "loaded_form p = (if p_status p \<in> set EDITABLE_STATUSES then Some (edit_form_of p) else None)"

definition edit_request :: "web_env \<Rightarrow> edit_form \<Rightarrow> passport_input option" where
  "edit_request we t = (case field_number we (t W_remainingLifeEstimate) of
      None \<Rightarrow> Some (edit_payload we t)
    | Some r \<Rightarrow> if whole r then Some (edit_payload we t) else None)"

lemma edit_requestD: "edit_request we t = Some input \<Longrightarrow> input = edit_payload we t"
  by (auto simp: edit_request_def split: option.splits if_splits)

text \<open>A stored number's text is read as a number that is stored as the same text; the same of a
  stored country code and upper case.\<close>

definition stored_texts_ok :: "web_env \<Rightarrow> api_env \<Rightarrow> passport \<Rightarrow> bool" where
  "stored_texts_ok we env p \<longleftrightarrow>
     list_all (\<lambda>s. case s of None \<Rightarrow> True | Some t \<Rightarrow>
         t \<noteq> '''' \<and> (case we_number we t of None \<Rightarrow> False | Some r \<Rightarrow> numericText env (we_text we r) = t))
       [p_gwpTotal p, p_embodiedCarbon p, p_recycledContent p, p_carbonSavingsVsNew p]
     \<and> (case p_countryOfOrigin p of None \<Rightarrow> True | Some c \<Rightarrow> toUpperCase c = c)
     \<and> (case p_remainingLifeEstimate p of None \<Rightarrow> True | Some n \<Rightarrow> we_number we (int_text n) = Some (of_int n))"

lemma text_kept: "or_old (given_text (text_or_empty s)) s = s"
  by (cases s) (auto simp: or_old_def given_text_def text_or_empty_def)

lemma grade_kept: "or_old (grade_of (text_or_empty (map_option grade_text g))) g = g"
  by (cases g; cases "the g") (auto simp: or_old_def text_or_empty_def)

lemma origin_kept: "or_old (origin_of (text_or_empty (map_option origin_text g))) g = g"
  by (cases g; cases "the g") (auto simp: or_old_def text_or_empty_def)

lemma number_kept:
  assumes "case s of None \<Rightarrow> True | Some t \<Rightarrow>
      t \<noteq> '''' \<and> (case we_number we t of None \<Rightarrow> False | Some r \<Rightarrow> numericText env (we_text we r) = t)"
  shows "or_old (map_option (numericText env) (map_option (we_text we) (field_number we (text_or_empty s)))) s = s"
  using assms by (auto simp: or_old_def text_or_empty_def field_number_def split: option.splits)

lemma age_kept:
  assumes "case n of None \<Rightarrow> True | Some k \<Rightarrow> we_number we (int_text k) = Some (of_int k)"
  shows "or_old (map_option (\<lambda>r. fst (quotient_of r)) (field_number we (text_or_empty (map_option int_text n)))) n = n"
proof (cases n)
  case (Some k)
  have "int_text k \<noteq> ''''" by (simp add: int_text_def)
  then show ?thesis using assms Some by (simp add: text_or_empty_def field_number_def)
qed (simp add: text_or_empty_def field_number_def)

lemma country_kept:
  assumes "case c of None \<Rightarrow> True | Some t \<Rightarrow> toUpperCase t = t"
  shows "or_old (map_option toUpperCase (given_text (text_or_empty c))) c = c"
  using assms by (cases c) (auto simp: given_text_def text_or_empty_def)

lemma edit_result:
  assumes "updatePassport env now i input user org db = (Inr q, db')" and "find_passport i db = Some p"
  shows "q = saved_row env now (edited_passport env now input p)"
  using updatePassport_cases [OF assms(1)] assms(2) by (auto simp: updatePassport_check_ok)

lemma edit_payload_fields:
  "pi_productName (edit_payload we t) = Some (t W_productName)"
  "pi_categoryL1 (edit_payload we t) = Some (t W_categoryL1)"
  "pi_categoryL2 (edit_payload we t) = given_text (t W_categoryL2)"
  "pi_unitOfMeasure (edit_payload we t) = given_text (t W_unitOfMeasure)"
  "pi_manufacturerName (edit_payload we t) = given_text (t W_manufacturerName)"
  "pi_countryOfOrigin (edit_payload we t) = map_option toUpperCase (given_text (t W_countryOfOrigin))"
  "pi_conditionGrade (edit_payload we t) = grade_of (t W_conditionGrade)"
  "pi_conditionNotes (edit_payload we t) = given_text (t W_conditionNotes)"
  "pi_origin (edit_payload we t) = origin_of (t W_origin)"
  "pi_deconstructionMethod (edit_payload we t) = given_text (t W_deconstructionMethod)"
  "pi_reclaimedBy (edit_payload we t) = given_text (t W_reclaimedBy)"
  "pi_remainingLifeEstimate (edit_payload we t) = map_option (\<lambda>r. fst (quotient_of r)) (field_number we (t W_remainingLifeEstimate))"
  "pi_handlingRequirements (edit_payload we t) = given_text (t W_handlingRequirements)"
  "pi_gwpTotal (edit_payload we t) = map_option (we_text we) (field_number we (t W_gwpTotal))"
  "pi_embodiedCarbon (edit_payload we t) = map_option (we_text we) (field_number we (t W_embodiedCarbon))"
  "pi_recycledContent (edit_payload we t) = map_option (we_text we) (field_number we (t W_recycledContent))"
  "pi_carbonSavingsVsNew (edit_payload we t) = map_option (we_text we) (field_number we (t W_carbonSavingsVsNew))"
  "pi_serialNumber (edit_payload we t) = None"
  "pi_materialComposition (edit_payload we t) = None"
  "pi_technicalSpecs (edit_payload we t) = None"
  "pi_productionDate (edit_payload we t) = None"
  "pi_epdReference (edit_payload we t) = None"
  "pi_ceMarking (edit_payload we t) = None"
  "pi_declarationOfPerformance (edit_payload we t) = None"
  "pi_harmonisedStandard (edit_payload we t) = None"
  "pi_previousBuildingId (edit_payload we t) = None"
  "pi_deconstructionDate (edit_payload we t) = None"
  "pi_originalAge (edit_payload we t) = None"
  "pi_circularityScore (edit_payload we t) = None"
  "pi_reuseSuitability (edit_payload we t) = None"
  "pi_hazardousSubstances (edit_payload we t) = None"
  "pi_customAttributes (edit_payload we t) = None"
  by (simp_all add: edit_payload_def Let_def no_input_def)

lemma edit_form_fields:
  "edit_form_of p W_productName = p_productName p"
  "edit_form_of p W_categoryL1 = p_categoryL1 p"
  "edit_form_of p W_categoryL2 = text_or_empty (p_categoryL2 p)"
  "edit_form_of p W_unitOfMeasure = text_or_empty (p_unitOfMeasure p)"
  "edit_form_of p W_manufacturerName = text_or_empty (p_manufacturerName p)"
  "edit_form_of p W_countryOfOrigin = text_or_empty (p_countryOfOrigin p)"
  "edit_form_of p W_conditionGrade = text_or_empty (map_option grade_text (p_conditionGrade p))"
  "edit_form_of p W_conditionNotes = text_or_empty (p_conditionNotes p)"
  "edit_form_of p W_origin = text_or_empty (map_option origin_text (p_origin p))"
  "edit_form_of p W_deconstructionMethod = text_or_empty (p_deconstructionMethod p)"
  "edit_form_of p W_reclaimedBy = text_or_empty (p_reclaimedBy p)"
  "edit_form_of p W_remainingLifeEstimate = text_or_empty (map_option int_text (p_remainingLifeEstimate p))"
  "edit_form_of p W_handlingRequirements = text_or_empty (p_handlingRequirements p)"
  "edit_form_of p W_gwpTotal = text_or_empty (p_gwpTotal p)"
  "edit_form_of p W_embodiedCarbon = text_or_empty (p_embodiedCarbon p)"
  "edit_form_of p W_recycledContent = text_or_empty (p_recycledContent p)"
  "edit_form_of p W_carbonSavingsVsNew = text_or_empty (p_carbonSavingsVsNew p)"
  by (simp_all add: edit_form_of_def)

text \<open>What the page's request leaves of a row it was filled from: everything but the size.\<close>

lemma untouched_row:
  assumes "stored_texts_ok we env p"
  shows "buildUpdateValues env (edit_payload we (edit_form_of p)) p
    = p\<lparr>p_dimensions := or_old (map_option (jsonbValue env) (pi_dimensions (edit_payload we (edit_form_of p)))) (p_dimensions p)\<rparr>"
proof -
  have n: "or_old (map_option (numericText env) (map_option (we_text we) (field_number we (text_or_empty (g p))))) (g p) = g p"
    if "g \<in> {p_gwpTotal, p_embodiedCarbon, p_recycledContent, p_carbonSavingsVsNew}" for g
    by (rule number_kept) (use assms that in \<open>auto simp: stored_texts_ok_def\<close>)
  note numbers = n [of p_gwpTotal, simplified] n [of p_embodiedCarbon, simplified]
    n [of p_recycledContent, simplified] n [of p_carbonSavingsVsNew, simplified]
  have a: "or_old (map_option (\<lambda>r. fst (quotient_of r)) (field_number we (text_or_empty (map_option int_text (p_remainingLifeEstimate p)))))
      (p_remainingLifeEstimate p) = p_remainingLifeEstimate p"
    by (rule age_kept) (use assms in \<open>simp add: stored_texts_ok_def\<close>)
  have c: "or_old (map_option toUpperCase (given_text (text_or_empty (p_countryOfOrigin p)))) (p_countryOfOrigin p)
      = p_countryOfOrigin p"
    by (rule country_kept) (use assms in \<open>simp add: stored_texts_ok_def\<close>)
  show ?thesis
    unfolding buildUpdateValues_def edit_payload_fields edit_form_fields text_kept
      grade_kept origin_kept numbers a c or_old_simps or_keep_simps option.map
    by simp
qed

lemma saved_columns:
  "p_dimensions (saved_row env now (pending_row now r)) = p_dimensions r"
  "p_origin (saved_row env now (pending_row now r)) = p_origin r"
  "p_unitOfMeasure (saved_row env now (pending_row now r)) = p_unitOfMeasure r"
  "p_status (saved_row env now (pending_row now r)) = p_status r"
  "p_conditionPhotos (saved_row env now (pending_row now r)) = p_conditionPhotos r"
  "p_customAttributes (saved_row env now (pending_row now r)) = p_customAttributes r"
  "p_manufacturerName (saved_row env now (pending_row now r)) = p_manufacturerName r"
  "p_conditionNotes (saved_row env now (pending_row now r)) = p_conditionNotes r"
  "p_reclaimedBy (saved_row env now (pending_row now r)) = p_reclaimedBy r"
  "p_gwpTotal (saved_row env now (pending_row now r)) = p_gwpTotal r"
  by (simp_all add: saved_row_def pending_row_def)

text \<open>Saving the edit form as the passport filled it changes at most the size of the material.
  Every entry that the fingerprint covers except the dimensions is the entry there was, the columns it
  does not cover are too, and when the dimensions come back as they were the fingerprint is the
  same.\<close>

theorem saving_an_untouched_form_keeps_the_material:
  assumes "loaded_form p = Some form" and "edit_request we form = Some input"
    and "updatePassport env now i input user org db = (Inr q, db')"
    and "find_passport i db = Some p" and "stored_texts_ok we env p"
  shows "list_all2 (\<lambda>a b. a = b \<or> fst a = ''dimensions'' \<and> fst b = ''dimensions'')
      (canonical_fields (idText env) p) (canonical_fields (idText env) q)
    \<and> (p_dimensions q = p_dimensions p \<longrightarrow> fingerprint env q = fingerprint env p)
    \<and> p_origin q = p_origin p \<and> p_unitOfMeasure q = p_unitOfMeasure p \<and> p_status q = p_status p
    \<and> p_conditionPhotos q = p_conditionPhotos p \<and> p_customAttributes q = p_customAttributes p"
proof -
  have input: "input = edit_payload we (edit_form_of p)"
    using assms(1) edit_requestD [OF assms(2)] by (simp add: loaded_form_def split: if_splits)
  let ?d = "or_old (map_option (jsonbValue env) (pi_dimensions (edit_payload we (edit_form_of p)))) (p_dimensions p)"
  have q: "q = saved_row env now (pending_row now (p\<lparr>p_dimensions := ?d\<rparr>))"
    using edit_result [OF assms(3,4)] by (simp add: edited_passport_def input untouched_row [OF assms(5)])
  have f: "canonical_fields (idText env) q = canonical_fields (idText env) (p\<lparr>p_dimensions := ?d\<rparr>)"
    by (simp add: q)
  have "list_all2 (\<lambda>a b. a = b \<or> fst a = ''dimensions'' \<and> fst b = ''dimensions'')
      (canonical_fields (idText env) p) (canonical_fields (idText env) q)"
    unfolding f by (simp add: canonical_fields_def)
  moreover have "fingerprint env q = fingerprint env p" if "p_dimensions q = p_dimensions p"
  proof -
    have "p_dimensions p = ?d" using that by (simp add: q saved_columns)
    then have "p\<lparr>p_dimensions := ?d\<rparr> = p" by simp
    then have "canonical_fields (idText env) p = canonical_fields (idText env) q" using f by simp
    then show ?thesis by (rule computePassportHash_cong [OF sym])
  qed
  ultimately show ?thesis by (simp add: q saved_columns)
qed

definition beam :: passport where
  "beam = sample_passport\<lparr>p_gwpTotal := Some ''12'', p_conditionGrade := Some Grade_B\<rparr>"

theorem saving_an_untouched_form_keeps_the_material_witness:
  "\<exists>form input q db'. loaded_form beam = Some form \<and> edit_request sample_web form = Some input
     \<and> pi_gwpTotal input = Some ''12'' \<and> pi_conditionGrade input = Some Grade_B
     \<and> updatePassport sample_env 5 10 input 2 1 (sample_db\<lparr>materialPassports := [beam]\<rparr>) = (Inr q, db')
     \<and> fingerprint sample_env q = fingerprint sample_env beam"
proof -
  let ?db = "sample_db\<lparr>materialPassports := [beam]\<rparr>" and ?f = "edit_form_of beam"
  let ?i = "edit_payload sample_web ?f"
  have ok: "stored_texts_ok sample_web sample_env beam"
    by (simp add: stored_texts_ok_def beam_def sample_passport_def sample_web_def sample_env_def)
  have form: "loaded_form beam = Some ?f"
    by (simp add: loaded_form_def EDITABLE_STATUSES_def beam_def sample_passport_def)
  have request: "edit_request sample_web ?f = Some ?i"
    by (simp add: edit_request_def edit_form_fields field_number_def text_or_empty_def beam_def sample_passport_def)
  have p: "find_passport 10 ?db = Some beam" by (simp add: beam_def sample_passport_def)
  have pays: "pi_gwpTotal ?i = Some ''12''" "pi_conditionGrade ?i = Some Grade_B" "pi_dimensions ?i = None"
    by (simp_all add: edit_payload_def Let_def edit_form_of_def dimension_of_def beam_def sample_passport_def
        no_input_def text_or_empty_def field_number_def sample_web_def)
  have row: "buildUpdateValues sample_env ?i beam = beam"
    unfolding untouched_row [OF ok] by (simp add: pays)
  define q where "q = saved_row sample_env 5 (pending_row 5 beam)"
  have chk: "updatePassport_check 10 ?i 1 ?db = Inr beam"
    by (simp add: updatePassport_check_def p pays LOCKED_STATUSES_def) (simp add: beam_def sample_defs)
  obtain r db' where run: "updatePassport sample_env 5 10 ?i 2 1 ?db = (r, db')" by (meson surj_pair)
  have "passport_row_ok (edited_passport sample_env 5 ?i beam)"
    unfolding edited_passport_def row
    by (simp add: passport_row_ok_def pending_row_def beam_def sample_passport_def within_def)
  then have "r = Inr q"
    using updatePassport_cases [OF run] chk by (auto simp: q_def edited_passport_def row)
  moreover have "p_dimensions q = p_dimensions beam" by (simp add: q_def saved_columns)
  ultimately show ?thesis
    using saving_an_untouched_form_keeps_the_material [OF form request _ p ok] form request pays run by blast
qed

subsection \<open>What the edit page loses\<close>

text \<open>A field that is emptied is not in the request, so the passport keeps it, and the page says
  that the changes are saved.\<close>

theorem an_edit_cannot_clear_a_field:
  assumes "edit_request we t = Some input"
    and "updatePassport env now i input user org db = (Inr q, db')" and "find_passport i db = Some p"
  shows "t W_manufacturerName = '''' \<Longrightarrow> p_manufacturerName q = p_manufacturerName p"
    and "t W_conditionNotes = '''' \<Longrightarrow> p_conditionNotes q = p_conditionNotes p"
    and "t W_reclaimedBy = '''' \<Longrightarrow> p_reclaimedBy q = p_reclaimedBy p"
    and "t W_gwpTotal = '''' \<Longrightarrow> p_gwpTotal q = p_gwpTotal p"
  using edit_result [OF assms(2,3)]
  by (simp_all add: edit_requestD [OF assms(1)] edited_passport_def saved_columns buildUpdateValues_def edit_payload_fields
      given_text_def field_number_def)

text \<open>The form has no unit of weight: any save of a passport with a size drops the one it had, and
  a weight in tonnes then reads as kilograms.\<close>

definition weight_line :: "passport \<Rightarrow> string option" where
  "weight_line p = (case json_text_or_empty (dimension_of ''weight'' p) of [] \<Rightarrow> None
     | w \<Rightarrow> Some (w @ '' '' @ (case dimension_of ''weightUnit'' p of Some (JStr u) \<Rightarrow> u | _ \<Rightarrow> ''kg'')))"

lemma no_weight_unit: "json_field ''weightUnit'' (dimensions_json we
    [(''length'', a), (''width'', b), (''height'', c), (''weight'', d)] u) = None"
  by (simp add: dimensions_json_def split: option.splits)

theorem an_edit_forgets_the_weight_unit:
  assumes "edit_request we t = Some input"
    and "updatePassport env now i input user org db = (Inr q, db')" and "find_passport i db = Some p"
    and "t W_dimensionWeight \<noteq> ''''" and "\<forall>j k. json_field k (jsonbValue env j) = json_field k j"
  shows "dimension_of ''weightUnit'' q = None"
    and "weight_line q = Some w \<Longrightarrow> \<exists>n. w = n @ '' kg''"
proof -
  show none: "dimension_of ''weightUnit'' q = None"
    using edit_result [OF assms(2,3)] assms(4,5)
    by (simp add: edit_requestD [OF assms(1)] edited_passport_def saved_columns buildUpdateValues_def edit_payload_def
        Let_def no_input_def dimension_of_def no_weight_unit)
  show "weight_line q = Some w \<Longrightarrow> \<exists>n. w = n @ '' kg''"
    using none by (auto simp: weight_line_def split: list.splits)
qed

end
