(* ===== verification/Web_Wording.thy ===== *)
theory Web_Wording
  imports Marketplace_Properties Quality_Reports Chain_Adapter
begin

text \<open>
  What the web client tells a person, from what the API answers: who stands behind a material's
  grade (\<open>lib/inspection.ts\<close>), what happens next on an order and how it ended
  (\<open>lib/orders.ts\<close>), and which passport a scanned or pasted text means
  (\<open>lib/passport-link.ts\<close>). A sentence is a constructor with what it names; dates are left
  unformatted. The lemmas say that what is told is what the API did.
\<close>

subsection \<open>Who stands behind a grade\<close>

definition by_newest :: "public_report list \<Rightarrow> public_report list" where
  "by_newest = sort_key (\<lambda>r. - pq_createdAt r)"

definition latestIndependent :: "public_report list \<Rightarrow> public_report option" where
  "latestIndependent reports = List.find (\<lambda>r. pq_source r = Independent) (by_newest reports)"

definition reportedBy :: "public_report \<Rightarrow> string option \<times> inspection_source" where
  "reportedBy r = (map_option fst (pq_inspector r), pq_source r)"

datatype grade_basis =
  Set_by_inspection time
| Set_by_platform time
| Declared "string option" bool \<comment> \<open>by whom; whether an inspector has looked at the material\<close>

definition gradeBasis :: "grade option \<Rightarrow> public_report list \<Rightarrow> string option \<Rightarrow> grade_basis option" where
  "gradeBasis grade reports organisationName =
     (case grade of None \<Rightarrow> None
      | Some g \<Rightarrow>
          let newestFirst = by_newest reports;
              inspected = List.find (\<lambda>r. pq_source r = Independent \<and> pq_overallGrade r \<noteq> None) newestFirst;
              setBy = List.find (\<lambda>r. pq_overallGrade r = Some g) newestFirst;
              declared = Declared organisationName (latestIndependent reports \<noteq> None)
          in Some (case inspected of
               Some r \<Rightarrow> if pq_overallGrade r = Some g then Set_by_inspection (pq_createdAt r)
                 else (case setBy of Some s \<Rightarrow> if pq_source s = Platform_check then Set_by_platform (pq_createdAt s) else declared
                       | None \<Rightarrow> declared)
             | None \<Rightarrow> (case setBy of Some s \<Rightarrow> if pq_source s = Platform_check then Set_by_platform (pq_createdAt s) else declared
                       | None \<Rightarrow> declared)))"

text \<open>The inspections of a material that gave a grade, in the order they were filed.\<close>

definition inspections :: "uuid \<Rightarrow> trace_db \<Rightarrow> quality_report list" where
  "inspections i db = filter (\<lambda>q. q_passportId q = i \<and> q_overallGrade q \<noteq> None
     \<and> reporter_role db q = Some Inspector) (qualityReports db)"

lemma find_filter: "List.find P xs = (case filter P xs of [] \<Rightarrow> None | x # _ \<Rightarrow> Some x)"
  by (induction xs) auto

lemma sort_key_map: "sort_key f (map g xs) = map g (sort_key (\<lambda>x. f (g x)) xs)"
proof -
  have ins: "insort_key f (g x) (map g ys) = map g (insort_key (\<lambda>x. f (g x)) x ys)" for x ys
    by (induction ys) auto
  show ?thesis by (induction xs) (simp_all add: ins)
qed

lemma sort_key_idem: "sort_key f (sort_key f xs) = sort_key f xs"
  by (rule sort_key_id_if_sorted) simp

lemma independent_report: "pq_source (toPublic db q) = Independent \<longleftrightarrow> reporter_role db q = Some Inspector"
  by (cases "reporter_role db q"; cases "the (reporter_role db q)") (simp_all add: toPublic_def Let_def)

lemma toPublic_fields [simp]:
  "pq_createdAt (toPublic db q) = q_createdAt q" "pq_overallGrade (toPublic db q) = q_overallGrade q"
  by (simp_all add: toPublic_def Let_def)

text \<open>What a page finds in the answer of \<open>getReportsByPassport\<close>, in terms of the table.\<close>

lemma inspected_of_page:
  assumes "getReportsByPassport i db = Inr reports"
  shows "List.find (\<lambda>r. pq_source r = Independent \<and> pq_overallGrade r \<noteq> None) (by_newest reports)
    = map_option (toPublic db) (case sort_key (\<lambda>q. - q_createdAt q) (inspections i db) of [] \<Rightarrow> None | q # _ \<Rightarrow> Some q)"
proof -
  let ?k = "\<lambda>q. - q_createdAt q" and ?P = "\<lambda>q. reporter_role db q = Some Inspector \<and> q_overallGrade q \<noteq> None"
  let ?qs = "filter (\<lambda>q. q_passportId q = i) (qualityReports db)"
  have page: "by_newest reports = map (toPublic db) (sort_key ?k ?qs)"
    using assms by (auto simp: getReportsByPassport_def newest_reports_def by_newest_def sort_key_map
        sort_key_idem split: option.splits)
  have "filter (\<lambda>r. pq_source r = Independent \<and> pq_overallGrade r \<noteq> None) (by_newest reports)
      = map (toPublic db) (filter ?P (sort_key ?k ?qs))"
    unfolding page by (simp add: filter_map independent_report o_def)
  also have "\<dots> = map (toPublic db) (sort_key ?k (filter ?P ?qs))" by (simp only: filter_sort)
  also have "filter ?P ?qs = inspections i db" by (auto simp: inspections_def intro: filter_cong)
  finally show ?thesis unfolding find_filter by (simp split: list.split)
qed

lemma first_of_sorted:
  fixes f :: "'a \<Rightarrow> 'k :: linorder"
  assumes "x \<in> set xs" and "\<forall>y \<in> set xs. y = x \<or> f x < f y"
  obtains ys where "sort_key f xs = x # ys"
proof (cases "sort_key f xs")
  case Nil
  then have "set xs = {}" using set_sort [of f xs] by simp
  then show ?thesis using assms(1) by simp
next
  case (Cons y ys)
  have y: "y \<in> set xs" and x: "x \<in> set (y # ys)" using Cons set_sort [of f xs] assms(1) by auto
  have "sorted (map f (y # ys))" using Cons sorted_sort_key [of f xs] by simp
  then have "f y \<le> f x" using x by auto
  then have "y = x" using assms(2) y by fastforce
  then show ?thesis using that Cons by simp
qed

text \<open>No seller adds to, or takes from, the inspections of a material.\<close>

lemma seller_keeps_inspections:
  assumes "by_seller a" and "distinct (map p_id (materialPassports db))"
  shows "inspections i (seller_step env db a) = inspections i db"
proof (cases a)
  case (Edit_passport now j input userId orgId)
  obtain r db' where run: "updatePassport env now j input userId orgId db = (r, db')" by (meson surj_pair)
  then have "seller_step env db a = db'" using Edit_passport by simp
  then show ?thesis
    using updatePassport_cases [OF run]
    by (auto simp: inspections_def reporter_role_def others_same_def cong: option.case_cong)
next
  case (File_check now newId input rep)
  obtain r db' where run: "createQualityReport env now newId input rep db = (r, db')" by (meson surj_pair)
  then have "seller_step env db a = db'" using File_check by simp
  moreover have "rp_role rep \<noteq> Inspector" using assms(1) File_check by simp
  ultimately show ?thesis
    using createQualityReport_cases [OF run assms(2)]
    by (auto simp: inspections_def reporter_role_def others_same_def new_report_def cong: option.case_cong)
qed

definition inspected_as :: "api_env \<Rightarrow> uuid \<Rightarrow> grade option \<Rightarrow> quality_report list \<Rightarrow> trace_db \<Rightarrow> bool" where
  "inspected_as env i g qs db \<longleftrightarrow> graded_by_inspection env i g db \<and> inspections i db = qs"

interpretation told: guarded_system "seller_step env" "\<lambda>db. by_seller" "inspected_as env i g qs" for env i g qs
proof
  fix db and a :: seller_action
  assume inv: "inspected_as env i g qs db" and s: "by_seller a"
  then have graded: "graded_by_inspection env i g db" and q: "inspections i db = qs"
    by (simp_all add: inspected_as_def)
  then have "distinct (map p_id (materialPassports db))" by (simp add: graded_by_inspection_def records_ok_def)
  then show "inspected_as env i g qs (seller_step env db a)"
    using sellers.step_keeps [OF graded s] seller_keeps_inspections [OF s] q by (simp add: inspected_as_def)
qed

text \<open>C26: The page tells who set a grade, and keeps telling it. After an inspector has filed a
  report, later than the reports there were, the material's page says that its grade was set by
  that inspection, at that time; and whatever sellers then do, edits of the passport or checks
  of their own with other grades, the page goes on saying so, with the inspector's grade.\<close>

theorem the_page_names_the_inspection:
  assumes "createQualityReport env now newId input rep db = (Inr q, db1)" and "rp_role rep = Inspector"
    and "records_ok env db" and "\<forall>r \<in> set (qualityReports db). q_createdAt r < now"
    and "\<forall>a \<in> set as. by_seller a"
  shows "\<exists>p reports. find_passport (ri_passportId input) (run_calls (seller_step env) db1 as) = Some p
    \<and> getReportsByPassport (ri_passportId input) (run_calls (seller_step env) db1 as) = Inr reports
    \<and> p_conditionGrade p = Some (ri_overallGrade input)
    \<and> gradeBasis (p_conditionGrade p) reports organisation = Some (Set_by_inspection now)"
proof -
  let ?i = "ri_passportId input" and ?new = "new_report now newId input rep"
    and ?after = "run_calls (seller_step env) db1 as" and ?k = "\<lambda>q. - q_createdAt q"
  have ids: "distinct (map p_id (materialPassports db))" using assms(3) by (simp add: records_ok_def)
  have free: "\<not> gradeStands rep ?i db" by (simp add: gradeStands_def assms(2))
  from createQualityReport_cases [OF assms(1) ids] assms(3) free
  have filed: "qualityReports db1 = qualityReports db @ [?new]" "users db1 = users db" "records_ok env db1"
    "\<exists>p. find_passport ?i db1 = Some p \<and> p_conditionGrade p = Some (ri_overallGrade input)"
    by (auto simp: others_same_def)
  have inspections: "inspections ?i db1 = inspections ?i db @ [?new]"
    using filed(1,2) assms(2)
    by (simp add: inspections_def reporter_role_def new_report_def cong: option.case_cong)
  have "graded_by_inspection env ?i (Some (ri_overallGrade input)) db1"
    using filed assms(2) by (simp add: graded_by_inspection_def hasIndependentInspection_def reporter_role_def new_report_def)
  then have "inspected_as env ?i (Some (ri_overallGrade input)) (inspections ?i db @ [?new]) ?after"
    using assms(5) inspections
    by (intro told.run_keeps told.admissible_all) (auto simp: inspected_as_def)
  then obtain p where p: "find_passport ?i ?after = Some p" "p_conditionGrade p = Some (ri_overallGrade input)"
    and kept: "inspections ?i ?after = inspections ?i db @ [?new]"
    by (auto simp: inspected_as_def graded_by_inspection_def)
  obtain reports where reports: "getReportsByPassport ?i ?after = Inr reports"
    using p(1) by (simp add: getReportsByPassport_def)
  have "\<forall>r \<in> set (inspections ?i db @ [?new]). r = ?new \<or> ?k ?new < ?k r"
    using assms(4) by (auto simp: inspections_def new_report_def)
  then obtain rest where "sort_key ?k (inspections ?i db @ [?new]) = ?new # rest"
    by (rule first_of_sorted [rotated]) simp_all
  then have "gradeBasis (p_conditionGrade p) reports organisation = Some (Set_by_inspection now)"
    unfolding gradeBasis_def Let_def inspected_of_page [OF reports] kept by (simp add: p(2) new_report_def)
  then show ?thesis using p reports by blast
qed

text \<open>What the page calls an inspection is one: an inspector's report that gave that grade, and
  no inspector has graded the material since.\<close>

theorem an_inspection_that_is_named_took_place:
  assumes "getReportsByPassport i db = Inr reports"
    and "gradeBasis grade reports organisation = Some (Set_by_inspection t)"
  shows "\<exists>q \<in> set (qualityReports db). q_passportId q = i \<and> reporter_role db q = Some Inspector
    \<and> q_overallGrade q = grade \<and> q_createdAt q = t \<and> (\<forall>r \<in> set (inspections i db). q_createdAt r \<le> t)"
proof -
  let ?k = "\<lambda>q. - q_createdAt q"
  obtain g where g: "grade = Some g" using assms(2) by (cases grade) (simp_all add: gradeBasis_def)
  obtain q rest where q: "sort_key ?k (inspections i db) = q # rest" "q_overallGrade q = grade" "q_createdAt q = t"
    using assms(2) unfolding gradeBasis_def Let_def inspected_of_page [OF assms(1)] g
    by (auto split: list.splits option.splits if_splits)
  have set: "set (inspections i db) = set (q # rest)" using q(1) set_sort [of ?k "inspections i db"] by simp
  have "sorted (map ?k (q # rest))" using q(1) sorted_sort_key [of ?k "inspections i db"] by simp
  then have "\<forall>r \<in> set (inspections i db). q_createdAt r \<le> t" unfolding set using q(3) by auto
  moreover have "q \<in> set (inspections i db)" unfolding set by simp
  ultimately show ?thesis using q(2,3) by (auto simp: inspections_def)
qed

theorem the_page_names_the_inspection_witness:
  "\<exists>p reports. find_passport 10 (run_calls (seller_step sample_env) inspected_db
        [Edit_passport 6 10 (no_fields\<lparr>pi_conditionGrade := Some Grade_A\<rparr>) 2 1, File_check 7 41 (graded Grade_A) the_hub]) = Some p
     \<and> gradeBasis (p_conditionGrade p) reports None = Some (Set_by_inspection 5)"
proof -
  let ?as = "[Edit_passport 6 10 (no_fields\<lparr>pi_conditionGrade := Some Grade_A\<rparr>) 2 1, File_check 7 41 (graded Grade_A) the_hub]"
  obtain r db' where run: "createQualityReport sample_env 5 40 (graded Grade_B) an_inspector sample_db = (r, db')"
    by (meson surj_pair)
  have chk: "createQualityReport_check (graded Grade_B) an_inspector sample_db = Inr sample_passport"
    unfolding createQualityReport_check_ok by (simp add: graded_def an_inspector_def sample_defs)
  then obtain q where q: "r = Inr q" using run by (auto simp: createQualityReport_def Let_def)
  have db': "db' = inspected_db" using run by (simp add: inspected_db_def)
  have "\<forall>a \<in> set ?as. by_seller a" by (simp add: the_hub_def)
  from the_page_names_the_inspection [OF run [unfolded q db'] _ sample_records_ok _ this, where organisation = None]
  show ?thesis by (auto simp: an_inspector_def graded_def sample_db_def)
qed

subsection \<open>What an order's page says\<close>

record order_wording =
  ow_status :: order_status
  ow_viewerSide :: order_side
  ow_responseDeadline :: "time option"
  ow_disputeDeadline :: "time option"
  ow_steps :: "order_step_shown list"

datatype order_sentence =
  Waiting_for_the_seller
| Seller_has_until time
| Answer_by time
| Buyer_confirms_on_arrival
| Confirm_or_report_by time
| Completes_by_itself_on time
| Platform_reviews
| Seller_did_not_answer
| Completed_by_itself
| You_declined
| Seller_declined
| You_cancelled
| Cancelled_by actor_side
| Resolved_cancelled
| Resolved_stands

definition same_side :: "actor_side \<Rightarrow> order_side \<Rightarrow> bool" where
  "same_side a v \<longleftrightarrow> a = By_buyer \<and> v = Side_buyer \<or> a = By_seller \<and> v = Side_seller"

definition orderGuidance :: "order_wording \<Rightarrow> order_sentence option" where
  "orderGuidance w =
     (let buyer = (ow_viewerSide w = Side_buyer) in
      case ow_status w of
        T_pending \<Rightarrow> (case ow_responseDeadline w of
            None \<Rightarrow> if buyer then Some Waiting_for_the_seller else None
          | Some t \<Rightarrow> Some (if buyer then Seller_has_until t else Answer_by t))
      | T_confirmed \<Rightarrow> (case ow_disputeDeadline w of
            None \<Rightarrow> if buyer then None else Some Buyer_confirms_on_arrival
          | Some t \<Rightarrow> Some (if buyer then Confirm_or_report_by t else Completes_by_itself_on t))
      | T_disputed \<Rightarrow> Some Platform_reviews
      | _ \<Rightarrow>
          if ow_steps w = [] then None
          else case os_action (last (ow_steps w)) of
              Timed Lapse \<Rightarrow> Some Seller_did_not_answer
            | Timed Auto_complete \<Rightarrow> Some Completed_by_itself
            | Person Reject \<Rightarrow> Some (if ow_viewerSide w = Side_seller then You_declined else Seller_declined)
            | Person Cancel \<Rightarrow>
                (let side = os_actorSide (last (ow_steps w)) in
                 if same_side side (ow_viewerSide w) then Some You_cancelled
                 else if side = By_time_limit then None else Some (Cancelled_by side))
            | Person Resolve_dispute \<Rightarrow>
                Some (if os_toStatus (last (ow_steps w)) = T_cancelled then Resolved_cancelled else Resolved_stands)
            | _ \<Rightarrow> None)"

text \<open>The order as the API's list shows it to a viewer.\<close>

definition wording_of :: "order_for_viewer \<Rightarrow> order_wording" where
  "wording_of v = \<lparr>ow_status = t_status (ov_order v), ow_viewerSide = ov_viewerSide v,
     ow_responseDeadline = ov_responseDeadline v, ow_disputeDeadline = t_disputeDeadline (ov_order v),
     ow_steps = ov_steps v\<rparr>"

text \<open>A step of the history: who did what.\<close>

datatype step_sentence =
  Order_placed_by actor_side
| Done_by order_action actor_side
| Resolved_the_order_is_cancelled
| Resolved_the_sale_stands
| Lapsed_unanswered
| Completed_when_time_passed

fun stepText :: "order_step_shown \<Rightarrow> step_sentence" where
  "stepText step = (case os_action step of
      Placed \<Rightarrow> Order_placed_by (os_actorSide step)
    | Person Resolve_dispute \<Rightarrow>
        if os_toStatus step = T_cancelled then Resolved_the_order_is_cancelled else Resolved_the_sale_stands
    | Person action \<Rightarrow> Done_by action (os_actorSide step)
    | Timed Lapse \<Rightarrow> Lapsed_unanswered
    | Timed Auto_complete \<Rightarrow> Completed_when_time_passed)"

lemma sort_key_snoc:
  assumes "\<forall>y \<in> set xs. f y \<le> f x"
  shows "sort_key f (xs @ [x]) = sort_key f xs @ [x]"
proof -
  have ins: "f a \<le> f x \<Longrightarrow> insort_key f a (ys @ [x]) = insort_key f a ys @ [x]" for a ys
    by (induction ys) auto
  show ?thesis using assms by (induction xs) (simp_all add: ins)
qed

lemma stepped_events:
  assumes "\<forall>e \<in> set (orderEvents db). e_transactionId e = t_id t \<longrightarrow> e_createdAt e \<le> st_now step"
  shows "events_of (moved_order step t) (stepped_db t l step db) = events_of t db @ [step_event t step]"
proof -
  have evs: "orderEvents (stepped_db t l step db) = orderEvents db @ [step_event t step]"
    by (simp add: stepped_db_def Let_def insert_row_def)
  have "t_id (moved_order step t) = t_id t" by (simp add: moved_order_def Let_def)
  then show ?thesis
    unfolding events_of_def evs using assms
    by (simp add: step_event_def sort_key_snoc)
qed

text \<open>What the page should say right after a person's action, to the person who reads it.\<close>

fun sentence_after :: "update_transaction_input \<Rightarrow> actor_side \<Rightarrow> order_side \<Rightarrow> time \<Rightarrow> order_sentence option" where
  "sentence_after input by_side reader now = (case ut_action input of
      Accept \<Rightarrow> Some ((if reader = Side_buyer then Confirm_or_report_by else Completes_by_itself_on) (now + DISPUTE_WINDOW_MS))
    | Reject \<Rightarrow> Some (if reader = Side_buyer then Seller_declined else You_declined)
    | Cancel \<Rightarrow> Some (if same_side by_side reader then You_cancelled else Cancelled_by by_side)
    | Confirm_delivery \<Rightarrow> None
    | Flag_dispute \<Rightarrow> Some Platform_reviews
    | Resolve_dispute \<Rightarrow> Some (if ut_outcome input = Some Cancel_order then Resolved_cancelled else Resolved_stands))"

lemma page_fields:
  "ow_status (wording_of (order_for reader seen db t)) = t_status t"
  "ow_viewerSide (wording_of (order_for reader seen db t)) = ov_viewerSide (order_for reader seen db t)"
  "ow_disputeDeadline (wording_of (order_for reader seen db t)) = t_disputeDeadline t"
  "ow_steps (wording_of (order_for reader seen db t)) = map toStep (events_of t db)"
  "ov_steps (order_for reader seen db t) = map toStep (events_of t db)"
  "ov_viewerSide (order_for reader seen db t) \<in> {Side_buyer, Side_seller}"
  by (simp_all add: order_for_def wording_of_def Let_def)

lemma guidance_after:
  assumes "ow_status w = st_to step" and "step = person_order_step input viewer on now"
    and "last (ow_steps w) = toStep (step_event t step)" and "ow_steps w \<noteq> []"
    and "ow_viewerSide w \<in> {Side_buyer, Side_seller}"
    and "st_to step = T_confirmed \<longrightarrow> ow_disputeDeadline w = Some (now + DISPUTE_WINDOW_MS)"
  shows "orderGuidance w = sentence_after input (st_actorSide step) (ow_viewerSide w) now"
proof -
  have side: "st_actorSide step \<noteq> By_time_limit" by (simp add: assms(2) person_order_step_def)
  have fields: "st_action step = Person (ut_action input)"
    "st_to step = (if ut_action input = Resolve_dispute \<and> ut_outcome input = Some Cancel_order
       then T_cancelled else step_to (ut_action input))"
    by (simp_all add: assms(2) person_order_step_def)
  have last: "os_action (last (ow_steps w)) = Person (ut_action input)"
    "os_toStatus (last (ow_steps w)) = st_to step" "os_actorSide (last (ow_steps w)) = st_actorSide step"
    by (simp_all add: assms(3) toStep_def step_event_def fields)
  show ?thesis
    using assms(4-6) side by (cases "ut_action input")
      (auto simp: orderGuidance_def assms(1) last fields Let_def)
qed

text \<open>The order's page says what was just done, to each side in its own words. After any
  action the API takes on an order in time, whoever then opens the page reads the sentence of
  that action: the limit that now runs, who declined or cancelled it, that the platform reviews
  it, or how it was resolved; and the last line of its history is that action by that side.\<close>

theorem the_order_page_says_what_was_done:
  assumes "market_ok db" and "find_order i db = Some t" and "find_listing (t_listingId t) db = Some l"
    and "\<not> overdueAt now t"
    and "\<forall>e \<in> set (orderEvents db). e_transactionId e = i \<longrightarrow> e_createdAt e \<le> now"
    and "updateTransaction i input viewer now db = (Inr t', db')"
  shows "let page = order_for reader seen db' t';
      side = st_actorSide (person_order_step input viewer (standing_of viewer t l) now) in
    orderGuidance (wording_of page) = sentence_after input side (ov_viewerSide page) now
    \<and> ov_steps page \<noteq> [] \<and> side \<noteq> By_time_limit
    \<and> (case stepText (last (ov_steps page)) of Done_by a s \<Rightarrow> a = ut_action input \<and> s = side
       | Resolved_the_order_is_cancelled \<Rightarrow> ut_action input = Resolve_dispute \<and> ut_outcome input = Some Cancel_order
       | Resolved_the_sale_stands \<Rightarrow> ut_action input = Resolve_dispute
       | _ \<Rightarrow> False)"
proof -
  let ?step = "person_order_step input viewer (standing_of viewer t l) now"
  have run: "updateTransaction_tx i input viewer None now db = Inr (t', db')"
    using assms(6) unfolding updateTransaction_in_time [OF assms(1,2,4)] by (auto split: sum.splits prod.splits)
  have t': "t' = moved_order ?step t" and db': "db' = stepped_db t l ?step db"
    using updateTransaction_tx_ok [OF assms(1), of i input viewer None now] run assms(2,3) by auto
  have tid: "t_id t = i" using assms(2) find_row_SomeD by fastforce
  have evs: "events_of t' db' = events_of t db @ [step_event t ?step]"
    unfolding t' db' using assms(5) tid by (intro stepped_events) (simp add: person_order_step_def)
  have last: "last (map toStep (events_of t' db')) = toStep (step_event t ?step)" and some: "map toStep (events_of t' db') \<noteq> []"
    by (simp_all add: evs)
  have to: "t_status t' = st_to ?step"
    "st_to ?step = T_confirmed \<longrightarrow> t_disputeDeadline t' = Some (now + DISPUTE_WINDOW_MS)"
    by (simp_all add: t' moved_order_def Let_def person_order_step_def)
  have "orderGuidance (wording_of (order_for reader seen db' t'))
      = sentence_after input (st_actorSide ?step) (ov_viewerSide (order_for reader seen db' t')) now"
    unfolding page_fields(2) [symmetric]
    by (rule guidance_after [OF _ refl]) (use last some to page_fields(6) in \<open>simp_all add: page_fields\<close>)
  moreover have "st_actorSide ?step \<noteq> By_time_limit" by (simp add: person_order_step_def)
  moreover have "case stepText (toStep (step_event t ?step)) of Done_by a s \<Rightarrow> a = ut_action input \<and> s = st_actorSide ?step
       | Resolved_the_order_is_cancelled \<Rightarrow> ut_action input = Resolve_dispute \<and> ut_outcome input = Some Cancel_order
       | Resolved_the_sale_stands \<Rightarrow> ut_action input = Resolve_dispute
       | _ \<Rightarrow> False"
    by (cases "ut_action input") (simp_all add: toStep_def step_event_def person_order_step_def)
  ultimately show ?thesis
    unfolding Let_def page_fields(5) last using some by blast
qed

theorem the_order_page_says_what_was_done_witness:
  "case updateTransaction 30 (an_action Reject) sample_seller 300 ordered_db of
      (Inl e, db') \<Rightarrow> False
    | (Inr t', db') \<Rightarrow> orderGuidance (wording_of (order_for sample_seller None db' t')) = Some You_declined
        \<and> orderGuidance (wording_of (order_for (sample_seller\<lparr>v_userId := t_buyerId t'\<rparr>) None db' t')) = Some Seller_declined"
proof -
  define t where "t = the (find_order 30 ordered_db)"
  define l where "l = the (find_listing 20 ordered_db)"
  have f: "find_order 30 ordered_db = Some t" "find_listing (t_listingId t) ordered_db = Some l"
    "\<not> overdueAt 300 t" "\<forall>e \<in> set (orderEvents ordered_db). e_transactionId e = 30 \<longrightarrow> e_createdAt e \<le> 300"
    "case fst (updateTransaction 30 (an_action Reject) sample_seller 300 ordered_db) of
       Inl e \<Rightarrow> False | Inr t' \<Rightarrow> t_buyerId t' \<noteq> v_userId sample_seller"
    unfolding t_def l_def by code_simp+
  obtain t' db' where run: "updateTransaction 30 (an_action Reject) sample_seller 300 ordered_db = (Inr t', db')"
    using f(5) by (cases "updateTransaction 30 (an_action Reject) sample_seller 300 ordered_db") (auto split: sum.splits)
  have side: "ov_viewerSide (order_for r s d x) = (if t_buyerId x = v_userId r then Side_buyer else Side_seller)" for r s d x
    by (simp add: order_for_def Let_def)
  have "t_buyerId t' \<noteq> v_userId sample_seller" using f(5) run by simp
  moreover have "ut_action (an_action Reject) = Reject" by (simp add: an_action_def)
  moreover note said = the_order_page_says_what_was_done [OF ordered_db_ok f(1-4) run, unfolded Let_def, THEN conjunct1]
  ultimately show ?thesis
    using said [of sample_seller None] said [of "sample_seller\<lparr>v_userId := t_buyerId t'\<rparr>" None]
    by (simp add: run side)
qed

subsection \<open>Which passport a text means\<close>

text \<open>\<open>new URL(text).pathname\<close> and \<open>decodeURIComponent\<close>; \<open>None\<close> where they throw.\<close>

record link_env =
  le_pathname :: "string \<Rightarrow> string option"
  le_decode :: "string \<Rightarrow> string option"

definition is_uuid :: "string \<Rightarrow> bool" where
  "is_uuid s \<longleftrightarrow> length s = 36
     \<and> list_all (\<lambda>n. if n \<in> {8, 13, 18, 23} then s ! n = hyphen else is_hex (s ! n)) [0..<36]"

fun first_uuid :: "string \<Rightarrow> string option" where
  "first_uuid [] = None"
| "first_uuid (c # s) = (if is_uuid (take 36 (c # s)) then Some (take 36 (c # s)) else first_uuid s)"

fun after_passport :: "string list \<Rightarrow> string option" where
  "after_passport (a # b # rest) = (if a = ''passport'' then Some b else after_passport (b # rest))"
| "after_passport rest = None"

definition word_or_hyphen :: "char \<Rightarrow> bool" where
  "word_or_hyphen c \<longleftrightarrow> alnum c \<or> c = CHR ''_'' \<or> c = hyphen"

definition passportIdFrom :: "link_env \<Rightarrow> string \<Rightarrow> string option" where
  "passportIdFrom le input =
     (let text = trim input in
      if text = '''' then None
      else case Option.bind (le_pathname le text) (\<lambda>path.
          Option.bind (after_passport (filter (\<lambda>s. s \<noteq> '''') (split_slash path))) (le_decode le)) of
        Some i \<Rightarrow> Some i
      | None \<Rightarrow> (case first_uuid text of
          Some u \<Rightarrow> Some (toLowerCase u)
        | None \<Rightarrow> if list_all word_or_hyphen text then Some text else None))"

lemma split_at_slash: "split_slash (a @ CHR ''/'' # b) = split_slash a @ split_slash b"
proof (induction a)
  case (Cons c a)
  then show ?case using Cons by (auto split: list.splits)
qed simp

lemma after_passport_first:
  "''passport'' \<notin> set xs \<Longrightarrow> after_passport (xs @ [''passport'', u]) = Some u"
proof (induction xs)
  case (Cons x xs)
  then show ?case by (cases xs) auto
qed simp

lemma is_uuid_iff: "is_uuid u \<longleftrightarrow> length u = 36
    \<and> (\<forall>n < 36. if n \<in> {8, 13, 18, 23} then u ! n = hyphen else is_hex (u ! n))"
  unfolding is_uuid_def by (auto simp only: list_all_iff atLeastLessThan_upt [symmetric] atLeastLessThan_iff)

lemma uuid_chars: "is_uuid u \<Longrightarrow> c \<in> set u \<Longrightarrow> is_hex c \<or> c = hyphen"
  unfolding is_uuid_iff in_set_conv_nth by metis

lemma upper_char_code: "char_code (upper_char c) = (if 97 \<le> char_code c \<and> char_code c \<le> 122 then char_code c - 32 else char_code c)"
  by (auto simp: upper_char_def char_code_def intro!: mod_less)

lemma upper_hex: "is_hex c \<Longrightarrow> is_hex (upper_char c)" "c = hyphen \<Longrightarrow> upper_char c = hyphen"
  by (auto simp: is_hex_def Let_def upper_char_code) (simp_all add: hyphen_def upper_char_def char_code_def)

lemma uuid_upper: "is_uuid u \<Longrightarrow> is_uuid (toUpperCase u)"
  unfolding is_uuid_iff toUpperCase_def by (auto simp: upper_hex)

lemma lower_upper: "toLowerCase (toUpperCase s) = toLowerCase s"
proof -
  have "lower_char (upper_char c) = lower_char c" for c
    unfolding code_eq_iff [symmetric] lower_char_code upper_char_code by (simp; arith)
  then show ?thesis by (simp add: toLowerCase_def toUpperCase_def)
qed

lemma first_uuid_after:
  assumes "is_uuid u" and "list_all (\<lambda>c. \<not> is_hex c) words"
  shows "first_uuid (words @ u) = Some u"
  using assms(2)
proof (induction words)
  case Nil
  obtain c s where u: "u = c # s" using assms(1) by (cases u) (simp_all add: is_uuid_def)
  have "take 36 u = u" using assms(1) by (simp add: is_uuid_iff)
  then show ?case using assms(1) unfolding append_Nil u first_uuid.simps by simp
next
  case (Cons c words)
  then have "\<not> is_uuid (take 36 (c # words @ u))" unfolding is_uuid_iff by force
  then show ?case using Cons by simp
qed

text \<open>What a passport's code encodes leads back to it. However it is padded with spaces, the
  link that the API issued for a passport is read as that passport's id; so is the bare id, in
  small or capital letters, and the id behind any words that hold no hexadecimal letter.\<close>

theorem a_scanned_link_names_its_passport:
  assumes "is_uuid (idText env i)" and "toLowerCase (idText env i) = idText env i"
    and "le_pathname le (passportPublicUrl env i) = Some (base @ ''/passport/'' @ idText env i)"
    and "''passport'' \<notin> set (split_slash base)" and "le_decode le (idText env i) = Some (idText env i)"
  shows "(trim scanned = passportPublicUrl env i \<longrightarrow> passportIdFrom le scanned = Some (idText env i))
    \<and> (trim typed \<in> {idText env i, toUpperCase (idText env i), words @ idText env i}
        \<and> list_all (\<lambda>c. \<not> is_hex c) words \<and> le_pathname le (trim typed) = None
        \<longrightarrow> passportIdFrom le typed = Some (idText env i))"
proof -
  let ?u = "idText env i"
  have "\<not> is_hex CHR ''/''" "CHR ''/'' \<noteq> hyphen" by (simp_all add: is_hex_def hyphen_def char_code_def)
  then have u: "CHR ''/'' \<notin> set ?u" "?u \<noteq> ''''" "length ?u = 36"
    using uuid_chars [OF assms(1)] assms(1) by (auto simp: is_uuid_iff)
  have path: "split_slash (base @ ''/passport/'' @ ?u) = split_slash base @ [''passport'', ?u]"
    using split_at_slash [of base "''passport/'' @ ?u"] split_at_slash [of "''passport''" ?u]
      split_slash_single [OF u(1)] by simp
  have "after_passport (filter (\<lambda>s. s \<noteq> '''') (split_slash base) @ [''passport'', ?u]) = Some ?u"
    using assms(4) by (intro after_passport_first) simp
  then have link: "passportIdFrom le scanned = Some ?u" if "trim scanned = passportPublicUrl env i"
    using that assms(3,5) path u(2) by (simp add: passportIdFrom_def Let_def passportPublicUrl_def)
  have bare: "passportIdFrom le typed = Some (toLowerCase w)"
    if "trim typed = ws @ w" "is_uuid w" "list_all (\<lambda>c. \<not> is_hex c) ws" "le_pathname le (trim typed) = None" for ws w
    using that first_uuid_after [OF that(2,3)] by (auto simp: passportIdFrom_def Let_def is_uuid_def)
  have "passportIdFrom le typed = Some ?u"
    if "trim typed \<in> {?u, toUpperCase ?u, words @ ?u}" "list_all (\<lambda>c. \<not> is_hex c) words" "le_pathname le (trim typed) = None"
    using that bare [of "[]" ?u] bare [of "[]" "toUpperCase ?u"] bare [of words ?u] assms(1,2)
      uuid_upper [OF assms(1)] lower_upper [of ?u] by auto
  with link show ?thesis by blast
qed

definition a_uuid :: string where "a_uuid = ''0190aaaa-bbbb-7ccc-8ddd-eeeeffff0001''"

definition linked_env :: api_env where "linked_env = sample_env\<lparr>idText := (\<lambda>_. a_uuid)\<rparr>"

definition sample_links :: link_env where
  "sample_links = \<lparr>le_pathname = (\<lambda>s. if s = passportPublicUrl linked_env 10 then Some (''/passport/'' @ a_uuid) else None),
     le_decode = Some\<rparr>"

theorem a_scanned_link_names_its_passport_witness:
  "passportIdFrom sample_links ('' http://w/passport/0190aaaa-bbbb-7ccc-8ddd-eeeeffff0001'') = Some a_uuid
   \<and> passportIdFrom sample_links (''PIN 0190aaaa-bbbb-7ccc-8ddd-eeeeffff0001 '') = Some a_uuid"
proof -
  have id: "idText linked_env 10 = a_uuid" by (simp add: linked_env_def)
  have u: "is_uuid (idText linked_env 10)" "toLowerCase (idText linked_env 10) = idText linked_env 10"
    unfolding id by code_simp+
  have path: "le_pathname sample_links (passportPublicUrl linked_env 10) = Some ('''' @ ''/passport/'' @ idText linked_env 10)"
    "''passport'' \<notin> set (split_slash '''')" "le_decode sample_links (idText linked_env 10) = Some (idText linked_env 10)"
    by (simp_all add: sample_links_def id)
  have texts: "trim '' http://w/passport/0190aaaa-bbbb-7ccc-8ddd-eeeeffff0001'' = passportPublicUrl linked_env 10"
    "trim ''PIN 0190aaaa-bbbb-7ccc-8ddd-eeeeffff0001 '' = ''PIN '' @ idText linked_env 10"
    "list_all (\<lambda>c. \<not> is_hex c) ''PIN ''"
    "le_pathname sample_links (trim ''PIN 0190aaaa-bbbb-7ccc-8ddd-eeeeffff0001 '') = None"
    by code_simp+
  show ?thesis
    using a_scanned_link_names_its_passport [OF u path, of "'' http://w/passport/0190aaaa-bbbb-7ccc-8ddd-eeeeffff0001''"
        "''PIN 0190aaaa-bbbb-7ccc-8ddd-eeeeffff0001 ''" "''PIN ''"] texts id by simp
qed

end
