(* ===== verification/Spec2Isabelle.thy ===== *)
theory Spec2Isabelle
  imports Marketplace_Races Request_Guards Passport_Rules Platform_Runs
    Anchoring Web_Session Database_Repairs Chain_Registry Web_Trading Web_Materials Web_Wording
begin

text \<open>
  TRACE: a marketplace for reclaimed construction materials. Every material has a passport
  whose fingerprint is put on a chain; hubs list their materials in lots; buyers order from
  the lots; inspectors grade materials. The development models the logic of the API
  (packages/api), the shared schemas (packages/core), the database package (packages/db: its
  tables, the fingerprint, the object store, the invariant checker, the maintenance of the demo
  and the repairs), the registry contract (packages/contracts) and the web client's session,
  forms and rules (packages/web).

  The state. The tables of packages/db/drizzle/schema.ts are lists of records in one record,
  \<open>trace_db\<close> (Core\_Types): organisations, users, access requests, passports with their
  events, listings, orders with their events, quality reports, the ledger of stored files
  and the queue of anchor jobs. A file store (Object\_Store) is a map from bucket and key to
  bytes. A handler is a function from the request, the clock and the state to an error or an
  answer, and the new state; a handler that runs in one database transaction returns its
  state only with an answer, so a refusal leaves the tables alone. Errors are values of
  \<open>trace_error\<close> (packages/core/src/errors.ts), with reasons in place of messages.

  The theories.
    Trace\_Prelude: tables as lists with unique keys (the locale \<open>row_table\<close>), runs of guarded
      systems (\<open>guarded_system\<close>), lemmas on options, sums and lists.
    Text\_Functions: the string operations of the code on ASCII; strings are lists of bytes.
    Core\_Types, Sample\_Data, Sample\_Market: vocabulary, rows, errors; a small platform the
      witnesses run on.
    Marketplace\_Lots, Marketplace\_Orders: modules/marketplace/marketplace.service.ts, writes:
      creating, editing, cancelling and settling lots; offers, the order state machine, time
      limits and the lifecycle sweep.
    Invariant\_Checker: packages/db/scripts/lib/invariants.ts, the repository's own checker.
    Marketplace\_Safety, Marketplace\_Operations: \<open>market_ok\<close>, the inductive invariant of the
      marketplace, and that every operation keeps it; what each operation does on each branch.
    Marketplace\_Checked, Marketplace\_Properties: what users and the checker get from it.
    Marketplace\_Races: places where two requests, or one edit, break what the checker asks.
    Marketplace\_Reads: the reads of the same service: search and pages, facets, statistics, lot
      and order pages, order lists, the counts on the menu, the admin's list of problems.
    Sign\_In: modules/auth and middleware/auth.ts, tenant.ts: registration, passwords with
      backoff, session tokens and role guards.
    Request\_Guards: the guards of every route, the audit target of a request, the answers to
      errors, and the web client's copies of the role rules.
    Access\_Requests: modules/access-request with lib/wallet.ts: asking for a role, approval
      with the organisation, its slug and its custodial wallet, rejection and later edits.
    Passport\_Hash, Object\_Store: packages/db/src/passport-hash.ts and object-store.ts.
    Passports, Passport\_Rules, Passport\_Reads: modules/passport/passport.service.ts with
      lib/anchor.ts, lib/passport-identifiers.ts and lib/storage.ts.
    Sql\_Like, Quality\_Reports: SQL's LIKE; modules/quality/quality.service.ts.
    Platform\_Runs: all the requests above as one guarded system on one state.
    Anchoring: workers/anchor-passport.worker.ts with lib/anchor-decision.ts and the chain log of
      lib/audit.ts.
    Material\_Registry: contracts/MaterialRegistry.sol on machine words: its storage as a record,
      each function with its \<open>require\<close>s as a value of an outcome.
    Chain\_Adapter: lib/chain: ids, gas payers, submission, the calls and reads of the registry,
      the wait for a receipt; the block explorer's routes and the readiness of health.routes.ts.
    Chain\_Registry: the worker, the adapter and the contract together, on one chain.
    Catalogue\_Data, Catalogue\_Lots, Catalogue\_Corrections: packages/db/scripts/lib: the demo's
      seven products and the policies that choose lots, spares and corrections.
    Demo\_Trim, Demo\_Spares, Demo\_Top\_Up, Demo\_Correct, Database\_Repairs: the scripts that
      apply them (demo-trim-active.ts, demo-retire-spares.ts, demo-replenish.ts,
      demo-correct-catalogue.ts) and that rehash passports or reset the marketplace.
    Web\_Session: the web client's lib/session.tsx as a machine of answers, timers and clicks.
    Web\_Trading: lib/order-quantity.ts and the form that edits a lot.
    Web\_Materials: lib/register-wizard.ts with its component, and the page that edits a passport.
    Web\_Wording: what pages say of a grade (lib/inspection.ts), an order (lib/orders.ts) and a
      scanned text (lib/passport-link.ts).

  What the lemmas show. \<open>platform_ok\<close> joins the invariants: stock equals the lot less what
  live orders took; listing, passport and order statuses agree; keys are unique; every stored
  fingerprint is that of its passport; accounts and requests are well formed. It holds after
  every run of requests (Platform\_Runs), so the repository's checker reports nothing but a
  minimum order above its lot, no order ever goes back, and requests answer with the API's
  own errors. The other properties say what each operation does (an offer, an action, an
  edit, a registration, a report, an approval, an anchor job), who may do it, what outsiders
  see, and where the code falls short of what it intends (Marketplace\_Races, Anchoring,
  Sign\_In, Passports, Demo\_Trim, Web\_Session, Chain\_Adapter, Chain\_Registry, Web\_Trading,
  Web\_Materials).

  The chain: the contract's two indexes agree after every run of calls (\<open>registry_ok\<close>), a
  submission is sent once and paid as configured, and from what the adapter reads the worker
  picks the call that the contract takes, after which the chain confirms the fingerprint. The
  scripts keep \<open>market_ok\<close> and the fingerprints, change no order, and a second run of a top-up
  or correction writes nothing. The session provider refines an abstract machine that knows
  only the newest answer. The web's own rules agree with the API's: the order form finds the
  problems \<open>makeOffer\<close> finds, the lot form sends nothing the API refuses for stock, minimum or
  date, the wizard's form meets the API's limits but for two, a page's words about a grade or
  an order are what the API did.

  Interfaces. Tables are used through \<open>row_table\<close> (find, insert, update by key and their
  laws), interpreted for every table; runs through \<open>guarded_system\<close>, interpreted for the
  platform's requests, uploads, the registry contract and the sellers' actions on a graded
  material; statuses through \<open>ranked_lifecycle\<close>, interpreted for orders.

  Bounds and fuel. Custodial wallets: \<open>ensureOrganisationWallet\<close> has fuel 2, and one attempt
  is enough unless a stored key is the empty text, which no code writes (\<open>ensure_returns\<close>).
  The slug search and the wait for a receipt are \<open>partial_function (option)\<close> shown to return,
  the wait when its polls answer. The contract's counter and times are words. Sweeps take 500 orders,
  500 lots, 200 anchored passports, 50 jobs at a time, as the code does; the properties that
  need a sweep to reach everything say so. Four-byte columns are bounds on \<open>int\<close>; prices times
  quantities are exact integers, as the code keeps them below \<open>MAX_AMOUNT_PENCE\<close>.

  Decisions. One clock reading stands for the several a handler makes. New row ids are
  arguments, fresh where a property needs it; ids of event rows are left out. Letter case is
  ASCII's. Sorting is stable where SQL leaves ties open. What the code calls and the
  repository does not hold is a parameter: bcrypt, token signing, keccak-256, the wallet
  cipher, image decoding, the QR image, Postgres' numeric and jsonb text and its sum of
  doubles, the job queue, the VeChain node and SDK, the ABI encoding and the roles and pausing
  of OpenZeppelin's contracts, and in the web client the URL parser, the reading of numbers and
  the calendar of the UK.

  Not modelled: pure presentation (the rendering of React components, labels, formats and CSS),
  HTTP plumbing (parsing, streaming, fetch calls), logging, the generated ABI and bytecode of
  the registry, the contracts that the program does not call (CircularMarketplace.sol,
  QualityAssurance.sol), mail-like side effects, and the scripts that seed, restore or measure a
  database: they are input and output around the code above, fixed data, or calls into
  libraries.
\<close>

end
